(* ===== verification/Axiom_Prelude.thy ===== *)
theory Axiom_Prelude
  imports Main "HOL-Library.Word" "HOL-Library.Monad_Syntax"
begin

text \<open>
  Shared vocabulary of the development: the machine integers of the C sources, C arrays as
  lists with checked accesses, C loops as recursion in the option monad, and the rules by
  which the component theories reason about them.

  A C computation is a value of type \<open>'a option\<close>: \<open>Some r\<close> is a run that ends with
  result \<open>r\<close>; \<open>None\<close> is a run without a defined result, that is an array access or
  a shift outside its bounds (undefined behaviour), a failed \<open>assert\<close>, or a loop that
  never ends. A theorem that concludes \<open>\<dots> = Some \<dots>\<close> therefore states memory safety
  and termination together with the result.
\<close>

unbundle bit_operations_syntax

section \<open>Machine integers\<close>

type_synonym u8 = "8 word"
type_synonym u16 = "16 word"
type_synonym u32 = "32 word"
type_synonym u64 = "64 word"

named_theorems c_array \<open>evaluation of in-range array accesses\<close>
named_theorems c_loop \<open>unfolding of loops\<close>

text \<open>The C expression \<open>(uint8_t)(1 << n)\<close>: the shift is done on a 32-bit \<open>int\<close>, so it is
  undefined from 31 on, and the conversion keeps the low eight bits.\<close>

definition shl1_u8 :: "nat \<Rightarrow> u8 option" where
  "shl1_u8 n = (if n < 31 then Some (push_bit n 1) else None)"

text \<open>The C expression \<open>1 << n\<close> as an \<open>unsigned int\<close>.\<close>

definition shl1_u32 :: "nat \<Rightarrow> u32 option" where
  "shl1_u32 n = (if n < 32 then Some (push_bit n 1) else None)"

lemma shl1_u8_Some [simp]: "n < 31 \<Longrightarrow> shl1_u8 n = Some (push_bit n 1)"
  by (simp add: shl1_u8_def)

lemma shl1_u32_Some [simp]: "n < 32 \<Longrightarrow> shl1_u32 n = Some (push_bit n 1)"
  by (simp add: shl1_u32_def)

text \<open>The library's normal form of \<open>push_bit n 1\<close> is \<open>2 ^ n\<close>.\<close>

lemma bit_exp_word [simp]:
  "bit (2 ^ n :: 'a::len word) k \<longleftrightarrow> k = n \<and> n < LENGTH('a)"
  by (auto simp: bit_exp_iff)

lemma exp_word_nonzero: "n < LENGTH('a) \<Longrightarrow> (2 ^ n :: 'a::len word) \<noteq> 0"
  by (simp add: exp_eq_zero_iff)

lemma unat_of_nat_u8 [simp]: "n < 256 \<Longrightarrow> unat (of_nat n :: u8) = n"
  by (simp add: unat_of_nat)

lemma unat_u8_less [simp]: "unat (x :: u8) < 256"
  using unsigned_less [of x] by simp

lemma of_nat_eq_u8_iff: "n < 256 \<Longrightarrow> (of_nat n = (x :: u8)) = (n = unat x)"
  by (metis of_nat_unat ucast_id unat_of_nat_u8)

lemma unat_inc_u8: "unat x < 255 \<Longrightarrow> unat ((x :: u8) + 1) = Suc (unat x)"
  by (simp add: unat_word_ariths)

section \<open>Arrays\<close>

definition aget :: "'a list \<Rightarrow> nat \<Rightarrow> 'a option" where
  "aget xs i = (if i < length xs then Some (xs ! i) else None)"

definition aset :: "'a list \<Rightarrow> nat \<Rightarrow> 'a \<Rightarrow> 'a list option" where
  "aset xs i v = (if i < length xs then Some (xs[i := v]) else None)"

definition aget2 :: "'a list list \<Rightarrow> nat \<Rightarrow> nat \<Rightarrow> 'a option" where
  "aget2 t i j = do { r \<leftarrow> aget t i; aget r j }"

definition aset2 :: "'a list list \<Rightarrow> nat \<Rightarrow> nat \<Rightarrow> 'a \<Rightarrow> 'a list list option" where
  "aset2 t i j v = do { r \<leftarrow> aget t i; r' \<leftarrow> aset r j v; aset t i r' }"

lemma aget_Some [simp, c_array]: "i < length xs \<Longrightarrow> aget xs i = Some (xs ! i)"
  by (simp add: aget_def)

lemma aset_Some [simp, c_array]: "i < length xs \<Longrightarrow> aset xs i v = Some (xs[i := v])"
  by (simp add: aset_def)

lemma aget_eq_Some_iff: "aget xs i = Some v \<longleftrightarrow> i < length xs \<and> xs ! i = v"
  by (simp add: aget_def)

lemma aset_eq_Some_iff: "aset xs i v = Some ys \<longleftrightarrow> i < length xs \<and> ys = xs[i := v]"
  by (auto simp: aset_def)

lemma aget_None_iff: "aget xs i = None \<longleftrightarrow> length xs \<le> i"
  by (simp add: aget_def not_less)

lemma aset_None_iff: "aset xs i v = None \<longleftrightarrow> length xs \<le> i"
  by (simp add: aset_def not_less)

lemma aget2_Some [simp, c_array]:
  "i < length t \<Longrightarrow> j < length (t ! i) \<Longrightarrow> aget2 t i j = Some (t ! i ! j)"
  by (simp add: aget2_def)

lemma aset2_Some [simp, c_array]:
  "i < length t \<Longrightarrow> j < length (t ! i) \<Longrightarrow> aset2 t i j v = Some (t[i := (t ! i)[j := v]])"
  by (simp add: aset2_def)

text \<open>A two-dimensional array of \<open>n\<close> rows of \<open>w\<close> columns, as the C declarations fix it.\<close>

definition is_table :: "nat \<Rightarrow> nat \<Rightarrow> 'a list list \<Rightarrow> bool" where
  "is_table n w t \<longleftrightarrow> length t = n \<and> (\<forall>r\<in>set t. length r = w)"

lemma is_tableD:
  assumes "is_table n w t"
  shows "length t = n" and "\<And>i. i < n \<Longrightarrow> length (t ! i) = w"
  using assms by (auto simp: is_table_def)

lemma is_table_update [intro]:
  assumes "is_table n w t" and "length r = w"
  shows "is_table n w (t[i := r])"
  using assms by (auto simp: is_table_def dest!: set_update_subset_insert [THEN subsetD])

lemma is_table_replicate [simp]: "is_table n w (replicate n (replicate w x))"
  by (auto simp: is_table_def)

lemma aset2_is_table:
  "is_table n w t \<Longrightarrow> aset2 t i j v = Some t' \<Longrightarrow> is_table n w t'"
  by (auto simp: aset2_def aget_eq_Some_iff aset_eq_Some_iff bind_eq_Some_conv
      is_table_def dest!: set_update_subset_insert [THEN subsetD])

section \<open>Loops\<close>

text \<open>A \<open>for\<close> loop whose body always falls through or executes \<open>continue\<close>.\<close>

primrec for_each :: "('a \<Rightarrow> 's \<Rightarrow> 's option) \<Rightarrow> 'a list \<Rightarrow> 's \<Rightarrow> 's option" where
  "for_each f [] s = Some s"
| "for_each f (x # xs) s = do { s' \<leftarrow> f x s; for_each f xs s' }"

text \<open>How a loop body ends: fall through or \<open>continue\<close>, or \<open>break\<close> (also used for a
  \<open>return\<close> whose value is kept in the loop's state).\<close>

datatype ctl = Next | Break

primrec for_ctl :: "('a \<Rightarrow> 's \<Rightarrow> (ctl \<times> 's) option) \<Rightarrow> 'a list \<Rightarrow> 's \<Rightarrow> 's option" where
  "for_ctl f [] s = Some s"
| "for_ctl f (x # xs) s =
     do { (k, s') \<leftarrow> f x s; if k = Break then Some s' else for_ctl f xs s' }"

text \<open>A \<open>while\<close> loop with \<open>continue\<close> and \<open>break\<close>; \<open>None\<close> when it never ends.\<close>

partial_function (option) while_ctl ::
  "('s \<Rightarrow> bool) \<Rightarrow> ('s \<Rightarrow> (ctl \<times> 's) option) \<Rightarrow> 's \<Rightarrow> 's option" where
  "while_ctl b c s =
     (if b s
      then Option.bind (c s) (\<lambda>r. if fst r = Break then Some (snd r) else while_ctl b c (snd r))
      else Some s)"

declare while_ctl.simps [code]

lemma for_each_append:
  "for_each f (xs @ ys) s = do { s' \<leftarrow> for_each f xs s; for_each f ys s' }"
  by (induction xs arbitrary: s) simp_all

lemma for_each_last_None: "(\<And>s. f x s = None) \<Longrightarrow> for_each f (xs @ [x]) s = None"
  by (induction xs arbitrary: s) (auto split: bind_splits)

text \<open>The invariant rule for counted loops: the invariant is indexed by the number of
  elements already handled.\<close>

lemma for_each_rule:
  assumes "I 0 s"
    and "\<And>k s. k < length xs \<Longrightarrow> I k s \<Longrightarrow> \<exists>s'. f (xs ! k) s = Some s' \<and> I (Suc k) s'"
  shows "\<exists>s'. for_each f xs s = Some s' \<and> I (length xs) s'"
  using assms
proof (induction xs arbitrary: I s)
  case Nil
  then show ?case by simp
next
  case (Cons x xs)
  from Cons.prems(2) [of 0 s] Cons.prems(1)
  obtain s1 where s1: "f x s = Some s1" "I (Suc 0) s1" by auto
  have "\<exists>s'. for_each f xs s1 = Some s' \<and> I (Suc (length xs)) s'"
  proof (rule Cons.IH [where I = "\<lambda>k. I (Suc k)"])
    show "I (Suc 0) s1" by (rule s1(2))
    show "\<exists>s'. f (xs ! k) s = Some s' \<and> I (Suc (Suc k)) s'"
      if "k < length xs" "I (Suc k) s" for k s
      using Cons.prems(2) [of "Suc k" s] that by simp
  qed
  with s1 show ?case by simp
qed

text \<open>The same with an invariant that does not depend on the position.\<close>

lemma for_each_inv:
  assumes "P s" and "\<And>x s. x \<in> set xs \<Longrightarrow> P s \<Longrightarrow> \<exists>s'. f x s = Some s' \<and> P s'"
  shows "\<exists>s'. for_each f xs s = Some s' \<and> P s'"
  using assms for_each_rule [where I = "\<lambda>_. P" and f = f and xs = xs and s = s]
  by (metis nth_mem)

lemma for_each_preserves:
  assumes "for_each f xs s = Some s'" and "P s"
    and "\<And>x s s'. x \<in> set xs \<Longrightarrow> P s \<Longrightarrow> f x s = Some s' \<Longrightarrow> P s'"
  shows "P s'"
  using assms by (induction xs arbitrary: s) (auto simp: bind_eq_Some_conv)

lemma for_ctl_preserves:
  assumes "for_ctl f xs s = Some s'" and "P s"
    and "\<And>x s k s'. x \<in> set xs \<Longrightarrow> P s \<Longrightarrow> f x s = Some (k, s') \<Longrightarrow> P s'"
  shows "P s'"
  using assms
proof (induction xs arbitrary: s)
  case Nil
  then show ?case by simp
next
  case (Cons x xs)
  from Cons.prems(1) obtain k s1 where s1: "f x s = Some (k, s1)"
    and rest: "(if k = Break then Some s1 else for_ctl f xs s1) = Some s'"
    by (auto simp: bind_eq_Some_conv)
  have "P s1" using Cons.prems(3) [OF _ Cons.prems(2) s1] by simp
  with rest show ?case
    using Cons.IH [of s1] Cons.prems(3) by (auto split: if_splits)
qed

lemma for_ctl_total:
  assumes "P s"
    and "\<And>x s. x \<in> set xs \<Longrightarrow> P s \<Longrightarrow> \<exists>k s'. f x s = Some (k, s') \<and> P s'"
  shows "\<exists>s'. for_ctl f xs s = Some s' \<and> P s'"
  using assms
proof (induction xs arbitrary: s)
  case Nil
  then show ?case by simp
next
  case (Cons x xs)
  then obtain k s1 where "f x s = Some (k, s1)" "P s1" by (meson list.set_intros(1))
  moreover from \<open>P s1\<close> have "\<exists>s'. for_ctl f xs s1 = Some s' \<and> P s'"
    using Cons by (intro Cons.IH) auto
  ultimately show ?case by auto
qed

text \<open>The contract of a service that handles events one after the other: an event of the right form is handled without undefined behaviour, keeps the invariant,
  and leaves a part of the state alone. It then holds for every sequence of events.\<close>

locale event_service =
  fixes handle :: "'e \<Rightarrow> 's \<Rightarrow> (ctl \<times> 's) option"
    and good :: "'e \<Rightarrow> bool"
    and inv :: "'s \<Rightarrow> bool"
    and frame :: "'s \<Rightarrow> 'f"
  assumes handles: "good e \<Longrightarrow> inv s \<Longrightarrow> \<exists>k s'. handle e s = Some (k, s') \<and> inv s' \<and> frame s' = frame s"
begin

lemma serves: "\<forall>e\<in>set es. good e \<Longrightarrow> inv s \<Longrightarrow> \<exists>s'. for_ctl handle es s = Some s' \<and> inv s' \<and> frame s' = frame s"
  by (rule for_ctl_total) (use handles in fastforce)+

end

text \<open>Total correctness of a \<open>while\<close> loop: under the invariant the body always ends, and each
  iteration that goes on makes the measure smaller.\<close>

lemma while_ctl_total:
  assumes "P s"
    and "\<And>s. P s \<Longrightarrow> b s \<Longrightarrow>
      (\<exists>s'. c s = Some (Break, s') \<and> Q s') \<or> (\<exists>s'. c s = Some (Next, s') \<and> P s' \<and> m s' < (m s :: nat))"
    and "\<And>s. P s \<Longrightarrow> \<not> b s \<Longrightarrow> Q s"
  shows "\<exists>s'. while_ctl b c s = Some s' \<and> Q s'"
  using assms(1)
proof (induction "m s" arbitrary: s rule: less_induct)
  case less
  show ?case
  proof (cases "b s")
    case False
    with less.prems assms(3) show ?thesis by (auto simp: while_ctl.simps [of b c s])
  next
    case True
    from assms(2) [OF less.prems True] less.hyps show ?thesis
      by (auto simp: while_ctl.simps [of b c s] True)
  qed
qed

text \<open>Partial correctness: what the invariant gives when the loop ends.\<close>

lemma while_ctl_partial:
  assumes ret: "while_ctl b c s = Some r" and "P s"
    and step: "\<And>s k s'. P s \<Longrightarrow> b s \<Longrightarrow> c s = Some (k, s') \<Longrightarrow> if k = Break then Q s' else P s'"
    and stop: "\<And>s. P s \<Longrightarrow> \<not> b s \<Longrightarrow> Q s"
  shows "Q r"
proof -
  have "b = b \<longrightarrow> c = c \<longrightarrow> P s \<longrightarrow> Q r"
  proof (rule while_ctl.raw_induct [where P = "\<lambda>b' c' s r. b' = b \<longrightarrow> c' = c \<longrightarrow> P s \<longrightarrow> Q r",
        OF _ ret], intro impI)
    fix w b' c' s r
    assume IH: "\<And>b' c' s r. w b' c' s = Some r \<Longrightarrow> b' = b \<longrightarrow> c' = c \<longrightarrow> P s \<longrightarrow> Q r"
      and eq: "(if b' s then Option.bind (c' s)
          (\<lambda>r. if fst r = Break then Some (snd r) else w b' c' (snd r)) else Some s) = Some r"
      and bc: "b' = b" "c' = c" "P s"
    show "Q r"
    proof (cases "b s")
      case False
      with eq bc stop show ?thesis by simp
    next
      case True
      with eq bc obtain k s' where c: "c s = Some (k, s')"
        and r: "(if k = Break then Some s' else w b c s') = Some r"
        by (cases "c s") (auto simp: bind_eq_Some_conv cong: if_cong)
      from step [OF bc(3) True c] r IH [of b c s' r] show ?thesis
        by (auto split: if_splits)
    qed
  qed
  with assms(2) show ?thesis by simp
qed

lemma while_ctl_stop [simp]: "\<not> b s \<Longrightarrow> while_ctl b c s = Some s"
  by (simp add: while_ctl.simps)

lemma while_ctl_Next: "b s \<Longrightarrow> c s = Some (Next, s') \<Longrightarrow> while_ctl b c s = while_ctl b c s'"
  by (simp add: while_ctl.simps [of b c s])

lemma while_ctl_Break: "b s \<Longrightarrow> c s = Some (Break, s') \<Longrightarrow> while_ctl b c s = Some s'"
  by (simp add: while_ctl.simps [of b c s])

lemma loop_Next: "c s = Some (Next, s') \<Longrightarrow> while_ctl (\<lambda>_. True) c s = while_ctl (\<lambda>_. True) c s'"
  by (rule while_ctl_Next) simp_all

lemma loop_Break: "c s = Some (Break, s') \<Longrightarrow> while_ctl (\<lambda>_. True) c s = Some s'"
  by (rule while_ctl_Break) simp_all

lemmas while_ctl_steps = while_ctl_stop while_ctl_Next while_ctl_Break

section \<open>Lists\<close>

lemma takeWhile_shorter: "x \<in> set xs \<Longrightarrow> \<not> P x \<Longrightarrow> length (takeWhile P xs) < length xs"
  by (induction xs) auto

section \<open>Sets\<close>

text \<open>Bounded quantifiers over intervals, for the evaluation of concrete instances.\<close>

named_theorems range_eval \<open>evaluation of quantifiers over intervals\<close>

lemma range_eval_less [range_eval]: "(\<forall>a\<in>{m..<l}. P a) \<longleftrightarrow> list_all P [m..<l]"
  by (auto simp: list_all_iff)

lemma range_eval_le [range_eval]: "(\<forall>a\<in>{m..l}. P a) \<longleftrightarrow> list_all P [m..<Suc l]"
  by (auto simp: list_all_iff)

lemma range_eval_ex [range_eval]: "(\<exists>a\<in>{m..l}. P a) \<longleftrightarrow> list_ex P [m..<Suc l]"
  by (auto simp: list_ex_iff)

lemma range_eval_upt [range_eval]:
  "[i..<numeral n] = (if i < numeral n then i # [Suc i..<numeral n] else [])"
  by (simp add: upt_conv_Cons)

lemma range_eval_bounded [range_eval]: "(\<forall>a<l. P a) \<longleftrightarrow> list_all P [0..<l]"
  by (auto simp: list_all_iff)

lemma card_Diff_chain:
  assumes "A \<subseteq> B" "B \<subseteq> C" "finite C"
  shows "card (C - A) = card (B - A) + card (C - B)"
proof -
  have "C - A = (B - A) \<union> (C - B)" using assms by auto
  moreover have "finite B" using assms(2,3) by (rule finite_subset)
  ultimately show ?thesis using assms(3) by (auto intro: card_Un_disjoint)
qed

end
