(* ===== verification/Nic_Api.thy ===== *)
theory Nic_Api
  imports Axiom_Prelude
begin

text \<open>
  The AXIOM NIC interface the sources call. Its implementation (the libraries behind
  \<open>axiom_nic_api_user.h\<close>, \<open>axiom_nic_discovery.h\<close>, \<open>axiom_nic_routing.h\<close>, \<dots>) is not
  part of the repository, so it is a parameter: the header constants are the record
  \<open>axiom_consts\<close>, the calls are the function fields of \<open>nic_api\<close>, which extends it, and
  every model function takes such a record as its first argument. The type \<open>'d\<close> is the state
  behind \<open>axiom_dev_t *dev\<close>.

  Types: \<open>axiom_node_id_t\<close> and \<open>axiom_if_id_t\<close> are 8-bit (they are read with \<open>SCNu8\<close>
  and passed where \<open>uint8_t *\<close> is expected); return codes are \<open>int\<close>. An output
  parameter is a result of the function; where the caller relies on its old value when the
  call fails, the old value is an argument too.
\<close>

section \<open>Message commands\<close>

text \<open>The command byte of the messages. Only equality tests are made on it; the codes that have
  no name in the sources (zero included, the initial value of the local variables) are
  \<open>CMD_OTHER\<close>.\<close>

datatype axiom_cmd =
    AXIOM_DSCV_CMD_REQ_ID | AXIOM_DSCV_CMD_RSP_NOID | AXIOM_DSCV_CMD_RSP_ID
  | AXIOM_DSCV_CMD_SETID | AXIOM_DSCV_CMD_START | AXIOM_DSCV_CMD_TOPOLOGY
  | AXIOM_DSCV_CMD_END_TOPOLOGY
  | AXIOM_RT_CMD_INFO | AXIOM_RT_CMD_END_INFO | AXIOM_RT_CMD_RT_REPLY | AXIOM_RT_CMD_SET_ROUTING
  | AXIOM_CMD_START_DISCOVERY | AXIOM_CMD_PING | AXIOM_CMD_PONG
  | AXIOM_CMD_TRACEROUTE | AXIOM_CMD_TRACEROUTE_REPLY
  | AXIOM_CMD_NETPERF_START | AXIOM_CMD_NETPERF | AXIOM_CMD_NETPERF_END
  | AXIOM_CMD_SPAWN_REQ | AXIOM_CMD_SESSION_REQ | AXIOM_CMD_SESSION_REPLY
  | AXIOM_CMD_ALLOC | AXIOM_CMD_ALLOC_REPLY | AXIOM_CMD_ALLOC_APPID
  | AXIOM_CMD_ALLOC_APPID_REPLY | AXIOM_CMD_ALLOC_RELEASE
  | CMD_OTHER u8

abbreviation cmd0 :: axiom_cmd where "cmd0 \<equiv> CMD_OTHER 0"

section \<open>Header constants and calls\<close>

type_synonym err = int

record axiom_consts =
  AXIOM_NODES_NUM :: nat
  AXIOM_INTERFACES_NUM :: nat
  AXIOM_INTERFACES_MAX :: nat
  AXIOM_NULL_NODE :: u8
  AXIOM_IF_CONNECTED :: u8
  AXIOM_IF_LOOPBACK :: u8
  AXIOM_INIT_MASTER_NODE :: u8
  AXIOM_RET_OK :: err
  AXIOM_RET_ERROR :: err
  AXIOM_RET_IS_OK :: "err \<Rightarrow> bool"

text \<open>What the sources rely on: a node id indexes the node tables, the null node is no index,
  the interfaces are numbered \<open>0 \<dots> AXIOM_INTERFACES_MAX\<close> and have a bit of an 8-bit mask
  each, and the two return codes are what the macro takes them for.\<close>

definition consts_ok :: "'a axiom_consts_scheme \<Rightarrow> bool" where
  "consts_ok c \<longleftrightarrow>
     AXIOM_NODES_NUM c \<le> unat (AXIOM_NULL_NODE c)
   \<and> AXIOM_INTERFACES_NUM c = Suc (AXIOM_INTERFACES_MAX c)
   \<and> AXIOM_INTERFACES_NUM c \<le> 8
   \<and> unat (AXIOM_IF_LOOPBACK c) < 8
   \<and> AXIOM_RET_IS_OK c (AXIOM_RET_OK c) \<and> \<not> AXIOM_RET_IS_OK c (AXIOM_RET_ERROR c)"

lemma consts_okD:
  assumes "consts_ok c"
  shows "AXIOM_NODES_NUM c \<le> unat (AXIOM_NULL_NODE c)"
    and "AXIOM_INTERFACES_NUM c = Suc (AXIOM_INTERFACES_MAX c)"
    and "AXIOM_INTERFACES_MAX c < 8"
    and "unat (AXIOM_IF_LOOPBACK c) < 8"
    and "AXIOM_RET_IS_OK c (AXIOM_RET_OK c)"
    and "\<not> AXIOM_RET_IS_OK c (AXIOM_RET_ERROR c)"
    and "AXIOM_NODES_NUM c < 256"
  using assms le_less_trans [OF _ unat_u8_less, of "AXIOM_NODES_NUM c" "AXIOM_NULL_NODE c"]
  by (auto simp: consts_ok_def)

text \<open>Payload of a discovery message (\<open>axiom_discovery_payload_t\<close>).\<close>

record dscv_msg =
  dm_command :: axiom_cmd
  dm_src_node :: u8
  dm_dst_node :: u8
  dm_src_if :: u8
  dm_dst_if :: u8

text \<open>Payload of a routing delivery message (\<open>axiom_routing_payload_t\<close>).\<close>

record rt_msg =
  rm_command :: axiom_cmd
  rm_node_id :: u8
  rm_if_mask :: u8

text \<open>A receive call blocks until a message arrives: \<open>None\<close> is a call that never returns.\<close>

record 'd nic_api = axiom_consts +
  axiom_get_node_id :: "'d \<Rightarrow> u8"
  axiom_set_node_id :: "'d \<Rightarrow> u8 \<Rightarrow> 'd"
  axiom_get_if_number :: "'d \<Rightarrow> u8 \<Rightarrow> err \<times> u8"
  axiom_get_if_info :: "'d \<Rightarrow> u8 \<Rightarrow> u8 \<Rightarrow> err \<times> u8"
  axiom_set_routing :: "'d \<Rightarrow> u8 \<Rightarrow> u8 \<Rightarrow> (err \<times> 'd) option"
  axiom_get_routing :: "'d \<Rightarrow> u8 \<Rightarrow> u8 \<Rightarrow> (err \<times> u8) option"
  axiom_send_raw_discovery :: "'d \<Rightarrow> u8 \<Rightarrow> dscv_msg \<Rightarrow> err \<times> 'd"
  axiom_recv_raw_discovery :: "'d \<Rightarrow> (err \<times> u8 \<times> dscv_msg \<times> 'd) option"
  axiom_send_raw_delivery :: "'d \<Rightarrow> u8 \<Rightarrow> rt_msg \<Rightarrow> err \<times> 'd"
  axiom_recv_raw_delivery :: "'d \<Rightarrow> (err \<times> u8 \<times> rt_msg \<times> 'd) option"
  axiom_send_raw_set_routing :: "'d \<Rightarrow> u8 \<Rightarrow> axiom_cmd \<Rightarrow> err \<times> 'd"
  axiom_recv_raw_set_routing :: "'d \<Rightarrow> (err \<times> u8 \<times> axiom_cmd \<times> 'd) option"

section \<open>The register contract\<close>

text \<open>What the clients rely on of the node-id register and of the routing registers: a write is
  read back, restricted to the interface bits the device has, and leaves the rest alone.
  \<open>rsize\<close> is the number of routing registers, \<open>dev_ok\<close> the states of a correctly opened
  device.\<close>

locale nic_regs =
  fixes get_id :: "'d \<Rightarrow> u8"
    and set_id :: "'d \<Rightarrow> u8 \<Rightarrow> 'd"
    and set_rt :: "'d \<Rightarrow> u8 \<Rightarrow> u8 \<Rightarrow> (err \<times> 'd) option"
    and get_rt :: "'d \<Rightarrow> u8 \<Rightarrow> u8 \<Rightarrow> (err \<times> u8) option"
    and hw_mask :: u8
    and rsize :: nat
    and dev_ok :: "'d \<Rightarrow> bool"
  assumes get_set_id: "get_id (set_id d n) = n"
    and set_id_ok: "dev_ok d \<Longrightarrow> dev_ok (set_id d n)"
    and set_id_rt: "get_rt (set_id d n) k v = get_rt d k v"
    and set_rt_total: "dev_ok d \<Longrightarrow> unat k < rsize \<Longrightarrow> \<exists>e d'. set_rt d k m = Some (e, d')"
    and get_rt_total: "dev_ok d \<Longrightarrow> unat k < rsize \<Longrightarrow> \<exists>e m. get_rt d k v = Some (e, m)"
    and set_rt_ok: "dev_ok d \<Longrightarrow> set_rt d k m = Some (e, d') \<Longrightarrow> dev_ok d'"
    and set_rt_id: "set_rt d k m = Some (e, d') \<Longrightarrow> get_id d' = get_id d"
    and get_set_rt: "dev_ok d \<Longrightarrow> unat k < rsize \<Longrightarrow> set_rt d k m = Some (e, d') \<Longrightarrow>
        \<exists>e'. get_rt d' k v = Some (e', m AND hw_mask)"
    and get_set_rt_other: "dev_ok d \<Longrightarrow> k \<noteq> j \<Longrightarrow> set_rt d k m = Some (e, d') \<Longrightarrow>
        get_rt d' j v = get_rt d j v"
begin

text \<open>The mask a register holds.\<close>

definition rt_of :: "'d \<Rightarrow> nat \<Rightarrow> u8" where
  "rt_of d k = (case get_rt d (of_nat k) 0 of Some (_, m) \<Rightarrow> m | None \<Rightarrow> 0)"

lemma rt_of_set:
  assumes "dev_ok d" "unat k < rsize" "rsize \<le> 256" "j < rsize" "set_rt d k m = Some (e, d')"
  shows "rt_of d' j = (if j = unat k then m AND hw_mask else rt_of d j)"
proof (cases "j = unat k")
  case True
  with get_set_rt [OF assms(1,2,5), of 0] show ?thesis by (auto simp: rt_of_def)
next
  case False
  with assms(3,4) have "k \<noteq> of_nat j" by auto
  from get_set_rt_other [OF assms(1) this assms(5)] False show ?thesis
    by (simp add: rt_of_def)
qed

text \<open>A loop that writes register \<open>i\<close> with \<open>f i\<close> for \<open>i = 0 \<dots> n - 1\<close>.\<close>

lemma write_all:
  fixes f :: "nat \<Rightarrow> u8"
  assumes "dev_ok d" "n \<le> rsize" "rsize \<le> 256"
  shows "\<exists>d'. for_each (\<lambda>i d. do { (_, d') \<leftarrow> set_rt d (of_nat i) (f i); Some d' }) [0..<n] d = Some d'
      \<and> dev_ok d' \<and> get_id d' = get_id d
      \<and> (\<forall>j<rsize. rt_of d' j = (if j < n then f j AND hw_mask else rt_of d j))"
proof -
  let ?I = "\<lambda>k d'. dev_ok d' \<and> get_id d' = get_id d
      \<and> (\<forall>j<rsize. rt_of d' j = (if j < k then f j AND hw_mask else rt_of d j))"
  have "\<exists>d'. for_each (\<lambda>i d. do { (_, d') \<leftarrow> set_rt d (of_nat i) (f i); Some d' }) [0..<n] d = Some d'
      \<and> ?I (length [0..<n]) d'"
  proof (rule for_each_rule [where I = ?I])
    fix k s
    assume k: "k < length [0..<n]" and I: "?I k s"
    then have u: "unat (of_nat k :: u8) = k" "k < rsize" using assms by auto
    with I set_rt_total [of s "of_nat k" "f k"] obtain e s' where
      s': "set_rt s (of_nat k) (f k) = Some (e, s')" by auto
    have "?I (Suc k) s'"
      using I set_rt_ok [OF _ s'] set_rt_id [OF s'] rt_of_set [OF _ _ assms(3) _ s'] u
      by (auto simp: less_Suc_eq)
    with s' k show "\<exists>s'. do { (_, d') \<leftarrow> set_rt s (of_nat ([0..<n] ! k)) (f ([0..<n] ! k)); Some d' }
        = Some s' \<and> ?I (Suc k) s'"
      by simp
  qed (use assms(1) in simp)
  then show ?thesis by simp
qed

text \<open>The same with the values in an array.\<close>

lemma write_array:
  assumes "dev_ok d" "length vs = n" "n \<le> rsize" "rsize \<le> 256"
  shows "\<exists>d'. for_each (\<lambda>i d. do { v \<leftarrow> aget vs i; (_, d') \<leftarrow> set_rt d (of_nat i) v; Some d' })
        [0..<n] d = Some d'
      \<and> dev_ok d' \<and> get_id d' = get_id d
      \<and> (\<forall>j<rsize. rt_of d' j = (if j < n then vs ! j AND hw_mask else rt_of d j))"
proof -
  have "for_each (\<lambda>i d. do { v \<leftarrow> aget vs i; (_, d') \<leftarrow> set_rt d (of_nat i) v; Some d' }) xs d =
      for_each (\<lambda>i d. do { (_, d') \<leftarrow> set_rt d (of_nat i) (vs ! i); Some d' }) xs d"
    if "\<forall>x\<in>set xs. x < n" for xs d
    using that assms(2) by (induction xs arbitrary: d) auto
  from this [of "[0..<n]" d] write_all [OF assms(1,3,4), of "\<lambda>i. vs ! i"] show ?thesis by auto
qed

text \<open>An 8-bit counting loop that writes the registers \<open>start \<dots> stop\<close> with one value.\<close>

lemma write_range:
  assumes "dev_ok d" "unat stop < rsize" "rsize \<le> 255"
  shows "\<exists>k d'. while_ctl (\<lambda>(k, _). k \<le> stop)
        (\<lambda>(k, d). do { (_, d) \<leftarrow> set_rt d k v; Some (Next, k + 1, d) }) (start, d) = Some (k, d')
      \<and> dev_ok d' \<and> get_id d' = get_id d
      \<and> (\<forall>j<rsize. rt_of d' j = (if unat start \<le> j \<and> j \<le> unat stop then v AND hw_mask else rt_of d j))"
proof -
  let ?P = "\<lambda>(k, d'). dev_ok d' \<and> get_id d' = get_id d \<and> start \<le> k
      \<and> (\<forall>j<rsize. rt_of d' j = (if unat start \<le> j \<and> j < unat k \<and> j \<le> unat stop then v AND hw_mask else rt_of d j))"
  let ?Q = "\<lambda>(k, d'). dev_ok d' \<and> get_id d' = get_id d
      \<and> (\<forall>j<rsize. rt_of d' j = (if unat start \<le> j \<and> j \<le> unat stop then v AND hw_mask else rt_of d j))"
  have "\<exists>s'. while_ctl (\<lambda>(k, _). k \<le> stop)
        (\<lambda>(k, d). do { (_, d) \<leftarrow> set_rt d k v; Some (Next, k + 1, d) }) (start, d) = Some s' \<and> ?Q s'"
  proof (rule while_ctl_total [where P = ?P and m = "\<lambda>(k, _). Suc (unat stop) - unat k"])
    show "?P (start, d)" using assms(1) by auto
  next
    fix s
    assume P: "?P s" and g: "case s of (k, _) \<Rightarrow> k \<le> stop"
    obtain k d1 where s: "s = (k, d1)" by (cases s)
    have k: "unat k \<le> unat stop" using g s by (simp add: word_le_nat_alt)
    then have k1: "unat (k + 1) = Suc (unat k)" using assms(2,3) by (intro unat_inc_u8) linarith
    from set_rt_total [of d1 k v] P s k assms(2) obtain e d2 where
      d2: "set_rt d1 k v = Some (e, d2)" by auto
    have "?P (k + 1, d2)"
      using P s k k1 d2 assms(2,3) set_rt_ok [OF _ d2] set_rt_id [OF d2] rt_of_set [OF _ _ _ _ d2]
      by (auto simp: word_le_nat_alt less_Suc_eq)
    with s k k1 d2 show "(\<exists>s'. (case s of (k, d) \<Rightarrow> do { (_, d) \<leftarrow> set_rt d k v; Some (Next, k + 1, d) })
          = Some (Break, s') \<and> ?Q s')
      \<or> (\<exists>s'. (case s of (k, d) \<Rightarrow> do { (_, d) \<leftarrow> set_rt d k v; Some (Next, k + 1, d) }) = Some (Next, s')
          \<and> ?P s' \<and> (case s' of (k, _) \<Rightarrow> Suc (unat stop) - unat k) < (case s of (k, _) \<Rightarrow> Suc (unat stop) - unat k))"
      by auto
  next
    fix s
    assume "?P s" "\<not> (case s of (k, _) \<Rightarrow> k \<le> stop)"
    then show "?Q s" by (auto simp: word_le_nat_alt)
  qed
  then show ?thesis by auto
qed

end

section \<open>The message contract\<close>

text \<open>A lossless sender: every send succeeds and appends to the log \<open>sent\<close> of the device.\<close>

definition lossless ::
  "(err \<Rightarrow> bool) \<Rightarrow> ('d \<Rightarrow> 'a \<Rightarrow> 'b \<Rightarrow> err \<times> 'd) \<Rightarrow> ('d \<Rightarrow> ('a \<times> 'b) list) \<Rightarrow> bool" where
  "lossless is_ok send sent \<longleftrightarrow>
     (\<forall>d dst m. is_ok (fst (send d dst m)) \<and> sent (snd (send d dst m)) = sent d @ [(dst, m)])"

text \<open>A first-in first-out receiver: a receive takes the head of the queue \<open>inbox\<close>, and sending
  leaves the queue alone.\<close>

definition fifo ::
  "(err \<Rightarrow> bool) \<Rightarrow> ('d \<Rightarrow> (err \<times> 'a \<times> 'b \<times> 'd) option) \<Rightarrow> ('d \<Rightarrow> 'a \<Rightarrow> 'b \<Rightarrow> err \<times> 'd)
     \<Rightarrow> ('d \<Rightarrow> ('a \<times> 'b) list) \<Rightarrow> bool" where
  "fifo is_ok recv send inbox \<longleftrightarrow>
     (\<forall>d src m ms. inbox d = (src, m) # ms \<longrightarrow>
        (\<exists>e d'. recv d = Some (e, src, m, d') \<and> is_ok e \<and> inbox d' = ms))
   \<and> (\<forall>d dst m. inbox (snd (send d dst m)) = inbox d)"

lemma fifo_recv:
  assumes "fifo is_ok recv send inbox" "inbox d = (src, m) # ms"
  obtains e d' where "recv d = Some (e, src, m, d')" "is_ok e" "inbox d' = ms"
  using assms unfolding fifo_def by blast

lemma fifo_send:
  assumes "fifo is_ok recv send inbox" "send d dst m = (e, d')"
  shows "inbox d' = inbox d"
  using assms unfolding fifo_def by (metis snd_conv)

lemma lossless_send:
  assumes "lossless is_ok send sent"
  obtains e d' where "send d dst m = (e, d')" "is_ok e" "sent d' = sent d @ [(dst, m)]"
  using assms unfolding lossless_def by (metis prod.collapse)

end
