(* ===== verification/Nic_Simulator.thy ===== *)
theory Nic_Simulator
  imports Nic_Api
begin

text \<open>
  The simulated NIC of the discovery tests
  (\<open>axiom-init/axiom-discovery/test/axiom_simulator/axiom_nic_simulator.c\<close>): the node and routing
  registers kept in \<open>axiom_sim_node_args_t\<close>. It is the only implementation of the register part of
  the NIC interface in the repository, and it is proved to satisfy the contract \<open>nic_regs\<close>.
\<close>

section \<open>State\<close>

text \<open>\<open>axiom_net_t\<close> of \<open>axiom_net_socketpair.c\<close>: a socket descriptor per interface, zero when the
  interface is not connected.\<close>

record axiom_net =
  node_if_fd :: "int list"
  num_of_ended_rt :: int
  send_recv_raw_sim :: int
  num_recv_reply :: "int list"

text \<open>\<open>axiom_sim_node_args_t\<close>, without the thread id.\<close>

record sim_node =
  sim_num_interfaces :: int
  sim_node_id :: u8
  node_topology :: "u8 list list"
  local_routing :: "int list list"
  sim_final_routing_table :: "u8 list"
  sim_net :: axiom_net

section \<open>Operations\<close>

definition sim_get_node_id :: "'a sim_node_scheme \<Rightarrow> u8" where
  "sim_get_node_id dev = sim_node_id dev"

definition sim_set_node_id :: "'a sim_node_scheme \<Rightarrow> u8 \<Rightarrow> 'a sim_node_scheme" where
  "sim_set_node_id dev n = dev\<lparr>sim_node_id := n\<rparr>"

text \<open>The \<open>int\<close> field is converted to the 8-bit type of the result.\<close>

definition sim_get_if_number :: "'c axiom_consts_scheme \<Rightarrow> 'a sim_node_scheme \<Rightarrow> err \<times> u8" where
  "sim_get_if_number c dev = (AXIOM_RET_OK c, of_int (sim_num_interfaces dev))"

definition axiom_net_connect_status :: "'a sim_node_scheme \<Rightarrow> u8 \<Rightarrow> bool option" where
  "axiom_net_connect_status dev if_number = do {
     fd \<leftarrow> aget (node_if_fd (sim_net dev)) (unat if_number);
     Some (fd \<noteq> 0)
   }"

definition sim_get_if_info :: "'c axiom_consts_scheme \<Rightarrow> 'a sim_node_scheme \<Rightarrow> u8 \<Rightarrow> u8 \<Rightarrow> (err \<times> u8) option" where
  "sim_get_if_info c dev if_number if_features =
     (if unat if_number > AXIOM_INTERFACES_MAX c then Some (AXIOM_RET_ERROR c, if_features)
      else do {
        connected \<leftarrow> axiom_net_connect_status dev if_number;
        Some (AXIOM_RET_OK c, if connected then AXIOM_IF_CONNECTED c else 0)
      })"

definition sim_set_routing ::
  "'c axiom_consts_scheme \<Rightarrow> 'a sim_node_scheme \<Rightarrow> u8 \<Rightarrow> u8 \<Rightarrow> (err \<times> 'a sim_node_scheme) option" where
  "sim_set_routing c dev n enabled_mask = do {
     dev \<leftarrow> for_each (\<lambda>i dev. do {
         b \<leftarrow> shl1_u8 i;
         lr \<leftarrow> aset2 (local_routing dev) (unat n) i (if enabled_mask AND b \<noteq> 0 then 1 else 0);
         Some (dev\<lparr>local_routing := lr\<rparr>)
       }) [0..<Suc (AXIOM_INTERFACES_MAX c)] dev;
     Some (AXIOM_RET_OK c, dev)
   }"

definition sim_get_routing ::
  "'c axiom_consts_scheme \<Rightarrow> 'a sim_node_scheme \<Rightarrow> u8 \<Rightarrow> u8 \<Rightarrow> (err \<times> u8) option" where
  "sim_get_routing c dev n (enabled_mask :: u8) = do {
     m \<leftarrow> for_each (\<lambda>i m. do {
         v \<leftarrow> aget2 (local_routing dev) (unat n) i;
         b \<leftarrow> shl1_u8 i;
         Some (if v = 1 then m OR b else m)
       }) [0..<Suc (AXIOM_INTERFACES_MAX c)] 0;
     Some (AXIOM_RET_OK c, m)
   }"

section \<open>The register contract\<close>

definition sim_ok :: "'c axiom_consts_scheme \<Rightarrow> 'a sim_node_scheme \<Rightarrow> bool" where
  "sim_ok c dev \<longleftrightarrow>
     AXIOM_INTERFACES_NUM c = Suc (AXIOM_INTERFACES_MAX c) \<and> AXIOM_INTERFACES_MAX c < 8
   \<and> is_table (AXIOM_NODES_NUM c) (AXIOM_INTERFACES_NUM c) (local_routing dev)"

text \<open>The bits of the interfaces that exist.\<close>

definition sim_mask :: "'c axiom_consts_scheme \<Rightarrow> u8" where
  "sim_mask c = mask (Suc (AXIOM_INTERFACES_MAX c))"

lemma sim_okD:
  assumes "sim_ok c dev"
  shows "AXIOM_INTERFACES_MAX c < 8" "length (local_routing dev) = AXIOM_NODES_NUM c"
    "\<And>r. r < AXIOM_NODES_NUM c \<Longrightarrow> length (local_routing dev ! r) = Suc (AXIOM_INTERFACES_MAX c)"
    "is_table (AXIOM_NODES_NUM c) (AXIOM_INTERFACES_NUM c) (local_routing dev)"
  using assms by (auto simp: sim_ok_def is_table_def)

text \<open>The row that \<open>axiom_set_routing\<close> leaves for a mask.\<close>

definition mask_row :: "'c axiom_consts_scheme \<Rightarrow> u8 \<Rightarrow> int list" where
  "mask_row c m = map (\<lambda>i. if bit m i then 1 else 0) [0..<Suc (AXIOM_INTERFACES_MAX c)]"

lemma mask_row_length [simp]: "length (mask_row c m) = Suc (AXIOM_INTERFACES_MAX c)"
  by (simp add: mask_row_def del: upt_Suc)

lemma and_exp_u8: "i < 8 \<Longrightarrow> (m :: u8) AND 2 ^ i \<noteq> 0 \<longleftrightarrow> bit m i"
  using bit_eq_iff [of "m AND 2 ^ i" 0] by (auto simp: bit_and_iff)

lemma sim_set_routing_row:
  assumes ok: "sim_ok c dev" and n: "unat n < AXIOM_NODES_NUM c"
  shows "sim_set_routing c dev n m =
    Some (AXIOM_RET_OK c, dev\<lparr>local_routing := (local_routing dev)[unat n := mask_row c m]\<rparr>)"
proof -
  note D = sim_okD [OF ok]
  let ?row = "\<lambda>k. take k (mask_row c m) @ drop k (local_routing dev ! unat n)"
  let ?I = "\<lambda>k d. d = dev\<lparr>local_routing := (local_routing dev)[unat n := ?row k]\<rparr>"
  have "\<exists>d. for_each (\<lambda>i dev. do { b \<leftarrow> shl1_u8 i;
         lr \<leftarrow> aset2 (local_routing dev) (unat n) i (if m AND b \<noteq> 0 then 1 else 0);
         Some (dev\<lparr>local_routing := lr\<rparr>) }) [0..<Suc (AXIOM_INTERFACES_MAX c)] dev = Some d
     \<and> ?I (length [0..<Suc (AXIOM_INTERFACES_MAX c)]) d"
  proof (rule for_each_rule [where I = ?I])
    show "?I 0 dev" by simp
  next
    fix k d
    assume "k < length [0..<Suc (AXIOM_INTERFACES_MAX c)]" and d: "?I k d"
    then have k: "k < Suc (AXIOM_INTERFACES_MAX c)" by (simp del: upt_Suc)
    then have nth: "[0..<Suc (AXIOM_INTERFACES_MAX c)] ! k = k" by (metis add_0 nth_upt)
    have len: "length (?row k) = Suc (AXIOM_INTERFACES_MAX c)" using k D(3) [OF n] by simp
    have upd: "(?row k)[k := if bit m k then 1 else 0] = ?row (Suc k)"
      using k D(3) [OF n]
      by (intro nth_equalityI)
         (auto simp: nth_append nth_list_update mask_row_def min_def less_Suc_eq simp del: upt_Suc)
    show "\<exists>s'. do { b \<leftarrow> shl1_u8 ([0..<Suc (AXIOM_INTERFACES_MAX c)] ! k);
         lr \<leftarrow> aset2 (local_routing d) (unat n) ([0..<Suc (AXIOM_INTERFACES_MAX c)] ! k)
           (if m AND b \<noteq> 0 then 1 else 0);
         Some (d\<lparr>local_routing := lr\<rparr>) } = Some s' \<and> ?I (Suc k) s'"
      using k D(1,2) n len d upd unfolding nth by (simp add: and_exp_u8)
  qed
  moreover have "?row (Suc (AXIOM_INTERFACES_MAX c)) = mask_row c m" using D(3) [OF n] by simp
  ultimately show ?thesis by (auto simp: sim_set_routing_def simp del: upt_Suc)
qed

text \<open>What a row of the table reads as.\<close>

definition row_mask :: "int list \<Rightarrow> nat \<Rightarrow> u8" where
  "row_mask r k = foldl (\<lambda>m i. if r ! i = 1 then m OR push_bit i 1 else m) 0 [0..<k]"

lemma row_mask_Suc: "row_mask r (Suc k) = (if r ! k = 1 then row_mask r k OR push_bit k 1 else row_mask r k)"
  by (simp add: row_mask_def)

lemma bit_row_mask: "bit (row_mask r k) i \<longleftrightarrow> i < k \<and> i < 8 \<and> r ! i = 1"
  by (induction k) (auto simp: row_mask_Suc bit_or_iff less_Suc_eq row_mask_def [of r 0])

lemma sim_get_routing_row:
  assumes ok: "sim_ok c dev" and n: "unat n < AXIOM_NODES_NUM c"
  shows "sim_get_routing c dev n v =
    Some (AXIOM_RET_OK c, row_mask (local_routing dev ! unat n) (Suc (AXIOM_INTERFACES_MAX c)))"
proof -
  note D = sim_okD [OF ok]
  let ?I = "\<lambda>k m. m = row_mask (local_routing dev ! unat n) k"
  have "\<exists>m. for_each (\<lambda>i m. do { v \<leftarrow> aget2 (local_routing dev) (unat n) i; b \<leftarrow> shl1_u8 i;
         Some (if v = 1 then m OR b else m) }) [0..<Suc (AXIOM_INTERFACES_MAX c)] 0 = Some m
      \<and> ?I (length [0..<Suc (AXIOM_INTERFACES_MAX c)]) m"
  proof (rule for_each_rule [where I = ?I])
    fix k m
    assume "k < length [0..<Suc (AXIOM_INTERFACES_MAX c)]" and m: "?I k m"
    then have k: "k < Suc (AXIOM_INTERFACES_MAX c)" by (simp del: upt_Suc)
    then have nth: "[0..<Suc (AXIOM_INTERFACES_MAX c)] ! k = k" by (metis add_0 nth_upt)
    show "\<exists>s'. do { v \<leftarrow> aget2 (local_routing dev) (unat n) ([0..<Suc (AXIOM_INTERFACES_MAX c)] ! k);
         b \<leftarrow> shl1_u8 ([0..<Suc (AXIOM_INTERFACES_MAX c)] ! k);
         Some (if v = 1 then m OR b else m) } = Some s' \<and> ?I (Suc k) s'"
      using k D n m unfolding nth by (simp add: row_mask_Suc)
  qed (simp add: row_mask_def)
  then show ?thesis by (auto simp: sim_get_routing_def simp del: upt_Suc)
qed

lemma row_mask_mask_row:
  "row_mask (mask_row c m) (Suc (AXIOM_INTERFACES_MAX c)) = m AND sim_mask c"
  by (rule bit_word_eqI)
     (auto simp: bit_row_mask bit_and_iff bit_mask_iff sim_mask_def mask_row_def nth_upt simp del: upt_Suc
       split: if_splits)

text \<open>Outside the node table a register access is undefined behaviour.\<close>

lemma sim_routing_out_of_range:
  assumes "sim_ok c dev" "AXIOM_NODES_NUM c \<le> unat n"
  shows "sim_set_routing c dev n m = None" "sim_get_routing c dev n v = None"
proof -
  have "aget (local_routing dev) (unat n) = None"
    using assms by (simp add: sim_ok_def is_table_def aget_None_iff)
  then show "sim_set_routing c dev n m = None" "sim_get_routing c dev n v = None"
    by (simp_all add: sim_set_routing_def sim_get_routing_def aset2_def aget2_def
        upt_conv_Cons del: upt_Suc)
qed

lemma sim_set_routing_ok:
  assumes "sim_ok c dev" "sim_set_routing c dev n m = Some (e, dev')"
  shows "sim_ok c dev' \<and> sim_node_id dev' = sim_node_id dev"
proof -
  have "unat n < AXIOM_NODES_NUM c"
    using sim_routing_out_of_range(1) [OF assms(1), of n m] assms(2) by (metis not_less option.distinct(1))
  from sim_set_routing_row [OF assms(1) this, of m] assms show ?thesis
    by (auto simp: sim_ok_def intro!: is_table_update)
qed

lemma sim_set_routing_id:
  "sim_set_routing c dev n m = Some (e, dev') \<Longrightarrow> sim_node_id dev' = sim_node_id dev"
  unfolding sim_set_routing_def
  by (auto simp: bind_eq_Some_conv elim!: for_each_preserves [where P = "\<lambda>d. sim_node_id d = sim_node_id dev"])

lemma sim_set_routing_other:
  assumes ok: "sim_ok c dev" and "n \<noteq> j" and set: "sim_set_routing c dev n m = Some (e, dev')"
  shows "sim_get_routing c dev' j v = sim_get_routing c dev j v"
proof -
  have n: "unat n < AXIOM_NODES_NUM c"
    using sim_routing_out_of_range(1) [OF ok, of n m] set by (metis not_less option.distinct(1))
  have d': "dev' = dev\<lparr>local_routing := (local_routing dev)[unat n := mask_row c m]\<rparr>"
    using sim_set_routing_row [OF ok n, of m] set by simp
  have ok': "sim_ok c dev'" using sim_set_routing_ok [OF ok set] by simp
  show ?thesis
  proof (cases "unat j < AXIOM_NODES_NUM c")
    case True
    then show ?thesis
      using sim_get_routing_row [OF ok True] sim_get_routing_row [OF ok' True] d' \<open>n \<noteq> j\<close>
      by (simp add: word_unat_eq_iff)
  next
    case False
    then show ?thesis
      using sim_routing_out_of_range(2) [OF ok] sim_routing_out_of_range(2) [OF ok'] by simp
  qed
qed

interpretation sim: nic_regs
    "sim_get_node_id :: 'a sim_node_scheme \<Rightarrow> u8" sim_set_node_id
    "sim_set_routing c" "sim_get_routing c" "sim_mask c" "AXIOM_NODES_NUM c" "sim_ok c"
  for c :: "'c axiom_consts_scheme"
proof unfold_locales
  fix d :: "'a sim_node_scheme" and n k v m :: u8 and e d'
  show "sim_get_node_id (sim_set_node_id d n) = n"
    by (simp add: sim_get_node_id_def sim_set_node_id_def)
  show "sim_ok c (sim_set_node_id d n)" if "sim_ok c d"
    using that by (auto simp: sim_ok_def sim_set_node_id_def)
  show "sim_get_routing c (sim_set_node_id d n) k v = sim_get_routing c d k v"
    by (simp add: sim_get_routing_def sim_set_node_id_def)
  show "\<exists>e d'. sim_set_routing c d k m = Some (e, d')" if "sim_ok c d" "unat k < AXIOM_NODES_NUM c"
    using sim_set_routing_row [OF that] by simp
  show "\<exists>e m. sim_get_routing c d k v = Some (e, m)" if "sim_ok c d" "unat k < AXIOM_NODES_NUM c"
    using sim_get_routing_row [OF that] by simp
  show "sim_ok c d'" if "sim_ok c d" "sim_set_routing c d k m = Some (e, d')"
    using sim_set_routing_ok [OF that] by simp
  show "sim_get_node_id d' = sim_get_node_id d" if "sim_set_routing c d k m = Some (e, d')"
    using sim_set_routing_id [OF that] by (simp add: sim_get_node_id_def)
  show "\<exists>e'. sim_get_routing c d' k v = Some (e', m AND sim_mask c)"
    if ok: "sim_ok c d" and k: "unat k < AXIOM_NODES_NUM c"
      and set: "sim_set_routing c d k m = Some (e, d')"
  proof -
    have "d' = d\<lparr>local_routing := (local_routing d)[unat k := mask_row c m]\<rparr>"
      using sim_set_routing_row [OF ok k, of m] set by simp
    then show ?thesis
      using sim_get_routing_row [OF _ k, of d' v] sim_set_routing_ok [OF ok set] k sim_okD(2) [OF ok]
      by (simp add: row_mask_mask_row)
  qed
  show "sim_get_routing c d' j v = sim_get_routing c d j v"
    if "sim_ok c d" "k \<noteq> j" "sim_set_routing c d k m = Some (e, d')" for j
    using sim_set_routing_other [OF that] .
qed

text \<open>A NIC whose register calls are those of the simulated one, on any device that extends its state.\<close>

definition sim_registers :: "('a sim_node_scheme, 'm) nic_api_scheme \<Rightarrow> bool" where
  "sim_registers api \<longleftrightarrow> axiom_get_node_id api = sim_get_node_id \<and> axiom_set_node_id api = sim_set_node_id
     \<and> axiom_set_routing api = sim_set_routing api \<and> axiom_get_routing api = sim_get_routing api
     \<and> AXIOM_NODES_NUM api \<le> 256"

text \<open>The routing register of a node, as the simulated NIC reads it.\<close>

definition routing_reg :: "'c axiom_consts_scheme \<Rightarrow> 'a sim_node_scheme \<Rightarrow> nat \<Rightarrow> u8" where
  "routing_reg c d k = (case sim_get_routing c d (of_nat k) 0 of Some (_, m) \<Rightarrow> m | None \<Rightarrow> 0)"

lemma routing_reg_cong:
  "local_routing d' = local_routing d \<Longrightarrow> routing_reg c d' = routing_reg c d"
  by (simp add: routing_reg_def sim_get_routing_def fun_eq_iff)

lemma sim_ok_cong: "local_routing d' = local_routing d \<Longrightarrow> sim_ok c d' = sim_ok c d"
  by (simp add: sim_ok_def)

text \<open>Messages do not touch the registers.\<close>

definition same_registers :: "'a sim_node_scheme \<Rightarrow> 'a sim_node_scheme \<Rightarrow> bool" where
  "same_registers d d' \<longleftrightarrow> local_routing d' = local_routing d \<and> sim_node_id d' = sim_node_id d"

definition msgs_keep_registers :: "('a sim_node_scheme, 'm) nic_api_scheme \<Rightarrow> bool" where
  "msgs_keep_registers api \<longleftrightarrow>
     (\<forall>d i m. same_registers d (snd (axiom_send_raw_discovery api d i m)))
   \<and> (\<forall>d e i m d'. axiom_recv_raw_discovery api d = Some (e, i, m, d') \<longrightarrow> same_registers d d')
   \<and> (\<forall>d i m. same_registers d (snd (axiom_send_raw_delivery api d i m)))
   \<and> (\<forall>d e i m d'. axiom_recv_raw_delivery api d = Some (e, i, m, d') \<longrightarrow> same_registers d d')
   \<and> (\<forall>d i m. same_registers d (snd (axiom_send_raw_set_routing api d i m)))
   \<and> (\<forall>d e i m d'. axiom_recv_raw_set_routing api d = Some (e, i, m, d') \<longrightarrow> same_registers d d')"

lemma msgs_keepD:
  assumes "msgs_keep_registers api"
  shows "axiom_send_raw_discovery api d i m = (e, d') \<Longrightarrow> same_registers d d'"
    and "axiom_recv_raw_discovery api d = Some (e, j, m, d') \<Longrightarrow> same_registers d d'"
    and "axiom_send_raw_delivery api d i r = (e, d') \<Longrightarrow> same_registers d d'"
    and "axiom_recv_raw_delivery api d = Some (e, j, r, d') \<Longrightarrow> same_registers d d'"
    and "axiom_send_raw_set_routing api d i cmd = (e, d') \<Longrightarrow> same_registers d d'"
    and "axiom_recv_raw_set_routing api d = Some (e, j, cmd, d') \<Longrightarrow> same_registers d d'"
  using assms unfolding msgs_keep_registers_def by (metis snd_conv)+

text \<open>The state of a device that has been given the id \<open>n\<close>.\<close>

definition node_ok :: "'c axiom_consts_scheme \<Rightarrow> u8 \<Rightarrow> 'a sim_node_scheme \<Rightarrow> bool" where
  "node_ok c n d \<longleftrightarrow> sim_ok c d \<and> sim_node_id d = n"

lemma same_registers_ok: "same_registers d d' \<Longrightarrow> node_ok c n d \<Longrightarrow> node_ok c n d'"
  using sim_ok_cong [of d' d c] by (simp add: same_registers_def node_ok_def)

lemma set_routing_node_ok:
  "sim_registers api \<Longrightarrow> axiom_set_routing api d k v = Some (e, d') \<Longrightarrow> node_ok c n d \<Longrightarrow>
     c = api \<Longrightarrow> node_ok c n d'"
  using sim_set_routing_ok [of api d k v e d'] by (auto simp: sim_registers_def node_ok_def)

end
