(* ===== verification/Demo_Nic.thy ===== *)
theory Demo_Nic
  imports Nic_Simulator
begin

text \<open>
  A concrete NIC on which the theorems are instantiated: the constants of a small network (four nodes,
  four interfaces), the registers of the simulated NIC, and message calls that log what is sent and
  take what is received from queues. It shows that the hypotheses the development puts on the NIC
  library can hold together.
\<close>

definition demo_consts :: axiom_consts where
  "demo_consts = \<lparr>AXIOM_NODES_NUM = 4, AXIOM_INTERFACES_NUM = 4, AXIOM_INTERFACES_MAX = 3,
     AXIOM_NULL_NODE = 255, AXIOM_IF_CONNECTED = 1, AXIOM_IF_LOOPBACK = 6, AXIOM_INIT_MASTER_NODE = 0,
     AXIOM_RET_OK = 0, AXIOM_RET_ERROR = - 1, AXIOM_RET_IS_OK = (\<lambda>e. 0 \<le> e)\<rparr>"

record demo_dev = sim_node +
  delivery_sent :: "(u8 \<times> rt_msg) list"
  delivery_inbox :: "(u8 \<times> rt_msg) list"
  set_sent :: "(u8 \<times> axiom_cmd) list"
  set_inbox :: "(u8 \<times> axiom_cmd) list"
  discovery_sent :: "(u8 \<times> dscv_msg) list"
  discovery_inbox :: "(u8 \<times> dscv_msg) list"

text \<open>A receive on an empty queue blocks.\<close>

definition demo_api :: "demo_dev nic_api" where
  "demo_api = \<lparr>AXIOM_NODES_NUM = 4, AXIOM_INTERFACES_NUM = 4, AXIOM_INTERFACES_MAX = 3,
     AXIOM_NULL_NODE = 255, AXIOM_IF_CONNECTED = 1, AXIOM_IF_LOOPBACK = 6, AXIOM_INIT_MASTER_NODE = 0,
     AXIOM_RET_OK = 0, AXIOM_RET_ERROR = - 1, AXIOM_RET_IS_OK = (\<lambda>e. 0 \<le> e),
     axiom_get_node_id = sim_get_node_id,
     axiom_set_node_id = sim_set_node_id,
     axiom_get_if_number = (\<lambda>d _. sim_get_if_number demo_consts d),
     axiom_get_if_info = (\<lambda>d i f. case sim_get_if_info demo_consts d i f of Some r \<Rightarrow> r | None \<Rightarrow> (- 1, f)),
     axiom_set_routing = sim_set_routing demo_consts,
     axiom_get_routing = sim_get_routing demo_consts,
     axiom_send_raw_discovery = (\<lambda>d i m. (0, d\<lparr>discovery_sent := discovery_sent d @ [(i, m)]\<rparr>)),
     axiom_recv_raw_discovery = (\<lambda>d. case discovery_inbox d of [] \<Rightarrow> None
        | (i, m) # ms \<Rightarrow> Some (0, i, m, d\<lparr>discovery_inbox := ms\<rparr>)),
     axiom_send_raw_delivery = (\<lambda>d n m. (0, d\<lparr>delivery_sent := delivery_sent d @ [(n, m)]\<rparr>)),
     axiom_recv_raw_delivery = (\<lambda>d. case delivery_inbox d of [] \<Rightarrow> None
        | (n, m) # ms \<Rightarrow> Some (0, n, m, d\<lparr>delivery_inbox := ms\<rparr>)),
     axiom_send_raw_set_routing = (\<lambda>d i cmd. (0, d\<lparr>set_sent := set_sent d @ [(i, cmd)]\<rparr>)),
     axiom_recv_raw_set_routing = (\<lambda>d. case set_inbox d of [] \<Rightarrow> None
        | (i, cmd) # ms \<Rightarrow> Some (0, i, cmd, d\<lparr>set_inbox := ms\<rparr>))\<rparr>"

text \<open>A node with its first interface connected and empty queues.\<close>

definition demo_node :: "u8 \<Rightarrow> demo_dev" where
  "demo_node n = \<lparr>sim_num_interfaces = 4, sim_node_id = n,
     node_topology = replicate 4 (replicate 4 255), local_routing = replicate 4 (replicate 4 0),
     sim_final_routing_table = replicate 4 0,
     sim_net = \<lparr>node_if_fd = [5, 0, 0, 0], num_of_ended_rt = 0, send_recv_raw_sim = 0,
       num_recv_reply = replicate 4 0\<rparr>,
     delivery_sent = [], delivery_inbox = [], set_sent = [], set_inbox = [],
     discovery_sent = [], discovery_inbox = []\<rparr>"

lemma demo_consts_ok: "consts_ok demo_consts"
  by (simp add: consts_ok_def demo_consts_def)

lemma demo_api_ok: "consts_ok demo_api"
  by (simp add: consts_ok_def demo_api_def)

lemma demo_api_consts [simp]:
  "AXIOM_NODES_NUM demo_api = 4" "AXIOM_INTERFACES_NUM demo_api = 4" "AXIOM_INTERFACES_MAX demo_api = 3"
  "AXIOM_NULL_NODE demo_api = 255" "AXIOM_IF_CONNECTED demo_api = 1" "AXIOM_IF_LOOPBACK demo_api = 6"
  "AXIOM_INIT_MASTER_NODE demo_api = 0" "AXIOM_RET_OK demo_api = 0" "AXIOM_RET_ERROR demo_api = - 1"
  "AXIOM_RET_IS_OK demo_api e \<longleftrightarrow> 0 \<le> e"
  by (simp_all add: demo_api_def)

lemma demo_node_queues [simp]:
  "delivery_sent (demo_node n) = []" "delivery_inbox (demo_node n) = []" "set_sent (demo_node n) = []"
  "set_inbox (demo_node n) = []" "discovery_sent (demo_node n) = []" "discovery_inbox (demo_node n) = []"
  by (simp_all add: demo_node_def)

lemma demo_registers: "sim_registers demo_api"
  by (simp add: sim_registers_def fun_eq_iff demo_api_def sim_set_routing_def sim_get_routing_def demo_consts_def)

lemma demo_sim_ok: "sim_ok demo_api (demo_node n)"
  by (simp add: sim_ok_def demo_node_def)

lemma demo_keep: "msgs_keep_registers demo_api"
  by (auto simp: msgs_keep_registers_def same_registers_def demo_api_def split: list.splits)

end
