(* ===== verification/Discovery_Protocol.thy ===== *)
theory Discovery_Protocol
  imports Routing_Compute Demo_Nic
begin

text \<open>
  The discovery protocol (\<open>axiom-init/axiom-discovery/axiom_discovery_protocol.c\<close>): the master, and
  then every slave on request of the node that found it, asks its neighbours for their ids, numbers
  those that have none, lets them explore in turn and collects the links they found. A blocking
  receive that never returns makes the whole computation \<open>None\<close>.
\<close>

section \<open>The code\<close>

definition axiom_topology_init :: "'c axiom_consts_scheme \<Rightarrow> topology \<Rightarrow> topology option" where
  "axiom_topology_init c topology =
     for_each (\<lambda>i t. for_each (\<lambda>j t. aset2 t i j (AXIOM_NULL_NODE c)) [0..<AXIOM_INTERFACES_NUM c] t)
       [0..<AXIOM_NODES_NUM c] topology"

definition axiom_codify_routing_mask :: "nat \<Rightarrow> u8 option" where
  "axiom_codify_routing_mask if_id = shl1_u8 if_id"

definition axiom_routing_init :: "('d, 'm) nic_api_scheme \<Rightarrow> 'd \<Rightarrow> 'd option" where
  "axiom_routing_init api dev =
     for_each (\<lambda>node_id dev. map_option snd (axiom_set_routing api dev (of_nat node_id) 0))
       [0..<AXIOM_NODES_NUM api] dev"

text \<open>The variables of \<open>discover_phase\<close> that live across iterations.\<close>

record 'd dscv_state =
  ds_dev :: 'd
  ds_topology :: topology
  ds_next_id :: u8
  ds_if_features :: u8
  ds_msg_cmd :: axiom_cmd

abbreviation dscv :: "axiom_cmd \<Rightarrow> u8 \<Rightarrow> u8 \<Rightarrow> u8 \<Rightarrow> u8 \<Rightarrow> dscv_msg" where
  "dscv cmd sn dn si di \<equiv>
     \<lparr>dm_command = cmd, dm_src_node = sn, dm_dst_node = dn, dm_src_if = si, dm_dst_if = di\<rparr>"

text \<open>Both ends of a link are recorded.\<close>

definition record_link :: "u8 \<Rightarrow> u8 \<Rightarrow> u8 \<Rightarrow> u8 \<Rightarrow> topology \<Rightarrow> topology option" where
  "record_link a ia b ib t = do {
     t \<leftarrow> aset2 t (unat a) (unat ia) b;
     aset2 t (unat b) (unat ib) a
   }"

text \<open>The loop \<open>for (node_index = start; node_index <= *next_id; node_index++)\<close> on 8-bit counters.\<close>

definition route_range :: "('d, 'm) nic_api_scheme \<Rightarrow> u8 \<Rightarrow> u8 \<Rightarrow> u8 \<Rightarrow> 'd \<Rightarrow> 'd option" where
  "route_range api start stop b_mask dev =
     map_option snd (while_ctl (\<lambda>(k, _). k \<le> stop)
       (\<lambda>(k, dev). do { (_, dev) \<leftarrow> axiom_set_routing api dev k b_mask; Some (Next, k + 1, dev) })
       (start, dev))"

text \<open>The loop that waits for the topology of the subnetwork behind interface \<open>i\<close>; an error leaves this
  loop only.\<close>

definition wait_topology ::
  "('d, 'm) nic_api_scheme \<Rightarrow> u8 \<Rightarrow> nat \<Rightarrow> u8 \<Rightarrow> 'd dscv_state \<Rightarrow> (ctl \<times> 'd dscv_state) option" where
  "wait_topology api node_id i start_node_index s = do {
     (ret, src_interface, m, dev) \<leftarrow> axiom_recv_raw_discovery api (ds_dev s);
     let s = s\<lparr>ds_dev := dev, ds_msg_cmd := dm_command m\<rparr>;
     if \<not> AXIOM_RET_IS_OK api ret then Some (Break, s)
     else if dm_command m = AXIOM_DSCV_CMD_REQ_ID
     then (let (ret, dev) = axiom_send_raw_discovery api (ds_dev s) src_interface
                 (dscv AXIOM_DSCV_CMD_RSP_ID node_id (dm_src_node m) src_interface 0)
           in Some (if AXIOM_RET_IS_OK api ret then Next else Break, s\<lparr>ds_dev := dev\<rparr>))
     else if dm_command m = AXIOM_DSCV_CMD_TOPOLOGY
     then do {
       t \<leftarrow> record_link (dm_src_node m) (dm_src_if m) (dm_dst_node m) (dm_dst_if m) (ds_topology s);
       Some (Next, s\<lparr>ds_topology := t\<rparr>)
     }
     else if dm_command m = AXIOM_DSCV_CMD_END_TOPOLOGY
     then do {
       b_mask \<leftarrow> axiom_codify_routing_mask i;
       dev \<leftarrow> route_range api start_node_index (dm_src_node m) b_mask (ds_dev s);
       Some (Next, s\<lparr>ds_dev := dev, ds_next_id := dm_src_node m\<rparr>)
     }
     else Some (Next, s)
   }"

text \<open>The part of the body of the interface loop that follows an \<open>AXIOM_DSCV_CMD_RSP_NOID\<close> answer \<open>m\<close>.\<close>

definition adopt_neighbour ::
  "('d, 'm) nic_api_scheme \<Rightarrow> u8 \<Rightarrow> nat \<Rightarrow> dscv_msg \<Rightarrow> 'd dscv_state \<Rightarrow> (ctl \<times> 'd dscv_state) option" where
  "adopt_neighbour api node_id i m s = (
     let next_id = ds_next_id s + 1;
         (ret, dev) = axiom_send_raw_discovery api (ds_dev s) (of_nat i)
           (dscv AXIOM_DSCV_CMD_SETID node_id next_id 0 0);
         s = s\<lparr>ds_next_id := next_id, ds_dev := dev\<rparr>
     in if \<not> AXIOM_RET_IS_OK api ret then Some (Break, s)
     else do {
       b_mask \<leftarrow> axiom_codify_routing_mask i;
       (_, dev) \<leftarrow> axiom_set_routing api (ds_dev s) next_id b_mask;
       t \<leftarrow> record_link node_id (of_nat i) next_id (dm_src_if m) (ds_topology s);
       let (ret, dev) = axiom_send_raw_discovery api dev (of_nat i)
             (dscv AXIOM_DSCV_CMD_START node_id next_id 0 0);
       let s = s\<lparr>ds_dev := dev, ds_topology := t\<rparr>;
       if \<not> AXIOM_RET_IS_OK api ret then Some (Break, s)
       else map_option (Pair Next)
              (while_ctl (\<lambda>s. ds_msg_cmd s \<noteq> AXIOM_DSCV_CMD_END_TOPOLOGY)
                (wait_topology api node_id i next_id) (s\<lparr>ds_msg_cmd := cmd0\<rparr>))
     })"

text \<open>The body of the loop over the interfaces.\<close>

definition discover_if ::
  "('d, 'm) nic_api_scheme \<Rightarrow> u8 \<Rightarrow> nat \<Rightarrow> 'd dscv_state \<Rightarrow> (ctl \<times> 'd dscv_state) option" where
  "discover_if api node_id i s = (
     let f = snd (axiom_get_if_info api (ds_dev s) (of_nat i) (ds_if_features s));
         s = s\<lparr>ds_if_features := f\<rparr>
     in if f AND AXIOM_IF_CONNECTED api = 0 then Some (Next, s)
     else do {
       known \<leftarrow> aget2 (ds_topology s) (unat node_id) i;
       if known \<noteq> AXIOM_NULL_NODE api then Some (Next, s)
       else let (ret, dev) = axiom_send_raw_discovery api (ds_dev s) (of_nat i)
                  (dscv AXIOM_DSCV_CMD_REQ_ID node_id 0 0 0);
                s = s\<lparr>ds_dev := dev\<rparr>
       in if \<not> AXIOM_RET_IS_OK api ret then Some (Break, s)
       else do {
         (ret, src_interface, m, dev) \<leftarrow> axiom_recv_raw_discovery api (ds_dev s);
         let s = s\<lparr>ds_dev := dev, ds_msg_cmd := dm_command m\<rparr>;
         if \<not> AXIOM_RET_IS_OK api ret then Some (Break, s)
         else if dm_command m \<noteq> AXIOM_DSCV_CMD_RSP_NOID \<and> dm_command m \<noteq> AXIOM_DSCV_CMD_RSP_ID
         then Some (Break, s)
         else if dm_command m = AXIOM_DSCV_CMD_RSP_ID
         then do {
           t \<leftarrow> record_link node_id src_interface (dm_src_node m) (dm_src_if m) (ds_topology s);
           Some (Next, s\<lparr>ds_topology := t\<rparr>)
         }
         else adopt_neighbour api node_id i m s
       }
     })"

text \<open>\<open>discover_phase\<close> returns \<open>AXIOM_RET_OK\<close> in every case, together with the device, the topology and
  \<open>*next_id\<close>.\<close>

definition discover_phase ::
  "('d, 'm) nic_api_scheme \<Rightarrow> 'd \<Rightarrow> u8 \<Rightarrow> topology \<Rightarrow> (err \<times> 'd \<times> u8 \<times> topology) option" where
  "discover_phase api dev next_id topology = do {
     let node_id = axiom_get_node_id api dev;
     b_mask \<leftarrow> axiom_codify_routing_mask (unat (AXIOM_IF_LOOPBACK api));
     (_, dev) \<leftarrow> axiom_set_routing api dev node_id b_mask;
     let num_interface = snd (axiom_get_if_number api dev 0);
     s \<leftarrow> for_ctl (discover_if api node_id) [0..<unat num_interface]
       \<lparr>ds_dev = dev, ds_topology = topology, ds_next_id = next_id, ds_if_features = 0, ds_msg_cmd = cmd0\<rparr>;
     Some (AXIOM_RET_OK api, ds_dev s, ds_next_id s, ds_topology s)
   }"

text \<open>The result: the return code, the device, the topology and \<open>*last_node\<close>.\<close>

definition axiom_master_node_discovery ::
  "('d, 'm) nic_api_scheme \<Rightarrow> 'd \<Rightarrow> topology \<Rightarrow> u8 \<Rightarrow> (err \<times> 'd \<times> topology \<times> u8) option" where
  "axiom_master_node_discovery api dev topology master_id = do {
     topology \<leftarrow> axiom_topology_init api topology;
     dev \<leftarrow> axiom_routing_init api dev;
     let dev = axiom_set_node_id api dev master_id;
     (ret, dev, next_id, topology) \<leftarrow> discover_phase api dev master_id topology;
     Some (ret, dev, topology, next_id + 1)
   }"

text \<open>The loops of a slave that wait for one command; the state is the last return code, the interface
  and the message received, and the device.\<close>

definition wait_command ::
  "('d, 'm) nic_api_scheme \<Rightarrow> axiom_cmd \<Rightarrow> err \<times> u8 \<times> dscv_msg \<times> 'd \<Rightarrow> (err \<times> u8 \<times> dscv_msg \<times> 'd) option" where
  "wait_command api cmd s =
     while_ctl (\<lambda>(ret, _, m, _). dm_command m \<noteq> cmd \<and> AXIOM_RET_IS_OK api ret)
       (\<lambda>(ret, i, m, dev). map_option (Pair Next) (axiom_recv_raw_discovery api dev)) s"

text \<open>The search of the interface of node \<open>t\<close> on which node \<open>i\<close> is; \<open>AXIOM_INTERFACES_NUM\<close> when there
  is none.\<close>

definition find_remote_if :: "'c axiom_consts_scheme \<Rightarrow> topology \<Rightarrow> nat \<Rightarrow> u8 \<Rightarrow> nat option" where
  "find_remote_if c topology i t =
     map_option (\<lambda>(found, w). w)
       (for_ctl (\<lambda>w s. do {
          v \<leftarrow> aget2 topology (unat t) w;
          Some (if unat v = i then (Break, True, w) else (Next, False, Suc w))
        }) [0..<AXIOM_INTERFACES_NUM c] (False, 0))"

text \<open>The loops that send the topology back. A failed send returns from the function: the break leaves
  both loops because the code is not a success code.\<close>

definition send_links ::
  "('d, 'm) nic_api_scheme \<Rightarrow> u8 \<Rightarrow> topology \<Rightarrow> nat \<Rightarrow> err \<times> 'd \<Rightarrow> (err \<times> 'd) option" where
  "send_links api src_interface topology i s =
     for_ctl (\<lambda>j (ret, dev). do {
         t \<leftarrow> aget2 topology i j;
         if t = AXIOM_NULL_NODE api then Some (Next, ret, dev)
         else do {
           w \<leftarrow> find_remote_if api topology i t;
           let (ret, dev) = axiom_send_raw_discovery api dev src_interface
                 (dscv AXIOM_DSCV_CMD_TOPOLOGY (of_nat i) t (of_nat j) (of_nat w));
           Some (if AXIOM_RET_IS_OK api ret then Next else Break, ret, dev)
         }
       }) [0..<AXIOM_INTERFACES_NUM api] s"

definition send_topology ::
  "('d, 'm) nic_api_scheme \<Rightarrow> u8 \<Rightarrow> topology \<Rightarrow> err \<times> 'd \<Rightarrow> (err \<times> 'd) option" where
  "send_topology api src_interface topology s =
     for_ctl (\<lambda>i (ret, dev). do {
         (ret, dev) \<leftarrow> send_links api src_interface topology i (ret, dev);
         Some (if AXIOM_RET_IS_OK api ret then Next else Break, ret, dev)
       }) [0..<AXIOM_NODES_NUM api] s"

text \<open>The part of the slave that follows the \<open>AXIOM_DSCV_CMD_START\<close> message.\<close>

definition slave_explore ::
  "('d, 'm) nic_api_scheme \<Rightarrow> u8 \<Rightarrow> u8 \<Rightarrow> topology \<Rightarrow> err \<times> 'd \<Rightarrow> (err \<times> topology \<times> 'd) option" where
  "slave_explore api src_interface next_id topology s = do {
     (_, dev, next_id, topology) \<leftarrow> discover_phase api (snd s) next_id topology;
     (ret, dev) \<leftarrow> send_topology api src_interface topology (fst s, dev);
     if \<not> AXIOM_RET_IS_OK api ret then Some (ret, topology, dev)
     else let (ret, dev) = axiom_send_raw_discovery api dev src_interface
                (dscv AXIOM_DSCV_CMD_END_TOPOLOGY next_id 0 0 0)
          in Some (ret, topology, dev)
   }"

text \<open>The loop \<open>for (i = AXIOM_INIT_MASTER_NODE; i <= src_node_id; i++)\<close>, on an \<open>int\<close>.\<close>

definition route_upto :: "('d, 'm) nic_api_scheme \<Rightarrow> u8 \<Rightarrow> u8 \<Rightarrow> 'd \<Rightarrow> 'd option" where
  "route_upto api src_node_id b_mask dev =
     for_each (\<lambda>i dev. map_option snd (axiom_set_routing api dev (of_nat i) b_mask))
       [unat (AXIOM_INIT_MASTER_NODE api)..<Suc (unat src_node_id)] dev"

text \<open>The result: the return code, the topology, \<open>*node_id\<close> and the device. The node id is reset before
  it is read, so the branch for a node that already has one is taken only if the register does not
  keep what is written to it.\<close>

definition axiom_slave_node_discovery ::
  "('d, 'm) nic_api_scheme \<Rightarrow> 'd \<Rightarrow> topology \<Rightarrow> u8 \<Rightarrow> u8 \<Rightarrow> dscv_msg \<Rightarrow> (err \<times> topology \<times> u8 \<times> 'd) option" where
  "axiom_slave_node_discovery api dev topology node_id first_interface first_msg = (
     if dm_command first_msg \<noteq> AXIOM_DSCV_CMD_REQ_ID then Some (AXIOM_RET_ERROR api, topology, node_id, dev)
     else do {
       topology \<leftarrow> axiom_topology_init api topology;
       dev \<leftarrow> axiom_routing_init api dev;
       let dev = axiom_set_node_id api dev 0;
       let node_id = axiom_get_node_id api dev;
       let src_node_id = dm_src_node first_msg;
       let src_interface = first_interface;
       let reply = dscv (if node_id \<noteq> 0 then AXIOM_DSCV_CMD_RSP_ID else AXIOM_DSCV_CMD_RSP_NOID)
             node_id src_node_id src_interface 0;
       b_mask \<leftarrow> axiom_codify_routing_mask (unat src_interface);
       dev \<leftarrow> route_upto api src_node_id b_mask dev;
       let (ret, dev) = axiom_send_raw_discovery api dev src_interface reply;
       if node_id \<noteq> 0 \<or> \<not> AXIOM_RET_IS_OK api ret then Some (ret, topology, node_id, dev)
       else do {
         (ret, src_interface, m, dev) \<leftarrow>
           wait_command api AXIOM_DSCV_CMD_SETID (AXIOM_RET_OK api, src_interface, first_msg, dev);
         if \<not> AXIOM_RET_IS_OK api ret then Some (ret, topology, node_id, dev)
         else do {
           let dev = axiom_set_node_id api dev (dm_dst_node m);
           let node_id = dm_dst_node m;
           (ret, src_interface, m, dev) \<leftarrow>
             wait_command api AXIOM_DSCV_CMD_START (AXIOM_RET_OK api, src_interface, m, dev);
           if \<not> AXIOM_RET_IS_OK api ret then Some (ret, topology, node_id, dev)
           else do {
             (ret, topology, dev) \<leftarrow> slave_explore api src_interface (dm_dst_node m) topology (ret, dev);
             Some (ret, topology, node_id, dev)
           }
         }
       }
     })"

section \<open>Sending a topology\<close>

abbreviation logs_discovery ::
  "('d, 'm) nic_api_scheme \<Rightarrow> ('d \<Rightarrow> (u8 \<times> dscv_msg) list) \<Rightarrow> bool" where
  "logs_discovery api \<equiv> lossless (AXIOM_RET_IS_OK api) (axiom_send_raw_discovery api)"

abbreviation queues_discovery ::
  "('d, 'm) nic_api_scheme \<Rightarrow> ('d \<Rightarrow> (u8 \<times> dscv_msg) list) \<Rightarrow> bool" where
  "queues_discovery api \<equiv>
     fifo (AXIOM_RET_IS_OK api) (axiom_recv_raw_discovery api) (axiom_send_raw_discovery api)"

text \<open>A topology as a node builds it: every link is recorded at both ends.\<close>

definition links_ok :: "'c axiom_consts_scheme \<Rightarrow> topology \<Rightarrow> bool" where
  "links_ok c T \<longleftrightarrow> is_table (AXIOM_NODES_NUM c) (AXIOM_INTERFACES_NUM c) T
     \<and> (\<forall>a<AXIOM_NODES_NUM c. \<forall>t\<in>set (T ! a). t \<noteq> AXIOM_NULL_NODE c \<longrightarrow>
          unat t < AXIOM_NODES_NUM c \<and> of_nat a \<in> set (T ! unat t))"

text \<open>The interface of \<open>t\<close> on which \<open>a\<close> is.\<close>

definition remote_if :: "topology \<Rightarrow> nat \<Rightarrow> u8 \<Rightarrow> nat" where
  "remote_if T a t = length (takeWhile (\<lambda>v. unat v \<noteq> a) (T ! unat t))"

lemma for_ctl_find:
  assumes "w0 + length ws \<le> length r" "ws = [w0..<w0 + length ws]"
  shows "for_ctl (\<lambda>w s. do { v \<leftarrow> aget r w; Some (if unat (v :: u8) = i then (Break, True, w) else (Next, False, Suc w)) })
      ws (False, w0)
    = Some (let w = w0 + length (takeWhile (\<lambda>v. unat v \<noteq> i) (take (length ws) (drop w0 r)))
            in (w < w0 + length ws, w))"
  using assms
proof (induction ws arbitrary: w0)
  case Nil
  then show ?case by simp
next
  case (Cons w ws)
  have "[w0..<w0 + length (w # ws)] = w0 # [Suc w0..<Suc w0 + length ws]"
    by (simp add: upt_conv_Cons del: upt_Suc)
  with Cons.prems(2) have w: "w = w0" and ws: "ws = [Suc w0..<Suc w0 + length ws]"
    by (auto simp del: upt_Suc)
  have d: "drop w0 r = r ! w0 # drop (Suc w0) r" using Cons.prems(1) by (simp add: Cons_nth_drop_Suc)
  show ?case
    using Cons.IH [of "Suc w0"] ws Cons.prems(1) by (auto simp: w d Let_def)
qed

lemma find_remote_if_eq:
  assumes "unat t < length T" "length (T ! unat t) = AXIOM_INTERFACES_NUM c"
  shows "find_remote_if c T i t = Some (remote_if T i t)"
proof -
  have "aget2 T (unat t) w = aget (T ! unat t) w" for w using assms(1) by (simp add: aget2_def)
  then show ?thesis
    using for_ctl_find [of 0 "[0..<AXIOM_INTERFACES_NUM c]" "T ! unat t" i] assms(2)
    by (simp add: find_remote_if_def remote_if_def Let_def)
qed

text \<open>The messages that carry a topology.\<close>

definition link_msgs :: "'c axiom_consts_scheme \<Rightarrow> topology \<Rightarrow> nat \<Rightarrow> nat list \<Rightarrow> dscv_msg list" where
  "link_msgs c T a js = map (\<lambda>j. dscv AXIOM_DSCV_CMD_TOPOLOGY (of_nat a) (T ! a ! j) (of_nat j)
     (of_nat (remote_if T a (T ! a ! j)))) (filter (\<lambda>j. T ! a ! j \<noteq> AXIOM_NULL_NODE c) js)"

definition topology_msgs :: "'c axiom_consts_scheme \<Rightarrow> topology \<Rightarrow> dscv_msg list" where
  "topology_msgs c T = concat (map (\<lambda>a. link_msgs c T a [0..<AXIOM_INTERFACES_NUM c]) [0..<AXIOM_NODES_NUM c])"

lemma send_links_run:
  assumes log: "logs_discovery api sent" and T: "links_ok api T" and a: "a < AXIOM_NODES_NUM api"
    and e: "AXIOM_RET_IS_OK api e"
  shows "\<exists>e' dev'. send_links api k T a (e, dev) = Some (e', dev') \<and> AXIOM_RET_IS_OK api e'
    \<and> sent dev' = sent dev @ map (Pair k) (link_msgs api T a [0..<AXIOM_INTERFACES_NUM api])"
proof -
  note tab = T [unfolded links_ok_def, THEN conjunct1, THEN is_tableD(1)]
    T [unfolded links_ok_def, THEN conjunct1, THEN is_tableD(2)]
  let ?f = "\<lambda>j (ret, dev). do {
         t \<leftarrow> aget2 T a j;
         if t = AXIOM_NULL_NODE api then Some (Next, ret, dev)
         else do {
           w \<leftarrow> find_remote_if api T a t;
           let (ret, dev) = axiom_send_raw_discovery api dev k
                 (dscv AXIOM_DSCV_CMD_TOPOLOGY (of_nat a) t (of_nat j) (of_nat w));
           Some (if AXIOM_RET_IS_OK api ret then Next else Break, ret, dev) } }"
  have "\<exists>e' dev'. for_ctl ?f js (e, dev) = Some (e', dev') \<and> AXIOM_RET_IS_OK api e'
      \<and> sent dev' = sent dev @ map (Pair k) (link_msgs api T a js)"
    if "\<forall>j\<in>set js. j < AXIOM_INTERFACES_NUM api" for js
    using that e
  proof (induction js arbitrary: e dev)
    case Nil
    then show ?case by (simp add: link_msgs_def)
  next
    case (Cons j js)
    have get: "aget2 T a j = Some (T ! a ! j)" using Cons.prems(1) tab a by simp
    show ?case
    proof (cases "T ! a ! j = AXIOM_NULL_NODE api")
      case True
      with Cons.IH [of e dev] Cons.prems get show ?thesis by (simp add: link_msgs_def)
    next
      case False
      have "T ! a ! j \<in> set (T ! a)" using Cons.prems(1) tab a by simp
      then have "unat (T ! a ! j) < AXIOM_NODES_NUM api"
        using T a False unfolding links_ok_def by blast
      then have fr: "find_remote_if api T a (T ! a ! j) = Some (remote_if T a (T ! a ! j))"
        using tab by (intro find_remote_if_eq) simp_all
      obtain e1 d1 where "axiom_send_raw_discovery api dev k (dscv AXIOM_DSCV_CMD_TOPOLOGY (of_nat a) (T ! a ! j)
          (of_nat j) (of_nat (remote_if T a (T ! a ! j)))) = (e1, d1)" "AXIOM_RET_IS_OK api e1"
        "sent d1 = sent dev @ [(k, dscv AXIOM_DSCV_CMD_TOPOLOGY (of_nat a) (T ! a ! j)
          (of_nat j) (of_nat (remote_if T a (T ! a ! j))))]"
        using lossless_send [OF log] by blast
      with Cons.IH [of e1 d1] Cons.prems False get fr show ?thesis by (simp add: link_msgs_def)
    qed
  qed
  from this [of "[0..<AXIOM_INTERFACES_NUM api]"] show ?thesis by (simp add: send_links_def)
qed

lemma send_topology_run:
  assumes log: "logs_discovery api sent" and T: "links_ok api T" and e: "AXIOM_RET_IS_OK api e"
  shows "\<exists>e' dev'. send_topology api k T (e, dev) = Some (e', dev') \<and> AXIOM_RET_IS_OK api e'
    \<and> sent dev' = sent dev @ map (Pair k) (topology_msgs api T)"
proof -
  let ?f = "\<lambda>i (ret, dev). do {
         (ret, dev) \<leftarrow> send_links api k T i (ret, dev);
         Some (if AXIOM_RET_IS_OK api ret then Next else Break, ret, dev) }"
  have "\<exists>e' dev'. for_ctl ?f as (e, dev) = Some (e', dev') \<and> AXIOM_RET_IS_OK api e'
      \<and> sent dev' = sent dev
          @ map (Pair k) (concat (map (\<lambda>a. link_msgs api T a [0..<AXIOM_INTERFACES_NUM api]) as))"
    if "\<forall>a\<in>set as. a < AXIOM_NODES_NUM api" for "as"
    using that e
  proof (induction "as" arbitrary: e dev)
    case Nil
    then show ?case by simp
  next
    case (Cons a "as")
    from send_links_run [OF log T _ Cons.prems(2), of a k dev] Cons.prems(1) obtain e1 d1 where
      "send_links api k T a (e, dev) = Some (e1, d1)" "AXIOM_RET_IS_OK api e1"
      "sent d1 = sent dev @ map (Pair k) (link_msgs api T a [0..<AXIOM_INTERFACES_NUM api])" by auto
    with Cons.IH [of e1 d1] Cons.prems(1) show ?case by simp
  qed
  from this [of "[0..<AXIOM_NODES_NUM api]"] show ?thesis
    by (simp add: send_topology_def topology_msgs_def)
qed

section \<open>Receiving a topology\<close>

text \<open>A message that describes a link of the topology \<open>T\<close>, and the two table entries it is about.\<close>

definition describes :: "'c axiom_consts_scheme \<Rightarrow> topology \<Rightarrow> dscv_msg \<Rightarrow> bool" where
  "describes c T m \<longleftrightarrow> dm_command m = AXIOM_DSCV_CMD_TOPOLOGY
     \<and> unat (dm_src_node m) < AXIOM_NODES_NUM c \<and> unat (dm_src_if m) < AXIOM_INTERFACES_NUM c
     \<and> unat (dm_dst_node m) < AXIOM_NODES_NUM c \<and> unat (dm_dst_if m) < AXIOM_INTERFACES_NUM c
     \<and> T ! unat (dm_src_node m) ! unat (dm_src_if m) = dm_dst_node m
     \<and> T ! unat (dm_dst_node m) ! unat (dm_dst_if m) = dm_src_node m"

definition link_ends :: "dscv_msg list \<Rightarrow> (nat \<times> nat) set" where
  "link_ends ms = (\<Union>m\<in>set ms. {(unat (dm_src_node m), unat (dm_src_if m)),
     (unat (dm_dst_node m), unat (dm_dst_if m))})"

lemma remote_if_props:
  assumes T: "links_ok c T" and N: "AXIOM_NODES_NUM c \<le> 256"
    and a: "a < AXIOM_NODES_NUM c" and t: "t \<in> set (T ! a)" "t \<noteq> AXIOM_NULL_NODE c"
  shows "remote_if T a t < AXIOM_INTERFACES_NUM c" "T ! unat t ! remote_if T a t = of_nat a"
proof -
  have r: "unat t < AXIOM_NODES_NUM c" "of_nat a \<in> set (T ! unat t)"
    using T a t unfolding links_ok_def by blast+
  have "unat (of_nat a :: u8) = a" using a N by simp
  with r(2) have lt: "remote_if T a t < length (T ! unat t)"
    unfolding remote_if_def by (intro takeWhile_shorter) simp_all
  then show "remote_if T a t < AXIOM_INTERFACES_NUM c"
    using T r(1) by (auto simp: links_ok_def dest: is_tableD(2))
  have "unat (T ! unat t ! remote_if T a t) = a"
    using nth_length_takeWhile [of "\<lambda>v. unat v \<noteq> a" "T ! unat t"] lt by (simp add: remote_if_def)
  then show "T ! unat t ! remote_if T a t = of_nat a" by (metis of_nat_unat ucast_id)
qed

lemma topology_msgs_describe:
  assumes T: "links_ok c T" and ok: "consts_ok c"
  shows "\<forall>m\<in>set (topology_msgs c T). describes c T m"
    and "link_ends (topology_msgs c T) =
      {(a, j). a < AXIOM_NODES_NUM c \<and> j < AXIOM_INTERFACES_NUM c \<and> T ! a ! j \<noteq> AXIOM_NULL_NODE c}" (is "_ = ?E")
proof -
  have lim: "AXIOM_NODES_NUM c \<le> 256" "AXIOM_INTERFACES_NUM c \<le> 8"
    using consts_okD(2,3,7) [OF ok] by auto
  have len: "length (T ! a) = AXIOM_INTERFACES_NUM c" if "a < AXIOM_NODES_NUM c" for a
    using T that by (auto simp: links_ok_def dest: is_tableD(2))
  have mem: "m \<in> set (topology_msgs c T) \<longleftrightarrow> (\<exists>a j. a < AXIOM_NODES_NUM c \<and> j < AXIOM_INTERFACES_NUM c
      \<and> T ! a ! j \<noteq> AXIOM_NULL_NODE c \<and> m = dscv AXIOM_DSCV_CMD_TOPOLOGY (of_nat a) (T ! a ! j) (of_nat j)
        (of_nat (remote_if T a (T ! a ! j))))" for m
    by (auto simp: topology_msgs_def link_msgs_def)
  have d: "describes c T (dscv AXIOM_DSCV_CMD_TOPOLOGY (of_nat a) (T ! a ! j) (of_nat j)
        (of_nat (remote_if T a (T ! a ! j))))"
    if a: "a < AXIOM_NODES_NUM c" and j: "j < AXIOM_INTERFACES_NUM c" and nn: "T ! a ! j \<noteq> AXIOM_NULL_NODE c" for a j
  proof -
    have t: "T ! a ! j \<in> set (T ! a)" using j len [OF a] by simp
    have "unat (T ! a ! j) < AXIOM_NODES_NUM c" using T a t nn unfolding links_ok_def by blast
    with remote_if_props [OF T lim(1) a t nn] lim a j show ?thesis by (simp add: describes_def)
  qed
  show desc: "\<forall>m\<in>set (topology_msgs c T). describes c T m"
  proof
    fix m
    assume "m \<in> set (topology_msgs c T)"
    then obtain a j where "a < AXIOM_NODES_NUM c" "j < AXIOM_INTERFACES_NUM c" "T ! a ! j \<noteq> AXIOM_NULL_NODE c"
      and m: "m = dscv AXIOM_DSCV_CMD_TOPOLOGY (of_nat a) (T ! a ! j) (of_nat j)
        (of_nat (remote_if T a (T ! a ! j)))" unfolding mem by auto
    then show "describes c T m" unfolding m by (intro d)
  qed
  have sub: "link_ends [m] \<subseteq> ?E" if "describes c T m" for m
    using that consts_okD(1) [OF ok] by (auto simp: describes_def link_ends_def)
  have "link_ends ms = (\<Union>m\<in>set ms. link_ends [m])" for ms by (auto simp: link_ends_def)
  then have "link_ends (topology_msgs c T) \<subseteq> ?E"
    by (metis (no_types, lifting) UN_least desc sub)
  moreover have "?E \<subseteq> link_ends (topology_msgs c T)"
  proof clarify
    fix a j
    assume "a < AXIOM_NODES_NUM c" "j < AXIOM_INTERFACES_NUM c" "T ! a ! j \<noteq> AXIOM_NULL_NODE c"
    then have "dscv AXIOM_DSCV_CMD_TOPOLOGY (of_nat a) (T ! a ! j) (of_nat j)
        (of_nat (remote_if T a (T ! a ! j))) \<in> set (topology_msgs c T)"
      "unat (of_nat a :: u8) = a" "unat (of_nat j :: u8) = j"
      using mem lim by auto
    then show "(a, j) \<in> link_ends (topology_msgs c T)" unfolding link_ends_def by fastforce
  qed
  ultimately show "link_ends (topology_msgs c T) = ?E" by (rule antisym)
qed

lemma record_link_described:
  assumes m: "describes c T m" and t: "is_table (AXIOM_NODES_NUM c) (AXIOM_INTERFACES_NUM c) t"
  shows "\<exists>t'. record_link (dm_src_node m) (dm_src_if m) (dm_dst_node m) (dm_dst_if m) t = Some t'
    \<and> is_table (AXIOM_NODES_NUM c) (AXIOM_INTERFACES_NUM c) t'
    \<and> (\<forall>a<AXIOM_NODES_NUM c. \<forall>j<AXIOM_INTERFACES_NUM c.
        t' ! a ! j = (if (a, j) \<in> link_ends [m] then T ! a ! j else t ! a ! j))"
proof -
  let ?a = "unat (dm_src_node m)" and ?b = "unat (dm_dst_node m)"
  let ?t1 = "t[?a := (t ! ?a)[unat (dm_src_if m) := dm_dst_node m]]"
  let ?t2 = "?t1[?b := (?t1 ! ?b)[unat (dm_dst_if m) := dm_src_node m]]"
  note D = is_tableD [OF t]
  have r: "?a < AXIOM_NODES_NUM c" "?b < AXIOM_NODES_NUM c"
    using m by (simp_all add: describes_def)
  have t1: "is_table (AXIOM_NODES_NUM c) (AXIOM_INTERFACES_NUM c) ?t1"
    using t D(2) [OF r(1)] by (intro is_table_update) simp_all
  have t2: "is_table (AXIOM_NODES_NUM c) (AXIOM_INTERFACES_NUM c) ?t2"
    using is_tableD(2) [OF t1 r(2)] by (intro is_table_update [OF t1]) simp
  have "record_link (dm_src_node m) (dm_src_if m) (dm_dst_node m) (dm_dst_if m) t = Some ?t2"
    using m D is_tableD [OF t1] r by (simp add: record_link_def describes_def)
  moreover have "?t2 ! a ! j = (if (a, j) \<in> link_ends [m] then T ! a ! j else t ! a ! j)"
    if "a < AXIOM_NODES_NUM c" "j < AXIOM_INTERFACES_NUM c" for a j
    using m D that r by (auto simp: describes_def link_ends_def nth_list_update)
  ultimately show ?thesis using t2 by blast
qed

lemma wait_links:
  assumes q: "queues_discovery api inbox" and keep: "msgs_keep_registers api"
    and "\<forall>m\<in>set ms. describes api T m" "inbox (ds_dev s) = map (Pair k) ms @ rest"
    and "ds_msg_cmd s \<noteq> AXIOM_DSCV_CMD_END_TOPOLOGY"
    and "is_table (AXIOM_NODES_NUM api) (AXIOM_INTERFACES_NUM api) (ds_topology s)"
  shows "\<exists>s'. while_ctl (\<lambda>s. ds_msg_cmd s \<noteq> AXIOM_DSCV_CMD_END_TOPOLOGY) (wait_topology api n i st) s
      = while_ctl (\<lambda>s. ds_msg_cmd s \<noteq> AXIOM_DSCV_CMD_END_TOPOLOGY) (wait_topology api n i st) s'
    \<and> inbox (ds_dev s') = rest \<and> local_routing (ds_dev s') = local_routing (ds_dev s)
    \<and> ds_msg_cmd s' \<noteq> AXIOM_DSCV_CMD_END_TOPOLOGY
    \<and> is_table (AXIOM_NODES_NUM api) (AXIOM_INTERFACES_NUM api) (ds_topology s')
    \<and> (\<forall>a<AXIOM_NODES_NUM api. \<forall>j<AXIOM_INTERFACES_NUM api. ds_topology s' ! a ! j =
        (if (a, j) \<in> link_ends ms then T ! a ! j else ds_topology s ! a ! j))"
  using assms(3-)
proof (induction ms arbitrary: s)
  case Nil
  then show ?case by (intro exI [of _ s]) (simp add: link_ends_def)
next
  case (Cons m ms)
  from fifo_recv [OF q, of "ds_dev s" k m "map (Pair k) ms @ rest"] Cons.prems(2) obtain e d' where
    r: "axiom_recv_raw_discovery api (ds_dev s) = Some (e, k, m, d')" "AXIOM_RET_IS_OK api e"
      "inbox d' = map (Pair k) ms @ rest" by auto
  have lr: "local_routing d' = local_routing (ds_dev s)"
    using msgs_keepD(2) [OF keep r(1)] by (simp add: same_registers_def)
  from record_link_described [OF _ Cons.prems(4), of T m] Cons.prems(1) obtain t where
    t: "record_link (dm_src_node m) (dm_src_if m) (dm_dst_node m) (dm_dst_if m) (ds_topology s) = Some t"
      "is_table (AXIOM_NODES_NUM api) (AXIOM_INTERFACES_NUM api) t"
      "\<forall>a<AXIOM_NODES_NUM api. \<forall>j<AXIOM_INTERFACES_NUM api.
        t ! a ! j = (if (a, j) \<in> link_ends [m] then T ! a ! j else ds_topology s ! a ! j)" by auto
  have cmd: "dm_command m = AXIOM_DSCV_CMD_TOPOLOGY" using Cons.prems(1) by (simp add: describes_def)
  let ?s = "s\<lparr>ds_dev := d', ds_msg_cmd := dm_command m, ds_topology := t\<rparr>"
  have step: "wait_topology api n i st s = Some (Next, ?s)"
    using r t(1) cmd by (simp add: wait_topology_def)
  have ends: "link_ends (m # ms) = link_ends [m] \<union> link_ends ms" by (auto simp: link_ends_def)
  from Cons.IH [of ?s] Cons.prems r(3) t(2) cmd obtain s' where
    s': "while_ctl (\<lambda>s. ds_msg_cmd s \<noteq> AXIOM_DSCV_CMD_END_TOPOLOGY) (wait_topology api n i st) ?s
        = while_ctl (\<lambda>s. ds_msg_cmd s \<noteq> AXIOM_DSCV_CMD_END_TOPOLOGY) (wait_topology api n i st) s'"
      "inbox (ds_dev s') = rest" "local_routing (ds_dev s') = local_routing d'"
      "ds_msg_cmd s' \<noteq> AXIOM_DSCV_CMD_END_TOPOLOGY"
      "is_table (AXIOM_NODES_NUM api) (AXIOM_INTERFACES_NUM api) (ds_topology s')"
      "\<forall>a<AXIOM_NODES_NUM api. \<forall>j<AXIOM_INTERFACES_NUM api. ds_topology s' ! a ! j =
        (if (a, j) \<in> link_ends ms then T ! a ! j else t ! a ! j)" by auto
  have "while_ctl (\<lambda>s. ds_msg_cmd s \<noteq> AXIOM_DSCV_CMD_END_TOPOLOGY) (wait_topology api n i st) s
      = while_ctl (\<lambda>s. ds_msg_cmd s \<noteq> AXIOM_DSCV_CMD_END_TOPOLOGY) (wait_topology api n i st) s'"
    using Cons.prems(3) step s'(1) by (simp add: while_ctl_Next)
  with s' t(3) lr show ?case unfolding ends by (intro exI [of _ s']) simp
qed

text \<open>The \<open>AXIOM_DSCV_CMD_END_TOPOLOGY\<close> message ends the loop.\<close>

lemma wait_end_topology:
  assumes q: "queues_discovery api inbox" and keep: "msgs_keep_registers api" and reg: "sim_registers api"
    and ok: "consts_ok api" and i: "i \<le> AXIOM_INTERFACES_MAX api" and nx: "unat nx < AXIOM_NODES_NUM api"
    and inb: "inbox (ds_dev s) = (k, dscv AXIOM_DSCV_CMD_END_TOPOLOGY nx 0 0 0) # rest"
    and dev: "sim_ok api (ds_dev s)"
  shows "\<exists>s'. wait_topology api n i st s = Some (Next, s') \<and> ds_msg_cmd s' = AXIOM_DSCV_CMD_END_TOPOLOGY
    \<and> ds_topology s' = ds_topology s \<and> ds_next_id s' = nx
    \<and> (\<forall>j<AXIOM_NODES_NUM api. routing_reg api (ds_dev s') j =
        (if unat st \<le> j \<and> j \<le> unat nx then push_bit i 1 AND sim_mask api else routing_reg api (ds_dev s) j))"
proof -
  from fifo_recv [OF q inb] obtain e d1 where
    r: "axiom_recv_raw_discovery api (ds_dev s) = Some (e, k, dscv AXIOM_DSCV_CMD_END_TOPOLOGY nx 0 0 0, d1)"
      "AXIOM_RET_IS_OK api e" by blast
  have lr: "local_routing d1 = local_routing (ds_dev s)"
    using msgs_keepD(2) [OF keep r(1)] by (simp add: same_registers_def)
  have "sim_ok api d1" using dev by (simp only: sim_ok_cong [OF lr])
  moreover have "AXIOM_NODES_NUM api \<le> 255"
    using consts_okD(7) [OF ok] by simp
  ultimately obtain kk d2 where w: "while_ctl (\<lambda>(k, _). k \<le> nx)
      (\<lambda>(k, d). do { (_, d) \<leftarrow> sim_set_routing api d k (push_bit i 1); Some (Next, k + 1, d) }) (st, d1) = Some (kk, d2)"
    and regs: "\<forall>j<AXIOM_NODES_NUM api. routing_reg api d2 j =
      (if unat st \<le> j \<and> j \<le> unat nx then push_bit i 1 AND sim_mask api else routing_reg api d1 j)"
    using sim.write_range [of api d1 nx "push_bit i 1" st] nx unfolding sim.rt_of_def routing_reg_def by blast
  have "route_range api st nx (push_bit i 1) d1 = Some d2"
    using w reg by (simp add: route_range_def sim_registers_def)
  moreover have "axiom_codify_routing_mask i = Some (push_bit i 1)"
    using i consts_okD(3) [OF ok] by (simp add: axiom_codify_routing_mask_def)
  ultimately have "wait_topology api n i st s = Some (Next, s\<lparr>ds_dev := d2,
      ds_msg_cmd := AXIOM_DSCV_CMD_END_TOPOLOGY, ds_next_id := nx\<rparr>)"
    using r by (simp add: wait_topology_def)
  with regs routing_reg_cong [OF lr, of api] show ?thesis by simp
qed

text \<open>C6: the topology a slave sends back is the topology its parent ends with. The slave's send
  succeeds; a parent that waits on the interface where these messages and the end marker arrive leaves
  the wait with the slave's links laid over its own table, with the slave's last node id, and with the
  routing registers of all the nodes found by the slave pointing to that interface.\<close>

theorem topology_transfer:
  assumes "consts_ok api" "logs_discovery api sent" "queues_discovery api inbox" "msgs_keep_registers api"
    "sim_registers api" "links_ok api T" "sent slave = []" "i \<le> AXIOM_INTERFACES_MAX api"
    "unat nx < AXIOM_NODES_NUM api" "sim_ok api (ds_dev s)" "ds_msg_cmd s = cmd0"
    "is_table (AXIOM_NODES_NUM api) (AXIOM_INTERFACES_NUM api) (ds_topology s)"
  shows "\<exists>e slave'. send_topology api k T (AXIOM_RET_OK api, slave) = Some (e, slave') \<and> AXIOM_RET_IS_OK api e
    \<and> (inbox (ds_dev s) = map (\<lambda>x. (of_nat i, snd x)) (sent slave')
          @ (of_nat i, dscv AXIOM_DSCV_CMD_END_TOPOLOGY nx 0 0 0) # rest \<longrightarrow>
        (\<exists>s'. while_ctl (\<lambda>s. ds_msg_cmd s \<noteq> AXIOM_DSCV_CMD_END_TOPOLOGY) (wait_topology api n i st) s = Some s'
          \<and> ds_next_id s' = nx
          \<and> (\<forall>a<AXIOM_NODES_NUM api. \<forall>j<AXIOM_INTERFACES_NUM api. ds_topology s' ! a ! j =
              (if T ! a ! j \<noteq> AXIOM_NULL_NODE api then T ! a ! j else ds_topology s ! a ! j))
          \<and> (\<forall>j<AXIOM_NODES_NUM api. routing_reg api (ds_dev s') j =
              (if unat st \<le> j \<and> j \<le> unat nx then push_bit i 1 AND sim_mask api
               else routing_reg api (ds_dev s) j))))"
proof -
  let ?w = "while_ctl (\<lambda>s. ds_msg_cmd s \<noteq> AXIOM_DSCV_CMD_END_TOPOLOGY) (wait_topology api n i st)"
  let ?fin = "(of_nat i, dscv AXIOM_DSCV_CMD_END_TOPOLOGY nx 0 0 0) # rest"
  note D = topology_msgs_describe [OF assms(6,1)]
  from send_topology_run [OF assms(2,6) consts_okD(5) [OF assms(1)], of k slave] obtain e slave' where
    snd: "send_topology api k T (AXIOM_RET_OK api, slave) = Some (e, slave')" "AXIOM_RET_IS_OK api e"
      "sent slave' = map (Pair k) (topology_msgs api T)" using assms(7) by auto
  have "\<exists>s'. ?w s = Some s' \<and> ds_next_id s' = nx
      \<and> (\<forall>a<AXIOM_NODES_NUM api. \<forall>j<AXIOM_INTERFACES_NUM api. ds_topology s' ! a ! j =
              (if T ! a ! j \<noteq> AXIOM_NULL_NODE api then T ! a ! j else ds_topology s ! a ! j))
      \<and> (\<forall>j<AXIOM_NODES_NUM api. routing_reg api (ds_dev s') j =
              (if unat st \<le> j \<and> j \<le> unat nx then push_bit i 1 AND sim_mask api
               else routing_reg api (ds_dev s) j))"
    if inb: "inbox (ds_dev s) = map (\<lambda>x. (of_nat i, snd x)) (sent slave') @ ?fin"
  proof -
    have "inbox (ds_dev s) = map (Pair (of_nat i)) (topology_msgs api T) @ ?fin"
      using inb snd(3) by (simp add: o_def)
    from wait_links [OF assms(3,4) D(1) this _ assms(12), of n i st] assms(11) obtain s1 where
      s1: "?w s = ?w s1" "inbox (ds_dev s1) = ?fin" "local_routing (ds_dev s1) = local_routing (ds_dev s)"
        "ds_msg_cmd s1 \<noteq> AXIOM_DSCV_CMD_END_TOPOLOGY"
        "\<forall>a<AXIOM_NODES_NUM api. \<forall>j<AXIOM_INTERFACES_NUM api. ds_topology s1 ! a ! j =
          (if (a, j) \<in> link_ends (topology_msgs api T) then T ! a ! j else ds_topology s ! a ! j)" by auto
    have "sim_ok api (ds_dev s1)" using assms(10) by (simp only: sim_ok_cong [OF s1(3)])
    from wait_end_topology [OF assms(3,4,5,1,8,9) s1(2) this, of n st] obtain s2 where
      s2: "wait_topology api n i st s1 = Some (Next, s2)" "ds_msg_cmd s2 = AXIOM_DSCV_CMD_END_TOPOLOGY"
        "ds_topology s2 = ds_topology s1" "ds_next_id s2 = nx"
        "\<forall>j<AXIOM_NODES_NUM api. routing_reg api (ds_dev s2) j = (if unat st \<le> j \<and> j \<le> unat nx
          then push_bit i 1 AND sim_mask api else routing_reg api (ds_dev s1) j)" by blast
    have "?w s = Some s2" using s1(1,4) s2(1,2) by (simp add: while_ctl_Next [where s' = s2])
    with s1(5) s2(3-5) routing_reg_cong [OF s1(3), of api] D(2) show ?thesis by simp
  qed
  with snd(1,2) show ?thesis by blast
qed

section \<open>A node on its own\<close>

lemma discover_ifs_unconnected:
  assumes "\<And>d i f. snd (axiom_get_if_info api d i f) AND AXIOM_IF_CONNECTED api = 0"
  shows "\<exists>f. for_ctl (discover_if api n) is s = Some (s\<lparr>ds_if_features := f\<rparr>)"
proof (induction "is" arbitrary: s)
  case Nil
  show ?case by (rule exI [of _ "ds_if_features s"]) simp
next
  case (Cons i "is")
  let ?s = "s\<lparr>ds_if_features := snd (axiom_get_if_info api (ds_dev s) (of_nat i) (ds_if_features s))\<rparr>"
  have "discover_if api n i s = Some (Next, ?s)" using assms by (simp add: discover_if_def)
  with Cons.IH [of ?s] show ?case by simp
qed

lemma axiom_topology_init_result:
  assumes "is_table (AXIOM_NODES_NUM c) (AXIOM_INTERFACES_NUM c) T"
  shows "axiom_topology_init c T = Some (replicate (AXIOM_NODES_NUM c) (replicate (AXIOM_INTERFACES_NUM c) (AXIOM_NULL_NODE c)))"
proof -
  let ?N = "AXIOM_NODES_NUM c" and ?W = "AXIOM_INTERFACES_NUM c" and ?z = "AXIOM_NULL_NODE c"
  let ?row = "\<lambda>i. for_each (\<lambda>j t. aset2 t i j ?z) [0..<?W]"
  have row: "\<exists>t'. ?row i t = Some t' \<and> t' = t[i := replicate ?W ?z]"
    if t: "is_table ?N ?W t" and i: "i < ?N" for t i
  proof -
    have "\<exists>t'. ?row i t = Some t' \<and> (\<lambda>k t'. t' = t[i := replicate k ?z @ drop k (t ! i)]) (length [0..<?W]) t'"
    proof (rule for_each_rule)
      fix k t'
      assume k: "k < length [0..<?W]" and t': "t' = t[i := replicate k ?z @ drop k (t ! i)]"
      then have "drop k (t ! i) = t ! i ! k # drop (Suc k) (t ! i)"
        using is_tableD(2) [OF t i] by (simp add: Cons_nth_drop_Suc)
      with k t' i is_tableD [OF t]
      show "\<exists>s'. aset2 t' i ([0..<?W] ! k) ?z = Some s' \<and> s' = t[i := replicate (Suc k) ?z @ drop (Suc k) (t ! i)]"
        by (simp add: list_update_append replicate_app_Cons_same)
    qed simp
    then show ?thesis using is_tableD(2) [OF t i] by simp
  qed
  have "\<exists>t. for_each ?row [0..<?N] T = Some t
      \<and> (\<lambda>k t. t = replicate k (replicate ?W ?z) @ drop k T) (length [0..<?N]) t"
  proof (rule for_each_rule)
    fix k t
    assume k: "k < length [0..<?N]" and t: "t = replicate k (replicate ?W ?z) @ drop k T"
    then have "is_table ?N ?W t" using assms by (auto simp: is_table_def dest: in_set_dropD)
    moreover have "drop k T = T ! k # drop (Suc k) T"
      using k is_tableD(1) [OF assms] by (simp add: Cons_nth_drop_Suc)
    ultimately show "\<exists>s'. ?row ([0..<?N] ! k) t = Some s'
        \<and> s' = replicate (Suc k) (replicate ?W ?z) @ drop (Suc k) T"
      using row [of t k] k t by (simp add: list_update_append replicate_app_Cons_same)
  qed simp
  then show ?thesis using is_tableD(1) [OF assms] by (simp add: axiom_topology_init_def)
qed

text \<open>A master with no connected interface discovers itself: the whole table is empty, the last
  node is the one after it, and its only route is the loopback interface to itself.\<close>

theorem master_discovery_alone:
  assumes "consts_ok api" "sim_registers api" "sim_ok api dev" "unat m < AXIOM_NODES_NUM api"
    "is_table (AXIOM_NODES_NUM api) (AXIOM_INTERFACES_NUM api) T"
    "\<And>d i f. snd (axiom_get_if_info api d i f) AND AXIOM_IF_CONNECTED api = 0"
  shows "\<exists>dev'. axiom_master_node_discovery api dev T m = Some (AXIOM_RET_OK api, dev',
      replicate (AXIOM_NODES_NUM api) (replicate (AXIOM_INTERFACES_NUM api) (AXIOM_NULL_NODE api)), m + 1)
    \<and> sim_node_id dev' = m
    \<and> (\<forall>j<AXIOM_NODES_NUM api. routing_reg api dev' j =
        (if j = unat m then push_bit (unat (AXIOM_IF_LOOPBACK api)) 1 AND sim_mask api else 0))"
proof -
  let ?N = "AXIOM_NODES_NUM api"
  let ?T = "replicate ?N (replicate (AXIOM_INTERFACES_NUM api) (AXIOM_NULL_NODE api))"
  have N: "?N \<le> 256" using consts_okD(7) [OF assms(1)] by simp
  from sim.write_all [OF assms(3) order_refl N, of "\<lambda>_. 0"] obtain d1 where
    d1: "for_each (\<lambda>i d. do { (_, d') \<leftarrow> sim_set_routing api d (of_nat i) 0; Some d' }) [0..<?N] dev = Some d1"
      "sim_ok api d1" "\<forall>j<?N. routing_reg api d1 j = 0"
    unfolding sim.rt_of_def routing_reg_def by auto
  have eq: "(\<lambda>i d. do { (_, d') \<leftarrow> sim_set_routing api d (of_nat i) 0; Some d' })
      = (\<lambda>i d. map_option snd (sim_set_routing api d (of_nat i) 0))"
  proof (intro ext)
    show "do { (_, d') \<leftarrow> sim_set_routing api d (of_nat i) 0; Some d' } =
        map_option snd (sim_set_routing api d (of_nat i) 0)" for i d
      by (cases "sim_set_routing api d (of_nat i) 0") auto
  qed
  from d1(1) [unfolded eq] assms(2) have init: "axiom_routing_init api dev = Some d1"
    by (simp add: axiom_routing_init_def sim_registers_def)
  let ?d2 = "sim_set_node_id d1 m"
  have d2: "sim_ok api ?d2" "\<forall>j<?N. routing_reg api ?d2 j = 0"
    using d1 sim_ok_cong [of ?d2 d1 api] routing_reg_cong [of ?d2 d1 api] by (auto simp: sim_set_node_id_def)
  let ?lo = "push_bit (unat (AXIOM_IF_LOOPBACK api)) 1"
  from sim.set_rt_total [OF d2(1) assms(4), of ?lo] obtain e d3 where d3: "sim_set_routing api ?d2 m ?lo = Some (e, d3)" by blast
  have regs: "\<forall>j<?N. routing_reg api d3 j = (if j = unat m then ?lo AND sim_mask api else 0)"
    using sim.rt_of_set [OF d2(1) assms(4) N _ d3] d2(2) unfolding sim.rt_of_def routing_reg_def by auto
  have id: "sim_node_id d3 = m"
    using sim_set_routing_id [OF d3] by (simp add: sim_set_node_id_def)
  have lo: "axiom_codify_routing_mask (unat (AXIOM_IF_LOOPBACK api)) = Some ?lo"
    using consts_okD(4) [OF assms(1)] by (simp add: axiom_codify_routing_mask_def)
  have "discover_phase api ?d2 m ?T = Some (AXIOM_RET_OK api, d3, m, ?T)"
    using discover_ifs_unconnected [OF assms(6), of m
        "[0..<unat (snd (axiom_get_if_number api d3 0))]" "\<lparr>ds_dev = d3, ds_topology = ?T, ds_next_id = m,
          ds_if_features = 0, ds_msg_cmd = cmd0\<rparr>"] lo d3 assms(2)
    by (auto simp: discover_phase_def sim_registers_def sim_get_node_id_def sim_set_node_id_def)
  with init assms(2) axiom_topology_init_result [OF assms(5)] regs id show ?thesis
    by (simp add: axiom_master_node_discovery_def sim_registers_def)
qed

section \<open>Instances\<close>

lemma demo_logs_discovery: "logs_discovery demo_api discovery_sent"
  by (simp add: lossless_def demo_api_def)

lemma demo_queues_discovery: "queues_discovery demo_api discovery_inbox"
  by (auto simp: fifo_def demo_api_def)

text \<open>Node 1 and node 2, on the second interface of node 1 and the first of node 2.\<close>

definition demo_links :: topology where
  "demo_links = [[255, 255, 255, 255], [255, 2, 255, 255], [1, 255, 255, 255], [255, 255, 255, 255]]"

lemma demo_links_ok: "links_ok demo_api demo_links"
  by (simp add: links_ok_def demo_links_def is_table_def range_eval)

definition demo_parent :: "(u8 \<times> dscv_msg) list \<Rightarrow> demo_dev dscv_state" where
  "demo_parent inb = \<lparr>ds_dev = (demo_node 0)\<lparr>discovery_inbox := inb\<rparr>,
     ds_topology = replicate 4 (replicate 4 255), ds_next_id = 1, ds_if_features = 0, ds_msg_cmd = cmd0\<rparr>"

lemma demo_parent_simps [simp]:
  "ds_msg_cmd (demo_parent inb) = cmd0" "ds_topology (demo_parent inb) = replicate 4 (replicate 4 255)"
  "discovery_inbox (ds_dev (demo_parent inb)) = inb" "sim_ok demo_api (ds_dev (demo_parent inb))"
  using demo_sim_ok [of 0] by (simp_all add: demo_parent_def sim_ok_def)

theorem topology_transfer_witness:
  "\<exists>e slave' s'. send_topology demo_api 3 demo_links (0, demo_node 1) = Some (e, slave')
    \<and> while_ctl (\<lambda>s. ds_msg_cmd s \<noteq> AXIOM_DSCV_CMD_END_TOPOLOGY) (wait_topology demo_api 0 0 1)
        (demo_parent (map (\<lambda>x. (0, snd x)) (discovery_sent slave')
          @ [(0, dscv AXIOM_DSCV_CMD_END_TOPOLOGY 2 0 0 0)])) = Some s'
    \<and> ds_next_id s' = 2 \<and> ds_topology s' ! 1 ! 1 = 2 \<and> routing_reg demo_api (ds_dev s') 2 = 1"
proof -
  let ?fin = "[(0, dscv AXIOM_DSCV_CMD_END_TOPOLOGY 2 0 0 0)]"
  have m: "sim_mask demo_api = 15" by (simp add: sim_mask_def mask_eq_exp_minus_1)
  note T = topology_transfer [OF demo_api_ok demo_logs_discovery demo_queues_discovery demo_keep
      demo_registers demo_links_ok, of "demo_node 1" 0 2 "demo_parent _" 3 "[]" 0 1]
  from T [of "[]"] obtain e slave' where
    s: "send_topology demo_api 3 demo_links (0, demo_node 1) = Some (e, slave')" by auto
  have l: "demo_links ! 1 ! 1 = 2" by (simp add: demo_links_def)
  from T [of "map (\<lambda>x. (0, snd x)) (discovery_sent slave') @ ?fin"] s m l show ?thesis by fastforce
qed

text \<open>The same NIC with no interface connected.\<close>

definition demo_alone :: "demo_dev nic_api" where
  "demo_alone = demo_api\<lparr>axiom_get_if_info := (\<lambda>d i f. (0, 0))\<rparr>"

lemma demo_alone_simps:
  "consts_ok demo_alone" "sim_registers demo_alone" "sim_ok demo_alone (demo_node 9)"
  "AXIOM_NODES_NUM demo_alone = 4" "AXIOM_INTERFACES_NUM demo_alone = 4" "AXIOM_NULL_NODE demo_alone = 255"
  "axiom_get_if_info demo_alone d i f = (0, 0)" "AXIOM_IF_LOOPBACK demo_alone = 6" "AXIOM_RET_OK demo_alone = 0"
  using demo_api_ok demo_registers demo_sim_ok [of 9]
  by (simp_all add: demo_alone_def consts_ok_def sim_registers_def sim_ok_def sim_set_routing_def
      sim_get_routing_def fun_eq_iff)

theorem master_discovery_alone_witness:
  "\<exists>dev'. axiom_master_node_discovery demo_alone (demo_node 9) (replicate 4 (replicate 4 7)) 0
      = Some (0, dev', replicate 4 (replicate 4 255), 1) \<and> sim_node_id dev' = 0 \<and> routing_reg demo_alone dev' 2 = 0"
  using master_discovery_alone [OF demo_alone_simps(1-3), of 0 "replicate 4 (replicate 4 7)"]
  by (auto simp: demo_alone_simps)

end
