(* ===== verification/Routing_Delivery.thy ===== *)
theory Routing_Delivery
  imports Routing_Compute Demo_Nic
begin

text \<open>
  Delivery of the computed tables to the slaves and their installation in the routing registers
  (\<open>axiom-init/axiom-discovery/axiom_routing.c\<close>, second part). The messages go through the raw
  delivery and set-routing calls of the NIC library, which are fields of the parameter
  \<open>nic_api\<close>; what the theorems need of them is stated by the predicates of the section on the
  message contract.
\<close>

section \<open>The code\<close>

definition axiom_init_routing_table :: "'c axiom_consts_scheme \<Rightarrow> u8 list \<Rightarrow> u8 list option" where
  "axiom_init_routing_table c routing_table =
     for_each (\<lambda>i rt. aset rt i AXIOM_NULL_RT_INTERFACE) [0..<AXIOM_NODES_NUM c] routing_table"

text \<open>The row of one destination: the body of the first loop. A failed send returns from the
  function; as every continuation of the function is guarded by \<open>AXIOM_RET_IS_OK(ret)\<close>, the return
  is a break with the failing code.\<close>

definition delivery_row ::
  "('d, 'm) nic_api_scheme \<Rightarrow> u8 list list \<Rightarrow> u8 \<Rightarrow> nat \<Rightarrow> err \<times> 'd \<Rightarrow> (err \<times> 'd) option" where
  "delivery_row api rts last_node dest_node_index s =
     for_ctl (\<lambda>rt_node_index (ret, dev). do {
         ifaces \<leftarrow> aget2 rts dest_node_index rt_node_index;
         if ifaces \<noteq> AXIOM_NULL_RT_INTERFACE
         then (let (ret, dev) = axiom_send_raw_delivery api dev (of_nat dest_node_index)
                 \<lparr>rm_command = AXIOM_RT_CMD_INFO, rm_node_id = of_nat rt_node_index, rm_if_mask = ifaces\<rparr>
               in if AXIOM_RET_IS_OK api ret then Some (Next, ret, dev) else Some (Break, ret, dev))
         else Some (Next, ret, dev)
       }) [0..<unat last_node] s"

definition axiom_delivery_routing_tables ::
  "('d, 'm) nic_api_scheme \<Rightarrow> 'd \<Rightarrow> u8 list list \<Rightarrow> u8 \<Rightarrow> u8 \<Rightarrow> (err \<times> 'd) option" where
  "axiom_delivery_routing_tables api dev rts master_id last_node = do {
     (ret, dev) \<leftarrow> for_ctl (\<lambda>dest_node_index (ret, dev).
         if AXIOM_RET_IS_OK api ret
         then map_option (Pair Next) (delivery_row api rts last_node dest_node_index (ret, dev))
         else Some (Break, ret, dev))
       [unat (master_id + 1)..<unat last_node] (AXIOM_RET_OK api, dev);
     for_ctl (\<lambda>dest_node_index (ret, dev).
         if AXIOM_RET_IS_OK api ret
         then Some (Next, axiom_send_raw_delivery api dev (of_nat dest_node_index)
                \<lparr>rm_command = AXIOM_RT_CMD_END_INFO, rm_node_id = 0, rm_if_mask = 0\<rparr>)
         else Some (Break, ret, dev))
       [unat (master_id + 1)..<unat last_node] (ret, dev)
   }"

text \<open>The state of the loop of \<open>axiom_wait_rt_received\<close>: the device, the array of the replies, their
  number, and the value returned by the function when it returns from inside the loop.\<close>

record 'd wait_state =
  ws_dev :: 'd
  reply_received :: "u8 list"
  reply_received_num :: int
  ws_ret :: err

definition wait_reply ::
  "('d, 'm) nic_api_scheme \<Rightarrow> 'd wait_state \<Rightarrow> (ctl \<times> 'd wait_state) option" where
  "wait_reply api s = do {
     (ret, src_node_id, m, dev) \<leftarrow> axiom_recv_raw_delivery api (ws_dev s);
     if \<not> AXIOM_RET_IS_OK api ret \<or> rm_command m \<noteq> AXIOM_RT_CMD_RT_REPLY
     then Some (Break, s\<lparr>ws_dev := dev, ws_ret := AXIOM_RET_ERROR api\<rparr>)
     else do {
       r \<leftarrow> aget (reply_received s) (unat (rm_node_id m));
       if r = 0
       then do {
         rr \<leftarrow> aset (reply_received s) (unat (rm_node_id m)) 1;
         Some (Next, s\<lparr>ws_dev := dev, reply_received := rr, reply_received_num := reply_received_num s + 1\<rparr>)
       }
       else Some (Next, s\<lparr>ws_dev := dev\<rparr>)
     }
   }"

definition axiom_wait_rt_received ::
  "('d, 'm) nic_api_scheme \<Rightarrow> 'd \<Rightarrow> u8 \<Rightarrow> u8 \<Rightarrow> (err \<times> 'd) option" where
  "axiom_wait_rt_received api dev master_id last_node = do {
     s \<leftarrow> while_ctl
       (\<lambda>s. reply_received_num s \<noteq> int (unat last_node) - int (unat master_id) - 1)
       (wait_reply api)
       \<lparr>ws_dev = dev, reply_received = replicate (AXIOM_NODES_NUM api) 0, reply_received_num = 0,
        ws_ret = AXIOM_RET_OK api\<rparr>;
     Some (ws_ret s, ws_dev s)
   }"

text \<open>The state of the loop of \<open>axiom_receive_routing_tables\<close>; \<open>rs_max_node\<close> is the output parameter
  \<open>*max_node_id\<close>.\<close>

record 'd recv_state =
  rs_dev :: 'd
  rs_rt :: "u8 list"
  rs_cmd :: axiom_cmd
  rs_max_id :: u8
  rs_max_node :: u8
  rs_ret :: err

definition receive_row ::
  "('d, 'm) nic_api_scheme \<Rightarrow> u8 \<Rightarrow> 'd recv_state \<Rightarrow> (ctl \<times> 'd recv_state) option" where
  "receive_row api node_id s = do {
     (ret, src_node_id, m, dev) \<leftarrow> axiom_recv_raw_delivery api (rs_dev s);
     let s = s\<lparr>rs_dev := dev, rs_cmd := rm_command m, rs_ret := ret\<rparr>;
     if \<not> AXIOM_RET_IS_OK api ret then Some (Break, s)
     else if rm_command m = AXIOM_RT_CMD_INFO
     then do {
       rt \<leftarrow> aset (rs_rt s) (unat (rm_node_id m)) (rm_if_mask m);
       Some (Next, s\<lparr>rs_rt := rt, rs_max_id := max (rs_max_id s) (rm_node_id m)\<rparr>)
     }
     else if rm_command m = AXIOM_RT_CMD_END_INFO
     then (let (ret, dev) = axiom_send_raw_delivery api (rs_dev s) src_node_id
                 \<lparr>rm_command = AXIOM_RT_CMD_RT_REPLY, rm_node_id = node_id, rm_if_mask = 0\<rparr>;
               s = s\<lparr>rs_dev := dev, rs_ret := ret,
                     rs_max_node := if node_id > rs_max_id s then node_id else rs_max_id s\<rparr>
           in Some (if AXIOM_RET_IS_OK api ret then Next else Break, s))
     else Some (Next, s)
   }"

text \<open>The result: the return code, the filled table, \<open>*max_node_id\<close> and the device.\<close>

definition axiom_receive_routing_tables ::
  "('d, 'm) nic_api_scheme \<Rightarrow> 'd \<Rightarrow> u8 \<Rightarrow> u8 list \<Rightarrow> u8 \<Rightarrow> (err \<times> u8 list \<times> u8 \<times> 'd) option" where
  "axiom_receive_routing_tables api dev node_id routing_table max_node_id = do {
     rt \<leftarrow> axiom_init_routing_table api routing_table;
     s \<leftarrow> while_ctl (\<lambda>s. rs_cmd s \<noteq> AXIOM_RT_CMD_END_INFO) (receive_row api node_id)
       \<lparr>rs_dev = dev, rs_rt = rt, rs_cmd = cmd0, rs_max_id = 0, rs_max_node = max_node_id,
        rs_ret = AXIOM_RET_OK api\<rparr>;
     Some (rs_ret s, rs_rt s, rs_max_node s, rs_dev s)
   }"

definition axiom_write_routing_table ::
  "('d, 'm) nic_api_scheme \<Rightarrow> 'd \<Rightarrow> u8 list \<Rightarrow> 'd option" where
  "axiom_write_routing_table api dev routing_table =
     for_each (\<lambda>i dev. do {
       v \<leftarrow> aget routing_table i;
       (_, dev') \<leftarrow> axiom_set_routing api dev (of_nat i) v;
       Some dev'
     }) [0..<AXIOM_NODES_NUM api] dev"

text \<open>The variables of \<open>axiom_set_routing_table\<close>.\<close>

record 'd set_state =
  ss_dev :: 'd
  ss_if_features :: u8
  ss_cmd :: axiom_cmd
  ss_num_interface :: u8
  ss_ret :: err

text \<open>The loop that tells the neighbours to set their tables; the master does not count the
  interfaces, which it never reads.\<close>

definition send_set_routing :: "('d, 'm) nic_api_scheme \<Rightarrow> nat \<Rightarrow> 'd set_state \<Rightarrow> (ctl \<times> 'd set_state) option" where
  "send_set_routing api if_index s =
     (if AXIOM_RET_IS_OK api (ss_ret s)
      then (let f = snd (axiom_get_if_info api (ss_dev s) (of_nat if_index) (ss_if_features s));
                s = s\<lparr>ss_if_features := f\<rparr>
            in if f AND AXIOM_IF_CONNECTED api \<noteq> 0
               then (let (ret, dev) = axiom_send_raw_set_routing api (ss_dev s) (of_nat if_index)
                           AXIOM_RT_CMD_SET_ROUTING;
                         s = s\<lparr>ss_dev := dev, ss_ret := ret\<rparr>
                     in if AXIOM_RET_IS_OK api ret
                        then Some (Next, s\<lparr>ss_num_interface := ss_num_interface s + 1\<rparr>)
                        else Some (Break, s))
               else Some (Next, s))
      else Some (Break, s))"

definition master_wait_answer ::
  "('d, 'm) nic_api_scheme \<Rightarrow> nat \<Rightarrow> 'd set_state \<Rightarrow> (ctl \<times> 'd set_state) option" where
  "master_wait_answer api if_index s =
     (if AXIOM_RET_IS_OK api (ss_ret s)
      then (let f = snd (axiom_get_if_info api (ss_dev s) (of_nat if_index) (ss_if_features s));
                s = s\<lparr>ss_if_features := f\<rparr>
            in if f AND AXIOM_IF_CONNECTED api \<noteq> 0
               then do {
                 (ret, src_interface, cmd, dev) \<leftarrow> axiom_recv_raw_set_routing api (ss_dev s);
                 Some (if AXIOM_RET_IS_OK api ret then Next else Break,
                       s\<lparr>ss_dev := dev, ss_cmd := cmd, ss_ret := ret\<rparr>)
               }
               else Some (Next, s))
      else Some (Break, s))"

definition slave_wait_set ::
  "('d, 'm) nic_api_scheme \<Rightarrow> u8 list \<Rightarrow> 'd set_state \<Rightarrow> (ctl \<times> 'd set_state) option" where
  "slave_wait_set api routing_table s = do {
     (ret, src_interface, cmd, dev) \<leftarrow> axiom_recv_raw_set_routing api (ss_dev s);
     let s = s\<lparr>ss_dev := dev, ss_cmd := cmd, ss_ret := ret\<rparr>;
     if \<not> AXIOM_RET_IS_OK api ret then Some (Break, s)
     else if cmd = AXIOM_RT_CMD_SET_ROUTING
     then do {
       dev \<leftarrow> axiom_write_routing_table api (ss_dev s) routing_table;
       Some (Next, s\<lparr>ss_dev := dev\<rparr>)
     }
     else Some (Next, s)
   }"

definition slave_drain ::
  "('d, 'm) nic_api_scheme \<Rightarrow> 'd set_state \<Rightarrow> (ctl \<times> 'd set_state) option" where
  "slave_drain api s = do {
     (ret, src_interface, cmd, dev) \<leftarrow> axiom_recv_raw_set_routing api (ss_dev s);
     let s = s\<lparr>ss_dev := dev, ss_cmd := cmd, ss_ret := ret\<rparr>;
     Some (if AXIOM_RET_IS_OK api ret then (Next, s\<lparr>ss_num_interface := ss_num_interface s - 1\<rparr>)
           else (Break, s))
   }"

text \<open>The result: the return code, the table (its entry for the local node is changed) and the
  device.\<close>

definition axiom_set_routing_table ::
  "('d, 'm) nic_api_scheme \<Rightarrow> 'd \<Rightarrow> u8 list \<Rightarrow> bool \<Rightarrow> (err \<times> u8 list \<times> 'd) option" where
  "axiom_set_routing_table api dev routing_table master = do {
     lo \<leftarrow> shl1_u8 (unat (AXIOM_IF_LOOPBACK api));
     rt \<leftarrow> aset routing_table (unat (axiom_get_node_id api dev)) lo;
     let s = \<lparr>ss_dev = dev, ss_if_features = 0, ss_cmd = cmd0, ss_num_interface = 0,
              ss_ret = AXIOM_RET_OK api\<rparr>;
     s \<leftarrow> (if master
       then do {
         dev \<leftarrow> axiom_write_routing_table api (ss_dev s) rt;
         s \<leftarrow> for_ctl (send_set_routing api) [0..<Suc (AXIOM_INTERFACES_MAX api)] (s\<lparr>ss_dev := dev\<rparr>);
         for_ctl (master_wait_answer api) [0..<Suc (AXIOM_INTERFACES_MAX api)] s
       }
       else do {
         s \<leftarrow> while_ctl (\<lambda>s. ss_cmd s \<noteq> AXIOM_RT_CMD_SET_ROUTING \<and> AXIOM_RET_IS_OK api (ss_ret s))
           (slave_wait_set api rt) s;
         s \<leftarrow> for_ctl (send_set_routing api) [0..<Suc (AXIOM_INTERFACES_MAX api)] s;
         while_ctl (\<lambda>s. ss_num_interface s > 1 \<and> AXIOM_RET_IS_OK api (ss_ret s)) (slave_drain api) s
       });
     Some (ss_ret s, rt, ss_dev s)
   }"

section \<open>The message contract\<close>

abbreviation logs_deliveries ::
  "('d, 'm) nic_api_scheme \<Rightarrow> ('d \<Rightarrow> (u8 \<times> rt_msg) list) \<Rightarrow> bool" where
  "logs_deliveries api \<equiv> lossless (AXIOM_RET_IS_OK api) (axiom_send_raw_delivery api)"

abbreviation queues_deliveries ::
  "('d, 'm) nic_api_scheme \<Rightarrow> ('d \<Rightarrow> (u8 \<times> rt_msg) list) \<Rightarrow> bool" where
  "queues_deliveries api \<equiv>
     fifo (AXIOM_RET_IS_OK api) (axiom_recv_raw_delivery api) (axiom_send_raw_delivery api)"

section \<open>Delivery\<close>

abbreviation info_msg :: "nat \<Rightarrow> u8 \<Rightarrow> rt_msg" where
  "info_msg i v \<equiv> \<lparr>rm_command = AXIOM_RT_CMD_INFO, rm_node_id = of_nat i, rm_if_mask = v\<rparr>"

abbreviation end_msg :: rt_msg where
  "end_msg \<equiv> \<lparr>rm_command = AXIOM_RT_CMD_END_INFO, rm_node_id = 0, rm_if_mask = 0\<rparr>"

abbreviation reply_msg :: "u8 \<Rightarrow> rt_msg" where
  "reply_msg n \<equiv> \<lparr>rm_command = AXIOM_RT_CMD_RT_REPLY, rm_node_id = n, rm_if_mask = 0\<rparr>"

text \<open>The messages that carry the row \<open>r\<close> of a table: one per node with a route.\<close>

definition row_msgs :: "u8 list \<Rightarrow> nat list \<Rightarrow> rt_msg list" where
  "row_msgs r is = map (\<lambda>i. info_msg i (r ! i)) (filter (\<lambda>i. r ! i \<noteq> 0) is)"

lemma row_msgs_simps [simp]:
  "row_msgs r [] = []"
  "row_msgs r (i # is) = (if r ! i \<noteq> 0 then info_msg i (r ! i) # row_msgs r is else row_msgs r is)"
  by (simp_all add: row_msgs_def)

lemma row_msgs_props:
  "m \<in> set (row_msgs r is) \<Longrightarrow> \<forall>i\<in>set is. i < N \<Longrightarrow> N \<le> 256 \<Longrightarrow>
     rm_command m = AXIOM_RT_CMD_INFO \<and> unat (rm_node_id m) < N"
  by (auto simp: row_msgs_def)

lemma delivery_row_run:
  assumes log: "logs_deliveries api sent" and "AXIOM_RET_IS_OK api e"
    and "d < length rts" "unat l \<le> length (rts ! d)"
  shows "\<exists>e' dev'. delivery_row api rts l d (e, dev) = Some (e', dev') \<and> AXIOM_RET_IS_OK api e'
    \<and> sent dev' = sent dev @ map (Pair (of_nat d)) (row_msgs (rts ! d) [0..<unat l])"
proof -
  let ?f = "\<lambda>rt_node_index (ret, dev). do {
         ifaces \<leftarrow> aget2 rts d rt_node_index;
         if ifaces \<noteq> AXIOM_NULL_RT_INTERFACE
         then (let (ret, dev) = axiom_send_raw_delivery api dev (of_nat d) (info_msg rt_node_index ifaces)
               in if AXIOM_RET_IS_OK api ret then Some (Next, ret, dev) else Some (Break, ret, dev))
         else Some (Next, ret, dev) }"
  have "\<exists>e' dev'. for_ctl ?f is (e, dev) = Some (e', dev') \<and> AXIOM_RET_IS_OK api e'
      \<and> sent dev' = sent dev @ map (Pair (of_nat d)) (row_msgs (rts ! d) is)"
    if "\<forall>i\<in>set is. i < unat l" for "is"
    using that assms(2)
  proof (induction "is" arbitrary: e dev)
    case Nil
    then show ?case by simp
  next
    case (Cons i "is")
    have get: "aget2 rts d i = Some (rts ! d ! i)" using Cons.prems assms(3,4) by simp
    obtain e1 d1 where "axiom_send_raw_delivery api dev (of_nat d) (info_msg i (rts ! d ! i)) = (e1, d1)"
      "AXIOM_RET_IS_OK api e1" "sent d1 = sent dev @ [(of_nat d, info_msg i (rts ! d ! i))]"
      using lossless_send [OF log] by blast
    with Cons.IH [of e1 d1] Cons.IH [of e dev] Cons.prems get show ?case
      by (simp add: AXIOM_NULL_RT_INTERFACE_def)
  qed
  from this [of "[0..<unat l]"] show ?thesis by (simp add: delivery_row_def)
qed

text \<open>The log of a complete delivery: the rows of all the slaves, then the end markers.\<close>

lemma delivery_run:
  assumes log: "logs_deliveries api sent" and ok: "consts_ok api"
    and tab: "is_table (AXIOM_NODES_NUM api) (AXIOM_NODES_NUM api) rts" "unat l \<le> AXIOM_NODES_NUM api"
  shows "\<exists>e dev'. axiom_delivery_routing_tables api dev rts m l = Some (e, dev') \<and> AXIOM_RET_IS_OK api e
    \<and> sent dev' = sent dev
        @ concat (map (\<lambda>d. map (Pair (of_nat d)) (row_msgs (rts ! d) [0..<unat l])) [unat (m + 1)..<unat l])
        @ map (\<lambda>d. (of_nat d, end_msg)) [unat (m + 1)..<unat l]"
proof -
  let ?f = "\<lambda>d (ret, dev). if AXIOM_RET_IS_OK api ret
         then map_option (Pair Next) (delivery_row api rts l d (ret, dev)) else Some (Break, ret, dev)"
  let ?g = "\<lambda>d (ret, dev). if AXIOM_RET_IS_OK api ret
         then Some (Next, axiom_send_raw_delivery api dev (of_nat d) end_msg) else Some (Break, ret, dev)"
  have f: "\<exists>e' dev'. for_ctl ?f ds (e, dev) = Some (e', dev') \<and> AXIOM_RET_IS_OK api e'
      \<and> sent dev' = sent dev @ concat (map (\<lambda>d. map (Pair (of_nat d)) (row_msgs (rts ! d) [0..<unat l])) ds)"
    if "\<forall>d\<in>set ds. d < unat l" "AXIOM_RET_IS_OK api e" for ds e dev
    using that
  proof (induction ds arbitrary: e dev)
    case Nil
    then show ?case by simp
  next
    case (Cons d ds)
    have "d < length rts" "unat l \<le> length (rts ! d)"
      using tab is_tableD [OF tab(1)] Cons.prems(1) by auto
    from delivery_row_run [OF log Cons.prems(2) this, of dev] obtain e1 d1 where
      "delivery_row api rts l d (e, dev) = Some (e1, d1)" "AXIOM_RET_IS_OK api e1"
      "sent d1 = sent dev @ map (Pair (of_nat d)) (row_msgs (rts ! d) [0..<unat l])" by blast
    with Cons.IH [of e1 d1] Cons.prems show ?case by simp
  qed
  have g: "\<exists>e' dev'. for_ctl ?g ds (e, dev) = Some (e', dev') \<and> AXIOM_RET_IS_OK api e'
      \<and> sent dev' = sent dev @ map (\<lambda>d. (of_nat d, end_msg)) ds"
    if "AXIOM_RET_IS_OK api e" for ds e dev
    using that
  proof (induction ds arbitrary: e dev)
    case Nil
    then show ?case by simp
  next
    case (Cons d ds)
    obtain e1 d1 where "axiom_send_raw_delivery api dev (of_nat d) end_msg = (e1, d1)"
      "AXIOM_RET_IS_OK api e1" "sent d1 = sent dev @ [(of_nat d, end_msg)]"
      using lossless_send [OF log] by blast
    with Cons.IH [of e1 d1] Cons.prems show ?case by simp
  qed
  obtain e1 d1 where 1: "for_ctl ?f [unat (m + 1)..<unat l] (AXIOM_RET_OK api, dev) = Some (e1, d1)"
    "AXIOM_RET_IS_OK api e1"
    "sent d1 = sent dev @ concat (map (\<lambda>d. map (Pair (of_nat d)) (row_msgs (rts ! d) [0..<unat l]))
        [unat (m + 1)..<unat l])"
    using f [of "[unat (m + 1)..<unat l]" "AXIOM_RET_OK api" dev] consts_okD(5) [OF ok] by auto
  from g [OF 1(2), of "[unat (m + 1)..<unat l]" d1] 1 show ?thesis
    by (auto simp: axiom_delivery_routing_tables_def)
qed

text \<open>What of the log is for one slave.\<close>

lemma concat_filter_single:
  "distinct ds \<Longrightarrow> n \<in> set ds \<Longrightarrow> \<forall>d\<in>set ds. d < 256 \<Longrightarrow>
     concat (map (\<lambda>d. filter (\<lambda>x. fst x = (of_nat n :: u8)) (map (Pair (of_nat d)) (g d))) ds)
       = map (Pair (of_nat n)) (g n)"
proof (induction ds)
  case Nil
  then show ?case by simp
next
  case (Cons d ds)
  have other: "filter (\<lambda>x. fst x = (of_nat n :: u8)) (map (Pair (of_nat a)) ys) = []"
    if "a < 256" "n < 256" "a \<noteq> n" for a and ys :: "'a list"
    using that of_nat_eq_u8_iff [of a "of_nat n"] by (induction ys) auto
  have same: "filter (\<lambda>x. fst x = (of_nat n :: u8)) (map (Pair (of_nat n)) ys) = map (Pair (of_nat n)) ys"
    for ys :: "'a list" by (induction ys) auto
  have n: "n < 256" using Cons.prems by auto
  show ?case
  proof (cases "d = n")
    case True
    then have "concat (map (\<lambda>d. filter (\<lambda>x. fst x = (of_nat n :: u8)) (map (Pair (of_nat d)) (g d))) ds) = []"
      using Cons.prems n other by auto
    with True same show ?thesis by simp
  next
    case False
    with Cons other [of d "g d"] n show ?thesis by simp
  qed
qed

lemma log_of_slave:
  assumes "n \<in> {unat (m + 1 :: u8)..<unat (l :: u8)}"
  shows "filter (\<lambda>x. fst x = (of_nat n :: u8))
      (concat (map (\<lambda>d. map (Pair (of_nat d)) (row_msgs (rts ! d) [0..<unat l])) [unat (m + 1)..<unat l])
        @ map (\<lambda>d. (of_nat d, end_msg)) [unat (m + 1)..<unat l])
    = map (Pair (of_nat n)) (row_msgs (rts ! n) [0..<unat l] @ [end_msg])"
proof -
  have lt: "\<forall>d\<in>set [unat (m + 1)..<unat l]. d < 256"
    using unat_u8_less [of l] by (auto simp del: unat_u8_less)
  have e: "filter P (map (\<lambda>d. (of_nat d :: u8, end_msg)) ds)
      = concat (map (\<lambda>d. filter P (map (Pair (of_nat d)) [end_msg])) ds)" for P ds
    by (induction ds) auto
  have n: "n \<in> set [unat (m + 1)..<unat l]" using assms by simp
  show ?thesis
    unfolding filter_append e filter_concat map_map o_def map_append
      concat_filter_single [OF distinct_upt n lt, of "\<lambda>d. row_msgs (rts ! d) [0..<unat l]"]
      concat_filter_single [OF distinct_upt n lt, of "\<lambda>d. [end_msg]"] ..
qed

section \<open>Reception\<close>

lemma axiom_init_routing_table_result:
  assumes "length rt = AXIOM_NODES_NUM c"
  shows "axiom_init_routing_table c rt = Some (replicate (AXIOM_NODES_NUM c) 0)"
proof -
  have "\<exists>rt'. for_each (\<lambda>i rt. aset rt i AXIOM_NULL_RT_INTERFACE) [0..<AXIOM_NODES_NUM c] rt = Some rt'
      \<and> (\<lambda>k rt'. rt' = replicate k 0 @ drop k rt) (length [0..<AXIOM_NODES_NUM c]) rt'"
  proof (rule for_each_rule)
    fix k r
    assume k: "k < length [0..<AXIOM_NODES_NUM c]" and r: "r = replicate k 0 @ drop k rt"
    then have "drop k rt = rt ! k # drop (Suc k) rt"
      using assms by (simp add: Cons_nth_drop_Suc)
    with k r show "\<exists>s'. aset r ([0..<AXIOM_NODES_NUM c] ! k) AXIOM_NULL_RT_INTERFACE = Some s'
        \<and> s' = replicate (Suc k) 0 @ drop (Suc k) rt"
      using assms by (simp add: AXIOM_NULL_RT_INTERFACE_def list_update_append replicate_app_Cons_same)
  qed simp
  then show ?thesis using assms by (auto simp: axiom_init_routing_table_def)
qed

text \<open>The effect of a sequence of routing rows on the table.\<close>

definition apply_rows :: "rt_msg list \<Rightarrow> u8 list \<Rightarrow> u8 list" where
  "apply_rows ms rt = foldl (\<lambda>rt m. rt[unat (rm_node_id m) := rm_if_mask m]) rt ms"

lemma apply_rows_simps [simp]:
  "apply_rows [] rt = rt"
  "apply_rows (m # ms) rt = apply_rows ms (rt[unat (rm_node_id m) := rm_if_mask m])"
  by (simp_all add: apply_rows_def)

lemma apply_rows_length [simp]: "length (apply_rows ms rt) = length rt"
  by (induction ms arbitrary: rt) simp_all

lemma apply_rows_row:
  assumes "k \<le> length rt" "length rt \<le> 256" "j < length rt"
  shows "apply_rows (row_msgs r [0..<k]) rt ! j = (if j < k \<and> r ! j \<noteq> 0 then r ! j else rt ! j)"
  using assms
proof (induction k)
  case 0
  then show ?case by simp
next
  case (Suc k)
  have "row_msgs r [0..<Suc k] = row_msgs r [0..<k] @ (if r ! k \<noteq> 0 then [info_msg k (r ! k)] else [])"
    by (simp add: row_msgs_def)
  then have "apply_rows (row_msgs r [0..<Suc k]) rt =
      (if r ! k \<noteq> 0 then (apply_rows (row_msgs r [0..<k]) rt)[k := r ! k] else apply_rows (row_msgs r [0..<k]) rt)"
    using Suc.prems by (simp add: apply_rows_def)
  with Suc show ?case by (auto simp: less_Suc_eq nth_list_update)
qed

text \<open>The greatest node id of a sequence of rows.\<close>

definition max_rows :: "rt_msg list \<Rightarrow> u8 \<Rightarrow> u8" where
  "max_rows ms v = foldl (\<lambda>v m. max v (rm_node_id m)) v ms"

lemma receive_infos:
  assumes q: "queues_deliveries api inbox"
    and "\<forall>m\<in>set ms. rm_command m = AXIOM_RT_CMD_INFO \<and> unat (rm_node_id m) < length (rs_rt s)"
    and "inbox (rs_dev s) = map (Pair src) ms @ rest" "rs_cmd s \<noteq> AXIOM_RT_CMD_END_INFO"
  shows "\<exists>s'. while_ctl (\<lambda>s. rs_cmd s \<noteq> AXIOM_RT_CMD_END_INFO) (receive_row api n) s
      = while_ctl (\<lambda>s. rs_cmd s \<noteq> AXIOM_RT_CMD_END_INFO) (receive_row api n) s'
    \<and> rs_rt s' = apply_rows ms (rs_rt s) \<and> rs_max_id s' = max_rows ms (rs_max_id s)
    \<and> inbox (rs_dev s') = rest \<and> rs_cmd s' \<noteq> AXIOM_RT_CMD_END_INFO"
  using assms(2-)
proof (induction ms arbitrary: s)
  case Nil
  then show ?case by (intro exI [of _ s]) (simp add: max_rows_def)
next
  case (Cons m ms)
  from fifo_recv [OF q, of "rs_dev s" src m "map (Pair src) ms @ rest"] Cons.prems(2)
  obtain e d' where r: "axiom_recv_raw_delivery api (rs_dev s) = Some (e, src, m, d')"
    "AXIOM_RET_IS_OK api e" "inbox d' = map (Pair src) ms @ rest" by auto
  let ?s = "s\<lparr>rs_dev := d', rs_cmd := rm_command m, rs_ret := e,
     rs_rt := (rs_rt s)[unat (rm_node_id m) := rm_if_mask m], rs_max_id := max (rs_max_id s) (rm_node_id m)\<rparr>"
  have "receive_row api n s = Some (Next, ?s)"
    using r Cons.prems(1) by (simp add: receive_row_def)
  with Cons.IH [of ?s] Cons.prems r(3) show ?case
    by (simp add: while_ctl_Next max_rows_def)
qed

lemma receive_run:
  assumes q: "queues_deliveries api inbox" and log: "logs_deliveries api sent" and ok: "consts_ok api"
    and ms: "\<forall>m\<in>set ms. rm_command m = AXIOM_RT_CMD_INFO \<and> unat (rm_node_id m) < AXIOM_NODES_NUM api"
    and inb: "inbox dev = map (Pair src) (ms @ [end_msg])" and len: "length rt0 = AXIOM_NODES_NUM api"
  shows "\<exists>e dev'. axiom_receive_routing_tables api dev n rt0 mx0 =
      Some (e, apply_rows ms (replicate (AXIOM_NODES_NUM api) 0), max n (max_rows ms 0), dev')
    \<and> AXIOM_RET_IS_OK api e \<and> inbox dev' = [] \<and> (src, reply_msg n) \<in> set (sent dev')"
proof -
  let ?w = "while_ctl (\<lambda>s. rs_cmd s \<noteq> AXIOM_RT_CMD_END_INFO) (receive_row api n)"
  let ?s = "\<lparr>rs_dev = dev, rs_rt = replicate (AXIOM_NODES_NUM api) 0, rs_cmd = cmd0, rs_max_id = 0,
    rs_max_node = mx0, rs_ret = AXIOM_RET_OK api\<rparr>"
  from receive_infos [OF q, of ms ?s src "[(src, end_msg)]" n] ms inb obtain s1 where
    s1: "?w ?s = ?w s1" "rs_rt s1 = apply_rows ms (replicate (AXIOM_NODES_NUM api) 0)"
      "rs_max_id s1 = max_rows ms 0" "inbox (rs_dev s1) = [(src, end_msg)]"
      "rs_cmd s1 \<noteq> AXIOM_RT_CMD_END_INFO" by auto
  from fifo_recv [OF q s1(4)] obtain e d1 where
    r: "axiom_recv_raw_delivery api (rs_dev s1) = Some (e, src, end_msg, d1)" "AXIOM_RET_IS_OK api e"
      "inbox d1 = []" by blast
  from lossless_send [OF log] obtain e2 d2 where
    snd: "axiom_send_raw_delivery api d1 src (reply_msg n) = (e2, d2)" "AXIOM_RET_IS_OK api e2"
      "sent d2 = sent d1 @ [(src, reply_msg n)]" by blast
  have "inbox d2 = []"
    using fifo_send [OF q snd(1)] r(3) by simp
  moreover have "\<exists>s2. receive_row api n s1 = Some (Next, s2) \<and> rs_cmd s2 = AXIOM_RT_CMD_END_INFO
      \<and> rs_dev s2 = d2 \<and> rs_ret s2 = e2 \<and> rs_rt s2 = rs_rt s1 \<and> rs_max_node s2 = max n (rs_max_id s1)"
    using r snd(1,2) by (auto simp: receive_row_def max_def)
  then obtain s2 where s2: "receive_row api n s1 = Some (Next, s2)" "rs_cmd s2 = AXIOM_RT_CMD_END_INFO"
    "rs_dev s2 = d2" "rs_ret s2 = e2" "rs_rt s2 = rs_rt s1" "rs_max_node s2 = max n (rs_max_id s1)" by blast
  from s1(5) s2(1,2) have "?w s1 = Some s2"
    by (simp add: while_ctl_Next [where s' = s2])
  ultimately show ?thesis
    using s1 s2 snd axiom_init_routing_table_result [OF len]
    by (simp add: axiom_receive_routing_tables_def)
qed

text \<open>C3: what the master delivers is what each slave receives. The delivery of the tables succeeds,
  and a slave that reads, in order, exactly the messages the master sent to it ends with its row of the
  master's tables (and no route outside the network), learns the greatest node id, and has sent its
  acknowledgement.\<close>

theorem delivery_receive_roundtrip:
  assumes "consts_ok api" "logs_deliveries api sent" "queues_deliveries api inbox"
    "is_table (AXIOM_NODES_NUM api) (AXIOM_NODES_NUM api) rts" "unat l \<le> AXIOM_NODES_NUM api"
    "unat m < n" "n < unat l" "sent master = []" "length rt0 = AXIOM_NODES_NUM api"
  shows "\<exists>e master'. axiom_delivery_routing_tables api master rts m l = Some (e, master')
    \<and> AXIOM_RET_IS_OK api e
    \<and> (\<forall>slave. inbox slave = map (\<lambda>x. (m, snd x)) (filter (\<lambda>x. fst x = of_nat n) (sent master')) \<longrightarrow>
        (\<exists>e' rt mx slave'. axiom_receive_routing_tables api slave (of_nat n) rt0 mx0 = Some (e', rt, mx, slave')
          \<and> AXIOM_RET_IS_OK api e' \<and> (m, reply_msg (of_nat n)) \<in> set (sent slave')
          \<and> rt = map (\<lambda>i. if i < unat l then rts ! n ! i else 0) [0..<AXIOM_NODES_NUM api]
          \<and> mx = max (of_nat n) (max_rows (row_msgs (rts ! n) [0..<unat l]) 0)))"
proof -
  let ?N = "AXIOM_NODES_NUM api"
  have N: "?N < 256" using consts_okD(7) [OF assms(1)] .
  from delivery_run [OF assms(2,1,4,5), of master m] obtain e master' where
    run: "axiom_delivery_routing_tables api master rts m l = Some (e, master')" "AXIOM_RET_IS_OK api e"
    and log: "sent master' = concat (map (\<lambda>d. map (Pair (of_nat d)) (row_msgs (rts ! d) [0..<unat l]))
        [unat (m + 1)..<unat l]) @ map (\<lambda>d. (of_nat d, end_msg)) [unat (m + 1)..<unat l]"
    using assms(8) by auto
  have "unat m < 255" using assms(6,7) unat_u8_less [of l] by linarith
  then have n: "n \<in> {unat (m + 1)..<unat l}" using assms(6,7) by (simp add: unat_inc_u8)
  have ms: "\<forall>x\<in>set (row_msgs (rts ! n) [0..<unat l]).
      rm_command x = AXIOM_RT_CMD_INFO \<and> unat (rm_node_id x) < ?N"
    using row_msgs_props [of _ "rts ! n" "[0..<unat l]" ?N] assms(5) N by auto
  have rt: "apply_rows (row_msgs (rts ! n) [0..<unat l]) (replicate ?N 0)
      = map (\<lambda>i. if i < unat l then rts ! n ! i else 0) [0..<?N]"
    using assms(5) N by (intro nth_equalityI) (auto simp: apply_rows_row)
  have "\<exists>e' rt mx slave'. axiom_receive_routing_tables api slave (of_nat n) rt0 mx0 = Some (e', rt, mx, slave')
      \<and> AXIOM_RET_IS_OK api e' \<and> (m, reply_msg (of_nat n)) \<in> set (sent slave')
      \<and> rt = map (\<lambda>i. if i < unat l then rts ! n ! i else 0) [0..<?N]
      \<and> mx = max (of_nat n) (max_rows (row_msgs (rts ! n) [0..<unat l]) 0)"
    if "inbox slave = map (\<lambda>x. (m, snd x)) (filter (\<lambda>x. fst x = of_nat n) (sent master'))" for slave
  proof -
    have "inbox slave = map (Pair m) (row_msgs (rts ! n) [0..<unat l] @ [end_msg])"
      using that unfolding log log_of_slave [OF n, of rts] by (simp add: o_def)
    from receive_run [OF assms(3,2,1) ms this assms(9), of "of_nat n" mx0] rt show ?thesis by auto
  qed
  with run show ?thesis by blast
qed

section \<open>Acknowledgements\<close>

text \<open>The number of different nodes that have acknowledged is what the master counts.\<close>

definition wait_inv :: "('d, 'm) nic_api_scheme \<Rightarrow> nat set \<Rightarrow> 'd wait_state \<Rightarrow> bool" where
  "wait_inv api D s \<longleftrightarrow> finite D \<and> length (reply_received s) = AXIOM_NODES_NUM api
     \<and> (\<forall>i<AXIOM_NODES_NUM api. reply_received s ! i = (if i \<in> D then 1 else 0))
     \<and> reply_received_num s = int (card D) \<and> ws_ret s = AXIOM_RET_OK api"

lemma wait_reply_step:
  assumes q: "queues_deliveries api inbox" and inv: "wait_inv api D s"
    and inb: "inbox (ws_dev s) = (src, reply_msg n) # rest" and n: "unat n < AXIOM_NODES_NUM api"
  shows "\<exists>s'. wait_reply api s = Some (Next, s') \<and> wait_inv api (insert (unat n) D) s' \<and> inbox (ws_dev s') = rest"
proof -
  from fifo_recv [OF q inb] obtain e d' where
    r: "axiom_recv_raw_delivery api (ws_dev s) = Some (e, src, reply_msg n, d')" "AXIOM_RET_IS_OK api e"
      "inbox d' = rest" by blast
  show ?thesis
  proof (cases "unat n \<in> D")
    case True
    then have "insert (unat n) D = D" by blast
    with True inv r n show ?thesis by (simp add: wait_reply_def wait_inv_def)
  next
    case False
    with inv r n show ?thesis by (auto simp: wait_reply_def wait_inv_def nth_list_update)
  qed
qed

lemma wait_replies:
  assumes q: "queues_deliveries api inbox" and N: "\<forall>n\<in>set ns. unat n < AXIOM_NODES_NUM api"
    and "wait_inv api D s" "inbox (ws_dev s) = map (\<lambda>n. (n, reply_msg n)) ns @ rest"
    and "ns \<noteq> []" "unat (last ns) \<notin> D \<union> unat ` set (butlast ns)" "int (card (D \<union> unat ` set ns)) = k"
  shows "\<exists>s'. while_ctl (\<lambda>s. reply_received_num s \<noteq> k) (wait_reply api) s = Some s'
    \<and> ws_ret s' = AXIOM_RET_OK api \<and> inbox (ws_dev s') = rest"
  using assms(2-)
proof (induction ns arbitrary: D s)
  case Nil
  then show ?case by simp
next
  case (Cons n ns)
  from wait_reply_step [OF q Cons.prems(2)] Cons.prems(1,3) obtain s1 where
    s1: "wait_reply api s = Some (Next, s1)" "wait_inv api (insert (unat n) D) s1"
      "inbox (ws_dev s1) = map (\<lambda>n. (n, reply_msg n)) ns @ rest" by fastforce
  have fin: "finite D" using Cons.prems(2) by (simp add: wait_inv_def)
  have "D \<subset> D \<union> unat ` set (n # ns)"
    using Cons.prems(4,5) by (auto split: if_splits)
  then have "card D < card (D \<union> unat ` set (n # ns))" using fin by (intro psubset_card_mono) auto
  then have "reply_received_num s \<noteq> k" using Cons.prems(2,6) by (simp add: wait_inv_def)
  then have step: "while_ctl (\<lambda>s. reply_received_num s \<noteq> k) (wait_reply api) s
      = while_ctl (\<lambda>s. reply_received_num s \<noteq> k) (wait_reply api) s1"
    using s1(1) by (simp add: while_ctl_Next)
  show ?case
  proof (cases "ns = []")
    case True
    then have "reply_received_num s1 = k" using s1(2) Cons.prems(6) by (simp add: wait_inv_def)
    with True s1 step show ?thesis by (simp add: wait_inv_def)
  next
    case False
    have "insert (unat n) D \<union> unat ` set ns = D \<union> unat ` set (n # ns)" by auto
    with Cons.IH [OF _ s1(2,3) False] Cons.prems(1,5,6) False step show ?thesis by auto
  qed
qed

text \<open>The master's wait ends successfully exactly when the acknowledgements of as many different
  nodes as there are slaves have arrived, repeated acknowledgements being counted once, and it leaves
  the later messages unread.\<close>

theorem wait_rt_received_all:
  assumes "queues_deliveries api inbox" "\<forall>n\<in>set ns. unat n < AXIOM_NODES_NUM api"
    "inbox dev = map (\<lambda>n. (n, reply_msg n)) ns @ rest" "ns \<noteq> []" "last ns \<notin> set (butlast ns)"
    "unat m + card (set ns) + 1 = unat l"
  shows "\<exists>dev'. axiom_wait_rt_received api dev m l = Some (AXIOM_RET_OK api, dev') \<and> inbox dev' = rest"
proof -
  let ?s = "\<lparr>ws_dev = dev, reply_received = replicate (AXIOM_NODES_NUM api) 0, reply_received_num = 0,
    ws_ret = AXIOM_RET_OK api\<rparr>"
  have "wait_inv api {} ?s" by (simp add: wait_inv_def)
  moreover have "unat (last ns) \<notin> {} \<union> unat ` set (butlast ns)"
    using assms(5) by (auto simp: word_unat_eq_iff [symmetric])
  moreover have "int (card ({} \<union> unat ` set ns)) = int (unat l) - int (unat m) - 1"
  proof -
    have "card (unat ` set ns) = card (set ns)"
      by (simp add: card_image inj_on_def word_unat_eq_iff [symmetric])
    with assms(6) show ?thesis by (simp del: of_nat_unat)
  qed
  ultimately show ?thesis
    using wait_replies [OF assms(1,2), of "{}" ?s rest] assms(3,4)
    by (auto simp: axiom_wait_rt_received_def)
qed

section \<open>Installation\<close>

lemma write_table_run:
  assumes "sim_registers api" "sim_ok api dev" "length rt = AXIOM_NODES_NUM api"
  shows "\<exists>dev'. axiom_write_routing_table api dev rt = Some dev' \<and> sim_ok api dev'
    \<and> (\<forall>j<AXIOM_NODES_NUM api. routing_reg api dev' j = rt ! j AND sim_mask api)"
  using sim.write_array [OF assms(2,3)] assms(1)
  by (auto simp: axiom_write_routing_table_def sim_registers_def sim.rt_of_def routing_reg_def)

text \<open>The message loops keep the registers.\<close>

lemma send_set_routing_keeps:
  assumes "msgs_keep_registers api" "send_set_routing api i s = Some (k, s')"
  shows "same_registers (ss_dev s) (ss_dev s')"
  using assms(2) msgs_keepD(5) [OF assms(1), of "ss_dev s" "of_nat i" AXIOM_RT_CMD_SET_ROUTING]
  by (auto simp: send_set_routing_def Let_def same_registers_def split: if_splits prod.splits)

lemma master_wait_answer_keeps:
  assumes "msgs_keep_registers api" "master_wait_answer api i s = Some (k, s')"
  shows "same_registers (ss_dev s) (ss_dev s')"
  using assms(2) msgs_keepD(6) [OF assms(1), of "ss_dev s"]
  by (auto simp: master_wait_answer_def Let_def bind_eq_Some_conv same_registers_def split: if_splits)

lemma slave_drain_keeps:
  assumes "msgs_keep_registers api" "slave_drain api s = Some (k, s')"
  shows "same_registers (ss_dev s) (ss_dev s')"
  using assms(2) msgs_keepD(6) [OF assms(1), of "ss_dev s"]
  by (auto simp: slave_drain_def Let_def bind_eq_Some_conv same_registers_def split: if_splits)

text \<open>After the first request the slave's registers hold the table.\<close>

lemma slave_wait_installs:
  assumes reg: "sim_registers api" and keep: "msgs_keep_registers api"
    and len: "length rt = AXIOM_NODES_NUM api"
    and run: "while_ctl (\<lambda>s. ss_cmd s \<noteq> AXIOM_RT_CMD_SET_ROUTING \<and> AXIOM_RET_IS_OK api (ss_ret s))
      (slave_wait_set api rt) s = Some s'"
    and start: "sim_ok api (ss_dev s)" "ss_cmd s \<noteq> AXIOM_RT_CMD_SET_ROUTING"
  shows "sim_ok api (ss_dev s') \<and> (AXIOM_RET_IS_OK api (ss_ret s') \<longrightarrow>
    (\<forall>j<AXIOM_NODES_NUM api. routing_reg api (ss_dev s') j = rt ! j AND sim_mask api))"
proof -
  let ?done = "\<lambda>s. \<forall>j<AXIOM_NODES_NUM api. routing_reg api (ss_dev s) j = rt ! j AND sim_mask api"
  let ?P = "\<lambda>s. sim_ok api (ss_dev s) \<and> (ss_cmd s = AXIOM_RT_CMD_SET_ROUTING \<longrightarrow> ?done s)"
  let ?Q = "\<lambda>s. sim_ok api (ss_dev s) \<and> (AXIOM_RET_IS_OK api (ss_ret s) \<longrightarrow> ?done s)"
  show ?thesis
  proof (rule while_ctl_partial [where P = ?P and Q = ?Q, OF run])
    show "?P s" using start by simp
  next
    fix s k s'
    assume P: "?P s" and body: "slave_wait_set api rt s = Some (k, s')"
    from body obtain e i cmd d where
      r: "axiom_recv_raw_set_routing api (ss_dev s) = Some (e, i, cmd, d)"
      by (auto simp: slave_wait_set_def bind_eq_Some_conv)
    have d: "local_routing d = local_routing (ss_dev s)"
      using msgs_keepD(6) [OF keep r] by (simp add: same_registers_def)
    have okd: "sim_ok api d" using P by (simp only: sim_ok_cong [OF d])
    show "if k = Break then ?Q s' else ?P s'"
      using body r okd write_table_run [OF reg okd len]
      by (auto simp: slave_wait_set_def Let_def split: if_splits)
  qed auto
qed

lemma set_table_run:
  assumes "sim_registers api" "msgs_keep_registers api" "sim_ok api dev"
    "length rt0 = AXIOM_NODES_NUM api" "unat (sim_node_id dev) < AXIOM_NODES_NUM api"
    "unat (AXIOM_IF_LOOPBACK api) < 8"
    "axiom_set_routing_table api dev rt0 master = Some (e, rt, dev')" "AXIOM_RET_IS_OK api e"
  shows "rt = rt0[unat (sim_node_id dev) := push_bit (unat (AXIOM_IF_LOOPBACK api)) 1]
    \<and> (\<forall>j<AXIOM_NODES_NUM api. routing_reg api dev' j = rt ! j AND sim_mask api)"
proof -
  let ?rt = "rt0[unat (sim_node_id dev) := push_bit (unat (AXIOM_IF_LOOPBACK api)) 1]"
  let ?is = "[0..<Suc (AXIOM_INTERFACES_MAX api)]"
  let ?s0 = "\<lparr>ss_dev = dev, ss_if_features = 0, ss_cmd = cmd0, ss_num_interface = 0,
              ss_ret = AXIOM_RET_OK api\<rparr>"
  have id: "axiom_get_node_id api dev = sim_node_id dev"
    using assms(1) by (simp add: sim_registers_def sim_get_node_id_def)
  have len: "length ?rt = AXIOM_NODES_NUM api" using assms(4) by simp
  note set = assms(7) [unfolded axiom_set_routing_table_def Let_def, simplified id, simplified]
  have rt: "rt = ?rt" using set assms(4-6) by (auto simp: bind_eq_Some_conv split: if_splits)
  have sends: "local_routing (ss_dev t) = local_routing (ss_dev s)"
    if "for_ctl (send_set_routing api) ?is s = Some t" for s t
    using that by (rule for_ctl_preserves [where P = "\<lambda>t. local_routing (ss_dev t) = local_routing (ss_dev s)"])
      (auto dest: send_set_routing_keeps [OF assms(2)] simp: same_registers_def)
  show ?thesis
  proof (cases master)
    case True
    with set assms(4-6) obtain d s1 s2 where w: "axiom_write_routing_table api dev ?rt = Some d"
      and s1: "for_ctl (send_set_routing api) ?is (?s0\<lparr>ss_dev := d\<rparr>) = Some s1"
      and s2: "for_ctl (master_wait_answer api) ?is s1 = Some s2" and d': "dev' = ss_dev s2"
      by (auto simp: bind_eq_Some_conv simp del: upt_Suc)
    have "local_routing (ss_dev s2) = local_routing (ss_dev s1)"
      using s2 by (rule for_ctl_preserves [where P = "\<lambda>t. local_routing (ss_dev t) = local_routing (ss_dev s1)"])
        (auto dest: master_wait_answer_keeps [OF assms(2)] simp: same_registers_def)
    then have "local_routing dev' = local_routing d" using sends [OF s1] d' by simp
    from routing_reg_cong [OF this, of api] write_table_run [OF assms(1,3) len] w rt show ?thesis by auto
  next
    case False
    let ?g = "\<lambda>s. ss_cmd s \<noteq> AXIOM_RT_CMD_SET_ROUTING \<and> AXIOM_RET_IS_OK api (ss_ret s)"
    let ?h = "\<lambda>s. 1 < ss_num_interface s \<and> AXIOM_RET_IS_OK api (ss_ret s)"
    from False set assms(4-6) obtain s1 s2 s3 where
      s1: "while_ctl ?g (slave_wait_set api ?rt) ?s0 = Some s1"
      and s2: "for_ctl (send_set_routing api) ?is s1 = Some s2"
      and s3: "while_ctl ?h (slave_drain api) s2 = Some s3" and d': "dev' = ss_dev s3" "e = ss_ret s3"
      by (auto simp: bind_eq_Some_conv simp del: upt_Suc)
    have drain: "local_routing (ss_dev s3) = local_routing (ss_dev s2)
        \<and> (AXIOM_RET_IS_OK api (ss_ret s3) \<longrightarrow> AXIOM_RET_IS_OK api (ss_ret s2))"
      using s3 by (rule while_ctl_partial [where P = "\<lambda>t. local_routing (ss_dev t) = local_routing (ss_dev s2)
          \<and> (AXIOM_RET_IS_OK api (ss_ret t) \<longrightarrow> AXIOM_RET_IS_OK api (ss_ret s2))"])
        (auto dest: slave_drain_keeps [OF assms(2)] simp: same_registers_def)
    have "AXIOM_RET_IS_OK api (ss_ret s2) \<longrightarrow> AXIOM_RET_IS_OK api (ss_ret s1)"
      using s2 by (rule for_ctl_preserves [where P = "\<lambda>t. AXIOM_RET_IS_OK api (ss_ret t) \<longrightarrow> AXIOM_RET_IS_OK api (ss_ret s1)"])
        (auto simp: send_set_routing_def Let_def split: if_splits prod.splits)
    then have "AXIOM_RET_IS_OK api (ss_ret s1)" using drain d'(2) assms(8) by simp
    moreover have "local_routing dev' = local_routing (ss_dev s1)" using drain sends [OF s2] d'(1) by simp
    ultimately show ?thesis
      using slave_wait_installs [OF assms(1,2) len s1] assms(3) routing_reg_cong [of dev' "ss_dev s1" api] rt
      by simp
  qed
qed

text \<open>When \<open>axiom_set_routing_table\<close> returns successfully, on the master and on a slave, every
  routing register of the node holds the entry of the given table, the local node's one being the
  loopback interface, restricted to the interfaces the hardware has.\<close>

theorem set_routing_table_installs:
  assumes "sim_registers api" "msgs_keep_registers api" "sim_ok api dev"
    "length rt0 = AXIOM_NODES_NUM api" "unat (sim_node_id dev) < AXIOM_NODES_NUM api"
    "unat (AXIOM_IF_LOOPBACK api) < 8"
    "axiom_set_routing_table api dev rt0 master = Some (e, rt, dev')" "AXIOM_RET_IS_OK api e"
  shows "rt = rt0[unat (sim_node_id dev) := push_bit (unat (AXIOM_IF_LOOPBACK api)) 1]
    \<and> (\<forall>j<AXIOM_NODES_NUM api. routing_reg api dev' j = rt ! j AND sim_mask api)"
  using assms by (rule set_table_run)

section \<open>Instances\<close>

lemma demo_logs: "logs_deliveries demo_api delivery_sent"
  by (simp add: lossless_def demo_api_def)

lemma demo_queues: "queues_deliveries demo_api delivery_inbox"
  by (auto simp: fifo_def demo_api_def)

definition demo_line_tables :: "u8 list list" where
  "demo_line_tables = [[0, 1, 1, 0], [1, 0, 2, 0], [2, 2, 0, 0], [0, 0, 0, 0]]"

theorem delivery_receive_roundtrip_witness:
  "\<exists>e master'. axiom_delivery_routing_tables demo_api (demo_node 0) demo_line_tables 0 3 = Some (e, master')
    \<and> 0 \<le> e
    \<and> (\<forall>slave. delivery_inbox slave = map (\<lambda>x. (0, snd x)) (filter (\<lambda>x. fst x = 2) (delivery_sent master')) \<longrightarrow>
        (\<exists>e' rt mx slave'. axiom_receive_routing_tables demo_api slave 2 [9, 9, 9, 9] 0 = Some (e', rt, mx, slave')
          \<and> rt = [2, 2, 0, 0] \<and> mx = 2))"
  using delivery_receive_roundtrip [OF demo_api_ok demo_logs demo_queues, of demo_line_tables 3 0 2
      "demo_node 0" "[9, 9, 9, 9]" 0]
  by (fastforce simp: demo_line_tables_def is_table_def row_msgs_def max_rows_def range_eval)

theorem wait_rt_received_all_witness:
  "\<exists>dev'. axiom_wait_rt_received demo_api
     ((demo_node 0)\<lparr>delivery_inbox := map (\<lambda>n. (n, reply_msg n)) [2, 2, 1]\<rparr>) 0 3 = Some (0, dev')"
  using wait_rt_received_all [OF demo_queues, of "[2, 2, 1]"
      "(demo_node 0)\<lparr>delivery_inbox := map (\<lambda>n. (n, reply_msg n)) [2, 2, 1]\<rparr>" "[]" 0 3]
  by auto

lemma demo_set_run:
  "map_option fst (axiom_set_routing_table demo_api
     ((demo_node 0)\<lparr>set_inbox := [(0, AXIOM_RT_CMD_SET_ROUTING)]\<rparr>) [0, 1, 1, 0] True) = Some 0"
  by code_simp

theorem set_routing_table_installs_witness:
  "\<exists>rt dev'. axiom_set_routing_table demo_api
      ((demo_node 0)\<lparr>set_inbox := [(0, AXIOM_RT_CMD_SET_ROUTING)]\<rparr>) [0, 1, 1, 0] True = Some (0, rt, dev')
    \<and> rt = [64, 1, 1, 0] \<and> routing_reg demo_api dev' 1 = 1 \<and> routing_reg demo_api dev' 0 = 0"
proof -
  let ?dev = "(demo_node 0)\<lparr>set_inbox := [(0, AXIOM_RT_CMD_SET_ROUTING)]\<rparr>"
  obtain rt dev' where r: "axiom_set_routing_table demo_api ?dev [0, 1, 1, 0] True = Some (0, rt, dev')"
    using demo_set_run by auto
  have ok: "sim_ok demo_api ?dev"
    using demo_sim_ok [of 0] by (simp add: sim_ok_def)
  have "sim_mask demo_api = 15" by (simp add: sim_mask_def mask_eq_exp_minus_1)
  with set_routing_table_installs [OF demo_registers demo_keep ok _ _ _ r] r show ?thesis
    by (auto simp: demo_node_def)
qed

end
