(* ===== verification/Routing_Correct.thy ===== *)
theory Routing_Correct
  imports Routing_Compute Demo_Nic
begin

text \<open>
  Correctness of the computation of the routing tables: the specification of a shortest route
  over a topology matrix, the level invariant of the search, and the theorems about
  \<open>axiom_compute_routing_tables\<close> and about forwarding with the tables it fills.
\<close>

section \<open>Specification\<close>

text \<open>Node \<open>b\<close> is on some interface of node \<open>a\<close>.\<close>

definition nbr :: "'c axiom_consts_scheme \<Rightarrow> topology \<Rightarrow> nat \<Rightarrow> nat \<Rightarrow> bool" where
  "nbr c T a b \<longleftrightarrow>
     (\<exists>i\<in>{0..AXIOM_INTERFACES_MAX c}. T ! a ! i \<noteq> AXIOM_NULL_NODE c \<and> unat (T ! a ! i) = b)"

text \<open>The nodes reached from \<open>a\<close> with at most \<open>k\<close> hops.\<close>

primrec ball :: "'c axiom_consts_scheme \<Rightarrow> topology \<Rightarrow> nat \<Rightarrow> nat \<Rightarrow> nat set" where
  "ball c T a 0 = {a}"
| "ball c T a (Suc k) = ball c T a k \<union> {b. \<exists>x\<in>ball c T a k. nbr c T x b}"

text \<open>The mask of all the interfaces of \<open>a\<close> that lead to its neighbour \<open>n\<close>.\<close>

definition if_mask :: "'c axiom_consts_scheme \<Rightarrow> topology \<Rightarrow> nat \<Rightarrow> nat \<Rightarrow> nat \<Rightarrow> u8" where
  "if_mask c T a n k =
     foldl (\<lambda>m i. if T ! a ! i \<noteq> AXIOM_NULL_NODE c \<and> unat (T ! a ! i) = n
                  then m OR push_bit i 1 else m) 0 [0..<k]"

abbreviation full_mask :: "'c axiom_consts_scheme \<Rightarrow> topology \<Rightarrow> nat \<Rightarrow> nat \<Rightarrow> u8" where
  "full_mask c T a n \<equiv> if_mask c T a n (Suc (AXIOM_INTERFACES_MAX c))"

text \<open>The entry \<open>v\<close> of \<open>a\<close>'s table for \<open>b\<close> is a shortest route: it is the interface mask of a
  neighbour \<open>n\<close> from which \<open>b\<close> is one hop nearer than from \<open>a\<close>.\<close>

definition route_ok :: "'c axiom_consts_scheme \<Rightarrow> topology \<Rightarrow> nat \<Rightarrow> nat \<Rightarrow> u8 \<Rightarrow> bool" where
  "route_ok c T a b v \<longleftrightarrow>
     (\<exists>n k. nbr c T a n \<and> v = full_mask c T a n \<and> b \<in> ball c T n k
        \<and> b \<in> ball c T a (Suc k) \<and> b \<notin> ball c T a k)"

text \<open>Topologies the discovery produces: the nodes \<open>m \<dots> l - 1\<close>, links only among them, none from
  a node to itself.\<close>

definition topo_wf :: "'c axiom_consts_scheme \<Rightarrow> topology \<Rightarrow> nat \<Rightarrow> nat \<Rightarrow> bool" where
  "topo_wf c T m l \<longleftrightarrow>
     is_table (AXIOM_NODES_NUM c) (AXIOM_INTERFACES_NUM c) T \<and> l \<le> AXIOM_NODES_NUM c
   \<and> (\<forall>a\<in>{m..<l}. \<forall>i\<in>{0..AXIOM_INTERFACES_MAX c}. T ! a ! i \<noteq> AXIOM_NULL_NODE c \<longrightarrow>
        m \<le> unat (T ! a ! i) \<and> unat (T ! a ! i) < l \<and> unat (T ! a ! i) \<noteq> a)"

text \<open>At most one link between two nodes.\<close>

definition topo_simple :: "'c axiom_consts_scheme \<Rightarrow> topology \<Rightarrow> nat \<Rightarrow> nat \<Rightarrow> bool" where
  "topo_simple c T m l \<longleftrightarrow>
     (\<forall>a\<in>{m..<l}. \<forall>i\<in>{0..AXIOM_INTERFACES_MAX c}. \<forall>j\<in>{0..AXIOM_INTERFACES_MAX c}.
        T ! a ! i \<noteq> AXIOM_NULL_NODE c \<longrightarrow> T ! a ! i = T ! a ! j \<longrightarrow> i = j)"

text \<open>Every node reaches every other one (with at most \<open>l - m\<close> hops).\<close>

definition topo_connected :: "'c axiom_consts_scheme \<Rightarrow> topology \<Rightarrow> nat \<Rightarrow> nat \<Rightarrow> bool" where
  "topo_connected c T m l \<longleftrightarrow> (\<forall>a\<in>{m..<l}. {m..<l} \<subseteq> ball c T a (l - m))"

section \<open>Balls and masks\<close>

text \<open>The levels of the specification can be evaluated.\<close>

lemma ball_code [code]:
  "ball c T a k = (case k of 0 \<Rightarrow> {a} | Suc j \<Rightarrow> let B = ball c T a j in
     B \<union> (\<Union>x\<in>B. set (map (\<lambda>i. unat (T ! x ! i))
       (filter (\<lambda>i. T ! x ! i \<noteq> AXIOM_NULL_NODE c) [0..<Suc (AXIOM_INTERFACES_MAX c)]))))"
  by (cases k) (auto simp: nbr_def Let_def less_Suc_eq_le simp del: upt_Suc, force+)

lemma ball_mono: "j \<le> k \<Longrightarrow> ball c T a j \<subseteq> ball c T a k"
  by (induction k) (auto simp: le_Suc_eq)

lemma ball_self [simp]: "a \<in> ball c T a k"
  using ball_mono [of 0 k c T a] by auto

lemma ball_step: "x \<in> ball c T a k \<Longrightarrow> nbr c T x b \<Longrightarrow> b \<in> ball c T a (Suc k)"
  by auto

lemma ball_first: "nbr c T a n \<Longrightarrow> ball c T n k \<subseteq> ball c T a (Suc k)"
  by (induction k) (auto simp: intro: bexI [of _ a])

lemma ball_1: "ball c T a (Suc 0) = insert a {b. nbr c T a b}"
  by auto

lemma nbrI: "i \<le> AXIOM_INTERFACES_MAX c \<Longrightarrow> T ! a ! i \<noteq> AXIOM_NULL_NODE c \<Longrightarrow> nbr c T a (unat (T ! a ! i))"
  by (auto simp: nbr_def)

lemma nbr_range:
  "topo_wf c T m l \<Longrightarrow> a \<in> {m..<l} \<Longrightarrow> nbr c T a b \<Longrightarrow> b \<in> {m..<l} \<and> b \<noteq> a"
  by (auto simp: topo_wf_def nbr_def)

lemma ball_range: "topo_wf c T m l \<Longrightarrow> a \<in> {m..<l} \<Longrightarrow> ball c T a k \<subseteq> {m..<l}"
  by (induction k) (auto dest: nbr_range)

lemma finite_ball: "topo_wf c T m l \<Longrightarrow> a \<in> {m..<l} \<Longrightarrow> finite (ball c T a k)"
  by (meson ball_range finite_atLeastLessThan finite_subset)

text \<open>Once a level adds nothing, no later level does.\<close>

lemma ball_stuck: "ball c T a (Suc k) = ball c T a k \<Longrightarrow> ball c T a (k + j) = ball c T a k"
  by (induction j) auto

lemma ball_strict:
  assumes "topo_connected c T m l" "topo_wf c T m l" "a \<in> {m..<l}" "ball c T a k \<noteq> {m..<l}"
  shows "ball c T a k \<subset> ball c T a (Suc k)"
proof (rule ccontr)
  assume "\<not> ball c T a k \<subset> ball c T a (Suc k)"
  then have "ball c T a (Suc k) = ball c T a k" by auto
  then have "ball c T a (k + (l - m)) = ball c T a k" by (rule ball_stuck)
  moreover have "{m..<l} \<subseteq> ball c T a (l - m)"
    using assms(1,3) by (simp add: topo_connected_def)
  moreover have "ball c T a (l - m) \<subseteq> ball c T a (k + (l - m))" by (rule ball_mono) simp
  ultimately show False using assms(4) ball_range [OF assms(2,3), of k] by blast
qed

lemma if_mask_Suc:
  "if_mask c T a n (Suc k) =
     (if T ! a ! k \<noteq> AXIOM_NULL_NODE c \<and> unat (T ! a ! k) = n
      then if_mask c T a n k OR push_bit k 1 else if_mask c T a n k)"
  by (simp add: if_mask_def)

lemma if_mask_0 [simp]: "if_mask c T a n 0 = 0"
  by (simp add: if_mask_def)

lemma bit_if_mask:
  "bit (if_mask c T a n k) i \<longleftrightarrow>
     i < k \<and> i < 8 \<and> T ! a ! i \<noteq> AXIOM_NULL_NODE c \<and> unat (T ! a ! i) = n"
  by (induction k) (auto simp: if_mask_Suc bit_or_iff less_Suc_eq)

lemma if_mask_nonzero:
  assumes "k \<le> 8"
  shows "if_mask c T a n k \<noteq> 0 \<longleftrightarrow>
    (\<exists>i<k. T ! a ! i \<noteq> AXIOM_NULL_NODE c \<and> unat (T ! a ! i) = n)"
  using assms by (auto simp: bit_eq_iff bit_if_mask intro: less_le_trans)

lemma full_mask_nonzero: "consts_ok c \<Longrightarrow> full_mask c T a n \<noteq> 0 \<longleftrightarrow> nbr c T a n"
  using consts_okD(3) [of c] by (auto simp: if_mask_nonzero nbr_def less_Suc_eq_le)

lemma route_ok_nonzero: "consts_ok c \<Longrightarrow> route_ok c T a b v \<Longrightarrow> v \<noteq> 0"
  by (metis full_mask_nonzero route_ok_def)

text \<open>Extending a route by one hop.\<close>

lemma route_ok_extend:
  assumes "route_ok c T a x v" "x \<in> ball c T a k" "nbr c T x b" "b \<notin> ball c T a k"
  shows "route_ok c T a b v"
proof -
  from assms(1) obtain n j where n: "nbr c T a n" "v = full_mask c T a n" "x \<in> ball c T n j"
    "x \<in> ball c T a (Suc j)" "x \<notin> ball c T a j" by (auto simp: route_ok_def)
  have "j < k"
    using n(5) assms(2) ball_mono [of k j c T a] by (meson linorder_not_less subsetD)
  then have "b \<notin> ball c T a (Suc j)" using assms(4) ball_mono [of "Suc j" k c T a] by auto
  moreover have "b \<in> ball c T n (Suc j)" "b \<in> ball c T a (Suc (Suc j))"
    using n assms(3) by (auto simp del: ball.simps intro: ball_step)
  ultimately show ?thesis using n(1,2) unfolding route_ok_def by blast
qed

lemma route_ok_direct:
  assumes "nbr c T a b" "b \<noteq> a"
  shows "route_ok c T a b (full_mask c T a b)"
  unfolding route_ok_def using assms by (intro exI [of _ b] exI [of _ 0]) auto


section \<open>The search invariant\<close>

text \<open>The state in the middle of the pass that explores level \<open>k\<close> of the search from \<open>a\<close>: the
  nodes of \<open>ball k\<close> and the nodes \<open>P\<close> found so far in this pass have a shortest route, the others
  have none; the tables of the other nodes are those of \<open>rts\<close>.\<close>

definition search_inv ::
  "'c axiom_consts_scheme \<Rightarrow> topology \<Rightarrow> nat \<Rightarrow> u8 list list \<Rightarrow> nat \<Rightarrow> nat set \<Rightarrow> rt_state \<Rightarrow> bool" where
  "search_inv c T a rts k P s \<longleftrightarrow>
     P \<subseteq> ball c T a (Suc k) - ball c T a k
   \<and> is_table (AXIOM_NODES_NUM c) (AXIOM_NODES_NUM c) (routing_tables s)
   \<and> (\<forall>r. r \<noteq> a \<longrightarrow> routing_tables s ! r = rts ! r)
   \<and> length (neighbour_table1 s) = AXIOM_NODES_NUM c
   \<and> (\<forall>b<AXIOM_NODES_NUM c. routing_tables s ! a ! b \<noteq> 0 \<longleftrightarrow> b \<in> ball c T a k - {a} \<union> P)
   \<and> (\<forall>b\<in>ball c T a k - {a} \<union> P. route_ok c T a b (routing_tables s ! a ! b))
   \<and> (\<forall>b<AXIOM_NODES_NUM c. neighbour_table1 s ! b =
        (if b \<in> ball c T a k - ball c T a 1 \<union> P then of_nat b else AXIOM_NULL_NODE c))"

lemma search_invD:
  assumes "search_inv c T a rts k P s"
  shows "P \<subseteq> ball c T a (Suc k) - ball c T a k"
    and "length (routing_tables s) = AXIOM_NODES_NUM c"
    and "\<And>i. i < AXIOM_NODES_NUM c \<Longrightarrow> length (routing_tables s ! i) = AXIOM_NODES_NUM c"
    and "is_table (AXIOM_NODES_NUM c) (AXIOM_NODES_NUM c) (routing_tables s)"
    and "\<And>r. r \<noteq> a \<Longrightarrow> routing_tables s ! r = rts ! r"
    and "length (neighbour_table1 s) = AXIOM_NODES_NUM c"
    and "\<And>b. b < AXIOM_NODES_NUM c \<Longrightarrow>
      routing_tables s ! a ! b \<noteq> 0 \<longleftrightarrow> b \<in> ball c T a k - {a} \<union> P"
    and "\<And>b. b \<in> ball c T a k - {a} \<union> P \<Longrightarrow> route_ok c T a b (routing_tables s ! a ! b)"
    and "\<And>b. b < AXIOM_NODES_NUM c \<Longrightarrow> neighbour_table1 s ! b =
        (if b \<in> ball c T a k - ball c T a 1 \<union> P then of_nat b else AXIOM_NULL_NODE c)"
  using assms unfolding search_inv_def by (auto simp: is_table_def)

text \<open>Recording a newly found node keeps the invariant.\<close>

lemma search_inv_add:
  assumes wf: "topo_wf c T m l" and ok: "consts_ok c" and a: "a \<in> {m..<l}"
    and inv: "search_inv c T a rts k P s" and x: "x \<in> ball c T a k - {a}"
    and xt: "nbr c T x t" and new: "routing_tables s ! a ! t = 0" and ta: "t \<noteq> a"
  shows "search_inv c T a rts k (insert t P)
    (s\<lparr>routing_tables := (routing_tables s)[a := (routing_tables s ! a)[t := routing_tables s ! a ! x]],
       neighbour_table1 := (neighbour_table1 s)[t := of_nat t],
       neighbours_counter := n\<rparr>)"
    (is "search_inv _ _ _ _ _ _ ?s'")
proof -
  note D = search_invD [OF inv]
  have lN: "l \<le> AXIOM_NODES_NUM c" using wf by (simp add: topo_wf_def)
  have xr: "x \<in> {m..<l}" using ball_range [OF wf a, of k] x by auto
  then have tN: "t < AXIOM_NODES_NUM c" "a < AXIOM_NODES_NUM c" "x < AXIOM_NODES_NUM c"
    using nbr_range [OF wf xr xt] a lN by auto
  have tk: "t \<notin> ball c T a k" "t \<notin> P" using D(7) [OF tN(1)] new ta by auto
  have tb: "t \<in> ball c T a (Suc k)" using x xt by (auto simp: ball_step)
  have rx: "route_ok c T a x (routing_tables s ! a ! x)" using D(8) [of x] x by simp
  then have nz: "routing_tables s ! a ! x \<noteq> 0" using ok by (rule route_ok_nonzero [rotated])
  have rt: "route_ok c T a t (routing_tables s ! a ! x)"
    using route_ok_extend [OF rx _ xt tk(1)] x by simp
  have rows: "routing_tables ?s' ! a ! b =
      (if b = t then routing_tables s ! a ! x else routing_tables s ! a ! b)"
    if "b < AXIOM_NODES_NUM c" for b
    using tN that D(2,3) by (simp add: nth_list_update)
  have bN: "b \<in> ball c T a k - {a} \<union> P \<Longrightarrow> b < AXIOM_NODES_NUM c" for b
    using ball_range [OF wf a] D(1) lN by fastforce
  show ?thesis unfolding search_inv_def
  proof (intro conjI allI impI ballI)
    show "insert t P \<subseteq> ball c T a (Suc k) - ball c T a k" using D(1) tb tk by blast
    show "is_table (AXIOM_NODES_NUM c) (AXIOM_NODES_NUM c) (routing_tables ?s')"
      using D(3,4) tN by (auto intro: is_table_update)
    show "routing_tables ?s' ! r = rts ! r" if "r \<noteq> a" for r
      using that D(5) by simp
    show "length (neighbour_table1 ?s') = AXIOM_NODES_NUM c" using D(6) by simp
    show "routing_tables ?s' ! a ! b \<noteq> 0 \<longleftrightarrow> b \<in> ball c T a k - {a} \<union> insert t P"
      if "b < AXIOM_NODES_NUM c" for b
      using rows [OF that] D(7) [OF that] nz by auto
    show "route_ok c T a b (routing_tables ?s' ! a ! b)"
      if "b \<in> ball c T a k - {a} \<union> insert t P" for b
      using that rows [of b] bN [of b] D(8) [of b] rt tN by (cases "b = t") auto
    show "neighbour_table1 ?s' ! b = (if b \<in> ball c T a k - ball c T a 1 \<union> insert t P
        then of_nat b else AXIOM_NULL_NODE c)" if "b < AXIOM_NODES_NUM c" for b
      using D(9) [OF that] D(6) that by (cases "b = t") (simp_all del: ball.simps)
  qed
qed

text \<open>The pass also leaves the first row of the neighbour table alone and counts what it finds.\<close>

definition pass_inv ::
  "'c axiom_consts_scheme \<Rightarrow> topology \<Rightarrow> nat \<Rightarrow> u8 list list \<Rightarrow> nat \<Rightarrow> u8 list \<Rightarrow> u8 \<Rightarrow> nat set \<Rightarrow> rt_state \<Rightarrow> bool" where
  "pass_inv c T a rts k n0 c0 P s \<longleftrightarrow>
     search_inv c T a rts k P s \<and> neighbour_table0 s = n0 \<and> neighbours_counter s = c0 + of_nat (card P)"

lemma second_neighbour_if_step:
  assumes wf: "topo_wf c T m l" and ok: "consts_ok c" and a: "a \<in> {m..<l}"
    and inv: "pass_inv c T a rts k n0 c0 P s" and x: "x \<in> ball c T a k - {a}"
    and i: "i \<le> AXIOM_INTERFACES_MAX c"
  shows "\<exists>s' P'. second_neighbour_if c T a (of_nat x) i s = Some s' \<and> P \<subseteq> P'
    \<and> pass_inv c T a rts k n0 c0 P' s'
    \<and> (T ! x ! i \<noteq> AXIOM_NULL_NODE c \<longrightarrow> unat (T ! x ! i) \<in> ball c T a k \<union> P')"
proof -
  from inv have sinv: "search_inv c T a rts k P s" and n0: "neighbour_table0 s = n0"
    and cnt: "neighbours_counter s = c0 + of_nat (card P)" by (auto simp: pass_inv_def)
  note D = search_invD [OF sinv]
  have tab: "length T = AXIOM_NODES_NUM c" "l \<le> AXIOM_NODES_NUM c"
    "\<And>r. r < AXIOM_NODES_NUM c \<Longrightarrow> length (T ! r) = Suc (AXIOM_INTERFACES_MAX c)"
    using wf consts_okD(2) [OF ok] by (auto simp: topo_wf_def is_table_def)
  have xr: "x \<in> {m..<l}" using ball_range [OF wf a, of k] x by auto
  then have N: "x < AXIOM_NODES_NUM c" "a < AXIOM_NODES_NUM c" using a tab by auto
  then have x8: "unat (of_nat x :: u8) = x" using consts_okD(7) [OF ok] by simp
  define t where "t = T ! x ! i"
  have get: "aget2 T x i = Some t"
    using N tab i by (simp add: t_def)
  show ?thesis
  proof (cases "t \<noteq> AXIOM_NULL_NODE c \<and> unat t \<noteq> a \<and> routing_tables s ! a ! unat t = 0")
    case True
    have xt: "nbr c T x (unat t)" using True i by (auto simp: nbr_def t_def)
    have tN: "unat t < AXIOM_NODES_NUM c" using nbr_range [OF wf xr xt] tab by simp
    let ?s' = "s\<lparr>routing_tables := (routing_tables s)[a := (routing_tables s ! a)[unat t := routing_tables s ! a ! x]],
       neighbour_table1 := (neighbour_table1 s)[unat t := of_nat (unat t)],
       neighbours_counter := neighbours_counter s + 1\<rparr>"
    have "second_neighbour_if c T a (of_nat x) i s = Some ?s'"
      using True N tN D(2,3,6)
      by (simp add: second_neighbour_if_def get AXIOM_NULL_RT_INTERFACE_def x8)
    moreover have "search_inv c T a rts k (insert (unat t) P) ?s'"
      using True by (intro search_inv_add [OF wf ok a sinv x xt]) auto
    moreover have "finite P"
      using D(1) finite_ball [OF wf a, of "Suc k"] by (meson Diff_subset finite_subset)
    moreover have "unat t \<notin> P" using D(7) [OF tN] True by auto
    ultimately show ?thesis using n0 cnt
      by (intro exI [of _ ?s'] exI [of _ "insert (unat t) P"]) (auto simp: pass_inv_def t_def add.assoc add.commute)
  next
    case False
    have tr: "unat t < AXIOM_NODES_NUM c" if "t \<noteq> AXIOM_NULL_NODE c"
      using nbr_range [OF wf xr nbrI [OF i]] that tab by (auto simp: t_def)
    have "second_neighbour_if c T a (of_nat x) i s = Some s"
      using False N tr D(2,3)
      by (auto simp: second_neighbour_if_def get AXIOM_NULL_RT_INTERFACE_def x8)
    moreover have "unat t \<in> ball c T a k \<union> P" if "t \<noteq> AXIOM_NULL_NODE c"
      using False that D(7) [OF tr [OF that]] by auto
    ultimately show ?thesis using inv by (auto simp: t_def)
  qed
qed

lemma second_level_node_step:
  assumes wf: "topo_wf c T m l" and ok: "consts_ok c" and a: "a \<in> {m..<l}"
    and inv: "pass_inv c T a rts k n0 c0 P s"
    and x: "x < AXIOM_NODES_NUM c" "length n0 = AXIOM_NODES_NUM c"
      "n0 ! x = (if x \<in> F then of_nat x else AXIOM_NULL_NODE c)" "F \<subseteq> ball c T a k - {a}"
  shows "\<exists>s' P'. second_level_node c T a x s = Some s' \<and> P \<subseteq> P' \<and> pass_inv c T a rts k n0 c0 P' s'
    \<and> (x \<in> F \<longrightarrow> (\<forall>t. nbr c T x t \<longrightarrow> t \<in> ball c T a k \<union> P'))"
proof -
  have n0: "neighbour_table0 s = n0" using inv by (simp add: pass_inv_def)
  have nn: "of_nat x \<noteq> AXIOM_NULL_NODE c"
    using x(1) consts_okD(1,7) [OF ok] by (auto simp: of_nat_eq_u8_iff)
  show ?thesis
  proof (cases "x \<in> F")
    case False
    then have "second_level_node c T a x s = Some s" using x n0 by (simp add: second_level_node_def)
    with False inv show ?thesis by auto
  next
    case True
    let ?I = "\<lambda>j s'. \<exists>P'. P \<subseteq> P' \<and> pass_inv c T a rts k n0 c0 P' s'
      \<and> (\<forall>i<j. T ! x ! i \<noteq> AXIOM_NULL_NODE c \<longrightarrow> unat (T ! x ! i) \<in> ball c T a k \<union> P')"
    let ?is = "[0..<Suc (AXIOM_INTERFACES_MAX c)]"
    have "\<exists>s'. for_each (second_neighbour_if c T a (of_nat x)) ?is s = Some s' \<and> ?I (length ?is) s'"
    proof (rule for_each_rule [where I = ?I])
      show "?I 0 s" using inv by auto
      fix j s1
      assume j: "j < length ?is" and "?I j s1"
      then obtain P1 where P1: "P \<subseteq> P1" "pass_inv c T a rts k n0 c0 P1 s1"
        "\<forall>i<j. T ! x ! i \<noteq> AXIOM_NULL_NODE c \<longrightarrow> unat (T ! x ! i) \<in> ball c T a k \<union> P1" by auto
      from j have "?is ! j = j" "j \<le> AXIOM_INTERFACES_MAX c" by (auto simp del: upt_Suc)
      with second_neighbour_if_step [OF wf ok a P1(2), of x j] True x(4) obtain s2 P2 where
        "second_neighbour_if c T a (of_nat x) (?is ! j) s1 = Some s2" "P1 \<subseteq> P2"
        "pass_inv c T a rts k n0 c0 P2 s2"
        "T ! x ! j \<noteq> AXIOM_NULL_NODE c \<longrightarrow> unat (T ! x ! j) \<in> ball c T a k \<union> P2" by auto
      with P1 show "\<exists>s'. second_neighbour_if c T a (of_nat x) (?is ! j) s1 = Some s' \<and> ?I (Suc j) s'"
        by (auto simp: less_Suc_eq simp del: upt_Suc intro!: exI [of _ P2])
    qed
    then obtain s' P' where s': "for_each (second_neighbour_if c T a (of_nat x)) ?is s = Some s'"
      "P \<subseteq> P'" "pass_inv c T a rts k n0 c0 P' s'"
      "\<forall>i<Suc (AXIOM_INTERFACES_MAX c). T ! x ! i \<noteq> AXIOM_NULL_NODE c \<longrightarrow>
         unat (T ! x ! i) \<in> ball c T a k \<union> P'" by auto
    have "second_level_node c T a x s = Some s'"
      using True x n0 nn s'(1) by (simp add: second_level_node_def del: upt_Suc)
    moreover have "\<forall>t. nbr c T x t \<longrightarrow> t \<in> ball c T a k \<union> P'"
      using s'(4) by (auto simp: nbr_def less_Suc_eq_le)
    ultimately show ?thesis using s'(2,3) by blast
  qed
qed

section \<open>Levels\<close>

text \<open>The frontier a pass expands: the neighbours in the first pass; afterwards every node found by
  an earlier pass, because the second row of the neighbour table is never cleared.\<close>

definition frontier :: "'c axiom_consts_scheme \<Rightarrow> topology \<Rightarrow> nat \<Rightarrow> nat \<Rightarrow> nat set" where
  "frontier c T a k = (if k = 1 then ball c T a 1 - {a} else ball c T a k - ball c T a 1)"

definition level_inv ::
  "'c axiom_consts_scheme \<Rightarrow> topology \<Rightarrow> nat \<Rightarrow> u8 list list \<Rightarrow> u8 \<Rightarrow> nat \<Rightarrow> rt_state \<Rightarrow> bool" where
  "level_inv c T a rts e k s \<longleftrightarrow>
     search_inv c T a rts k {} s \<and> length (neighbour_table0 s) = AXIOM_NODES_NUM c
   \<and> (\<forall>b<AXIOM_NODES_NUM c. neighbour_table0 s ! b =
        (if b \<in> frontier c T a k then of_nat b else AXIOM_NULL_NODE c))
   \<and> neighbours_counter s = e + of_nat (card (ball c T a k - ball c T a 1))"

text \<open>Nodes of the explored ball outside the frontier have no unexplored neighbour.\<close>

lemma frontier_closed:
  assumes "1 \<le> k" "x \<in> ball c T a k" "x \<notin> frontier c T a k" "nbr c T x t"
  shows "t \<in> ball c T a k"
proof (cases "k = 1")
  case True
  with assms show ?thesis by (auto simp: frontier_def)
next
  case False
  with assms have "x \<in> ball c T a 1" "2 \<le> k" by (auto simp: frontier_def)
  with assms(4) have "t \<in> ball c T a 2" by (auto simp: numeral_2_eq_2)
  with \<open>2 \<le> k\<close> show ?thesis using ball_mono by blast
qed

lemma frontier_subset: "1 \<le> k \<Longrightarrow> frontier c T a k \<subseteq> ball c T a k - {a}"
  by (auto simp: frontier_def)

lemma search_inv_finish:
  assumes "search_inv c T a rts k (ball c T a (Suc k) - ball c T a k) s" "1 \<le> k"
  shows "search_inv c T a rts (Suc k) {} (s\<lparr>neighbour_table0 := n\<rparr>)"
proof -
  have sub: "ball c T a 1 \<subseteq> ball c T a k" "ball c T a k \<subseteq> ball c T a (Suc k)"
    using assms(2) ball_mono [of 1 k] ball_mono [of k "Suc k"] by auto
  have eq1: "ball c T a k - {a} \<union> (ball c T a (Suc k) - ball c T a k) = ball c T a (Suc k) - {a} \<union> {}"
    using sub by auto
  have eq2: "ball c T a k - ball c T a 1 \<union> (ball c T a (Suc k) - ball c T a k)
      = ball c T a (Suc k) - ball c T a 1 \<union> {}"
    using sub by auto
  show ?thesis using assms(1) unfolding search_inv_def eq1 eq2 by simp
qed

text \<open>The loop of a pass: every node of the frontier has its neighbours added.\<close>

lemma second_level_pass_run:
  assumes wf: "topo_wf c T m l" and ok: "consts_ok c" and a: "a \<in> {m..<l}"
    and inv: "level_inv c T a rts e k s" and k: "1 \<le> k"
  shows "\<exists>s' P. for_each (second_level_node c T a) [m..<l] s = Some s' \<and> pass_inv c T a rts k (neighbour_table0 s) (neighbours_counter s) P s'
    \<and> (\<forall>x\<in>frontier c T a k. x < m + (l - m) \<longrightarrow> (\<forall>t. nbr c T x t \<longrightarrow> t \<in> ball c T a k \<union> P))"
proof -
  let ?F = "frontier c T a k"
  let ?n0 = "neighbour_table0 s" and ?c0 = "neighbours_counter s"
  have lN: "l \<le> AXIOM_NODES_NUM c" using wf by (simp add: topo_wf_def)
  have n0: "length ?n0 = AXIOM_NODES_NUM c"
    "\<And>b. b < AXIOM_NODES_NUM c \<Longrightarrow> ?n0 ! b = (if b \<in> ?F then of_nat b else AXIOM_NULL_NODE c)"
    and sinv: "search_inv c T a rts k {} s"
    using inv by (auto simp: level_inv_def)
  let ?I = "\<lambda>j s'. \<exists>P. pass_inv c T a rts k ?n0 ?c0 P s'
      \<and> (\<forall>x\<in>?F. x < m + j \<longrightarrow> (\<forall>t. nbr c T x t \<longrightarrow> t \<in> ball c T a k \<union> P))"
  have "\<exists>s'. for_each (second_level_node c T a) [m..<l] s = Some s' \<and> ?I (length [m..<l]) s'"
  proof (rule for_each_rule [where I = ?I])
    have "x \<ge> m" if "x \<in> ?F" for x
      using frontier_subset [OF k, of c T a] ball_range [OF wf a, of k] that by auto
    then have "\<forall>x\<in>?F. \<not> x < m" by force
    then show "?I 0 s" using sinv by (intro exI [of _ "{}"]) (simp add: pass_inv_def)
    fix j s1
    assume j: "j < length [m..<l]" and "?I j s1"
    then obtain P1 where P1: "pass_inv c T a rts k ?n0 ?c0 P1 s1"
      "\<forall>x\<in>?F. x < m + j \<longrightarrow> (\<forall>t. nbr c T x t \<longrightarrow> t \<in> ball c T a k \<union> P1)" by auto
    from j lN have mj: "[m..<l] ! j = m + j" "m + j < AXIOM_NODES_NUM c" by auto
    from second_level_node_step [OF wf ok a P1(1) mj(2) n0(1) n0(2) [OF mj(2)] frontier_subset [OF k]]
    obtain s2 P2 where s2: "second_level_node c T a (m + j) s1 = Some s2" "P1 \<subseteq> P2"
      "pass_inv c T a rts k ?n0 ?c0 P2 s2"
      "m + j \<in> ?F \<longrightarrow> (\<forall>t. nbr c T (m + j) t \<longrightarrow> t \<in> ball c T a k \<union> P2)" by auto
    have "?I (Suc j) s2"
      using s2(2-4) P1(2) by (intro exI [of _ P2]) (auto simp: less_Suc_eq)
    with s2(1) mj(1) show "\<exists>s'. second_level_node c T a ([m..<l] ! j) s1 = Some s' \<and> ?I (Suc j) s'"
      by auto
  qed
  then show ?thesis by auto
qed

lemma second_level_pass_level:
  assumes wf: "topo_wf c T m l" and ok: "consts_ok c" and a: "a \<in> {m..<l}"
    and inv: "level_inv c T a rts e k s" and k: "1 \<le> k"
  shows "\<exists>s'. second_level_pass c T m l a s = Some s' \<and> level_inv c T a rts e (Suc k) s'"
proof -
  let ?F = "frontier c T a k"
  have c0: "neighbours_counter s = e + of_nat (card (ball c T a k - ball c T a 1))" using inv by (auto simp: level_inv_def)
  obtain s' P where s': "for_each (second_level_node c T a) [m..<l] s = Some s'"
    "pass_inv c T a rts k (neighbour_table0 s) (neighbours_counter s) P s'"
    "\<forall>x\<in>?F. x < m + (l - m) \<longrightarrow> (\<forall>t. nbr c T x t \<longrightarrow> t \<in> ball c T a k \<union> P)" using second_level_pass_run [OF assms] by auto
  have Psub: "P \<subseteq> ball c T a (Suc k) - ball c T a k"
    using s'(2) search_invD(1) unfolding pass_inv_def by blast
  have "t \<in> P" if "t \<in> ball c T a (Suc k)" "t \<notin> ball c T a k" for t
  proof -
    from that obtain x where x: "x \<in> ball c T a k" "nbr c T x t" by auto
    then have "x \<in> ?F" using frontier_closed [OF k x(1) _ x(2)] that by auto
    moreover have "x < m + (l - m)" using ball_range [OF wf a, of k] x(1) by auto
    ultimately show ?thesis using s'(3) x(2) that by auto
  qed
  with Psub have P: "P = ball c T a (Suc k) - ball c T a k" by auto
  let ?s2 = "s'\<lparr>neighbour_table0 := neighbour_table1 s'\<rparr>"
  have S: "search_inv c T a rts (Suc k) {} ?s2"
    using s'(2) search_inv_finish [OF _ k] by (auto simp: pass_inv_def P)
  have sub: "ball c T a 1 \<subseteq> ball c T a k" using k by (rule ball_mono)
  have "card (ball c T a (Suc k) - ball c T a 1) = card (ball c T a k - ball c T a 1) + card P"
    unfolding P by (intro card_Diff_chain sub ball_mono finite_ball [OF wf a]) simp
  then have "neighbours_counter ?s2 = e + of_nat (card (ball c T a (Suc k) - ball c T a 1))"
    using s'(2) c0 by (simp add: pass_inv_def add.assoc)
  moreover have "frontier c T a (Suc k) = ball c T a (Suc k) - ball c T a 1"
    using k by (simp add: frontier_def)
  ultimately have "level_inv c T a rts e (Suc k) ?s2"
    using S search_invD(6,9) [OF S] by (simp add: level_inv_def del: ball.simps)
  with s'(1) show ?thesis by (auto simp: second_level_pass_def)
qed

section \<open>The search from one node\<close>

lemma axiom_init_routing_neighbour_result:
  assumes "is_table (AXIOM_NODES_NUM c) (AXIOM_NODES_NUM c) (routing_tables s)" "a < AXIOM_NODES_NUM c"
    "length (neighbour_table0 s) = AXIOM_NODES_NUM c" "length (neighbour_table1 s) = AXIOM_NODES_NUM c"
  shows "\<exists>s'. axiom_init_routing_neighbour c a s = Some s'
    \<and> is_table (AXIOM_NODES_NUM c) (AXIOM_NODES_NUM c) (routing_tables s')
    \<and> (\<forall>r. r \<noteq> a \<longrightarrow> routing_tables s' ! r = routing_tables s ! r)
    \<and> (\<forall>b<AXIOM_NODES_NUM c. routing_tables s' ! a ! b = 0)
    \<and> neighbour_table0 s' = replicate (AXIOM_NODES_NUM c) (AXIOM_NULL_NODE c)
    \<and> neighbour_table1 s' = replicate (AXIOM_NODES_NUM c) (AXIOM_NULL_NODE c)"
proof -
  let ?N = "AXIOM_NODES_NUM c" and ?nl = "AXIOM_NULL_NODE c"
  let ?f = "\<lambda>i s. do {
       rts \<leftarrow> aset2 (routing_tables s) a i AXIOM_NULL_RT_INTERFACE;
       n0 \<leftarrow> aset (neighbour_table0 s) i ?nl; n1 \<leftarrow> aset (neighbour_table1 s) i ?nl;
       Some (s\<lparr>routing_tables := rts, neighbour_table0 := n0, neighbour_table1 := n1\<rparr>) }"
  let ?I = "\<lambda>k s'. is_table ?N ?N (routing_tables s')
    \<and> (\<forall>r. r \<noteq> a \<longrightarrow> routing_tables s' ! r = routing_tables s ! r)
    \<and> (\<forall>b<k. routing_tables s' ! a ! b = 0)
    \<and> length (neighbour_table0 s') = ?N \<and> length (neighbour_table1 s') = ?N
    \<and> (\<forall>b<k. neighbour_table0 s' ! b = ?nl) \<and> (\<forall>b<k. neighbour_table1 s' ! b = ?nl)"
  have "\<exists>s'. for_each ?f [0..<?N] s = Some s' \<and> ?I (length [0..<?N]) s'"
  proof (rule for_each_rule [where I = ?I])
    show "?I 0 s" using assms by simp
    fix k s1
    assume k: "k < length [0..<?N]" and I: "?I k s1"
    note T = is_tableD [OF conjunct1 [OF I]]
    let ?s2 = "s1\<lparr>routing_tables := (routing_tables s1)[a := (routing_tables s1 ! a)[k := 0]],
      neighbour_table0 := (neighbour_table0 s1)[k := ?nl],
      neighbour_table1 := (neighbour_table1 s1)[k := ?nl]\<rparr>"
    have "?f ([0..<?N] ! k) s1 = Some ?s2"
      using k T assms(2) I by (simp add: AXIOM_NULL_RT_INTERFACE_def)
    moreover have "?I (Suc k) ?s2"
      using I k T assms(2) by (auto simp: less_Suc_eq nth_list_update intro!: is_table_update)
    ultimately show "\<exists>s'. ?f ([0..<?N] ! k) s1 = Some s' \<and> ?I (Suc k) s'" by blast
  qed
  then show ?thesis
    unfolding axiom_init_routing_neighbour_def by (auto simp: list_eq_iff_nth_eq)
qed

text \<open>After the interfaces \<open>0 \<dots> j - 1\<close> of the node have been looked at.\<close>

definition first_inv ::
  "'c axiom_consts_scheme \<Rightarrow> topology \<Rightarrow> nat \<Rightarrow> u8 list list \<Rightarrow> nat \<Rightarrow> rt_state \<Rightarrow> bool" where
  "first_inv c T a rts j s \<longleftrightarrow>
     is_table (AXIOM_NODES_NUM c) (AXIOM_NODES_NUM c) (routing_tables s)
   \<and> (\<forall>r. r \<noteq> a \<longrightarrow> routing_tables s ! r = rts ! r)
   \<and> (\<forall>b<AXIOM_NODES_NUM c. routing_tables s ! a ! b = if_mask c T a b j)
   \<and> length (neighbour_table0 s) = AXIOM_NODES_NUM c
   \<and> (\<forall>b<AXIOM_NODES_NUM c. neighbour_table0 s ! b =
        (if if_mask c T a b j \<noteq> 0 then of_nat b else AXIOM_NULL_NODE c))
   \<and> neighbour_table1 s = replicate (AXIOM_NODES_NUM c) (AXIOM_NULL_NODE c)
   \<and> neighbours_counter s = of_nat (card {i. i < j \<and> T ! a ! i \<noteq> AXIOM_NULL_NODE c})"

lemma neighbour_route_if_step:
  assumes wf: "topo_wf c T m l" and ok: "consts_ok c" and a: "a \<in> {m..<l}"
    and inv: "first_inv c T a rts j s" and j: "j \<le> AXIOM_INTERFACES_MAX c"
  shows "\<exists>s'. neighbour_route_if c T a j s = Some s' \<and> first_inv c T a rts (Suc j) s'"
proof -
  have tab: "length T = AXIOM_NODES_NUM c" "l \<le> AXIOM_NODES_NUM c"
    "\<And>r. r < AXIOM_NODES_NUM c \<Longrightarrow> length (T ! r) = Suc (AXIOM_INTERFACES_MAX c)"
    using wf consts_okD(2) [OF ok] by (auto simp: topo_wf_def is_table_def)
  have aN: "a < AXIOM_NODES_NUM c" using a tab by auto
  have j8: "j < 8" using j consts_okD(3) [OF ok] by simp
  define t where "t = T ! a ! j"
  have get: "aget2 T a j = Some t" using aN tab j by (simp add: t_def)
  have R: "is_table (AXIOM_NODES_NUM c) (AXIOM_NODES_NUM c) (routing_tables s)"
    using inv by (simp add: first_inv_def)
  note RT = is_tableD [OF R]
  show ?thesis
  proof (cases "t = AXIOM_NULL_NODE c")
    case True
    then have "{i. i < Suc j \<and> T ! a ! i \<noteq> AXIOM_NULL_NODE c} = {i. i < j \<and> T ! a ! i \<noteq> AXIOM_NULL_NODE c}"
      by (auto simp: t_def less_Suc_eq)
    with True inv show ?thesis
      by (simp add: neighbour_route_if_def get first_inv_def if_mask_Suc t_def)
  next
    case False
    then have tN: "unat t < AXIOM_NODES_NUM c"
      using nbr_range [OF wf a nbrI [OF j]] tab by (auto simp: t_def)
    have cnt: "{i. i < Suc j \<and> T ! a ! i \<noteq> AXIOM_NULL_NODE c}
        = insert j {i. i < j \<and> T ! a ! i \<noteq> AXIOM_NULL_NODE c}"
      using False by (auto simp: t_def less_Suc_eq)
    have nz: "if_mask c T a (unat t) (Suc j) \<noteq> 0"
      using False j8 by (subst if_mask_nonzero) (auto simp: t_def)
    let ?s' = "s\<lparr>routing_tables := (routing_tables s)[a := (routing_tables s ! a)
          [unat t := routing_tables s ! a ! unat t OR push_bit j 1]],
        neighbour_table0 := (neighbour_table0 s)[unat t := t],
        neighbours_counter := neighbours_counter s + 1\<rparr>"
    have len: "length (neighbour_table0 s) = AXIOM_NODES_NUM c"
      using inv by (simp add: first_inv_def)
    have eq: "neighbour_route_if c T a j s = Some ?s'"
      using False tN aN RT j8 len by (simp add: neighbour_route_if_def get)
    have mask: "if_mask c T a b (Suc j) =
        (if b = unat t then if_mask c T a b j OR push_bit j 1 else if_mask c T a b j)" for b
      using False by (simp add: if_mask_Suc t_def)
    have "first_inv c T a rts (Suc j) ?s'"
      using inv nz tN aN RT False len unfolding first_inv_def mask cnt
      by (auto simp: nth_list_update intro!: is_table_update)
    with eq show ?thesis by blast
  qed
qed

lemma first_inv_level:
  assumes wf: "topo_wf c T m l" and ok: "consts_ok c" and a: "a \<in> {m..<l}"
    and inv: "first_inv c T a rts (Suc (AXIOM_INTERFACES_MAX c)) s"
  shows "level_inv c T a rts
    (of_nat (card {i. i \<le> AXIOM_INTERFACES_MAX c \<and> T ! a ! i \<noteq> AXIOM_NULL_NODE c})) 1 s"
proof -
  have na: "\<not> nbr c T a a" using nbr_range [OF wf a] by blast
  have mask: "full_mask c T a b \<noteq> 0 \<longleftrightarrow> b \<in> ball c T a 1 - {a}" for b
    using full_mask_nonzero [OF ok, of T a b] na by (auto simp: ball_1)
  have "route_ok c T a b (full_mask c T a b)" if "b \<in> ball c T a 1 - {a}" for b
    using that route_ok_direct [of c T a b] by (auto simp: ball_1)
  moreover have "b < AXIOM_NODES_NUM c" if "b \<in> ball c T a 1 - {a}" for b
    using that ball_range [OF wf a, of 1] wf by (auto simp: topo_wf_def)
  ultimately have "search_inv c T a rts 1 {} s"
    using inv mask unfolding search_inv_def first_inv_def by auto
  then show ?thesis
    using inv mask unfolding level_inv_def first_inv_def frontier_def
    by (auto simp: less_Suc_eq_le)
qed

lemma compute_node_start:
  assumes wf: "topo_wf c T m l" and ok: "consts_ok c" and a: "a \<in> {m..<l}"
    and tab: "is_table (AXIOM_NODES_NUM c) (AXIOM_NODES_NUM c) (routing_tables s)"
      "length (neighbour_table0 s) = AXIOM_NODES_NUM c" "length (neighbour_table1 s) = AXIOM_NODES_NUM c"
  shows "\<exists>s'. do { s \<leftarrow> axiom_init_routing_neighbour c a s; axiom_compute_neighbours_route c T a s } = Some s'
    \<and> level_inv c T a (routing_tables s)
        (of_nat (card {i. i \<le> AXIOM_INTERFACES_MAX c \<and> T ! a ! i \<noteq> AXIOM_NULL_NODE c})) 1 s'"
proof -
  let ?M = "AXIOM_INTERFACES_MAX c"
  let ?rts = "routing_tables s"
  have aN: "a < AXIOM_NODES_NUM c" using a wf by (auto simp: topo_wf_def)
  from axiom_init_routing_neighbour_result [OF tab(1) aN tab(2,3)] obtain s1 where
    s1: "axiom_init_routing_neighbour c a s = Some s1"
    and f: "first_inv c T a ?rts 0 (s1\<lparr>neighbours_counter := 0\<rparr>)"
    by (auto simp: first_inv_def)
  have "\<exists>s'. for_each (neighbour_route_if c T a) [0..<Suc ?M] (s1\<lparr>neighbours_counter := 0\<rparr>) = Some s'
      \<and> first_inv c T a ?rts (length [0..<Suc ?M]) s'"
  proof (rule for_each_rule [where I = "first_inv c T a ?rts", OF f])
    fix k s2
    assume "k < length [0..<Suc ?M]" and I: "first_inv c T a ?rts k s2"
    then have "[0..<Suc ?M] ! k = k" "k \<le> ?M" by (auto simp del: upt_Suc)
    with neighbour_route_if_step [OF wf ok a I]
    show "\<exists>s'. neighbour_route_if c T a ([0..<Suc ?M] ! k) s2 = Some s' \<and> first_inv c T a ?rts (Suc k) s'"
      by (simp del: upt_Suc)
  qed
  then obtain s' where "axiom_compute_neighbours_route c T a s1 = Some s'"
    "first_inv c T a ?rts (Suc ?M) s'"
    by (auto simp: axiom_compute_neighbours_route_def simp del: upt_Suc)
  with s1 first_inv_level [OF wf ok a] show ?thesis by auto
qed

text \<open>In a simple topology the edges of a node are as many as its neighbours, so the counter is the
  number of nodes that have a route.\<close>

lemma simple_degree:
  assumes wf: "topo_wf c T m l" and sm: "topo_simple c T m l" and a: "a \<in> {m..<l}"
  shows "card {i. i \<le> AXIOM_INTERFACES_MAX c \<and> T ! a ! i \<noteq> AXIOM_NULL_NODE c} = card (ball c T a 1 - {a})"
proof -
  let ?E = "{i. i \<le> AXIOM_INTERFACES_MAX c \<and> T ! a ! i \<noteq> AXIOM_NULL_NODE c}"
  have "inj_on (\<lambda>i. unat (T ! a ! i)) ?E"
  proof (rule inj_onI)
    fix i j
    assume "i \<in> ?E" "j \<in> ?E" "unat (T ! a ! i) = unat (T ! a ! j)"
    then have "i \<in> {0..AXIOM_INTERFACES_MAX c}" "j \<in> {0..AXIOM_INTERFACES_MAX c}"
      "T ! a ! i \<noteq> AXIOM_NULL_NODE c" "T ! a ! i = T ! a ! j"
      by (auto simp: word_unat_eq_iff)
    with sm a show "i = j" unfolding topo_simple_def by blast
  qed
  then have "card ?E = card ((\<lambda>i. unat (T ! a ! i)) ` ?E)" by (rule card_image [symmetric])
  also have "(\<lambda>i. unat (T ! a ! i)) ` ?E = {b. nbr c T a b}"
    by (auto simp: nbr_def)
  also have "\<dots> = ball c T a 1 - {a}" using nbr_range [OF wf a] by (auto simp: ball_1)
  finally show ?thesis .
qed

lemma level_counter:
  assumes wf: "topo_wf c T m l" and sm: "topo_simple c T m l" and ok: "consts_ok c" and a: "a \<in> {m..<l}"
    and k: "1 \<le> k"
    and inv: "level_inv c T a rts
      (of_nat (card {i. i \<le> AXIOM_INTERFACES_MAX c \<and> T ! a ! i \<noteq> AXIOM_NULL_NODE c})) k s"
  shows "unat (neighbours_counter s) = card (ball c T a k) - 1"
proof -
  let ?B = "\<lambda>k. ball c T a k"
  have sub: "?B 0 \<subseteq> ?B 1" "?B 1 \<subseteq> ?B k" using ball_mono [of 0 1] ball_mono [OF k] by auto
  have "card (?B k - ?B 0) = card (?B 1 - ?B 0) + card (?B k - ?B 1)"
    using sub finite_ball [OF wf a] by (rule card_Diff_chain)
  then have "neighbours_counter s = of_nat (card (?B k - {a}))"
    using inv simple_degree [OF wf sm a] by (simp add: level_inv_def)
  moreover have "card (?B k - {a}) = card (?B k) - 1"
    using finite_ball [OF wf a] by (simp add: card_Diff_singleton)
  moreover have "card (?B k) \<le> l - m"
    using card_mono [OF _ ball_range [OF wf a, of k]] by simp
  moreover have "l - m < 256" using wf consts_okD(7) [OF ok] by (auto simp: topo_wf_def)
  ultimately show ?thesis by simp
qed

text \<open>What the finished search leaves: every other node has a shortest route in \<open>a\<close>'s table and the
  tables of the other nodes are untouched.\<close>

definition node_done ::
  "'c axiom_consts_scheme \<Rightarrow> topology \<Rightarrow> nat \<Rightarrow> nat \<Rightarrow> nat \<Rightarrow> u8 list list \<Rightarrow> rt_state \<Rightarrow> bool" where
  "node_done c T m l a rts s \<longleftrightarrow>
     is_table (AXIOM_NODES_NUM c) (AXIOM_NODES_NUM c) (routing_tables s)
   \<and> length (neighbour_table0 s) = AXIOM_NODES_NUM c \<and> length (neighbour_table1 s) = AXIOM_NODES_NUM c
   \<and> (\<forall>r. r \<noteq> a \<longrightarrow> routing_tables s ! r = rts ! r)
   \<and> (\<forall>b<AXIOM_NODES_NUM c. if b \<in> {m..<l} - {a} then route_ok c T a b (routing_tables s ! a ! b)
        else routing_tables s ! a ! b = 0)"

text \<open>The passes end, and then the search has reached every node.\<close>

lemma compute_levels_run:
  assumes wf: "topo_wf c T m l" and sm: "topo_simple c T m l" and con: "topo_connected c T m l"
    and ok: "consts_ok c" and a: "a \<in> {m..<l}"
  defines "e \<equiv> of_nat (card {i. i \<le> AXIOM_INTERFACES_MAX c \<and> T ! a ! i \<noteq> AXIOM_NULL_NODE c}) :: u8"
  assumes "1 \<le> k0" "level_inv c T a rts e k0 s2"
  shows "\<exists>s'. while_ctl (pass_again m l) (\<lambda>s. map_option (Pair Next) (second_level_pass c T m l a s)) s2 = Some s'
    \<and> (\<exists>k\<ge>1. level_inv c T a rts e k s' \<and> ball c T a k = {m..<l})"
proof -
  let ?P = "\<lambda>s. \<exists>k\<ge>1. level_inv c T a rts e k s"
  let ?body = "\<lambda>s. map_option (Pair Next) (second_level_pass c T m l a s)"
  have level_counter: "unat (neighbours_counter s) = card (ball c T a k) - 1" if "1 \<le> k" "level_inv c T a rts e k s" for k s
    using that level_counter [OF wf sm ok a] unfolding e_def by blast
  have full: "card (ball c T a k) = l - m \<longleftrightarrow> ball c T a k = {m..<l}" for k
    using card_subset_eq [OF _ ball_range [OF wf a, of k]] by auto
  have le: "card (ball c T a k) \<le> l - m" for k
    using card_mono [OF _ ball_range [OF wf a, of k]] by simp
  have pos: "1 \<le> card (ball c T a k)" for k
    using card_mono [OF finite_ball [OF wf a, of k], of "{a}"] ball_self [of a c T k] by simp
  show ?thesis
  proof (rule while_ctl_total [where P = ?P and m = "\<lambda>s. l - m - 1 - unat (neighbours_counter s)"])
    show "?P s2" using assms(7,8) by blast
  next
    fix s
    assume "?P s" and g: "pass_again m l s"
    then obtain k where k: "1 \<le> k" "level_inv c T a rts e k s" by auto
    note cnt = level_counter [OF k]
    have "ball c T a k \<noteq> {m..<l}"
      using g cnt full [of k] pos [of k] a by (auto simp: pass_again_def)
    then have less: "card (ball c T a k) < card (ball c T a (Suc k))"
      by (intro psubset_card_mono finite_ball [OF wf a] ball_strict [OF con wf a])
    from second_level_pass_level [OF wf ok a k(2,1)] obtain s' where
      s': "second_level_pass c T m l a s = Some s'" "level_inv c T a rts e (Suc k) s'" by auto
    then have "unat (neighbours_counter s') = card (ball c T a (Suc k)) - 1"
      by (intro level_counter [OF _ s'(2)]) simp
    with cnt less pos [of k] le [of "Suc k"] s' k(1)
    show "(\<exists>s'. ?body s = Some (Break, s') \<and> (\<exists>k\<ge>1. level_inv c T a rts e k s' \<and> ball c T a k = {m..<l}))
      \<or> (\<exists>s'. ?body s = Some (Next, s') \<and> ?P s'
          \<and> l - m - 1 - unat (neighbours_counter s') < l - m - 1 - unat (neighbours_counter s))"
      by (intro disjI2 exI [of _ s']) (auto intro: exI [of _ "Suc k"])
  next
    fix s
    assume "?P s" and g: "\<not> pass_again m l s"
    then obtain k where k: "1 \<le> k" "level_inv c T a rts e k s" by auto
    have "ball c T a k = {m..<l}"
      using g level_counter [OF k] full [of k] le [of k] pos [of k] a
      by (auto simp: pass_again_def)
    with k show "\<exists>k\<ge>1. level_inv c T a rts e k s \<and> ball c T a k = {m..<l}" by auto
  qed
qed

lemma compute_node_table_done:
  assumes wf: "topo_wf c T m l" and sm: "topo_simple c T m l" and con: "topo_connected c T m l"
    and ok: "consts_ok c" and a: "a \<in> {m..<l}"
    and tab: "is_table (AXIOM_NODES_NUM c) (AXIOM_NODES_NUM c) (routing_tables s)"
      "length (neighbour_table0 s) = AXIOM_NODES_NUM c" "length (neighbour_table1 s) = AXIOM_NODES_NUM c"
  shows "\<exists>s'. compute_node_table c T m l a s = Some s' \<and> node_done c T m l a (routing_tables s) s'"
proof -
  let ?e = "of_nat (card {i. i \<le> AXIOM_INTERFACES_MAX c \<and> T ! a ! i \<noteq> AXIOM_NULL_NODE c}) :: u8"
  let ?rts = "routing_tables s"
  let ?body = "\<lambda>s. map_option (Pair Next) (second_level_pass c T m l a s)"
  from compute_node_start [OF wf ok a tab] obtain s1 where
    s1: "do { s \<leftarrow> axiom_init_routing_neighbour c a s; axiom_compute_neighbours_route c T a s } = Some s1"
    "level_inv c T a ?rts ?e 1 s1" by blast
  from second_level_pass_level [OF wf ok a s1(2)] obtain s2 where
    s2: "second_level_pass c T m l a s1 = Some s2" "level_inv c T a ?rts ?e (Suc 1) s2" by auto
  obtain s' k where s': "while_ctl (pass_again m l) ?body s2 = Some s'"
    "level_inv c T a ?rts ?e k s'" "ball c T a k = {m..<l}" using compute_levels_run [OF wf sm con ok a _ s2(2)] by auto
  have "search_inv c T a ?rts k {} s'" "length (neighbour_table0 s') = AXIOM_NODES_NUM c"
    using s'(2) by (auto simp: level_inv_def)
  note D = search_invD [OF this(1)] this(2)
  have "node_done c T m l a ?rts s'"
    unfolding node_done_def using D(4-8) D(10) s'(3) by auto
  moreover have "compute_node_table c T m l a s = Some s'"
    using s1(1) s2(1) s'(1) unfolding compute_node_table_def compute_levels_def
    by (auto simp: bind_eq_Some_conv)
  ultimately show ?thesis by blast
qed

text \<open>The loop over the nodes: each iteration adds the finished table of one node and keeps those of
  the nodes before it.\<close>

lemma compute_all_nodes:
  assumes wf: "topo_wf c T m l" and sm: "topo_simple c T m l" and con: "topo_connected c T m l"
    and ok: "consts_ok c"
    and tab: "is_table (AXIOM_NODES_NUM c) (AXIOM_NODES_NUM c) (routing_tables s)"
      "length (neighbour_table0 s) = AXIOM_NODES_NUM c" "length (neighbour_table1 s) = AXIOM_NODES_NUM c"
  shows "\<exists>s'. for_each (compute_node_table c T m l) [m..<l] s = Some s'
    \<and> is_table (AXIOM_NODES_NUM c) (AXIOM_NODES_NUM c) (routing_tables s')
    \<and> (\<forall>r. r \<notin> {m..<l} \<longrightarrow> routing_tables s' ! r = routing_tables s ! r)
    \<and> (\<forall>a\<in>{m..<l}. \<forall>b<AXIOM_NODES_NUM c.
         if b \<in> {m..<l} - {a} then route_ok c T a b (routing_tables s' ! a ! b)
         else routing_tables s' ! a ! b = 0)"
proof -
  let ?I = "\<lambda>k (s' :: rt_state). is_table (AXIOM_NODES_NUM c) (AXIOM_NODES_NUM c) (routing_tables s')
    \<and> length (neighbour_table0 s') = AXIOM_NODES_NUM c \<and> length (neighbour_table1 s') = AXIOM_NODES_NUM c
    \<and> (\<forall>r. r \<notin> {m..<m + k} \<longrightarrow> routing_tables s' ! r = routing_tables s ! r)
    \<and> (\<forall>a\<in>{m..<m + k}. \<forall>b<AXIOM_NODES_NUM c.
         if b \<in> {m..<l} - {a} then route_ok c T a b (routing_tables s' ! a ! b)
         else routing_tables s' ! a ! b = 0)"
  have "\<exists>s'. for_each (compute_node_table c T m l) [m..<l] s = Some s' \<and> ?I (length [m..<l]) s'"
  proof (rule for_each_rule [where I = ?I])
    fix k s1
    assume k: "k < length [m..<l]" and I: "?I k s1"
    from k have a: "m + k \<in> {m..<l}" by auto
    from compute_node_table_done [OF wf sm con ok a] I obtain s2 where
      s2: "compute_node_table c T m l (m + k) s1 = Some s2"
      and d: "node_done c T m l (m + k) (routing_tables s1) s2" by blast
    have "?I (Suc k) s2"
      using I d unfolding node_done_def by (auto simp: less_Suc_eq)
    with s2 k show "\<exists>s'. compute_node_table c T m l ([m..<l] ! k) s1 = Some s' \<and> ?I (Suc k) s'"
      by simp
  qed (use tab in simp)
  then obtain s' where s': "for_each (compute_node_table c T m l) [m..<l] s = Some s'"
    and I: "?I (l - m) s'" by auto
  have "{m..<m + (l - m)} = {m..<l}" by auto
  with s' I show ?thesis by metis
qed

section \<open>Forwarding\<close>

text \<open>A message for \<open>b\<close> goes from \<open>a\<close> to \<open>a'\<close> when \<open>a\<close> sends it on an interface of its mask for \<open>b\<close>
  and \<open>a'\<close> is on the other side.\<close>

definition forwards ::
  "'c axiom_consts_scheme \<Rightarrow> topology \<Rightarrow> u8 list list \<Rightarrow> nat \<Rightarrow> nat \<Rightarrow> nat \<Rightarrow> bool" where
  "forwards c T rts b a a' \<longleftrightarrow>
     (\<exists>i\<in>{0..AXIOM_INTERFACES_MAX c}. bit (rts ! a ! b) i
        \<and> T ! a ! i \<noteq> AXIOM_NULL_NODE c \<and> unat (T ! a ! i) = a')"

text \<open>Every choice of interfaces along the way brings a message from \<open>a\<close> to \<open>b\<close>, and no choice
  gets stuck: \<open>arrives \<dots> k a\<close> says so for at most \<open>k\<close> hops.\<close>

primrec arrives ::
  "'c axiom_consts_scheme \<Rightarrow> topology \<Rightarrow> u8 list list \<Rightarrow> nat \<Rightarrow> nat \<Rightarrow> nat \<Rightarrow> bool" where
  "arrives c T rts b 0 a \<longleftrightarrow> a = b"
| "arrives c T rts b (Suc k) a \<longleftrightarrow> a = b
     \<or> (\<exists>a'. forwards c T rts b a a')
       \<and> (\<forall>a'\<in>set (map unat (T ! a)). forwards c T rts b a a' \<longrightarrow> arrives c T rts b k a')"

lemma route_ok_forwards:
  assumes "consts_ok c" "route_ok c T a b (rts ! a ! b)"
  shows "\<exists>a'. forwards c T rts b a a'"
  using full_mask_nonzero [OF assms(1)] assms(2) consts_okD(3) [OF assms(1)]
  by (fastforce simp: route_ok_def forwards_def nbr_def bit_if_mask)

lemma forwards_nearer:
  assumes "route_ok c T a b (rts ! a ! b)" "forwards c T rts b a a'" "b \<in> ball c T a (Suc k)"
  shows "b \<in> ball c T a' k"
proof -
  from assms(1) obtain n j where n: "rts ! a ! b = full_mask c T a n" "b \<in> ball c T n j"
    "b \<notin> ball c T a j" by (auto simp: route_ok_def)
  have "a' = n" using assms(2) n(1) by (auto simp: forwards_def bit_if_mask)
  moreover have "j \<le> k"
    using n(3) assms(3) ball_mono [of "Suc k" j c T a] by (meson not_less_eq_eq subsetD)
  ultimately show ?thesis using n(2) ball_mono [of j k c T n] by auto
qed

lemma arrives_within:
  assumes ok: "consts_ok c" and wf: "topo_wf c T m l"
    and routes: "\<And>a b. a \<in> {m..<l} \<Longrightarrow> b \<in> {m..<l} \<Longrightarrow> a \<noteq> b \<Longrightarrow> route_ok c T a b (rts ! a ! b)"
    and "a \<in> {m..<l}" "b \<in> {m..<l}" "b \<in> ball c T a k"
  shows "arrives c T rts b k a"
  using assms(4-6)
proof (induction k arbitrary: a)
  case 0
  then show ?case by simp
next
  case (Suc k)
  have "arrives c T rts b k a'" if f: "forwards c T rts b a a'" and "a \<noteq> b" for a'
  proof -
    have "nbr c T a a'" using f by (auto simp: forwards_def nbr_def)
    with nbr_range [OF wf Suc.prems(1)] have "a' \<in> {m..<l}" by blast
    with Suc.IH [OF _ Suc.prems(2)] forwards_nearer [OF routes f Suc.prems(3)] Suc.prems(1,2) that
    show ?thesis by blast
  qed
  then show ?case
    using route_ok_forwards [OF ok routes [OF Suc.prems(1,2)]] by auto
qed

section \<open>The theorems\<close>

lemma compute_tables_run:
  assumes "consts_ok c" "topo_wf c T (unat m) (unat l)" "topo_simple c T (unat m) (unat l)"
    "topo_connected c T (unat m) (unat l)"
    "is_table (AXIOM_NODES_NUM c) (AXIOM_NODES_NUM c) rts"
  shows "\<exists>rts'. axiom_compute_routing_tables c T rts m l = Some rts'
    \<and> is_table (AXIOM_NODES_NUM c) (AXIOM_NODES_NUM c) rts'
    \<and> (\<forall>r. r \<notin> {unat m..<unat l} \<longrightarrow> rts' ! r = rts ! r)
    \<and> (\<forall>a\<in>{unat m..<unat l}. \<forall>b<AXIOM_NODES_NUM c.
         if b \<in> {unat m..<unat l} - {a} then route_ok c T a b (rts' ! a ! b)
         else rts' ! a ! b = AXIOM_NULL_RT_INTERFACE)"
proof -
  let ?s = "\<lparr>routing_tables = rts, neighbour_table0 = replicate (AXIOM_NODES_NUM c) 0,
    neighbour_table1 = replicate (AXIOM_NODES_NUM c) 0, neighbours_counter = 0\<rparr>"
  from compute_all_nodes [OF assms(2-4,1), of ?s] assms(5) obtain s' where
    "for_each (compute_node_table c T (unat m) (unat l)) [unat m..<unat l] ?s = Some s'"
    "is_table (AXIOM_NODES_NUM c) (AXIOM_NODES_NUM c) (routing_tables s')"
    "\<forall>r. r \<notin> {unat m..<unat l} \<longrightarrow> routing_tables s' ! r = rts ! r"
    "\<forall>a\<in>{unat m..<unat l}. \<forall>b<AXIOM_NODES_NUM c.
      if b \<in> {unat m..<unat l} - {a} then route_ok c T a b (routing_tables s' ! a ! b)
      else routing_tables s' ! a ! b = 0"
    by auto
  then show ?thesis
    by (intro exI [of _ "routing_tables s'"])
       (simp add: axiom_compute_routing_tables_def AXIOM_NULL_RT_INTERFACE_def)
qed

lemma for_each_repeat:
  "for_each (\<lambda>_. f) [0..<Suc n] s = Option.bind (f s) (for_each (\<lambda>_. f) [0..<n])"
proof (induction n)
  case (Suc n)
  have "for_each (\<lambda>_. f) [0..<Suc (Suc n)] s = Option.bind (for_each (\<lambda>_. f) [0..<Suc n] s) f"
    by (simp add: for_each_append)
  also have "\<dots> = Option.bind (f s) (\<lambda>t. Option.bind (for_each (\<lambda>_. f) [0..<n] t) f)"
    unfolding Suc.IH by simp
  also have "\<dots> = Option.bind (f s) (for_each (\<lambda>_. f) [0..<Suc n])"
    by (cases "f s") (simp_all add: for_each_append)
  finally show ?case .
qed (cases "f s"; simp)

text \<open>A loop whose body is defined and whose condition still holds after any number of passes has no
  result.\<close>

lemma while_ctl_forever:
  assumes "\<And>n. \<exists>s'. for_each (\<lambda>_. f) [0..<n] s = Some s' \<and> b s'"
  shows "while_ctl b (\<lambda>s. map_option (Pair Next) (f s)) s = None"
proof -
  let ?P = "\<lambda>s. \<forall>n. \<exists>s'. for_each (\<lambda>_. f) [0..<n] s = Some s' \<and> b s'"
  have "while_ctl b (\<lambda>s. map_option (Pair Next) (f s)) s \<noteq> Some r" for r
  proof
    assume "while_ctl b (\<lambda>s. map_option (Pair Next) (f s)) s = Some r"
    then show False
    proof (rule while_ctl_partial [where P = ?P and Q = "\<lambda>_. False"])
      show "?P s" using assms by blast
    next
      fix s k s' assume P: "?P s" and "map_option (Pair Next) (f s) = Some (k, s')"
      then have f: "k = Next" "f s = Some s'" by auto
      have "for_each (\<lambda>_. f) [0..<Suc n] s = for_each (\<lambda>_. f) [0..<n] s'" for n
        by (simp add: for_each_repeat f(2) del: upt_Suc)
      with P have "?P s'" by metis
      with f(1) show "if k = Break then False else ?P s'" by simp
    next
      fix s assume P: "?P s" and "\<not> b s"
      from P [rule_format, of 0] show False using \<open>\<not> b s\<close> by simp
    qed
  qed
  then show ?thesis by (meson not_None_eq)
qed

text \<open>When some node cannot be reached from \<open>a\<close>, the counter never gets to the number of nodes: every
  pass of the loop is defined, and another one follows.\<close>

lemma node_passes_forever:
  assumes wf: "topo_wf c T m l" and sm: "topo_simple c T m l" and ok: "consts_ok c" and a: "a \<in> {m..<l}"
    and b: "b \<in> {m..<l}" "\<And>k. b \<notin> ball c T a k"
    and tab: "is_table (AXIOM_NODES_NUM c) (AXIOM_NODES_NUM c) (routing_tables s)"
      "length (neighbour_table0 s) = AXIOM_NODES_NUM c" "length (neighbour_table1 s) = AXIOM_NODES_NUM c"
  shows "\<exists>s1. do { s \<leftarrow> axiom_init_routing_neighbour c a s; axiom_compute_neighbours_route c T a s } = Some s1
    \<and> (\<forall>n. \<exists>s'. for_each (\<lambda>_. second_level_pass c T m l a) [0..<Suc n] s1 = Some s' \<and> pass_again m l s')"
proof -
  let ?e = "of_nat (card {i. i \<le> AXIOM_INTERFACES_MAX c \<and> T ! a ! i \<noteq> AXIOM_NULL_NODE c}) :: u8"
  let ?rts = "routing_tables s"
  from compute_node_start [OF wf ok a tab] obtain s1 where
    s1: "do { s \<leftarrow> axiom_init_routing_neighbour c a s; axiom_compute_neighbours_route c T a s } = Some s1"
    "level_inv c T a ?rts ?e 1 s1" by blast
  have less: "card (ball c T a k) < l - m" for k
  proof -
    have "ball c T a k \<subset> {m..<l}" using ball_range [OF wf a, of k] b by blast
    then show ?thesis using psubset_card_mono [of "{m..<l}" "ball c T a k"] by simp
  qed
  have pos: "1 \<le> card (ball c T a k)" for k
    using card_mono [OF finite_ball [OF wf a, of k], of "{a}"] ball_self [of a c T k] by simp
  have again: "pass_again m l s" if "1 \<le> k" "level_inv c T a ?rts ?e k s" for s k
    using level_counter [OF wf sm ok a that] less [of k] pos [of k]
    unfolding pass_again_def by linarith
  have passes: "\<exists>s'. for_each (\<lambda>_. second_level_pass c T m l a) [0..<n] s1 = Some s'
      \<and> level_inv c T a ?rts ?e (Suc n) s'" for n
  proof (induction n)
    case (Suc n)
    then obtain s' where "for_each (\<lambda>_. second_level_pass c T m l a) [0..<n] s1 = Some s'"
      "level_inv c T a ?rts ?e (Suc n) s'" by blast
    with second_level_pass_level [OF wf ok a this(2)] show ?case by (auto simp: for_each_append)
  qed (use s1(2) in simp)
  have "\<exists>s'. for_each (\<lambda>_. second_level_pass c T m l a) [0..<Suc n] s1 = Some s' \<and> pass_again m l s'" for n
    using passes [of "Suc n"] again [of "Suc (Suc n)"] by auto
  with s1(1) show ?thesis by blast
qed

lemma compute_node_table_forever:
  assumes "do { s \<leftarrow> axiom_init_routing_neighbour c a s; axiom_compute_neighbours_route c T a s } = Some s1"
    "\<And>n. \<exists>s'. for_each (\<lambda>_. second_level_pass c T m l a) [0..<Suc n] s1 = Some s' \<and> pass_again m l s'"
  shows "compute_node_table c T m l a s = None"
proof -
  let ?f = "second_level_pass c T m l a"
  from assms(2) [of 0] obtain s2 where s2: "?f s1 = Some s2" by auto
  have "for_each (\<lambda>_. ?f) [0..<Suc n] s1 = for_each (\<lambda>_. ?f) [0..<n] s2" for n
    by (simp add: for_each_repeat s2 del: upt_Suc)
  with assms(2) have "while_ctl (pass_again m l) (\<lambda>s. map_option (Pair Next) (?f s)) s2 = None"
    by (intro while_ctl_forever) metis
  with assms(1) s2 show ?thesis
    unfolding compute_node_table_def compute_levels_def by (auto simp: bind_eq_Some_conv)
qed

text \<open>C1: on a connected topology without parallel links, the computation ends without leaving its
  arrays, and the table of every node of the network holds, for every other node, the interfaces to
  a neighbour that lies on a shortest path, and no route for itself and for unknown nodes; rows
  outside the network are left alone.\<close>

theorem compute_routing_tables_shortest:
  assumes "consts_ok c" "topo_wf c T (unat m) (unat l)" "topo_simple c T (unat m) (unat l)"
    "topo_connected c T (unat m) (unat l)"
    "is_table (AXIOM_NODES_NUM c) (AXIOM_NODES_NUM c) rts"
  shows "\<exists>rts'. axiom_compute_routing_tables c T rts m l = Some rts'
    \<and> is_table (AXIOM_NODES_NUM c) (AXIOM_NODES_NUM c) rts'
    \<and> (\<forall>r. r \<notin> {unat m..<unat l} \<longrightarrow> rts' ! r = rts ! r)
    \<and> (\<forall>a\<in>{unat m..<unat l}. \<forall>b<AXIOM_NODES_NUM c.
         if b \<in> {unat m..<unat l} - {a} then route_ok c T a b (rts' ! a ! b)
         else rts' ! a ! b = AXIOM_NULL_RT_INTERFACE)"
  using assms by (rule compute_tables_run)

text \<open>C2: with the computed tables, a message from any node to any other one arrives within as many
  hops as there are nodes, whichever of the enabled interfaces each node on the way picks.\<close>

theorem compute_routing_tables_deliver:
  assumes "consts_ok c" "topo_wf c T (unat m) (unat l)" "topo_simple c T (unat m) (unat l)"
    "topo_connected c T (unat m) (unat l)"
    "is_table (AXIOM_NODES_NUM c) (AXIOM_NODES_NUM c) rts"
    "a \<in> {unat m..<unat l}" "b \<in> {unat m..<unat l}"
  shows "\<exists>rts'. axiom_compute_routing_tables c T rts m l = Some rts'
    \<and> arrives c T rts' b (unat l - unat m) a"
proof -
  have "unat l \<le> AXIOM_NODES_NUM c" using assms(2) by (simp add: topo_wf_def)
  moreover have "b \<in> ball c T a (unat l - unat m)"
    using assms(4,6,7) unfolding topo_connected_def by blast
  ultimately show ?thesis
    using compute_tables_run [OF assms(1-5)] assms(6,7)
    by (force intro!: arrives_within [OF assms(1,2)])
qed

text \<open>The variables at the start of the computation, as \<open>axiom_compute_routing_tables\<close> sets them.\<close>

abbreviation rt_state0 :: "'c axiom_consts_scheme \<Rightarrow> u8 list list \<Rightarrow> rt_state" where
  "rt_state0 c rts \<equiv> \<lparr>routing_tables = rts, neighbour_table0 = replicate (AXIOM_NODES_NUM c) 0,
     neighbour_table1 = replicate (AXIOM_NODES_NUM c) 0, neighbours_counter = 0\<rparr>"

text \<open>C36: when some node of the network is not reachable from the first one (in a topology without parallel
  links), the search of the first node runs forever: its two initialisations are defined, and for every
  positive number of passes of its \<open>do \<dots> while\<close> loop these passes are defined, in bounds, and the loop
  condition holds after them. So the computation has no result, and not because it would leave its
  arrays.\<close>

theorem compute_routing_tables_disconnected:
  assumes "consts_ok c" "topo_wf c T (unat m) (unat l)" "topo_simple c T (unat m) (unat l)"
    "is_table (AXIOM_NODES_NUM c) (AXIOM_NODES_NUM c) rts"
    "b \<in> {unat m..<unat l}" "\<And>k. b \<notin> ball c T (unat m) k"
  shows "(\<exists>s1. do { s \<leftarrow> axiom_init_routing_neighbour c (unat m) (rt_state0 c rts);
        axiom_compute_neighbours_route c T (unat m) s } = Some s1
      \<and> (\<forall>n. \<exists>s'. for_each (\<lambda>_. second_level_pass c T (unat m) (unat l) (unat m)) [0..<Suc n] s1 = Some s'
          \<and> pass_again (unat m) (unat l) s'))
    \<and> axiom_compute_routing_tables c T rts m l = None"
proof -
  have m: "unat m \<in> {unat m..<unat l}" using assms(5) by auto
  from node_passes_forever [OF assms(2,3,1) m assms(5,6), of "rt_state0 c rts"] assms(4) obtain s1 where
    s1: "do { s \<leftarrow> axiom_init_routing_neighbour c (unat m) (rt_state0 c rts);
        axiom_compute_neighbours_route c T (unat m) s } = Some s1"
    "\<And>n. \<exists>s'. for_each (\<lambda>_. second_level_pass c T (unat m) (unat l) (unat m)) [0..<Suc n] s1 = Some s'
          \<and> pass_again (unat m) (unat l) s'" by auto
  have "[unat m..<unat l] = unat m # [Suc (unat m)..<unat l]" using m by (simp add: upt_conv_Cons)
  then have "axiom_compute_routing_tables c T rts m l = None"
    using compute_node_table_forever [OF s1] by (simp add: axiom_compute_routing_tables_def)
  with s1 show ?thesis by blast
qed

section \<open>Instances\<close>

text \<open>A line of three nodes, on a device with four interfaces.\<close>

definition demo_line :: topology where
  "demo_line = [[1, 255, 255, 255], [0, 2, 255, 255], [255, 1, 255, 255], [255, 255, 255, 255]]"

definition demo_apart :: topology where
  "demo_apart = [[255, 255, 255, 255], [2, 255, 255, 255], [1, 255, 255, 255], [255, 255, 255, 255]]"

definition demo_tables :: "u8 list list" where
  "demo_tables = replicate 4 (replicate 4 0)"

lemma demo_line_wf: "topo_wf demo_consts demo_line 0 3"
  by (simp add: topo_wf_def is_table_def demo_consts_def demo_line_def range_eval)

lemma demo_line_simple: "topo_simple demo_consts demo_line 0 3"
  by (simp add: topo_simple_def demo_consts_def demo_line_def range_eval)

lemma demo_line_connected: "topo_connected demo_consts demo_line 0 3"
  by code_simp

lemma demo_tables_ok: "is_table (AXIOM_NODES_NUM demo_consts) (AXIOM_NODES_NUM demo_consts) demo_tables"
  by (simp add: demo_tables_def demo_consts_def)

lemma demo_apart_wf: "topo_wf demo_consts demo_apart 0 3"
  by (simp add: topo_wf_def is_table_def demo_consts_def demo_apart_def range_eval)

lemma demo_apart_simple: "topo_simple demo_consts demo_apart 0 3"
  by (simp add: topo_simple_def demo_consts_def demo_apart_def range_eval)

lemma demo_apart_ball: "ball demo_consts demo_apart 0 k = {0}"
  by (induction k) (auto simp: nbr_def demo_consts_def demo_apart_def range_eval)

theorem compute_routing_tables_shortest_witness:
  "\<exists>rts'. axiom_compute_routing_tables demo_consts demo_line demo_tables 0 3 = Some rts'
     \<and> route_ok demo_consts demo_line 0 2 (rts' ! 0 ! 2) \<and> rts' ! 1 ! 1 = 0 \<and> rts' ! 3 = replicate 4 0"
proof -
  have N: "AXIOM_NODES_NUM demo_consts = 4" by (simp add: demo_consts_def)
  obtain rts' where r: "axiom_compute_routing_tables demo_consts demo_line demo_tables 0 3 = Some rts'"
    "\<forall>r. r \<notin> {0..<3} \<longrightarrow> rts' ! r = demo_tables ! r"
    "\<forall>a\<in>{0..<3}. \<forall>b<4. if b \<in> {0..<3} - {a} then route_ok demo_consts demo_line a b (rts' ! a ! b)
       else rts' ! a ! b = AXIOM_NULL_RT_INTERFACE"
    using compute_routing_tables_shortest [of demo_consts demo_line 0 3 demo_tables,
        OF demo_consts_ok _ _ _ demo_tables_ok] demo_line_wf demo_line_simple demo_line_connected N
    by auto
  from r(3) [rule_format, of 0 2] r(3) [rule_format, of 1 1] r(2) [rule_format, of 3] r(1)
  show ?thesis by (simp add: AXIOM_NULL_RT_INTERFACE_def demo_tables_def)
qed

theorem compute_routing_tables_deliver_witness:
  "\<exists>rts'. axiom_compute_routing_tables demo_consts demo_line demo_tables 0 3 = Some rts'
     \<and> arrives demo_consts demo_line rts' 2 3 0"
  using compute_routing_tables_deliver [of demo_consts demo_line 0 3 demo_tables 0 2,
      OF demo_consts_ok _ _ _ demo_tables_ok] demo_line_wf demo_line_simple demo_line_connected
  by simp

theorem compute_routing_tables_disconnected_witness:
  "(\<exists>s1. do { s \<leftarrow> axiom_init_routing_neighbour demo_consts 0 (rt_state0 demo_consts demo_tables);
        axiom_compute_neighbours_route demo_consts demo_apart 0 s } = Some s1
      \<and> (\<exists>s'. for_each (\<lambda>_. second_level_pass demo_consts demo_apart 0 3 0) [0..<Suc 9] s1 = Some s'
          \<and> pass_again 0 3 s'))
    \<and> axiom_compute_routing_tables demo_consts demo_apart demo_tables 0 3 = None"
proof -
  have wf: "topo_wf demo_consts demo_apart (unat (0 :: u8)) (unat (3 :: u8))"
    "topo_simple demo_consts demo_apart (unat (0 :: u8)) (unat (3 :: u8))"
    "1 \<in> {unat (0 :: u8)..<unat (3 :: u8)}" "\<And>k. 1 \<notin> ball demo_consts demo_apart (unat (0 :: u8)) k"
    using demo_apart_wf demo_apart_simple by (simp_all add: demo_apart_ball)
  have z: "unat (0 :: u8) = 0" "unat (3 :: u8) = 3" by simp_all
  note T = compute_routing_tables_disconnected [OF demo_consts_ok wf(1,2) demo_tables_ok wf(3,4), unfolded z]
  then show ?thesis by blast
qed

text \<open>Four nodes in a line, with two links between the first two.\<close>

definition demo_double :: topology where
  "demo_double = [[1, 1, 255, 255], [0, 0, 2, 255], [1, 3, 255, 255], [2, 255, 255, 255]]"

text \<open>With parallel links, which the theorem on shortest routes excludes, the code fails. The counter of the
  search counts links and not nodes, so it reaches the number of nodes too early: here nodes 0 and 3
  are connected and node 0 ends up with no route to node 3.\<close>

theorem compute_routing_tables_double_link:
  "topo_connected demo_consts demo_double 0 4 \<and>
   map_option (\<lambda>rts. (rts ! 0 ! 2, rts ! 0 ! 3))
     (axiom_compute_routing_tables demo_consts demo_double demo_tables 0 4) = Some (3, 0)"
  by code_simp

end
