(* ===== verification/Discovery_Node.thy ===== *)
theory Discovery_Node
  imports Discovery_Protocol Routing_Delivery Routing_Correct
begin

text \<open>
  The discovery procedures of the init daemon
  (\<open>axiom-init/axiom-discovery/axiom_discovery_node.c\<close>): the complete sequence of the master and of a
  slave, from the first message to the installed routing table. The theorems join the theories on the
  protocol, on the computation of the tables and on their delivery.
\<close>

section \<open>The code\<close>

text \<open>What is printed: a row per node, with its number and a cell per interface.\<close>

definition print_topology :: "'c axiom_consts_scheme \<Rightarrow> topology \<Rightarrow> u8 \<Rightarrow> (nat \<times> u8 list) list option" where
  "print_topology c tpl last_node =
     for_each (\<lambda>i out. do {
         cells \<leftarrow> for_each (\<lambda>j cs. do { v \<leftarrow> aget2 tpl i j; Some (cs @ [v]) }) [0..<AXIOM_INTERFACES_NUM c] [];
         Some (out @ [(i, cells)])
       }) [0..<unat last_node] []"

definition print_routing_table ::
  "('d, 'm) nic_api_scheme \<Rightarrow> 'd \<Rightarrow> u8 \<Rightarrow> (nat \<times> bool list) list option" where
  "print_routing_table api dev max_node_id =
     for_each (\<lambda>i out. do {
         (_, enabled_mask) \<leftarrow> axiom_get_routing api dev (of_nat i) 0;
         cells \<leftarrow> for_each (\<lambda>j cs. do { b \<leftarrow> shl1_u8 j; Some (cs @ [enabled_mask AND b \<noteq> 0]) })
           [0..<AXIOM_INTERFACES_NUM api] [];
         Some (out @ [(i, cells)])
       }) [0..<Suc (unat max_node_id)] []"

text \<open>How a procedure ends: one of its error returns, or the end, where the tables are printed and the
  notification script is run (\<open>notify_end_of_discovery\<close>, whose processes are outside the model).\<close>

datatype discovery_end =
    DISCOVERY_FAILED | DELIVERY_FAILED | WAIT_FAILED | RECEIVE_FAILED | SET_FAILED
  | NOTIFIED "(nat \<times> u8 list) list" "(nat \<times> bool list) list"

text \<open>The local array \<open>routing_tables\<close> is uninitialised in C; the rows that are read are all written
  by the computation.\<close>

definition axiom_discovery_master ::
  "('d, 'm) nic_api_scheme \<Rightarrow> 'd \<Rightarrow> topology \<Rightarrow> u8 list \<Rightarrow> (discovery_end \<times> 'd \<times> topology \<times> u8 list) option" where
  "axiom_discovery_master api dev topology final_routing_table = do {
     let master_id = AXIOM_INIT_MASTER_NODE api;
     (ret, dev, topology, last_node) \<leftarrow> axiom_master_node_discovery api dev topology master_id;
     if \<not> AXIOM_RET_IS_OK api ret then Some (DISCOVERY_FAILED, dev, topology, final_routing_table)
     else do {
       rts \<leftarrow> axiom_compute_routing_tables api topology
         (replicate (AXIOM_NODES_NUM api) (replicate (AXIOM_NODES_NUM api) 0)) master_id last_node;
       final_routing_table \<leftarrow> aget rts (unat master_id);
       (ret, dev) \<leftarrow> axiom_delivery_routing_tables api dev rts master_id last_node;
       if \<not> AXIOM_RET_IS_OK api ret then Some (DELIVERY_FAILED, dev, topology, final_routing_table)
       else do {
         (ret, dev) \<leftarrow> axiom_wait_rt_received api dev master_id last_node;
         if \<not> AXIOM_RET_IS_OK api ret then Some (WAIT_FAILED, dev, topology, final_routing_table)
         else do {
           (ret, final_routing_table, dev) \<leftarrow> axiom_set_routing_table api dev final_routing_table True;
           if \<not> AXIOM_RET_IS_OK api ret then Some (SET_FAILED, dev, topology, final_routing_table)
           else do {
             tpl \<leftarrow> print_topology api topology last_node;
             tab \<leftarrow> print_routing_table api dev (last_node - 1);
             Some (NOTIFIED tpl tab, dev, topology, final_routing_table)
           }
         }
       }
     }
   }"

text \<open>The variable \<open>ret\<close> of the slave has the type \<open>axiom_msg_id_t\<close> of the NIC headers, where the calls return \<open>axiom_err_t\<close>; the
  definition reads it as a type that holds these error codes.\<close>

definition axiom_discovery_slave ::
  "('d, 'm) nic_api_scheme \<Rightarrow> 'd \<Rightarrow> u8 \<Rightarrow> dscv_msg \<Rightarrow> topology \<Rightarrow> u8 list
     \<Rightarrow> (discovery_end \<times> 'd \<times> topology \<times> u8 list) option" where
  "axiom_discovery_slave api dev first_src first_payload topology final_routing_table = do {
     (ret, topology, node_id, dev) \<leftarrow> axiom_slave_node_discovery api dev topology 0 first_src first_payload;
     if \<not> AXIOM_RET_IS_OK api ret then Some (DISCOVERY_FAILED, dev, topology, final_routing_table)
     else do {
       (ret, final_routing_table, max_node_id, dev) \<leftarrow>
         axiom_receive_routing_tables api dev node_id final_routing_table 0;
       if \<not> AXIOM_RET_IS_OK api ret then Some (RECEIVE_FAILED, dev, topology, final_routing_table)
       else do {
         (ret, final_routing_table, dev) \<leftarrow> axiom_set_routing_table api dev final_routing_table False;
         if \<not> AXIOM_RET_IS_OK api ret then Some (SET_FAILED, dev, topology, final_routing_table)
         else do {
           tab \<leftarrow> print_routing_table api dev max_node_id;
           Some (NOTIFIED [] tab, dev, topology, final_routing_table)
         }
       }
     }
   }"

section \<open>The registers stay usable\<close>

text \<open>Every step of the master keeps a correctly opened device with its node id.\<close>

lemma route_range_node_ok:
  assumes reg: "sim_registers api" and run: "route_range api st nx v d = Some d'" and ok: "node_ok api n d"
  shows "node_ok api n d'"
proof -
  from run obtain s where s: "while_ctl (\<lambda>(k, _). k \<le> nx)
       (\<lambda>(k, dev). do { (_, dev) \<leftarrow> axiom_set_routing api dev k v; Some (Next, k + 1, dev) }) (st, d) = Some s"
    and d': "d' = snd s" by (auto simp: route_range_def)
  have "node_ok api n (snd s)"
    using s by (rule while_ctl_partial [where P = "\<lambda>s. node_ok api n (snd s)"])
      (use ok in \<open>auto simp: bind_eq_Some_conv intro: set_routing_node_ok [OF reg]\<close>)
  with d' show ?thesis by simp
qed

lemma wait_topology_node_ok:
  assumes reg: "sim_registers api" and keep: "msgs_keep_registers api"
    and run: "wait_topology api n i st s = Some (k, s')" and ok: "node_ok api m (ds_dev s)"
  shows "node_ok api m (ds_dev s')"
proof -
  from run obtain e j msg d where
    r: "axiom_recv_raw_discovery api (ds_dev s) = Some (e, j, msg, d)"
    by (auto simp: wait_topology_def bind_eq_Some_conv)
  have "node_ok api m d" using same_registers_ok [OF msgs_keepD(2) [OF keep r] ok] .
  with run r show ?thesis
    by (auto simp: wait_topology_def Let_def bind_eq_Some_conv split: if_splits prod.splits
        intro: same_registers_ok [OF msgs_keepD(1) [OF keep]] route_range_node_ok [OF reg])
qed

lemma wait_loop_node_ok:
  assumes reg: "sim_registers api" and keep: "msgs_keep_registers api"
    and run: "while_ctl b (wait_topology api n i st) s = Some s'" and ok: "node_ok api m (ds_dev s)"
  shows "node_ok api m (ds_dev s')"
  using run by (rule while_ctl_partial [where P = "\<lambda>s. node_ok api m (ds_dev s)"])
    (use ok in \<open>auto dest: wait_topology_node_ok [OF reg keep]\<close>)

lemma adopt_neighbour_node_ok:
  assumes reg: "sim_registers api" and keep: "msgs_keep_registers api"
    and run: "adopt_neighbour api n i msg s = Some (k, s')" and ok: "node_ok api m (ds_dev s)"
  shows "node_ok api m (ds_dev s')"
proof -
  let ?nx = "ds_next_id s + 1"
  obtain e d where s1: "axiom_send_raw_discovery api (ds_dev s) (of_nat i) (dscv AXIOM_DSCV_CMD_SETID n ?nx 0 0) = (e, d)"
    by (meson prod.exhaust)
  have d: "node_ok api m d" using same_registers_ok [OF msgs_keepD(1) [OF keep s1] ok] .
  show ?thesis
  proof (cases "AXIOM_RET_IS_OK api e")
    case False
    with run s1 d show ?thesis by (auto simp: adopt_neighbour_def Let_def)
  next
    case True
    with run s1 obtain v e2 d2 t e3 d3 where
      "axiom_codify_routing_mask i = Some v" and d2: "axiom_set_routing api d ?nx v = Some (e2, d2)"
      and "record_link n (of_nat i) ?nx (dm_src_if msg) (ds_topology s) = Some t"
      and s3: "axiom_send_raw_discovery api d2 (of_nat i) (dscv AXIOM_DSCV_CMD_START n ?nx 0 0) = (e3, d3)"
      and rest: "(if \<not> AXIOM_RET_IS_OK api e3 then k = Break \<and> ds_dev s' = d3
        else \<exists>s2. ds_dev s2 = d3 \<and> while_ctl (\<lambda>s. ds_msg_cmd s \<noteq> AXIOM_DSCV_CMD_END_TOPOLOGY)
                (wait_topology api n i ?nx) s2 = Some s')"
      by (fastforce simp: adopt_neighbour_def Let_def bind_eq_Some_conv split: if_splits prod.splits)
    have "node_ok api m d3"
      using same_registers_ok [OF msgs_keepD(1) [OF keep s3] set_routing_node_ok [OF reg d2 d refl]] .
    with rest show ?thesis by (auto split: if_splits dest: wait_loop_node_ok [OF reg keep])
  qed
qed

lemma discover_if_node_ok:
  assumes reg: "sim_registers api" and keep: "msgs_keep_registers api"
    and run: "discover_if api n i s = Some (k, s')" and ok: "node_ok api m (ds_dev s)"
  shows "node_ok api m (ds_dev s')"
proof -
  let ?f = "snd (axiom_get_if_info api (ds_dev s) (of_nat i) (ds_if_features s))"
  obtain e d where s1: "axiom_send_raw_discovery api (ds_dev s) (of_nat i) (dscv AXIOM_DSCV_CMD_REQ_ID n 0 0 0) = (e, d)"
    by (meson prod.exhaust)
  have d: "node_ok api m d" using same_registers_ok [OF msgs_keepD(1) [OF keep s1] ok] .
  have recv: "node_ok api m d2" if "axiom_recv_raw_discovery api d = Some (e2, j, msg, d2)" for e2 j msg d2
    using same_registers_ok [OF msgs_keepD(2) [OF keep that] d] .
  show ?thesis
  proof (cases "?f AND AXIOM_IF_CONNECTED api = 0 \<or> aget2 (ds_topology s) (unat n) i \<noteq> Some (AXIOM_NULL_NODE api)
      \<or> \<not> AXIOM_RET_IS_OK api e")
    case True
    with run s1 ok d show ?thesis by (auto simp: discover_if_def Let_def bind_eq_Some_conv split: if_splits)
  next
    case False
    with run s1 obtain e2 j msg d2 where r: "axiom_recv_raw_discovery api d = Some (e2, j, msg, d2)"
      by (auto simp: discover_if_def Let_def bind_eq_Some_conv)
    let ?s = "s\<lparr>ds_if_features := ?f, ds_dev := d2, ds_msg_cmd := dm_command msg\<rparr>"
    have "ds_dev s' = d2 \<or> adopt_neighbour api n i msg ?s = Some (k, s')"
      using run s1 False r by (auto simp: discover_if_def Let_def bind_eq_Some_conv split: if_splits)
    with recv [OF r] show ?thesis using adopt_neighbour_node_ok [OF reg keep, of n i msg ?s k s' m] by auto
  qed
qed

lemma discover_phase_node_ok:
  assumes reg: "sim_registers api" and keep: "msgs_keep_registers api"
    and run: "discover_phase api dev nx T = Some (ret, dev', nx', T')" and ok: "node_ok api n dev"
  shows "node_ok api n dev'"
proof -
  from run obtain v e d s where set: "axiom_set_routing api dev (axiom_get_node_id api dev) v = Some (e, d)"
    and loop: "for_ctl (discover_if api (axiom_get_node_id api dev)) [0..<unat (snd (axiom_get_if_number api d 0))]
       \<lparr>ds_dev = d, ds_topology = T, ds_next_id = nx, ds_if_features = 0, ds_msg_cmd = cmd0\<rparr> = Some s"
    and d': "dev' = ds_dev s"
    by (auto simp: discover_phase_def Let_def bind_eq_Some_conv)
  have "node_ok api n (ds_dev s)"
    using loop by (rule for_ctl_preserves [where P = "\<lambda>s. node_ok api n (ds_dev s)"])
      (use set_routing_node_ok [OF reg set ok refl] in \<open>auto dest: discover_if_node_ok [OF reg keep]\<close>)
  with d' show ?thesis by simp
qed

lemma master_discovery_node_ok:
  assumes reg: "sim_registers api" and keep: "msgs_keep_registers api"
    and run: "axiom_master_node_discovery api dev T m = Some (ret, dev', T', l)" and ok: "sim_ok api dev"
  shows "node_ok api m dev'"
proof -
  from run obtain d T1 nx where init: "axiom_routing_init api dev = Some d"
    and phase: "discover_phase api (axiom_set_node_id api d m) m T1 = Some (ret, dev', nx, T')"
    by (auto simp: axiom_master_node_discovery_def Let_def bind_eq_Some_conv)
  have "node_ok api (sim_node_id dev) d"
    using init unfolding axiom_routing_init_def
    by (rule for_each_preserves) (use ok in \<open>auto simp: node_ok_def [of _ _ dev] intro: set_routing_node_ok [OF reg]\<close>)
  then have "node_ok api m (axiom_set_node_id api d m)"
    using reg sim_ok_cong [of "sim_set_node_id d m" d api]
    by (simp add: node_ok_def sim_registers_def sim_set_node_id_def)
  from discover_phase_node_ok [OF reg keep phase this] show ?thesis .
qed

lemma delivery_node_ok:
  assumes keep: "msgs_keep_registers api"
    and run: "axiom_delivery_routing_tables api dev rts m l = Some (e, dev')" and ok: "node_ok api n dev"
  shows "node_ok api n dev'"
proof -
  let ?P = "\<lambda>(e, d). node_ok api n d"
  have row: "?P s'" if "delivery_row api rts l k s = Some s'" "?P s" for k s s'
    using that(1) unfolding delivery_row_def
    by (rule for_ctl_preserves [where P = ?P])
       (use that(2) in \<open>auto simp: bind_eq_Some_conv Let_def split: if_splits prod.splits
          intro: same_registers_ok [OF msgs_keepD(3) [OF keep]]\<close>)
  from run obtain s1 where
    s1: "for_ctl (\<lambda>dest_node_index (ret, dev). if AXIOM_RET_IS_OK api ret
         then map_option (Pair Next) (delivery_row api rts l dest_node_index (ret, dev))
         else Some (Break, ret, dev)) [unat (m + 1)..<unat l] (AXIOM_RET_OK api, dev) = Some s1"
    and s2: "for_ctl (\<lambda>dest_node_index (ret, dev). if AXIOM_RET_IS_OK api ret
         then Some (Next, axiom_send_raw_delivery api dev (of_nat dest_node_index) end_msg)
         else Some (Break, ret, dev)) [unat (m + 1)..<unat l] s1 = Some (e, dev')"
    by (auto simp: axiom_delivery_routing_tables_def bind_eq_Some_conv)
  have "?P s1"
    using s1 by (rule for_ctl_preserves [where P = ?P])
      (use ok in \<open>auto split: if_splits dest!: row\<close>)
  have "?P (e, dev')"
    using s2 by (rule for_ctl_preserves [where P = ?P])
      (use \<open>?P s1\<close> in \<open>auto split: if_splits intro: same_registers_ok [OF msgs_keepD(3) [OF keep]]\<close>)
  then show ?thesis by simp
qed

lemma wait_rt_node_ok:
  assumes keep: "msgs_keep_registers api"
    and run: "axiom_wait_rt_received api dev m l = Some (e, dev')" and ok: "node_ok api n dev"
  shows "node_ok api n dev'"
proof -
  have step: "node_ok api n (ws_dev s')" if "wait_reply api s = Some (k, s')" "node_ok api n (ws_dev s)" for s k s'
    using that by (auto simp: wait_reply_def bind_eq_Some_conv split: if_splits
        intro: same_registers_ok [OF msgs_keepD(4) [OF keep]])
  from run obtain s where w: "while_ctl (\<lambda>s. reply_received_num s \<noteq> int (unat l) - int (unat m) - 1)
       (wait_reply api) \<lparr>ws_dev = dev, reply_received = replicate (AXIOM_NODES_NUM api) 0,
         reply_received_num = 0, ws_ret = AXIOM_RET_OK api\<rparr> = Some s" and d': "dev' = ws_dev s"
    by (auto simp: axiom_wait_rt_received_def bind_eq_Some_conv)
  have "node_ok api n (ws_dev s)"
    using w by (rule while_ctl_partial [where P = "\<lambda>s. node_ok api n (ws_dev s)"]) (use ok in \<open>auto dest: step\<close>)
  with d' show ?thesis by simp
qed

section \<open>The theorems\<close>

text \<open>The masks of the search use the interfaces of the device only.\<close>

lemma full_mask_and_sim_mask: "full_mask c T a n AND sim_mask c = full_mask c T a n"
  by (rule bit_word_eqI) (auto simp: bit_and_iff bit_if_mask sim_mask_def bit_mask_iff)

lemma route_ok_and_sim_mask: "route_ok c T a b v \<Longrightarrow> v AND sim_mask c = v"
  unfolding route_ok_def by (metis full_mask_and_sim_mask)

lemma print_topology_length:
  assumes "print_topology c T l = Some tpl"
  shows "length tpl = unat l"
proof -
  have "for_each f xs out = Some tpl \<Longrightarrow>
      (\<And>i out out'. f i out = Some out' \<Longrightarrow> length out' = Suc (length out)) \<Longrightarrow>
      length tpl = length out + length xs" for f and xs :: "nat list" and out tpl :: "(nat \<times> u8 list) list"
    by (induction xs arbitrary: out) (fastforce simp: bind_eq_Some_conv)+
  from this [OF assms [unfolded print_topology_def]] show ?thesis
    by (fastforce simp: bind_eq_Some_conv)
qed

text \<open>C4: when the master's procedure reaches its end with a connected topology without parallel links and
  with links only among the nodes it has numbered, the routing registers of the master's NIC hold its row
  of the computed tables: the register of every other node is equal to the entry of the table, which is a
  shortest route for the nodes of the network and no route for all others, and the register of the master
  itself holds the loopback interface (as far as it is one of the interfaces of the registers), which
  \<open>axiom_set_routing_table\<close> puts in place of the empty entry. (The number of nodes is the number of the
  rows that are printed.)\<close>

theorem discovery_master_installs_routes:
  assumes "consts_ok api" "sim_registers api" "msgs_keep_registers api" "sim_ok api dev"
    "axiom_discovery_master api dev T0 rt0 = Some (NOTIFIED tpl tab, dev', T, rt)"
    "m = unat (AXIOM_INIT_MASTER_NODE api)"
    "topo_wf api T m (length tpl)" "topo_simple api T m (length tpl)" "topo_connected api T m (length tpl)"
    "m < length tpl"
  shows "\<exists>rts. axiom_compute_routing_tables api T
        (replicate (AXIOM_NODES_NUM api) (replicate (AXIOM_NODES_NUM api) 0))
        (AXIOM_INIT_MASTER_NODE api) (of_nat (length tpl)) = Some rts
    \<and> (\<forall>b<AXIOM_NODES_NUM api. routing_reg api dev' b =
        (if b = m then push_bit (unat (AXIOM_IF_LOOPBACK api)) 1 AND sim_mask api else rts ! m ! b))
    \<and> (\<forall>b<AXIOM_NODES_NUM api. b \<noteq> m \<longrightarrow> (if b \<in> {m..<length tpl} then route_ok api T m b (rts ! m ! b)
        else rts ! m ! b = AXIOM_NULL_RT_INTERFACE))"
proof -
  let ?m = "AXIOM_INIT_MASTER_NODE api" and ?N = "AXIOM_NODES_NUM api"
  let ?z = "replicate ?N (replicate ?N (0 :: u8))"
  from assms(5) obtain e0 d0 l rts f e1 d1 e2 d2 e3 where
    run: "axiom_master_node_discovery api dev T0 ?m = Some (e0, d0, T, l)"
      "axiom_compute_routing_tables api T ?z ?m l = Some rts" "aget rts (unat ?m) = Some f"
      "axiom_delivery_routing_tables api d0 rts ?m l = Some (e1, d1)"
      "axiom_wait_rt_received api d1 ?m l = Some (e2, d2)"
      "axiom_set_routing_table api d2 f True = Some (e3, rt, dev')" "AXIOM_RET_IS_OK api e3"
      "print_topology api T l = Some tpl"
    by (auto simp: axiom_discovery_master_def Let_def bind_eq_Some_conv split: if_splits)
  have l: "length tpl = unat l" using print_topology_length [OF run(8)] .
  note wf = assms(7-10) [unfolded l assms(6)]
  obtain tab: "is_table ?N ?N rts"
    and routes: "\<forall>a\<in>{unat ?m..<unat l}. \<forall>b<?N. if b \<in> {unat ?m..<unat l} - {a}
      then route_ok api T a b (rts ! a ! b) else rts ! a ! b = AXIOM_NULL_RT_INTERFACE"
    using compute_tables_run [OF assms(1) wf(1-3), of ?z] run(2) by auto
  have mb: "unat ?m < ?N" "unat ?m \<in> {unat ?m..<unat l}" using wf(1,4) by (auto simp: topo_wf_def)
  have f: "f = rts ! unat ?m" "length f = ?N"
    using run(3) mb(1) is_tableD [OF tab] by (auto simp: aget_eq_Some_iff)
  have "node_ok api ?m d2"
    using wait_rt_node_ok [OF assms(3) run(5) delivery_node_ok [OF assms(3) run(4)
          master_discovery_node_ok [OF assms(2,3) run(1) assms(4)]]] .
  then have "sim_ok api d2" "sim_node_id d2 = ?m" by (auto simp: node_ok_def)
  with set_table_run [OF assms(2,3) _ f(2) _ consts_okD(4) [OF assms(1)] run(6,7)] mb
  have reg: "routing_reg api dev' b =
      (if b = unat ?m then push_bit (unat (AXIOM_IF_LOOPBACK api)) 1 else f ! b) AND sim_mask api"
    if "b < ?N" for b using that f(2) by auto
  have row: "if b \<in> {unat ?m..<unat l} then route_ok api T (unat ?m) b (f ! b)
      else f ! b = AXIOM_NULL_RT_INTERFACE" if "b < ?N" "b \<noteq> unat ?m" for b
    using routes [rule_format, OF mb(2) that(1)] that f(1) by auto
  have "f ! b AND sim_mask api = f ! b" if "b < ?N" "b \<noteq> unat ?m" for b
    using row [OF that] by (auto simp: route_ok_and_sim_mask AXIOM_NULL_RT_INTERFACE_def split: if_splits)
  with reg row run(2) l assms(6) f(1) show ?thesis by auto
qed

section \<open>Instances\<close>

text \<open>The conversation between a master and the only slave of its network, each on its first
  interface.\<close>

definition demo_master_says :: "dscv_msg list" where
  "demo_master_says = [dscv AXIOM_DSCV_CMD_REQ_ID 0 0 0 0, dscv AXIOM_DSCV_CMD_SETID 0 1 0 0,
     dscv AXIOM_DSCV_CMD_START 0 1 0 0, dscv AXIOM_DSCV_CMD_RSP_ID 0 1 0 0]"

definition demo_slave_says :: "dscv_msg list" where
  "demo_slave_says = [dscv AXIOM_DSCV_CMD_RSP_NOID 0 0 0 0, dscv AXIOM_DSCV_CMD_REQ_ID 1 0 0 0,
     dscv AXIOM_DSCV_CMD_TOPOLOGY 0 1 0 0, dscv AXIOM_DSCV_CMD_TOPOLOGY 1 0 0 0,
     dscv AXIOM_DSCV_CMD_END_TOPOLOGY 1 0 0 0]"

definition demo_pair :: topology where
  "demo_pair = [[1, 255, 255, 255], [0, 255, 255, 255], [255, 255, 255, 255], [255, 255, 255, 255]]"

text \<open>What the master receives from its slave on the three channels, and what it sends.\<close>

definition demo_master :: demo_dev where
  "demo_master = (demo_node 7)\<lparr>discovery_inbox := map (Pair 0) demo_slave_says,
     delivery_inbox := [(1, reply_msg 1)], set_inbox := [(0, AXIOM_RT_CMD_SET_ROUTING)]\<rparr>"

definition demo_slave :: demo_dev where
  "demo_slave = (demo_node 7)\<lparr>discovery_inbox := map (Pair 0) (tl demo_master_says),
     delivery_inbox := [(0, info_msg 0 1), (0, end_msg)], set_inbox := [(0, AXIOM_RT_CMD_SET_ROUTING)]\<rparr>"

text \<open>An instance of the whole: the two procedures fit together on a network of two nodes, over their three message channels.
  The master, reading what the slave sends, sends what the slave reads, and the other way round; both
  reach their ends with the topology of the network and with the route to each other.\<close>

theorem discovery_two_nodes:
  "map_option (\<lambda>(r, dev, T, rt). (discovery_sent dev, delivery_sent dev, set_sent dev, T, rt))
     (axiom_discovery_master demo_api demo_master (replicate 4 (replicate 4 0)) (replicate 4 0))
   = Some (map (Pair 0) demo_master_says, [(1, info_msg 0 1), (1, end_msg)],
       [(0, AXIOM_RT_CMD_SET_ROUTING)], demo_pair, [64, 1, 0, 0])
   \<and> map_option (\<lambda>(r, dev, T, rt). (sim_node_id dev, discovery_sent dev, delivery_sent dev, set_sent dev, T, rt))
     (axiom_discovery_slave demo_api demo_slave 0 (hd demo_master_says) (replicate 4 (replicate 4 0)) (replicate 4 0))
   = Some (1, map (Pair 0) demo_slave_says, [(0, reply_msg 1)],
       [(0, AXIOM_RT_CMD_SET_ROUTING)], demo_pair, [1, 64, 0, 0])"
  by code_simp

lemma demo_master_run:
  "map_option (\<lambda>(r, dev, T, rt). (r, T))
     (axiom_discovery_master demo_api demo_master (replicate 4 (replicate 4 0)) (replicate 4 0))
   = Some (NOTIFIED [(0, [1, 255, 255, 255]), (1, [0, 255, 255, 255])]
       [(0, [False, False, False, False]), (1, [True, False, False, False])], demo_pair)"
  by code_simp

lemma demo_pair_wf: "topo_wf demo_api demo_pair 0 2"
  by (simp add: topo_wf_def is_table_def demo_pair_def range_eval)

lemma demo_pair_simple: "topo_simple demo_api demo_pair 0 2"
  by (simp add: topo_simple_def demo_pair_def range_eval)

lemma demo_pair_connected: "topo_connected demo_api demo_pair 0 2"
  by code_simp

theorem discovery_master_installs_routes_witness:
  "\<exists>r dev' rt rts. axiom_discovery_master demo_api demo_master (replicate 4 (replicate 4 0)) (replicate 4 0)
      = Some (r, dev', demo_pair, rt)
    \<and> axiom_compute_routing_tables demo_api demo_pair (replicate 4 (replicate 4 0)) 0 2 = Some rts
    \<and> routing_reg demo_api dev' 1 = rts ! 0 ! 1 \<and> route_ok demo_api demo_pair 0 1 (rts ! 0 ! 1)
    \<and> routing_reg demo_api dev' 3 = 0"
proof -
  from demo_master_run obtain dev' rt where
    r: "axiom_discovery_master demo_api demo_master (replicate 4 (replicate 4 0)) (replicate 4 0)
      = Some (NOTIFIED [(0, [1, 255, 255, 255]), (1, [0, 255, 255, 255])]
       [(0, [False, False, False, False]), (1, [True, False, False, False])], dev', demo_pair, rt)" by auto
  have ok: "sim_ok demo_api demo_master"
    using demo_sim_ok [of 7] by (simp add: demo_master_def sim_ok_def)
  have N: "AXIOM_NODES_NUM demo_api = 4" "AXIOM_INIT_MASTER_NODE demo_api = 0" by simp_all
  from discovery_master_installs_routes [OF demo_api_ok demo_registers demo_keep ok r, of 0]
    demo_pair_wf demo_pair_simple demo_pair_connected obtain rts where
    "axiom_compute_routing_tables demo_api demo_pair (replicate 4 (replicate 4 0)) 0 2 = Some rts"
    "\<forall>b<4. routing_reg demo_api dev' b =
      (if b = 0 then push_bit (unat (AXIOM_IF_LOOPBACK demo_api)) 1 AND sim_mask demo_api else rts ! 0 ! b)"
    "\<forall>b<4. b \<noteq> 0 \<longrightarrow> (if b \<in> {0..<2} then route_ok demo_api demo_pair 0 b (rts ! 0 ! b)
      else rts ! 0 ! b = AXIOM_NULL_RT_INTERFACE)"
    by (auto simp: N numeral_2_eq_2)
  with this(2,3) [rule_format, of 1] this(2,3) [rule_format, of 3] r show ?thesis
    by (auto simp: AXIOM_NULL_RT_INTERFACE_def)
qed

end
