(* ===== verification/Session.thy ===== *)
theory Session
  imports Nic_Api
begin

text \<open>
  The session numbers handed out by the init daemon (\<open>axiom-init/axiom-session/axiom_session.c\<close>): a
  32-bit mask with a set bit per free session. The theory models the allocator, states its contract as
  a locale for its clients, and proves that it refines a set of free numbers.
\<close>

section \<open>The code\<close>

text \<open>\<open>__builtin_ctz\<close> on an \<open>unsigned int\<close>: the position of the lowest set bit, undefined for zero.\<close>

definition ctz32 :: "u32 \<Rightarrow> nat option" where
  "ctz32 x = List.find (bit x) [0..<32]"

text \<open>The value of the static variable at start, \<open>UINT_MAX\<close>.\<close>

definition sessions_init :: u32 where
  "sessions_init = - 1"

text \<open>\<open>AXIOM_SESSION_EMPTY\<close> is a constant of the NIC headers: the first argument.\<close>

definition session_next :: "u8 \<Rightarrow> u32 \<Rightarrow> (u8 \<times> u32) option" where
  "session_next ses_empty sessions =
     (if sessions \<noteq> 0
      then do {
        ses \<leftarrow> ctz32 sessions;
        b \<leftarrow> shl1_u32 ses;
        Some (of_nat ses, sessions AND NOT b)
      }
      else Some (ses_empty, sessions))"

definition session_release :: "u8 \<Rightarrow> u32 \<Rightarrow> u32 option" where
  "session_release ses sessions =
     (if unat ses < 32 then do { b \<leftarrow> shl1_u32 (unat ses); Some (sessions OR b) } else None)"

definition session_used :: "u8 \<Rightarrow> u32 \<Rightarrow> bool option" where
  "session_used ses sessions =
     (if unat ses > 32 then Some False
      else do { b \<leftarrow> shl1_u32 (unat ses); Some (sessions AND b = 0) })"

definition axiom_session_release :: "u8 \<Rightarrow> u32 \<Rightarrow> u32 option" where
  "axiom_session_release ses sessions = session_release ses sessions"

definition axiom_session_is_used :: "u8 \<Rightarrow> u32 \<Rightarrow> bool option" where
  "axiom_session_is_used ses sessions = session_used ses sessions"

text \<open>The request (\<open>axiom_session_req_payload_t\<close>) and the reply.\<close>

record session_req =
  sr_command :: axiom_cmd
  sr_reply_port :: u8
  sr_session_id :: u8

record session_reply =
  sp_command :: axiom_cmd
  sp_session_id :: u8

text \<open>The result: the mask and the message that is sent, with its destination node and port.\<close>

definition axiom_session ::
  "u8 \<Rightarrow> u8 \<Rightarrow> session_req \<Rightarrow> u32 \<Rightarrow> ((u8 \<times> u8 \<times> session_reply) option \<times> u32) option" where
  "axiom_session ses_empty src payload sessions =
     (if sr_command payload \<noteq> AXIOM_CMD_SESSION_REQ then Some (None, sessions)
      else if sr_session_id payload \<noteq> ses_empty
      then do {
        u \<leftarrow> session_used (sr_session_id payload) sessions;
        if u then do {
          sessions \<leftarrow> session_release (sr_session_id payload) sessions;
          Some (None, sessions)
        }
        else Some (None, sessions)
      }
      else do {
        (ses, sessions) \<leftarrow> session_next ses_empty sessions;
        Some (Some (src, sr_reply_port payload,
          \<lparr>sp_command = AXIOM_CMD_SESSION_REPLY, sp_session_id = ses\<rparr>), sessions)
      })"

section \<open>The contract\<close>

text \<open>The uses of a pool of numbers, in their order: a request, a release, or something that does not concern it.\<close>

datatype pool_op = Pool_Acquire | Pool_Release nat | Pool_Skip

text \<open>The numbers \<open>gs\<close> granted by the uses \<open>ps\<close> of a pool with the free numbers \<open>F\<close>: no number is granted while it is in use, that is, before the release
  of the first use, or between a grant and the next release of the number.\<close>

definition grants_fresh :: "nat set \<Rightarrow> pool_op list \<Rightarrow> nat option list \<Rightarrow> bool" where
  "grants_fresh F ps gs \<longleftrightarrow> (\<forall>j<length ps. \<forall>n. gs ! j = Some n \<longrightarrow> (n \<in> F \<or> (\<exists>k<j. ps ! k = Pool_Release n))
     \<and> (\<forall>i<j. gs ! i = Some n \<longrightarrow> (\<exists>k. i < k \<and> k < j \<and> ps ! k = Pool_Release n)))"

lemma grants_fresh_Cons:
  assumes "grants_fresh F' ps gs" "\<And>n. g = Some n \<Longrightarrow> n \<in> F \<and> n \<notin> F'" "\<And>n. n \<in> F' \<Longrightarrow> n \<in> F \<or> p = Pool_Release n"
  shows "grants_fresh F (p # ps) (g # gs)"
  unfolding grants_fresh_def
proof (intro allI impI)
  fix j n assume j: "j < length (p # ps)" "(g # gs) ! j = Some n"
  show "(n \<in> F \<or> (\<exists>k<j. (p # ps) ! k = Pool_Release n)) \<and> (\<forall>i<j. (g # gs) ! i = Some n \<longrightarrow> (\<exists>k. i < k \<and> k < j \<and> (p # ps) ! k = Pool_Release n))"
  proof (cases j)
    case 0
    with j assms(2) show ?thesis by simp
  next
    case (Suc j')
    with j assms(1) have IH: "n \<in> F' \<or> (\<exists>k<j'. ps ! k = Pool_Release n)" "\<And>i. i < j' \<Longrightarrow> gs ! i = Some n \<Longrightarrow> \<exists>k>i. k < j' \<and> ps ! k = Pool_Release n"
      by (auto simp: grants_fresh_def)
    have up: "\<exists>k. i < k \<and> k < j \<and> (p # ps) ! k = Pool_Release n" if "\<exists>k\<ge>i. k < j' \<and> ps ! k = Pool_Release n" for i
      using that Suc by (metis Suc_less_eq le_imp_less_Suc nth_Cons_Suc)
    have "n \<in> F \<or> (\<exists>k<j. (p # ps) ! k = Pool_Release n)" using IH(1) assms(3) [of n] up [of 0] Suc by fastforce
    moreover have "\<exists>k. i < k \<and> k < j \<and> (p # ps) ! k = Pool_Release n" if i: "i < j" "(g # gs) ! i = Some n" for i
    proof (cases i)
      case 0
      then have "\<exists>k<j'. ps ! k = Pool_Release n" using i(2) assms(2) IH(1) by auto
      then show ?thesis using 0 by (intro up) auto
    next
      case (Suc i')
      then have "\<exists>k>i'. k < j' \<and> ps ! k = Pool_Release n" using i \<open>j = Suc j'\<close> by (intro IH(2)) auto
      then show ?thesis unfolding Suc by (intro up) (meson Suc_leI)
    qed
    ultimately show ?thesis by blast
  qed
qed

text \<open>What a client of a pool of numbers relies on. \<open>free s\<close> is the set of the numbers not handed out.\<close>

locale number_pool =
  fixes acquire :: "'s \<Rightarrow> (nat option \<times> 's) option"
    and give_back :: "nat \<Rightarrow> 's \<Rightarrow> 's option"
    and free :: "'s \<Rightarrow> nat set"
    and capacity :: nat
  assumes free_sub: "free s \<subseteq> {..<capacity}"
    and acquire_some: "free s \<noteq> {} \<Longrightarrow>
      \<exists>n s'. acquire s = Some (Some n, s') \<and> n \<in> free s \<and> free s' = free s - {n}"
    and acquire_none: "free s = {} \<Longrightarrow> acquire s = Some (None, s)"
    and give_back_ok: "n < capacity \<Longrightarrow> \<exists>s'. give_back n s = Some s' \<and> free s' = insert n (free s)"
begin

text \<open>The uses one after the other; a number or \<open>None\<close> for each of them.\<close>

primrec run :: "pool_op list \<Rightarrow> 's \<Rightarrow> (nat option list \<times> 's) option" where
  "run [] s = Some ([], s)"
| "run (p # ps) s = do {
     (g, s) \<leftarrow> (case p of Pool_Acquire \<Rightarrow> acquire s | Pool_Release n \<Rightarrow> map_option (Pair None) (give_back n s) | Pool_Skip \<Rightarrow> Some (None, s));
     (gs, s) \<leftarrow> run ps s;
     Some (g # gs, s)
   }"

text \<open>The uses of the pool are defined, and the numbers granted are not in use.\<close>

lemma run_fresh:
  "\<forall>n. Pool_Release n \<in> set ps \<longrightarrow> n < capacity \<Longrightarrow>
   \<exists>gs s'. run ps s = Some (gs, s') \<and> length gs = length ps \<and> grants_fresh (free s) ps gs \<and> (\<forall>n. Some n \<in> set gs \<longrightarrow> n < capacity)"
proof (induction ps arbitrary: s)
  case Nil
  show ?case by (simp add: grants_fresh_def)
next
  case (Cons p ps)
  have "\<exists>g t. (case p of Pool_Acquire \<Rightarrow> acquire s | Pool_Release n \<Rightarrow> map_option (Pair None) (give_back n s) | Pool_Skip \<Rightarrow> Some (None, s)) = Some (g, t)
      \<and> (\<forall>n. g = Some n \<longrightarrow> n \<in> free s \<and> n \<notin> free t) \<and> (\<forall>n. n \<in> free t \<longrightarrow> n \<in> free s \<or> p = Pool_Release n)"
  proof (cases p)
    case Pool_Acquire
    then show ?thesis using acquire_some [of s] acquire_none [of s] by (cases "free s = {}") fastforce+
  next
    case (Pool_Release n)
    then show ?thesis using give_back_ok [of n s] Cons.prems by auto
  qed auto
  then obtain g t where t: "(case p of Pool_Acquire \<Rightarrow> acquire s | Pool_Release n \<Rightarrow> map_option (Pair None) (give_back n s) | Pool_Skip \<Rightarrow> Some (None, s)) = Some (g, t)"
    "\<And>n. g = Some n \<Longrightarrow> n \<in> free s \<and> n \<notin> free t" "\<And>n. n \<in> free t \<Longrightarrow> n \<in> free s \<or> p = Pool_Release n" by blast
  from Cons.IH [of t] Cons.prems obtain gs s' where
    s': "run ps t = Some (gs, s')" "length gs = length ps" "grants_fresh (free t) ps gs" "\<forall>n. Some n \<in> set gs \<longrightarrow> n < capacity" by auto
  have "run (p # ps) s = Some (g # gs, s')" using t(1) s'(1) by simp
  moreover have "grants_fresh (free s) (p # ps) (g # gs)" by (rule grants_fresh_Cons [OF s'(3) t(2,3)])
  moreover have "\<forall>n. Some n \<in> set (g # gs) \<longrightarrow> n < capacity" using s'(4) t(2) free_sub [of s] by auto
  ultimately show ?case using s'(2) by (metis length_Cons)
qed

text \<open>A request is refused only when no number is free.\<close>

lemma run_refused:
  "run ps s = Some (gs, s') \<Longrightarrow> j < length ps \<Longrightarrow> ps ! j = Pool_Acquire \<Longrightarrow> gs ! j = None \<Longrightarrow>
   \<exists>hs t. run (take j ps) s = Some (hs, t) \<and> free t = {}"
proof (induction ps arbitrary: s gs j)
  case (Cons p ps)
  from Cons.prems(1) obtain g t hs where
    t: "(case p of Pool_Acquire \<Rightarrow> acquire s | Pool_Release n \<Rightarrow> map_option (Pair None) (give_back n s) | Pool_Skip \<Rightarrow> Some (None, s)) = Some (g, t)"
      "run ps t = Some (hs, s')" "gs = g # hs" by (auto split: bind_splits)
  show ?case
  proof (cases j)
    case 0
    with Cons.prems t have "acquire s = Some (None, t)" by simp
    then have "free s = {}" using acquire_some [of s] by auto
    with 0 show ?thesis by simp
  next
    case (Suc i)
    with Cons.IH [OF t(2), of i] Cons.prems t(3) obtain ks u where "run (take i ps) t = Some (ks, u)" "free u = {}" by auto
    with Suc t(1) show ?thesis by simp
  qed
qed simp

text \<open>A number given back can be granted again.\<close>

lemma give_back_acquire:
  assumes "acquire s = Some (Some n, s')" "free s \<noteq> {}"
  shows "\<exists>s''. give_back n s' = Some s'' \<and> free s'' = free s"
proof -
  from acquire_some [OF assms(2)] assms(1) have n: "n \<in> free s" "free s' = free s - {n}" by auto
  from n(1) free_sub [of s] have "n < capacity" by auto
  from give_back_ok [OF this, of s'] n show ?thesis by (auto simp: insert_absorb)
qed

end

section \<open>Refinement\<close>

text \<open>The abstract state: the set of the free sessions.\<close>

definition free_sessions :: "u32 \<Rightarrow> nat set" where
  "free_sessions x = {i. bit x i}"

lemma free_sessions_less: "i \<in> free_sessions x \<Longrightarrow> i < 32"
  using bit_imp_le_length [of x i] by (simp add: free_sessions_def)

lemma free_sessions_empty: "free_sessions x = {} \<longleftrightarrow> x = 0"
  using free_sessions_less [of _ x] by (auto simp: free_sessions_def bit_eq_iff)

lemma finite_free_sessions [simp]: "finite (free_sessions x)"
  by (rule finite_subset [of _ "{..<32}"]) (auto dest: free_sessions_less)

lemma Min_free_sessions: "free_sessions x \<noteq> {} \<Longrightarrow> Min (free_sessions x) < 32"
  using Min_in [OF finite_free_sessions] by (blast intro: free_sessions_less)

lemma find_upt_Min:
  "List.find P [0..<n] = (if \<exists>i<n. P i then Some (LEAST i. P i) else None)"
proof (cases "\<exists>i<n. P i")
  case True
  then obtain i where "i < n" "P i" by blast
  then have l: "P (LEAST i. P i)" "(LEAST i. P i) < n"
    by (auto intro: LeastI le_less_trans [OF Least_le])
  then have "List.find P [0..<n] = Some (LEAST i. P i)"
    unfolding find_Some_iff using not_less_Least by (intro exI [of _ "LEAST i. P i"]) auto
  with True show ?thesis by simp
next
  case False
  then have "List.find P [0..<n] = None" by (simp add: find_None_iff)
  with False show ?thesis by simp
qed

lemma ctz32_Min: "x \<noteq> 0 \<Longrightarrow> ctz32 x = Some (Min (free_sessions x))"
proof -
  assume "x \<noteq> 0"
  then have ne: "free_sessions x \<noteq> {}" by (simp add: free_sessions_empty)
  then have "\<exists>i<32. bit x i" using free_sessions_less by (auto simp: free_sessions_def)
  moreover have "(LEAST i. bit x i) = Min (free_sessions x)"
    using Least_Min [of "bit x"] ne finite_free_sessions [of x] unfolding free_sessions_def by auto
  ultimately show ?thesis by (simp add: ctz32_def find_upt_Min)
qed

lemma session_next_refines:
  "session_next ses_empty x =
     (if free_sessions x = {} then Some (ses_empty, x)
      else Some (of_nat (Min (free_sessions x)), x AND NOT (2 ^ Min (free_sessions x))))"
proof (cases "x = 0")
  case True
  then show ?thesis by (simp add: session_next_def free_sessions_empty)
next
  case False
  then have "Min (free_sessions x) < 32"
    by (simp add: Min_free_sessions free_sessions_empty)
  with False show ?thesis by (simp add: session_next_def free_sessions_empty ctz32_Min)
qed

lemma free_sessions_clear: "free_sessions (x AND NOT (2 ^ n)) = free_sessions x - {n}"
  by (auto simp: free_sessions_def bit_and_iff bit_not_iff dest: bit_imp_le_length)

lemma free_sessions_set: "n < 32 \<Longrightarrow> free_sessions (x OR 2 ^ n) = insert n (free_sessions x)"
  by (auto simp: free_sessions_def bit_or_iff)

lemma session_used_iff: "unat ses < 32 \<Longrightarrow> session_used ses x = Some (unat ses \<notin> free_sessions x)"
  using bit_eq_iff [of "x AND 2 ^ unat ses" 0]
  by (auto simp: session_used_def free_sessions_def bit_and_iff)

text \<open>The pool with the session numbers as natural numbers: the answer to a request made when the mask
  is empty is no number.\<close>

definition session_acquire :: "u8 \<Rightarrow> u32 \<Rightarrow> (nat option \<times> u32) option" where
  "session_acquire ses_empty x =
     map_option (\<lambda>(s, x'). (if x = 0 then None else Some (unat s), x')) (session_next ses_empty x)"

lemma session_acquire_refines:
  "session_acquire ses_empty x =
    (if free_sessions x = {} then Some (None, x)
     else Some (Some (Min (free_sessions x)), x AND NOT (2 ^ Min (free_sessions x))))"
proof (cases "free_sessions x = {}")
  case True
  then show ?thesis by (simp add: session_acquire_def session_next_refines free_sessions_empty)
next
  case False
  then have "Min (free_sessions x) < 32" by (rule Min_free_sessions)
  then show ?thesis using False by (simp add: session_acquire_def session_next_refines free_sessions_empty)
qed

interpretation pool: number_pool "session_acquire ses_empty" "\<lambda>n. session_release (of_nat n)" free_sessions 32
  for ses_empty
proof unfold_locales
  fix s :: u32 and n :: nat
  show "free_sessions s \<subseteq> {..<32}" using free_sessions_less by auto
  show "\<exists>n s'. session_acquire ses_empty s = Some (Some n, s') \<and> n \<in> free_sessions s
      \<and> free_sessions s' = free_sessions s - {n}" if "free_sessions s \<noteq> {}"
    using that session_acquire_refines [of ses_empty s] Min_in [of "free_sessions s"]
    by (auto simp: free_sessions_clear)
  show "session_acquire ses_empty s = Some (None, s)" if "free_sessions s = {}"
    using that session_acquire_refines [of ses_empty s] by simp
  show "\<exists>s'. session_release (of_nat n) s = Some s' \<and> free_sessions s' = insert n (free_sessions s)" if "n < 32"
    using that by (simp add: session_release_def free_sessions_set)
qed

section \<open>The theorems\<close>

text \<open>C20: the mask implements a set of free numbers. A request takes the least free number out of the
  set, or answers \<open>AXIOM_SESSION_EMPTY\<close> and changes nothing when the set is empty; a release puts its
  number back.\<close>

theorem session_refines_set:
  "session_next ses_empty x =
     (if free_sessions x = {} then Some (ses_empty, x)
      else Some (of_nat (Min (free_sessions x)), x AND NOT (2 ^ Min (free_sessions x))))
   \<and> free_sessions (x AND NOT (2 ^ n)) = free_sessions x - {n}
   \<and> session_release (of_nat (n mod 32)) x = Some (x OR 2 ^ (n mod 32))
   \<and> free_sessions (x OR 2 ^ (n mod 32)) = insert (n mod 32) (free_sessions x)"
  by (simp add: session_next_refines free_sessions_clear session_release_def free_sessions_set)

text \<open>Messages served one after the other from the mask \<open>x\<close>, with the reply to each of them, if any.\<close>

primrec serve_sessions :: "u8 \<Rightarrow> (u8 \<times> session_req) list \<Rightarrow> u32 \<Rightarrow> ((u8 \<times> u8 \<times> session_reply) option list \<times> u32) option" where
  "serve_sessions e [] x = Some ([], x)"
| "serve_sessions e (r # rs) x = do {
     (a, x) \<leftarrow> axiom_session e (fst r) (snd r) x;
     (as, x) \<leftarrow> serve_sessions e rs x;
     Some (a # as, x)
   }"

text \<open>A message that asks for a session, and one that releases the session \<open>ses\<close>.\<close>

definition asks_session :: "u8 \<Rightarrow> session_req \<Rightarrow> bool" where
  "asks_session e r \<longleftrightarrow> sr_command r = AXIOM_CMD_SESSION_REQ \<and> sr_session_id r = e"

definition releases_session :: "u8 \<Rightarrow> session_req \<Rightarrow> u8 \<Rightarrow> bool" where
  "releases_session e r ses \<longleftrightarrow> sr_command r = AXIOM_CMD_SESSION_REQ \<and> sr_session_id r = ses \<and> ses \<noteq> e"

text \<open>The use of the pool a message is, and the reply for what the pool grants.\<close>

definition session_op :: "u8 \<Rightarrow> u8 \<times> session_req \<Rightarrow> pool_op" where
  "session_op e r = (if asks_session e (snd r) then Pool_Acquire
     else if releases_session e (snd r) (sr_session_id (snd r)) \<and> unat (sr_session_id (snd r)) < 32 then Pool_Release (unat (sr_session_id (snd r)))
     else Pool_Skip)"

definition session_answer :: "u8 \<Rightarrow> u8 \<times> session_req \<Rightarrow> nat option \<Rightarrow> (u8 \<times> u8 \<times> session_reply) option" where
  "session_answer e r g = (if asks_session e (snd r)
     then Some (fst r, sr_reply_port (snd r), \<lparr>sp_command = AXIOM_CMD_SESSION_REPLY, sp_session_id = (case g of None \<Rightarrow> e | Some n \<Rightarrow> of_nat n)\<rparr>) else None)"

lemma release_free: "n \<in> free_sessions x \<Longrightarrow> x OR 2 ^ n = x"
  by (intro bit_word_eqI) (auto simp: free_sessions_def bit_or_iff bit_exp_iff)

lemma axiom_session_pool:
  assumes "unat (sr_session_id (snd r)) \<noteq> 32"
  shows "axiom_session e (fst r) (snd r) x = map_option (\<lambda>(g, x'). (session_answer e r g, x'))
    (case session_op e r of Pool_Acquire \<Rightarrow> session_acquire e x | Pool_Release n \<Rightarrow> map_option (Pair None) (session_release (of_nat n) x) | Pool_Skip \<Rightarrow> Some (None, x))"
proof (cases "asks_session e (snd r)")
  case True
  then show ?thesis
    by (auto simp: axiom_session_def session_op_def session_answer_def asks_session_def session_next_refines session_acquire_refines)
next
  case False
  let ?i = "sr_session_id (snd r)"
  have "session_used ?i x = Some False" if "unat ?i > 32" using that by (simp add: session_used_def)
  then show ?thesis using False assms session_used_iff [of ?i x] release_free [of "unat ?i" x]
    by (cases "unat ?i < 32") (auto simp: axiom_session_def session_op_def session_answer_def asks_session_def releases_session_def session_release_def)
qed

lemma serve_pool:
  assumes "\<forall>r\<in>set rs. unat (sr_session_id (snd r)) \<noteq> 32"
  shows "serve_sessions e rs x = map_option (\<lambda>(gs, x'). (map2 (session_answer e) rs gs, x')) (pool.run e (map (session_op e) rs) x)"
  using assms
proof (induction rs arbitrary: x)
  case (Cons r rs)
  then show ?case using axiom_session_pool [of r e x]
    by (auto simp: map_option_case split: option.split bind_splits prod.split)
qed simp

text \<open>C21: No session number is given out while it is in use, whatever requests and releases are served and in whatever order (a message that names
  the session number 32, which the code shifts by, is excluded). Every request is answered, to the port it names. The number granted was free at the start or has been
  released before; when the same number was granted before, a message has released it since. And
  a request is refused, with \<open>AXIOM_SESSION_EMPTY\<close>, only when all 32 numbers are in use.\<close>

theorem sessions_granted_distinct:
  assumes "32 < unat e" "\<forall>r\<in>set rs. unat (sr_session_id (snd r)) \<noteq> 32"
  shows "\<exists>as x'. serve_sessions e rs x = Some (as, x') \<and> length as = length rs
    \<and> (\<forall>j<length rs. as ! j \<noteq> None \<longleftrightarrow> asks_session e (snd (rs ! j)))
    \<and> (\<forall>j<length rs. \<forall>dst port m. as ! j = Some (dst, port, m) \<longrightarrow> dst = fst (rs ! j) \<and> port = sr_reply_port (snd (rs ! j))
        \<and> (if sp_session_id m = e then \<exists>bs y. serve_sessions e (take j rs) x = Some (bs, y) \<and> free_sessions y = {}
           else (unat (sp_session_id m) \<in> free_sessions x \<or> (\<exists>k<j. releases_session e (snd (rs ! k)) (sp_session_id m)))
             \<and> (\<forall>i<j. (\<exists>d p m'. as ! i = Some (d, p, m') \<and> sp_session_id m' = sp_session_id m)
                  \<longrightarrow> (\<exists>k. i < k \<and> k < j \<and> releases_session e (snd (rs ! k)) (sp_session_id m)))))"
proof -
  let ?ps = "map (session_op e) rs"
  have "\<forall>n. Pool_Release n \<in> set ?ps \<longrightarrow> n < 32" by (auto simp: session_op_def split: if_splits)
  from pool.run_fresh [OF this] obtain gs x' where
    gs: "pool.run e ?ps x = Some (gs, x')" "length gs = length rs" "grants_fresh (free_sessions x) ?ps gs" "\<forall>n. Some n \<in> set gs \<longrightarrow> n < 32" by fastforce
  define rep where "rep = map2 (session_answer e) rs gs"
  have serve: "serve_sessions e rs x = Some (rep, x')" "length rep = length rs" using serve_pool [OF assms(2)] gs(1,2) by (simp_all add: rep_def)
  have ans: "rep ! j = session_answer e (rs ! j) (gs ! j)" if "j < length rs" for j using that gs(2) by (simp add: rep_def)
  have rel: "releases_session e (snd (rs ! k)) (of_nat n)" if "?ps ! k = Pool_Release n" "k < length rs" for k n
    using that by (auto simp: session_op_def releases_session_def split: if_splits)
  have grant: "gs ! j = (if sp_session_id m = e then None else Some (unat (sp_session_id m)))"
    if "j < length rs" "rep ! j = Some (d, p, m)" for j d p m
  proof (cases "gs ! j")
    case (Some n)
    then have "n < 32" using gs(2,4) that(1) by (metis nth_mem)
    then have "unat (of_nat n :: u8) = n" "(of_nat n :: u8) \<noteq> e" using assms(1) by (auto simp: unat_of_nat)
    with Some that show ?thesis by (auto simp: ans session_answer_def split: if_splits)
  qed (use that in \<open>auto simp: ans session_answer_def split: if_splits\<close>)
  show ?thesis
  proof (intro exI conjI allI impI)
    show "serve_sessions e rs x = Some (rep, x')" "length rep = length rs" by (rule serve)+
    fix j assume j: "j < length rs"
    show "rep ! j \<noteq> None \<longleftrightarrow> asks_session e (snd (rs ! j))" using j by (simp add: ans session_answer_def)
    fix dst port m assume m: "rep ! j = Some (dst, port, m)"
    then have dp: "dst = fst (rs ! j)" "port = sr_reply_port (snd (rs ! j))" "asks_session e (snd (rs ! j))"
      using j by (auto simp: ans session_answer_def split: if_splits)
    then show "dst = fst (rs ! j)" "port = sr_reply_port (snd (rs ! j))" by simp_all
    show "if sp_session_id m = e then \<exists>bs y. serve_sessions e (take j rs) x = Some (bs, y) \<and> free_sessions y = {}
       else (unat (sp_session_id m) \<in> free_sessions x \<or> (\<exists>k<j. releases_session e (snd (rs ! k)) (sp_session_id m)))
         \<and> (\<forall>i<j. (\<exists>d p m'. rep ! i = Some (d, p, m') \<and> sp_session_id m' = sp_session_id m)
              \<longrightarrow> (\<exists>k. i < k \<and> k < j \<and> releases_session e (snd (rs ! k)) (sp_session_id m)))"
    proof (cases "sp_session_id m = e")
      case True
      with j dp(3) grant [OF j m] obtain hs t where "pool.run e (take j ?ps) x = Some (hs, t)" "free_sessions t = {}"
        using pool.run_refused [OF gs(1), of j] by (auto simp: session_op_def)
      moreover have "\<forall>r\<in>set (take j rs). unat (sr_session_id (snd r)) \<noteq> 32" using assms(2) by (auto dest: in_set_takeD)
      ultimately show ?thesis using True serve_pool [of "take j rs" e x] by (simp add: take_map)
    next
      case False
      let ?n = "unat (sp_session_id m)"
      have g: "gs ! j = Some ?n" using grant [OF j m] False by simp
      have fresh: "?n \<in> free_sessions x \<or> (\<exists>k<j. ?ps ! k = Pool_Release ?n)"
        "\<forall>i<j. gs ! i = Some ?n \<longrightarrow> (\<exists>k. i < k \<and> k < j \<and> ?ps ! k = Pool_Release ?n)"
        using gs(3) g j unfolding grants_fresh_def by auto
      have "releases_session e (snd (rs ! k)) (sp_session_id m)" if "?ps ! k = Pool_Release ?n" "k < j" for k
        using rel [OF that(1)] that(2) j by simp
      moreover have "gs ! i = Some ?n" if "i < j" "rep ! i = Some (d, p, m')" "sp_session_id m' = sp_session_id m" for i d p m'
        using grant [of i d p m'] that False j by simp
      ultimately show ?thesis using False fresh by (simp only: if_False) blast
    qed
  qed
qed

text \<open>Two requests, a release of the first number and a request again.\<close>

theorem sessions_granted_distinct_witness:
  "\<exists>as x'. serve_sessions 255 [(4, \<lparr>sr_command = AXIOM_CMD_SESSION_REQ, sr_reply_port = 1, sr_session_id = 255\<rparr>),
      (5, \<lparr>sr_command = AXIOM_CMD_SESSION_REQ, sr_reply_port = 1, sr_session_id = 255\<rparr>),
      (4, \<lparr>sr_command = AXIOM_CMD_SESSION_REQ, sr_reply_port = 1, sr_session_id = 1\<rparr>),
      (6, \<lparr>sr_command = AXIOM_CMD_SESSION_REQ, sr_reply_port = 2, sr_session_id = 255\<rparr>)] 6 = Some (as, x')
    \<and> length as = 4 \<and> as ! 2 = None \<and> as ! 3 \<noteq> None"
proof -
  let ?rs = "[(4, \<lparr>sr_command = AXIOM_CMD_SESSION_REQ, sr_reply_port = 1, sr_session_id = 255\<rparr>),
      (5, \<lparr>sr_command = AXIOM_CMD_SESSION_REQ, sr_reply_port = 1, sr_session_id = 255\<rparr>),
      (4, \<lparr>sr_command = AXIOM_CMD_SESSION_REQ, sr_reply_port = 1, sr_session_id = 1\<rparr>),
      (6, \<lparr>sr_command = AXIOM_CMD_SESSION_REQ, sr_reply_port = 2, sr_session_id = 255\<rparr>)] :: (u8 \<times> session_req) list"
  have "32 < unat (255 :: u8)" "\<forall>r\<in>set ?rs. unat (sr_session_id (snd r)) \<noteq> 32" by simp_all
  from sessions_granted_distinct [OF this, of 6] obtain "as" x' where s: "serve_sessions 255 ?rs 6 = Some (as, x')" "length as = length ?rs"
    and a: "\<forall>j<length ?rs. as ! j \<noteq> None \<longleftrightarrow> asks_session 255 (snd (?rs ! j))" by blast
  have "as ! 2 = None" using a [rule_format, of 2] by (cases "as ! 2") (simp_all add: asks_session_def)
  moreover have "as ! 3 \<noteq> None" using a [rule_format, of 3] by (simp add: asks_session_def)
  moreover have "length as = 4" using s(2) by simp
  ultimately show ?thesis using s(1) by blast
qed

text \<open>A release request for session 32, one past the last, passes the range check of \<open>used\<close> (which
  compares with \<open>>\<close>) and reaches an undefined shift; the requests for 33 and more that are not
  \<open>AXIOM_SESSION_EMPTY\<close> are ignored.\<close>

theorem session_release_bound:
  "axiom_session 255 src \<lparr>sr_command = AXIOM_CMD_SESSION_REQ, sr_reply_port = p, sr_session_id = 32\<rparr> x = None
   \<and> axiom_session 255 src \<lparr>sr_command = AXIOM_CMD_SESSION_REQ, sr_reply_port = p, sr_session_id = 33\<rparr> x = Some (None, x)"
  by (simp add: axiom_session_def session_used_def shl1_u32_def)

end
