(* ===== verification/C_Strings.thy ===== *)
theory C_Strings
  imports Axiom_Prelude
begin

text \<open>
  The bounded string functions of the common library (\<open>axiom_common_library/strlcpy.c\<close> and
  \<open>strlcat.c\<close>). A buffer is a list of bytes; a string in it ends at the first zero byte. Sizes are
  natural numbers: the code never takes one below zero, except the last \<open>n--\<close> of the first loop of
  \<open>strlcat\<close>, whose result is overwritten.
\<close>

type_synonym bytes = "u8 list"

section \<open>The code\<close>

text \<open>\<open>while (--n != 0) if ((*d++ = *s++) == 0) break;\<close> with \<open>d = dst + i\<close> and \<open>s = src + i\<close>.\<close>

fun strlcpy_copy :: "nat \<Rightarrow> nat \<Rightarrow> bytes \<Rightarrow> bytes \<Rightarrow> (nat \<times> nat \<times> bytes) option" where
  "strlcpy_copy 0 i dst src = Some (0, i, dst)"
| "strlcpy_copy (Suc n) i dst src =
     (if n = 0 then Some (0, i, dst)
      else do {
        ch \<leftarrow> aget src i;
        dst \<leftarrow> aset dst i ch;
        if ch = 0 then Some (n, Suc i, dst) else strlcpy_copy n (Suc i) dst src
      })"

text \<open>\<open>while (*s++);\<close> with \<open>s = src + i\<close>.\<close>

function skip_nul :: "bytes \<Rightarrow> nat \<Rightarrow> nat option" where
  "skip_nul src i =
     (if i < length src then if src ! i = 0 then Some (Suc i) else skip_nul src (Suc i) else None)"
  by pat_completeness auto
termination
  by (relation "measure (\<lambda>(src, i). length src - i)") auto

declare skip_nul.simps [simp del]

definition strlcpy :: "bytes \<Rightarrow> bytes \<Rightarrow> nat \<Rightarrow> (nat \<times> bytes) option" where
  "strlcpy dst src siz = do {
     (n, i, dst) \<leftarrow> strlcpy_copy siz 0 dst src;
     if n = 0
     then do {
       dst \<leftarrow> (if siz \<noteq> 0 then aset dst i 0 else Some dst);
       i \<leftarrow> skip_nul src i;
       Some (i - 1, dst)
     }
     else Some (i - 1, dst)
   }"

text \<open>\<open>while (n-- != 0 && *dst != 0) dst++;\<close>\<close>

fun strlcat_end :: "nat \<Rightarrow> nat \<Rightarrow> bytes \<Rightarrow> nat option" where
  "strlcat_end 0 i dst = Some i"
| "strlcat_end (Suc n) i dst = do {
     ch \<leftarrow> aget dst i;
     if ch \<noteq> 0 then strlcat_end n (Suc i) dst else Some i
   }"

text \<open>\<open>while (*src != 0) { if (n != 0) { *dst++ = *src; n--; } src++; }\<close> with \<open>src + j\<close> and \<open>dst + i\<close>.\<close>

function strlcat_copy :: "nat \<Rightarrow> nat \<Rightarrow> nat \<Rightarrow> bytes \<Rightarrow> bytes \<Rightarrow> (nat \<times> nat \<times> bytes) option" where
  "strlcat_copy n i j dst src =
     (if j < length src
      then if src ! j = 0 then Some (i, j, dst)
           else if n \<noteq> 0
           then (case aset dst i (src ! j) of
                   None \<Rightarrow> None
                 | Some dst' \<Rightarrow> strlcat_copy (n - 1) (Suc i) (Suc j) dst' src)
           else strlcat_copy n i (Suc j) dst src
      else None)"
  by pat_completeness auto
termination
  by (relation "measure (\<lambda>(n, i, j, dst, src). length src - j)") auto

declare strlcat_copy.simps [simp del]

definition strlcat :: "bytes \<Rightarrow> bytes \<Rightarrow> nat \<Rightarrow> (nat \<times> bytes) option" where
  "strlcat dst src dsize = do {
     dlen \<leftarrow> strlcat_end dsize 0 dst;
     if dsize - dlen = 0
     then do { l \<leftarrow> skip_nul src 0; Some (dlen + (l - 1), dst) }
     else do {
       (i, j, dst) \<leftarrow> strlcat_copy (dsize - dlen - 1) dlen 0 dst src;
       dst \<leftarrow> aset dst i 0;
       Some (dlen + j, dst)
     }
   }"

section \<open>Specification\<close>

text \<open>\<open>strlen\<close>, and the string of a buffer.\<close>

definition c_strlen :: "bytes \<Rightarrow> nat" where
  "c_strlen b = length (takeWhile (\<lambda>x. x \<noteq> 0) b)"

definition c_str :: "bytes \<Rightarrow> bytes" where
  "c_str b = takeWhile (\<lambda>x. x \<noteq> 0) b"

lemma c_strlen_less: "0 \<in> set b \<Longrightarrow> c_strlen b < length b"
  unfolding c_strlen_def by (rule takeWhile_shorter) auto

lemma c_strlen_le: "c_strlen b \<le> length b"
  by (simp add: c_strlen_def length_takeWhile_le)

lemma nth_c_strlen: "c_strlen b < length b \<Longrightarrow> b ! c_strlen b = 0"
  unfolding c_strlen_def using nth_length_takeWhile by blast

lemma nth_before_c_strlen: "i < c_strlen b \<Longrightarrow> b ! i \<noteq> 0"
proof -
  assume i: "i < c_strlen b"
  then have "takeWhile (\<lambda>x. x \<noteq> 0) b ! i \<in> set (takeWhile (\<lambda>x. x \<noteq> 0) b)"
    unfolding c_strlen_def by (rule nth_mem)
  with i show ?thesis by (auto simp: c_strlen_def takeWhile_nth dest: set_takeWhileD)
qed

lemma c_str_take: "c_str b = take (c_strlen b) b"
  unfolding c_str_def c_strlen_def by (rule takeWhile_eq_take)

lemma c_str_append_nul: "0 \<notin> set s \<Longrightarrow> c_str (s @ 0 # r) = s"
  by (auto simp: c_str_def takeWhile_append)

lemma skip_nul_run:
  "0 \<in> set src \<Longrightarrow> i \<le> c_strlen src \<Longrightarrow> skip_nul src i = Some (Suc (c_strlen src))"
proof (induction "c_strlen src - i" arbitrary: i)
  case 0
  then have "i = c_strlen src" by simp
  with 0 show ?case by (simp add: skip_nul.simps c_strlen_less nth_c_strlen)
next
  case (Suc n)
  then have "i < c_strlen src" by simp
  then have "skip_nul src i = skip_nul src (Suc i)"
    using c_strlen_less [OF Suc.prems(1)] nth_before_c_strlen [of i src] by (simp add: skip_nul.simps [of src i])
  with Suc show ?case by simp
qed

section \<open>Correctness of strlcpy\<close>

text \<open>Replacing the bytes \<open>i \<dots> i + k - 1\<close> of a buffer by those of another one.\<close>

definition splice :: "bytes \<Rightarrow> nat \<Rightarrow> bytes \<Rightarrow> bytes" where
  "splice dst i s = take i dst @ s @ drop (i + length s) dst"

lemma splice_Nil [simp]: "splice dst i [] = dst"
  by (simp add: splice_def)

lemma splice_Cons: "i < length dst \<Longrightarrow> splice (dst[i := x]) (Suc i) s = splice dst i (x # s)"
  by (simp add: splice_def take_Suc_conv_app_nth)

lemma length_splice: "i + length s \<le> length dst \<Longrightarrow> length (splice dst i s) = length dst"
  by (simp add: splice_def)

lemma drop_splice:
  assumes "i + length s \<le> k" "i \<le> length dst"
  shows "drop k (splice dst i s) = drop k dst"
proof -
  have "k = i + length s + (k - i - length s)" using assms(1) by simp
  moreover have "drop (i + length s + m) (take i dst @ s @ drop (i + length s) dst) = drop (i + length s + m) dst" for m
    using assms(2) by (simp add: add.commute)
  ultimately show ?thesis unfolding splice_def by metis
qed

lemma strlcpy_copy_run:
  assumes nul: "0 \<in> set src" and "i \<le> c_strlen src" "i + n \<le> length dst"
  shows "strlcpy_copy (Suc n) i dst src =
    (if i + n \<le> c_strlen src then Some (0, i + n, splice dst i (take n (drop i src)))
     else Some (i + n - c_strlen src, Suc (c_strlen src), splice dst i (take (Suc (c_strlen src) - i) (drop i src))))"
  using assms(2-)
proof (induction n arbitrary: i dst)
  case 0
  then show ?case by simp
next
  case (Suc n)
  let ?L = "c_strlen src"
  have L: "?L < length src" by (rule c_strlen_less [OF nul])
  have i: "i < length src" "i < length dst" using Suc.prems L by auto
  have d: "drop i src = src ! i # drop (Suc i) src" using i(1) by (simp add: Cons_nth_drop_Suc)
  show ?case
  proof (cases "i = ?L")
    case True
    with nth_c_strlen [OF L] i d show ?thesis by (simp add: splice_Cons [symmetric])
  next
    case False
    with Suc.prems have lt: "i < ?L" by simp
    with nth_before_c_strlen have nz: "src ! i \<noteq> 0" by blast
    have "Suc (?L) - i = Suc (Suc ?L - Suc i)" using lt by simp
    with Suc.IH [of "Suc i" "dst[i := src ! i]"] Suc.prems lt nz i d show ?thesis
      by (auto simp: splice_Cons)
  qed
qed

lemma strlcpy_run:
  assumes "0 \<in> set src" "siz \<le> length dst"
  shows "strlcpy dst src siz = Some (c_strlen src,
    if siz = 0 then dst else splice dst 0 (take (siz - 1) (c_str src) @ [0]))"
proof (cases siz)
  case 0
  with skip_nul_run [OF assms(1), of 0] show ?thesis by (simp add: strlcpy_def)
next
  case (Suc n)
  let ?L = "c_strlen src"
  have L: "?L < length src" by (rule c_strlen_less [OF assms(1)])
  have run: "strlcpy_copy (Suc n) 0 dst src =
    (if n \<le> ?L then Some (0, n, splice dst 0 (take n src))
     else Some (n - ?L, Suc ?L, splice dst 0 (take (Suc ?L) src)))"
    using strlcpy_copy_run [OF assms(1), of 0 n dst] assms(2) Suc by simp
  show ?thesis
  proof (cases "n \<le> ?L")
    case True
    have "(splice dst 0 (take n src))[n := 0] = splice dst 0 (take n src @ [0])"
      using True L assms(2) Suc
      by (simp add: splice_def list_update_append Cons_nth_drop_Suc [symmetric] min_def)
    with True run skip_nul_run [OF assms(1) True] L assms(2) Suc show ?thesis
      by (simp add: strlcpy_def splice_def c_str_take min_def)
  next
    case False
    have "take (Suc ?L) src = c_str src @ [0]"
      using L nth_c_strlen [OF L] by (simp add: c_str_take take_Suc_conv_app_nth)
    with False run Suc L show ?thesis by (simp add: strlcpy_def c_str_take)
  qed
qed

section \<open>Correctness of strlcat\<close>

lemma strlcat_end_run:
  "i \<le> c_strlen dst \<Longrightarrow> i + n \<le> length dst \<Longrightarrow> strlcat_end n i dst = Some (min (i + n) (c_strlen dst))"
proof (induction n arbitrary: i)
  case 0
  then show ?case by simp
next
  case (Suc n)
  show ?case
  proof (cases "i = c_strlen dst")
    case True
    with Suc.prems nth_c_strlen [of dst] show ?thesis by simp
  next
    case False
    with Suc.prems have "i < c_strlen dst" by simp
    with Suc nth_before_c_strlen [of i dst] show ?thesis by simp
  qed
qed

lemma strlcat_copy_run:
  assumes nul: "0 \<in> set src" and "j \<le> c_strlen src" "i + n \<le> length dst"
  shows "strlcat_copy n i j dst src = Some (i + min n (c_strlen src - j), c_strlen src,
    splice dst i (take n (drop j (c_str src))))"
  using assms(2-)
proof (induction "c_strlen src - j" arbitrary: i j n dst)
  case 0
  then have "j = c_strlen src" by simp
  with c_strlen_less [OF nul] nth_c_strlen [of src] show ?case by (simp add: strlcat_copy.simps c_str_take)
next
  case (Suc k)
  let ?L = "c_strlen src"
  have j: "j < ?L" "j < length src" "src ! j \<noteq> 0" "k = ?L - Suc j"
    using Suc c_strlen_less [OF nul] nth_before_c_strlen [of j src] by auto
  have d: "drop j (c_str src) = src ! j # drop (Suc j) (c_str src)"
    using j by (simp add: c_str_take Cons_nth_drop_Suc [symmetric])
  show ?case
  proof (cases n)
    case 0
    with Suc.hyps(1) [OF j(4), of i 0 dst] Suc.prems j show ?thesis
      by (simp add: strlcat_copy.simps [of 0 i j dst src])
  next
    case (Suc m)
    with Suc.hyps(1) [OF j(4), of "Suc i" m "dst[i := src ! j]"] Suc.prems j d show ?thesis
      by (simp add: strlcat_copy.simps [of "Suc m" i j dst src] splice_Cons)
  qed
qed

lemma strlcat_run:
  assumes "0 \<in> set src" "dsize \<le> length dst"
  shows "strlcat dst src dsize = Some (min dsize (c_strlen dst) + c_strlen src,
    if dsize \<le> c_strlen dst then dst
    else splice dst (c_strlen dst) (take (dsize - c_strlen dst - 1) (c_str src) @ [0]))"
proof (cases "dsize \<le> c_strlen dst")
  case True
  with strlcat_end_run [of 0 dst dsize] skip_nul_run [OF assms(1), of 0] assms(2) show ?thesis
    by (simp add: strlcat_def)
next
  case False
  let ?D = "c_strlen dst" and ?n = "dsize - c_strlen dst - 1"
  have len: "length (take ?n (c_str src)) = min ?n (c_strlen src)"
    by (simp add: c_str_def c_strlen_def)
  have "(splice dst ?D (take ?n (c_str src)))[?D + min ?n (c_strlen src) := 0]
      = splice dst ?D (take ?n (c_str src) @ [0])"
    using False assms(2) len
    by (simp add: splice_def list_update_append c_strlen_le min_absorb2 Cons_nth_drop_Suc [symmetric])
  moreover have "?D + min ?n (c_strlen src) < length (splice dst ?D (take ?n (c_str src)))"
    using False assms(2) len by (simp add: splice_def c_strlen_le min_absorb2)
  ultimately show ?thesis
    using False assms(2) strlcat_end_run [of 0 dst dsize] strlcat_copy_run [OF assms(1), of 0 ?D ?n dst]
    by (simp add: strlcat_def min_absorb2)
qed

section \<open>The theorems\<close>

lemma c_str_no_nul: "0 \<notin> set (c_str b)"
  by (auto simp: c_str_def dest: set_takeWhileD)

lemma c_str_splice:
  assumes "i \<le> c_strlen dst" "0 \<notin> set s"
  shows "c_str (splice dst i (s @ [0])) = take i dst @ s"
proof -
  have "0 \<notin> set (take i dst)"
    using assms(1) nth_before_c_strlen [of _ dst] by (auto simp: in_set_conv_nth)
  with assms(2) show ?thesis
    using c_str_append_nul [of "take i dst @ s" "drop (i + length (s @ [0])) dst"] by (simp add: splice_def)
qed

text \<open>\<open>strlcpy\<close> does what its comment says. On a terminated source and a buffer of at least \<open>siz\<close>
  bytes it ends, in bounds, and returns the length of the source; the destination then holds the
  first \<open>siz - 1\<close> bytes of the source string and is terminated, and nothing from \<open>siz\<close> on is
  touched.\<close>

theorem strlcpy_spec:
  assumes "0 \<in> set src" "siz \<le> length dst"
  shows "\<exists>dst'. strlcpy dst src siz = Some (c_strlen src, dst') \<and> length dst' = length dst
    \<and> (siz \<noteq> 0 \<longrightarrow> c_str dst' = take (siz - 1) (c_str src) \<and> c_strlen dst' < siz)
    \<and> drop siz dst' = drop siz dst"
proof (cases "siz = 0")
  case True
  with strlcpy_run [OF assms] show ?thesis by simp
next
  case False
  let ?s = "take (siz - 1) (c_str src)"
  have s: "0 \<notin> set ?s" using c_str_no_nul [of src] by (meson in_set_takeD)
  have len: "length ?s < siz" using False by simp
  have str: "c_str (splice dst 0 (?s @ [0])) = ?s" using c_str_splice [OF _ s, of 0 dst] by simp
  then have "c_strlen (splice dst 0 (?s @ [0])) = length ?s" by (metis c_str_def c_strlen_def)
  with str len False assms(2) strlcpy_run [OF assms] show ?thesis
    by (simp add: length_splice drop_splice del: length_take)
qed

text \<open>\<open>strlcat\<close> does what its comment says. It returns the length of the source plus the length of
  the destination (or \<open>dsize\<close> when the destination is not terminated within \<open>dsize\<close> bytes, which is
  then left alone), and otherwise the destination holds the concatenation, cut to \<open>dsize - 1\<close> bytes
  and terminated.\<close>

theorem strlcat_spec:
  assumes "0 \<in> set src" "dsize \<le> length dst"
  shows "\<exists>dst'. strlcat dst src dsize = Some (min dsize (c_strlen dst) + c_strlen src, dst')
    \<and> length dst' = length dst
    \<and> (if dsize \<le> c_strlen dst then dst' = dst
       else c_str dst' = take (dsize - 1) (c_str dst @ c_str src) \<and> drop dsize dst' = drop dsize dst)"
proof (cases "dsize \<le> c_strlen dst")
  case True
  with strlcat_run [OF assms] show ?thesis by simp
next
  case False
  let ?D = "c_strlen dst"
  let ?s = "take (dsize - ?D - 1) (c_str src)"
  have s: "0 \<notin> set ?s" using c_str_no_nul [of src] by (meson in_set_takeD)
  have len: "?D + length ?s < dsize" using False by auto
  have D: "length (c_str dst) = ?D" by (simp add: c_str_def c_strlen_def)
  have "c_str (splice dst ?D (?s @ [0])) = c_str dst @ ?s"
    using c_str_splice [OF order_refl s, of dst] by (simp add: c_str_take [of dst])
  moreover have "c_str dst @ ?s = take (dsize - 1) (c_str dst @ c_str src)"
    using False D by (simp add: diff_commute)
  ultimately show ?thesis
    using False len assms(2) strlcat_run [OF assms] c_strlen_le [of dst]
    by (simp add: length_splice drop_splice del: length_take take_append)
qed

theorem strlcpy_spec_witness:
  "\<exists>dst'. strlcpy [9, 9, 9, 9] [65, 66, 67, 0] 3 = Some (3, dst') \<and> c_str dst' = [65, 66] \<and> drop 3 dst' = [9]"
  using strlcpy_spec [of "[65, 66, 67, 0]" 3 "[9, 9, 9, 9]"] by (auto simp: c_str_def c_strlen_def)

theorem strlcat_spec_witness:
  "\<exists>dst'. strlcat [65, 0, 9, 9] [66, 67, 68, 0] 4 = Some (4, dst') \<and> c_str dst' = [65, 66, 67]"
  using strlcat_spec [of "[66, 67, 68, 0]" 4 "[65, 0, 9, 9]"] by (auto simp: c_str_def c_strlen_def)

end
