(* ===== verification/Strlist.thy ===== *)
theory Strlist
  imports C_Strings
begin

text \<open>
  The growing string arrays of the common library (\<open>axiom_common_library/strlist.c\<close>), used for the
  arguments and the environment of the programs that are started. The contents of an array slot and
  the success of every allocation are explicit, so the model covers the failures of \<open>malloc\<close> and what
  the code leaves uninitialised.
\<close>

section \<open>The code\<close>

text \<open>A slot of \<open>char **data\<close>: never written, a null pointer, a pointer to a copied string, or a pointer
  of which only a part of the bytes was overwritten.\<close>

datatype slot = Uninit | Null | Str bytes | Mixed

text \<open>\<open>strlist_t\<close>. \<open>None\<close> is the null pointer.\<close>

record strlist =
  sl_size :: nat
  sl_data :: "slot list option"

text \<open>The outcomes of the coming allocations; those after the end of the list succeed.\<close>

type_synonym allocs = "bool list"

definition alloc :: "allocs \<Rightarrow> bool \<times> allocs" where
  "alloc os = (case os of [] \<Rightarrow> (True, []) | b # bs \<Rightarrow> (b, bs))"

text \<open>The width of a pointer in bytes.\<close>

definition ptr_size :: nat where
  "ptr_size = 8"

text \<open>\<open>memmove(p->data, p->data + 1, n)\<close>: \<open>n\<close> is a number of bytes. The slots that are covered
  completely take the value of the slot after them, and the slot where the copy stops is a mixture.\<close>

definition move_down :: "nat \<Rightarrow> slot list \<Rightarrow> slot list option" where
  "move_down n d =
     (if n \<le> ptr_size * (length d - 1)
      then Some (take (n div ptr_size) (tl d)
             @ (if n mod ptr_size = 0 then [] else [Mixed])
             @ drop (n div ptr_size + (if n mod ptr_size = 0 then 0 else 1)) d)
      else None)"

text \<open>The new element: \<open>None\<close> for a null pointer; a string is copied into a fresh buffer by
  \<open>strlcpy\<close>.\<close>

definition copy_string :: "bytes \<Rightarrow> bytes option" where
  "copy_string s = map_option snd (strlcpy (replicate (c_strlen s + 1) 0) s (c_strlen s + 1))"

definition sl_insert_at :: "strlist \<Rightarrow> bytes option \<Rightarrow> bool \<Rightarrow> allocs \<Rightarrow> (strlist \<times> allocs) option" where
  "sl_insert_at p s head os = (
     let (ok, os) = alloc os
     in if \<not> ok then Some (p, os)
     else do {
       let old = (if sl_size p = 0 then [] else (case sl_data p of None \<Rightarrow> [] | Some d \<Rightarrow> d));
       let d = take (sl_size p) old @ replicate (Suc (sl_size p) - length old) Uninit;
       let n = Suc (sl_size p);
       d \<leftarrow> (if head then move_down (n - 1) d else Some d);
       let idx = (if head then 0 else n - 1);
       case s of
         None \<Rightarrow> do {
           d \<leftarrow> aset d idx Null;
           Some (\<lparr>sl_size = n, sl_data = Some d\<rparr>, os)
         }
       | Some str \<Rightarrow> (
           let (ok, os) = alloc os
           in if \<not> ok then Some (\<lparr>sl_size = n, sl_data = Some d\<rparr>, os)
           else do {
             s2 \<leftarrow> copy_string str;
             d \<leftarrow> aset d idx (Str s2);
             Some (\<lparr>sl_size = n, sl_data = Some d\<rparr>, os)
           })
     })"

definition sl_append :: "strlist \<Rightarrow> bytes option \<Rightarrow> allocs \<Rightarrow> (strlist \<times> allocs) option" where
  "sl_append p s os = sl_insert_at p s False os"

definition sl_insert :: "strlist \<Rightarrow> bytes option \<Rightarrow> allocs \<Rightarrow> (strlist \<times> allocs) option" where
  "sl_insert p s os = sl_insert_at p s True os"

definition sl_get :: "strlist \<Rightarrow> slot list option" where
  "sl_get p = sl_data p"

definition sl_init :: strlist where
  "sl_init = \<lparr>sl_size = 0, sl_data = None\<rparr>"

text \<open>The number of strings before the null pointer that ends an array.\<close>

fun sl_count_from :: "slot list \<Rightarrow> nat option" where
  "sl_count_from [] = None"
| "sl_count_from (Null # _) = Some 0"
| "sl_count_from (_ # r) = map_option Suc (sl_count_from r)"

definition sl_count :: "slot list option \<Rightarrow> nat option" where
  "sl_count args = (case args of None \<Rightarrow> Some 0 | Some a \<Rightarrow> sl_count_from a)"

text \<open>The loop over a null-terminated array; a string must be behind every other pointer.\<close>

fun sl_insert_all_from :: "strlist \<Rightarrow> slot list \<Rightarrow> bool \<Rightarrow> allocs \<Rightarrow> (strlist \<times> allocs) option" where
  "sl_insert_all_from p [] head os = None"
| "sl_insert_all_from p (Null # _) head os = Some (p, os)"
| "sl_insert_all_from p (Str s # r) head os = do {
     (p, os) \<leftarrow> sl_insert_at p (Some s) head os;
     sl_insert_all_from p r head os
   }"
| "sl_insert_all_from p (_ # _) head os = None"

definition sl_append_all :: "strlist \<Rightarrow> slot list option \<Rightarrow> allocs \<Rightarrow> (strlist \<times> allocs) option" where
  "sl_append_all p args os = (case args of None \<Rightarrow> Some (p, os) | Some a \<Rightarrow> sl_insert_all_from p a False os)"

definition sl_insert_all :: "strlist \<Rightarrow> slot list option \<Rightarrow> allocs \<Rightarrow> (strlist \<times> allocs) option" where
  "sl_insert_all p args os = (case args of None \<Rightarrow> Some (p, os) | Some a \<Rightarrow> sl_insert_all_from p a True os)"

text \<open>Freeing a slot that holds no valid pointer is undefined.\<close>

definition sl_free :: "strlist \<Rightarrow> strlist option" where
  "sl_free p =
     (if sl_size p > 0
      then do {
        d \<leftarrow> sl_data p;
        _ \<leftarrow> for_each (\<lambda>i u. do {
            v \<leftarrow> aget d i;
            case v of Null \<Rightarrow> Some u | Str _ \<Rightarrow> Some u | _ \<Rightarrow> None
          }) [0..<sl_size p] ();
        Some sl_init
      }
      else Some sl_init)"

section \<open>The contract\<close>

text \<open>What a client relies on of a growing sequence: appending adds one element at the end.\<close>

locale growing_seq =
  fixes start :: 'p
    and app :: "'p \<Rightarrow> 'e \<Rightarrow> 'p option"
    and view :: "'p \<Rightarrow> 'v list"
    and ok :: "'p \<Rightarrow> bool"
    and valid :: "'e \<Rightarrow> bool"
    and emb :: "'e \<Rightarrow> 'v"
  assumes start_ok: "ok start" "view start = []"
    and app_ok: "ok p \<Longrightarrow> valid e \<Longrightarrow> \<exists>p'. app p e = Some p' \<and> ok p' \<and> view p' = view p @ [emb e]"
begin

lemma app_all:
  "ok p \<Longrightarrow> \<forall>e\<in>set es. valid e \<Longrightarrow>
     \<exists>p'. for_each (\<lambda>e p. app p e) es p = Some p' \<and> ok p' \<and> view p' = view p @ map emb es"
proof (induction es arbitrary: p)
  case Nil
  then show ?case by simp
next
  case (Cons e es)
  from app_ok [OF Cons.prems(1)] Cons.prems(2) obtain p1 where
    "app p e = Some p1" "ok p1" "view p1 = view p @ [emb e]" by auto
  with Cons.IH [of p1] Cons.prems(2) show ?case by simp
qed

lemma app_all_start:
  "\<forall>e\<in>set es. valid e \<Longrightarrow> \<exists>p. for_each (\<lambda>e p. app p e) es start = Some p \<and> ok p \<and> view p = map emb es"
  using app_all [OF start_ok(1), of es] start_ok(2) by simp

end

text \<open>The size field is the size of the array.\<close>

definition sl_ok :: "strlist \<Rightarrow> bool" where
  "sl_ok p \<longleftrightarrow> (case sl_data p of None \<Rightarrow> sl_size p = 0 | Some d \<Rightarrow> 0 < sl_size p \<and> length d = sl_size p)"

definition sl_slots :: "strlist \<Rightarrow> slot list" where
  "sl_slots p = (case sl_data p of None \<Rightarrow> [] | Some d \<Rightarrow> d)"

text \<open>The slot an element is stored in: a terminated copy of the string.\<close>

definition slot_of :: "bytes option \<Rightarrow> slot" where
  "slot_of s = (case s of None \<Rightarrow> Null | Some b \<Rightarrow> Str (c_str b @ [0]))"

definition terminated :: "bytes option \<Rightarrow> bool" where
  "terminated s \<longleftrightarrow> (case s of None \<Rightarrow> True | Some b \<Rightarrow> 0 \<in> set b)"

lemma alloc_Nil [simp]: "alloc [] = (True, [])"
  by (simp add: alloc_def)

lemma alloc_Cons [simp]: "alloc (b # bs) = (b, bs)"
  by (simp add: alloc_def)

lemma copy_string_run: "0 \<in> set s \<Longrightarrow> copy_string s = Some (c_str s @ [0])"
proof -
  assume s: "0 \<in> set s"
  have "length (c_str s) = c_strlen s" by (simp add: c_str_def c_strlen_def)
  then show ?thesis
    using strlcpy_run [OF s, of "c_strlen s + 1" "replicate (c_strlen s + 1) 0"]
    by (simp add: copy_string_def splice_def)
qed

lemma sl_okD:
  "sl_ok p \<Longrightarrow> (if sl_size p = 0 then [] else (case sl_data p of None \<Rightarrow> [] | Some d \<Rightarrow> d)) = sl_slots p"
  "sl_ok p \<Longrightarrow> length (sl_slots p) = sl_size p"
  by (auto simp: sl_ok_def sl_slots_def split: option.splits)

text \<open>All the outcomes of an append.\<close>

lemma sl_append_cases:
  assumes "sl_ok p" "terminated s"
  shows "sl_append p s (False # os) = Some (p, os)"
    and "s = Some b \<Longrightarrow> sl_append p s (True # False # os) =
      Some (\<lparr>sl_size = Suc (sl_size p), sl_data = Some (sl_slots p @ [Uninit])\<rparr>, os)"
    and "sl_append p (Some b) (True # True # os) = (if 0 \<in> set b
      then Some (\<lparr>sl_size = Suc (sl_size p), sl_data = Some (sl_slots p @ [slot_of (Some b)])\<rparr>, os)
      else sl_append p (Some b) (True # True # os))"
    and "sl_append p None (True # os) =
      Some (\<lparr>sl_size = Suc (sl_size p), sl_data = Some (sl_slots p @ [Null])\<rparr>, os)"
    and "sl_append p s [] =
      Some (\<lparr>sl_size = Suc (sl_size p), sl_data = Some (sl_slots p @ [slot_of s])\<rparr>, [])"
proof -
  note D = sl_okD [OF assms(1)]
  show "sl_append p s (False # os) = Some (p, os)"
    by (simp add: sl_append_def sl_insert_at_def)
  show "sl_append p s (True # False # os) =
      Some (\<lparr>sl_size = Suc (sl_size p), sl_data = Some (sl_slots p @ [Uninit])\<rparr>, os)" if "s = Some b"
    using D that by (simp add: sl_append_def sl_insert_at_def)
  show "sl_append p (Some b) (True # True # os) = (if 0 \<in> set b
      then Some (\<lparr>sl_size = Suc (sl_size p), sl_data = Some (sl_slots p @ [slot_of (Some b)])\<rparr>, os)
      else sl_append p (Some b) (True # True # os))"
    using D by (simp add: sl_append_def sl_insert_at_def copy_string_run slot_of_def list_update_append)
  show "sl_append p None (True # os) =
      Some (\<lparr>sl_size = Suc (sl_size p), sl_data = Some (sl_slots p @ [Null])\<rparr>, os)"
    using D by (simp add: sl_append_def sl_insert_at_def list_update_append)
  show "sl_append p s [] =
      Some (\<lparr>sl_size = Suc (sl_size p), sl_data = Some (sl_slots p @ [slot_of s])\<rparr>, [])"
    using D assms(2) by (cases s)
      (simp_all add: sl_append_def sl_insert_at_def copy_string_run slot_of_def terminated_def list_update_append)
qed

interpretation sl: growing_seq sl_init "\<lambda>p s. map_option fst (sl_append p s [])" sl_slots sl_ok terminated slot_of
proof unfold_locales
  show "sl_ok sl_init" "sl_slots sl_init = []" by (simp_all add: sl_ok_def sl_init_def sl_slots_def)
  fix p s
  assume "sl_ok p" "terminated s"
  note D = sl_append_cases(5) [OF this] sl_okD(2) [OF this(1)]
  show "\<exists>p'. map_option fst (sl_append p s []) = Some p' \<and> sl_ok p' \<and> sl_slots p' = sl_slots p @ [slot_of s]"
    using D by (simp add: sl_ok_def sl_slots_def [of "\<lparr>sl_size = _, sl_data = Some _\<rparr>"])
qed

section \<open>The theorems\<close>

text \<open>When the allocations succeed, appending a null-terminated array of strings to a list adds
  copies of exactly those strings, in order, and the list can be freed.\<close>

theorem sl_append_all_appends:
  assumes "sl_ok p" "\<forall>b\<in>set bs. 0 \<in> set b"
  shows "\<exists>p'. sl_append_all p (Some (map Str bs @ Null # rest)) [] = Some (p', [])
    \<and> sl_ok p' \<and> sl_slots p' = sl_slots p @ map (\<lambda>b. Str (c_str b @ [0])) bs"
proof -
  have loop: "sl_insert_all_from p (map Str bs @ Null # rest) False [] =
      map_option (\<lambda>p. (p, [])) (for_each (\<lambda>s p. map_option fst (sl_append p s [])) (map Some bs) p)"
    if "sl_ok p" "\<forall>b\<in>set bs. 0 \<in> set b" for p bs
    using that
  proof (induction bs arbitrary: p)
    case Nil
    then show ?case by simp
  next
    case (Cons b bs)
    have t: "terminated (Some b)" using Cons.prems(2) by (simp add: terminated_def)
    from sl_append_cases(5) [OF Cons.prems(1) t] obtain p1 where
      p1: "sl_append p (Some b) [] = Some (p1, [])" "sl_ok p1"
      using sl_okD(2) [OF Cons.prems(1)] by (simp add: sl_ok_def)
    with Cons.IH [of p1] Cons.prems(2) show ?case by (simp add: sl_append_def)
  qed
  have "\<forall>e\<in>set (map Some bs). terminated e" using assms(2) by (auto simp: terminated_def)
  from sl.app_all [OF assms(1) this] loop [OF assms] show ?thesis
    by (auto simp: sl_append_all_def slot_of_def o_def)
qed

text \<open>What an append leaves when an allocation fails. If the array cannot grow, the list is
  unchanged; if the string cannot be copied, the list is one longer and its last slot is
  uninitialised, so that freeing it is undefined.\<close>

theorem sl_append_alloc_failure:
  assumes "sl_ok p" "0 \<in> set b"
  shows "sl_append p (Some b) (False # os) = Some (p, os)
    \<and> (\<exists>p'. sl_append p (Some b) (True # False # os) = Some (p', os)
         \<and> sl_slots p' = sl_slots p @ [Uninit] \<and> sl_free p' = None)"
proof -
  have t: "terminated (Some b)" using assms(2) by (simp add: terminated_def)
  note D = sl_append_cases(1,2) [OF assms(1) t]
  let ?p = "\<lparr>sl_size = Suc (sl_size p), sl_data = Some (sl_slots p @ [Uninit])\<rparr>"
  have "sl_free ?p = None"
    using sl_okD(2) [OF assms(1)] by (simp add: sl_free_def nth_append for_each_last_None)
  with D show ?thesis by (simp add: sl_slots_def)
qed

theorem sl_append_all_appends_witness:
  "\<exists>p'. sl_append_all sl_init (Some [Str [65, 0], Str [66, 0], Null]) [] = Some (p', [])
    \<and> sl_slots p' = [Str [65, 0], Str [66, 0]]"
  using sl_append_all_appends [OF sl.start_ok(1), of "[[65, 0], [66, 0]]" "[]"]
  by (auto simp: c_str_def sl.start_ok(2))

theorem sl_append_alloc_failure_witness:
  "sl_append sl_init (Some [65, 0]) [False] = Some (sl_init, [])"
  using sl_append_alloc_failure [OF sl.start_ok(1), of "[65, 0]" "[]"] by simp

text \<open>Inserting at the head does not work. Inserting before a list of one string loses that string
  and leaves the second slot uninitialised: the bytes are moved towards the head instead of away from
  it, and their number is the number of the slots.\<close>

theorem sl_insert_loses_head:
  "(do { (p, os) \<leftarrow> sl_append sl_init (Some [65, 0]) [];
         (p, os) \<leftarrow> sl_insert p (Some [66, 0]) [];
         Some (sl_slots p, sl_free p) }) = Some ([Str [66, 0], Uninit], None)"
  by code_simp

end
