(* ===== verification/Spawn.thy ===== *)
theory Spawn
  imports Session Strlist
begin

text \<open>
  The spawn service of the init daemon (\<open>axiom-init/axiom-spawn/axiom_spawn.c\<close>): a program to start is
  described by a sequence of messages of one session, and started by the message with the exec flag.
  The start itself (\<open>daemonize\<close>) forks and executes; the model records its arguments.
\<close>

section \<open>The code\<close>

text \<open>Constants of the NIC headers.\<close>

record spawn_consts =
  AXIOM_SESSION_EMPTY :: u8
  AXIOM_SPAWN_FLAG_RESET :: u8
  AXIOM_SPAWN_FLAG_EXEC :: u8
  AXIOM_SPAWN_MAX_DATA_SIZE :: nat

definition MAX_CONCURRENT_SPAWNS :: nat where
  "MAX_CONCURRENT_SPAWNS = 4"

text \<open>\<open>info_t\<close>. \<open>None\<close> is a null pointer.\<close>

record spawn_info =
  si_session_id :: u8
  si_exec :: "bytes option"
  si_cwd :: "bytes option"
  si_args :: strlist
  si_env :: strlist

datatype spawn_type =
    AXIOM_SPAWN_TYPE_EXE | AXIOM_SPAWN_TYPE_CWD | AXIOM_SPAWN_TYPE_ARG | AXIOM_SPAWN_TYPE_ENV
  | SPAWN_TYPE_OTHER u8

text \<open>\<open>axiom_spawn_req_payload_t\<close>.\<close>

record spawn_req =
  sq_command :: axiom_cmd
  sq_session_id :: u8
  sq_type :: spawn_type
  sq_flags :: u8
  sq_data :: bytes

text \<open>The arguments of a call of \<open>daemonize\<close>: working directory, executable, arguments, environment.\<close>

type_synonym launch = "bytes option \<times> bytes option \<times> slot list option \<times> slot list option"

record spawn_state =
  sp_info :: "spawn_info list"
  sp_sessions :: u32
  sp_launched :: "launch list"
  sp_allocs :: allocs

definition empty_info :: "spawn_consts \<Rightarrow> spawn_info" where
  "empty_info k = \<lparr>si_session_id = AXIOM_SESSION_EMPTY k, si_exec = None, si_cwd = None,
     si_args = sl_init, si_env = sl_init\<rparr>"

definition axiom_spawn_init :: "spawn_consts \<Rightarrow> spawn_state \<Rightarrow> spawn_state" where
  "axiom_spawn_init k s = s\<lparr>sp_info := replicate MAX_CONCURRENT_SPAWNS (empty_info k)\<rparr>"

text \<open>The search: the index where the loop stops and the last free slot seen before (\<open>-1\<close> for none).\<close>

definition find_slot :: "spawn_consts \<Rightarrow> spawn_info list \<Rightarrow> u8 \<Rightarrow> (nat \<times> int) option" where
  "find_slot k infos ses =
     for_ctl (\<lambda>i (idx, idx_free). do {
         v \<leftarrow> aget infos i;
         let idx_free = (if si_session_id v = AXIOM_SESSION_EMPTY k then int i else idx_free);
         Some (if si_session_id v = ses then (Break, i, idx_free) else (Next, Suc i, idx_free))
       }) [0..<MAX_CONCURRENT_SPAWNS] (0, - 1)"

text \<open>The copy of the data into a fresh buffer; the null pointer when the allocation fails.\<close>

definition store_string :: "bytes \<Rightarrow> allocs \<Rightarrow> (bytes option \<times> allocs) option" where
  "store_string d os = (
     let (ok, os) = alloc os
     in if ok then do { s \<leftarrow> copy_string d; Some (Some s, os) } else Some (None, os))"

text \<open>The reset of a slot.\<close>

definition reset_info :: "spawn_info \<Rightarrow> spawn_info option" where
  "reset_info v = do {
     args \<leftarrow> sl_free (si_args v);
     env \<leftarrow> sl_free (si_env v);
     Some (v\<lparr>si_exec := None, si_cwd := None, si_args := args, si_env := env\<rparr>)
   }"

text \<open>The switch on the type of the message.\<close>

definition spawn_store ::
  "spawn_consts \<Rightarrow> spawn_req \<Rightarrow> spawn_info \<Rightarrow> allocs \<Rightarrow> (spawn_info \<times> allocs) option" where
  "spawn_store k m v os = (case sq_type m of
       AXIOM_SPAWN_TYPE_EXE \<Rightarrow> do {
         d \<leftarrow> aset (sq_data m) (AXIOM_SPAWN_MAX_DATA_SIZE k - 1) 0;
         (s, os) \<leftarrow> store_string d os;
         Some (v\<lparr>si_exec := s\<rparr>, os)
       }
     | AXIOM_SPAWN_TYPE_CWD \<Rightarrow> do {
         d \<leftarrow> aset (sq_data m) (AXIOM_SPAWN_MAX_DATA_SIZE k - 1) 0;
         (s, os) \<leftarrow> store_string d os;
         Some (v\<lparr>si_cwd := s\<rparr>, os)
       }
     | AXIOM_SPAWN_TYPE_ARG \<Rightarrow> do {
         d \<leftarrow> aset (sq_data m) (AXIOM_SPAWN_MAX_DATA_SIZE k - 1) 0;
         (l, os) \<leftarrow> sl_append (si_args v) (Some d) os;
         Some (v\<lparr>si_args := l\<rparr>, os)
       }
     | AXIOM_SPAWN_TYPE_ENV \<Rightarrow> do {
         d \<leftarrow> aset (sq_data m) (AXIOM_SPAWN_MAX_DATA_SIZE k - 1) 0;
         (l, os) \<leftarrow> sl_append (si_env v) (Some d) os;
         Some (v\<lparr>si_env := l\<rparr>, os)
       }
     | SPAWN_TYPE_OTHER _ \<Rightarrow> Some (v, os))"

text \<open>The start of the program and the release of the slot and of the session.\<close>

definition spawn_exec ::
  "spawn_consts \<Rightarrow> spawn_info \<Rightarrow> allocs \<Rightarrow> u32 \<Rightarrow> (launch \<times> spawn_info \<times> allocs \<times> u32) option" where
  "spawn_exec k v os sessions = do {
     (args, os) \<leftarrow> sl_append (si_args v) None os;
     (env, os) \<leftarrow> sl_append (si_env v) None os;
     let l = (si_cwd v, si_exec v, sl_get args, sl_get env);
     env \<leftarrow> sl_free env;
     args \<leftarrow> sl_free args;
     sessions \<leftarrow> axiom_session_release (si_session_id v) sessions;
     Some (l, v\<lparr>si_session_id := AXIOM_SESSION_EMPTY k, si_exec := None, si_cwd := None,
             si_args := args, si_env := env\<rparr>, os, sessions)
   }"

text \<open>The request on a slot that has been chosen.\<close>

definition spawn_serve ::
  "spawn_consts \<Rightarrow> spawn_req \<Rightarrow> nat \<Rightarrow> spawn_info \<Rightarrow> u8 \<Rightarrow> spawn_state \<Rightarrow> spawn_state option" where
  "spawn_serve k m idx v flags s = do {
     v \<leftarrow> (if flags AND AXIOM_SPAWN_FLAG_RESET k \<noteq> 0 then reset_info v else Some v);
     (v, os) \<leftarrow> spawn_store k m v (sp_allocs s);
     if flags AND AXIOM_SPAWN_FLAG_EXEC k \<noteq> 0
     then do {
       (l, v, os, ses) \<leftarrow> spawn_exec k v os (sp_sessions s);
       infos \<leftarrow> aset (sp_info s) idx v;
       Some (s\<lparr>sp_info := infos, sp_sessions := ses, sp_launched := sp_launched s @ [l], sp_allocs := os\<rparr>)
     }
     else do {
       infos \<leftarrow> aset (sp_info s) idx v;
       Some (s\<lparr>sp_info := infos, sp_allocs := os\<rparr>)
     }
   }"

definition axiom_spawn_req :: "spawn_consts \<Rightarrow> spawn_req \<Rightarrow> spawn_state \<Rightarrow> spawn_state option" where
  "axiom_spawn_req k m s =
     (if sq_command m \<noteq> AXIOM_CMD_SPAWN_REQ then Some s
      else do {
        u \<leftarrow> axiom_session_is_used (sq_session_id m) (sp_sessions s);
        if \<not> u then Some s
        else do {
          (idx, idx_free) \<leftarrow> find_slot k (sp_info s) (sq_session_id m);
          if idx \<ge> MAX_CONCURRENT_SPAWNS
          then if idx_free = - 1 then Some s
               else do {
                 v \<leftarrow> aget (sp_info s) (nat idx_free);
                 spawn_serve k m (nat idx_free) (v\<lparr>si_session_id := sq_session_id m\<rparr>)
                   (sq_flags m OR AXIOM_SPAWN_FLAG_RESET k) s
               }
          else do {
            v \<leftarrow> aget (sp_info s) idx;
            spawn_serve k m idx v (sq_flags m) s
          }
        }
      })"

section \<open>The slots\<close>

text \<open>A string list that can be freed.\<close>

definition sl_clean :: "strlist \<Rightarrow> bool" where
  "sl_clean p \<longleftrightarrow> sl_ok p \<and> Uninit \<notin> set (sl_slots p) \<and> Mixed \<notin> set (sl_slots p)"

lemma sl_free_clean: "sl_clean p \<Longrightarrow> sl_free p = Some sl_init"
proof -
  assume c: "sl_clean p"
  let ?f = "\<lambda>i u. do { v \<leftarrow> aget (sl_slots p) i; case v of Null \<Rightarrow> Some u | Str _ \<Rightarrow> Some u | _ \<Rightarrow> None }"
  have len: "length (sl_slots p) = sl_size p" using c sl_okD(2) by (simp add: sl_clean_def)
  have "\<exists>u. for_each ?f [0..<sl_size p] () = Some u \<and> True"
  proof (rule for_each_inv)
    fix i :: nat and u
    assume "i \<in> set [0..<sl_size p]"
    then have "sl_slots p ! i \<in> set (sl_slots p)" "i < length (sl_slots p)" using len by auto
    with c show "\<exists>u'. ?f i u = Some u' \<and> True"
      by (cases "sl_slots p ! i") (auto simp: sl_clean_def)
  qed simp
  then show ?thesis
    using c by (auto simp: sl_free_def sl_clean_def sl_ok_def sl_slots_def split: option.splits)
qed

lemma sl_init_clean [simp]: "sl_clean sl_init"
  using sl.start_ok by (simp add: sl_clean_def)

lemma sl_append_clean:
  assumes "sl_clean p" "terminated b"
  shows "\<exists>p'. sl_append p b [] = Some (p', []) \<and> sl_clean p' \<and> sl_slots p' = sl_slots p @ [slot_of b]
    \<and> sl_get p' = Some (sl_slots p @ [slot_of b])"
proof -
  have ok: "sl_ok p" using assms(1) by (simp add: sl_clean_def)
  have "slot_of b \<noteq> Uninit" "slot_of b \<noteq> Mixed" by (auto simp: slot_of_def split: option.split)
  with assms sl_append_cases(5) [OF ok assms(2)] sl_okD(2) [OF ok] show ?thesis
    by (auto simp: sl_clean_def sl_ok_def sl_slots_def [of "\<lparr>sl_size = _, sl_data = Some _\<rparr>"] sl_get_def)
qed

definition info_clean :: "spawn_info \<Rightarrow> bool" where
  "info_clean v \<longleftrightarrow> sl_clean (si_args v) \<and> sl_clean (si_env v)"

text \<open>What the code relies on of the header constants.\<close>

definition spawn_consts_ok :: "spawn_consts \<Rightarrow> bool" where
  "spawn_consts_ok k \<longleftrightarrow> 32 < unat (AXIOM_SESSION_EMPTY k) \<and> 0 < AXIOM_SPAWN_MAX_DATA_SIZE k
     \<and> AXIOM_SPAWN_FLAG_RESET k \<noteq> 0 \<and> AXIOM_SPAWN_FLAG_EXEC k \<noteq> 0
     \<and> AXIOM_SPAWN_FLAG_RESET k AND AXIOM_SPAWN_FLAG_EXEC k = 0"

text \<open>The string a message carries: what precedes the first zero byte, with the last byte of the data
  taken as zero.\<close>

definition msg_string :: "spawn_consts \<Rightarrow> bytes \<Rightarrow> bytes" where
  "msg_string k d = c_str (d[AXIOM_SPAWN_MAX_DATA_SIZE k - 1 := 0]) @ [0]"

lemma list4:
  assumes "length xs = MAX_CONCURRENT_SPAWNS"
  obtains a b c d where "xs = [a, b, c, d]"
  using assms by (auto simp: MAX_CONCURRENT_SPAWNS_def numeral_eq_Suc length_Suc_conv)

lemma find_slot_found:
  assumes "length infos = MAX_CONCURRENT_SPAWNS" "i < MAX_CONCURRENT_SPAWNS"
    "si_session_id (infos ! i) = ses" "\<forall>j<i. si_session_id (infos ! j) \<noteq> ses"
  shows "\<exists>f. find_slot k infos ses = Some (i, f)"
proof -
  obtain a b c d where l: "infos = [a, b, c, d]" using list4 [OF assms(1)] .
  have "i = 0 \<or> i = 1 \<or> i = 2 \<or> i = 3" using assms(2) by (auto simp: MAX_CONCURRENT_SPAWNS_def)
  moreover have "0 < i \<Longrightarrow> si_session_id a \<noteq> ses" "1 < i \<Longrightarrow> si_session_id b \<noteq> ses" "2 < i \<Longrightarrow> si_session_id c \<noteq> ses"
    using assms(4) [rule_format, of 0] assms(4) [rule_format, of 1] assms(4) [rule_format, of 2] by (simp_all add: l)
  moreover have "\<exists>f. find_slot k infos ses = Some (i, f)" if "i = 3" "si_session_id d = ses"
    "si_session_id a \<noteq> ses" "si_session_id b \<noteq> ses" "si_session_id c \<noteq> ses"
    using that by (simp add: l find_slot_def MAX_CONCURRENT_SPAWNS_def Let_def range_eval)
  moreover have "\<exists>f. find_slot k infos ses = Some (i, f)" if "i = 2" "si_session_id c = ses"
    "si_session_id a \<noteq> ses" "si_session_id b \<noteq> ses"
    using that by (simp add: l find_slot_def MAX_CONCURRENT_SPAWNS_def Let_def range_eval)
  moreover have "\<exists>f. find_slot k infos ses = Some (i, f)" if "i = 1" "si_session_id b = ses"
    "si_session_id a \<noteq> ses"
    using that by (simp add: l find_slot_def MAX_CONCURRENT_SPAWNS_def Let_def range_eval)
  moreover have "\<exists>f. find_slot k infos ses = Some (i, f)" if "i = 0" "si_session_id a = ses"
    using that by (simp add: l find_slot_def MAX_CONCURRENT_SPAWNS_def Let_def range_eval)
  ultimately show ?thesis using assms(3) by (elim disjE) (simp_all add: l)
qed

lemma find_slot_free:
  assumes "length infos = MAX_CONCURRENT_SPAWNS" "ses \<notin> si_session_id ` set infos"
    "AXIOM_SESSION_EMPTY k \<in> si_session_id ` set infos"
  shows "\<exists>i<MAX_CONCURRENT_SPAWNS. find_slot k infos ses = Some (MAX_CONCURRENT_SPAWNS, int i)
    \<and> si_session_id (infos ! i) = AXIOM_SESSION_EMPTY k"
proof -
  obtain a b c d where l: "infos = [a, b, c, d]" using list4 [OF assms(1)] .
  let ?E = "\<lambda>v. si_session_id v = AXIOM_SESSION_EMPTY k"
  let ?i = "if ?E d then 3 else if ?E c then 2 else if ?E b then 1 else (0 :: nat)"
  have ne: "si_session_id a \<noteq> ses" "si_session_id b \<noteq> ses" "si_session_id c \<noteq> ses" "si_session_id d \<noteq> ses"
    using assms(2) by (auto simp: l)
  have some: "?E a \<or> ?E b \<or> ?E c \<or> ?E d" using assms(3) by (auto simp: l)
  have "find_slot k infos ses = Some (4, int ?i)"
    using ne some by (simp add: l find_slot_def MAX_CONCURRENT_SPAWNS_def Let_def range_eval) blast
  moreover have "?E (infos ! ?i)" using some by (simp add: l) blast
  moreover have "?i < 4" by simp
  ultimately show ?thesis unfolding MAX_CONCURRENT_SPAWNS_def by blast
qed

lemma find_slot_none:
  assumes "length infos = MAX_CONCURRENT_SPAWNS" "ses \<notin> si_session_id ` set infos"
    "AXIOM_SESSION_EMPTY k \<notin> si_session_id ` set infos"
  shows "find_slot k infos ses = Some (MAX_CONCURRENT_SPAWNS, - 1)"
proof -
  obtain a b c d where l: "infos = [a, b, c, d]" using list4 [OF assms(1)] .
  show ?thesis using assms(2,3) by (auto simp: l find_slot_def MAX_CONCURRENT_SPAWNS_def Let_def range_eval)
qed

section \<open>One message\<close>

lemma msg_terminated:
  assumes "spawn_consts_ok k" "length d = AXIOM_SPAWN_MAX_DATA_SIZE k"
  shows "aset d (AXIOM_SPAWN_MAX_DATA_SIZE k - 1) 0 = Some (d[AXIOM_SPAWN_MAX_DATA_SIZE k - 1 := 0])"
    and "0 \<in> set (d[AXIOM_SPAWN_MAX_DATA_SIZE k - 1 := 0])"
  using assms by (auto simp: spawn_consts_ok_def intro: set_update_memI)

lemma spawn_store_string:
  assumes "spawn_consts_ok k" "length (sq_data m) = AXIOM_SPAWN_MAX_DATA_SIZE k"
  shows "sq_type m = AXIOM_SPAWN_TYPE_EXE \<Longrightarrow>
      spawn_store k m v [] = Some (v\<lparr>si_exec := Some (msg_string k (sq_data m))\<rparr>, [])"
    and "sq_type m = AXIOM_SPAWN_TYPE_CWD \<Longrightarrow>
      spawn_store k m v [] = Some (v\<lparr>si_cwd := Some (msg_string k (sq_data m))\<rparr>, [])"
  using msg_terminated [OF assms]
  by (auto simp: spawn_store_def store_string_def copy_string_run msg_string_def)

lemma spawn_store_list:
  assumes "spawn_consts_ok k" "length (sq_data m) = AXIOM_SPAWN_MAX_DATA_SIZE k" "info_clean v"
  shows "sq_type m = AXIOM_SPAWN_TYPE_ARG \<Longrightarrow> \<exists>l. spawn_store k m v [] = Some (v\<lparr>si_args := l\<rparr>, [])
      \<and> sl_clean l \<and> sl_slots l = sl_slots (si_args v) @ [Str (msg_string k (sq_data m))]"
    and "sq_type m = AXIOM_SPAWN_TYPE_ENV \<Longrightarrow> \<exists>l. spawn_store k m v [] = Some (v\<lparr>si_env := l\<rparr>, [])
      \<and> sl_clean l \<and> sl_slots l = sl_slots (si_env v) @ [Str (msg_string k (sq_data m))]"
  using msg_terminated [OF assms(1,2)] assms(3)
    sl_append_clean [of "si_args v" "Some ((sq_data m)[AXIOM_SPAWN_MAX_DATA_SIZE k - 1 := 0])"]
    sl_append_clean [of "si_env v" "Some ((sq_data m)[AXIOM_SPAWN_MAX_DATA_SIZE k - 1 := 0])"]
  by (auto simp: spawn_store_def info_clean_def terminated_def slot_of_def msg_string_def)

text \<open>Slot \<open>i\<close> is the one of session \<open>ses\<close>.\<close>

definition slot_of_session :: "spawn_state \<Rightarrow> nat \<Rightarrow> u8 \<Rightarrow> bool" where
  "slot_of_session s i ses \<longleftrightarrow> length (sp_info s) = MAX_CONCURRENT_SPAWNS \<and> i < MAX_CONCURRENT_SPAWNS
     \<and> si_session_id (sp_info s ! i) = ses \<and> (\<forall>j<i. si_session_id (sp_info s ! j) \<noteq> ses)
     \<and> unat ses < 32 \<and> unat ses \<notin> free_sessions (sp_sessions s) \<and> sp_allocs s = []"

lemma spawn_req_known:
  assumes "slot_of_session s i ses" "sq_command m = AXIOM_CMD_SPAWN_REQ" "sq_session_id m = ses"
  shows "axiom_spawn_req k m s = spawn_serve k m i (sp_info s ! i) (sq_flags m) s"
proof -
  from assms(1) find_slot_found [of "sp_info s" i ses k] obtain f where
    "find_slot k (sp_info s) ses = Some (i, f)" by (auto simp: slot_of_session_def)
  with assms show ?thesis
    by (simp add: axiom_spawn_req_def axiom_session_is_used_def session_used_iff slot_of_session_def)
qed

lemma slot_of_session_update:
  "slot_of_session s i ses \<Longrightarrow> si_session_id v = ses \<Longrightarrow>
     slot_of_session (s\<lparr>sp_info := (sp_info s)[i := v], sp_allocs := []\<rparr>) i ses"
  by (auto simp: slot_of_session_def nth_list_update)

text \<open>A message that only stores something.\<close>

lemma spawn_req_stores:
  assumes "slot_of_session s i ses" "sq_command m = AXIOM_CMD_SPAWN_REQ" "sq_session_id m = ses"
    "sq_flags m = 0" "spawn_store k m (sp_info s ! i) [] = Some (v, [])"
  shows "axiom_spawn_req k m s = Some (s\<lparr>sp_info := (sp_info s)[i := v], sp_allocs := []\<rparr>)"
  using assms(4,5) spawn_req_known [OF assms(1-3), of k] assms(1)
  by (simp add: spawn_serve_def slot_of_session_def)

section \<open>A session\<close>

text \<open>The messages of a client: the executable, the arguments, the environment, and the working
  directory with the exec flag.\<close>

definition spawn_msg :: "u8 \<Rightarrow> spawn_type \<Rightarrow> u8 \<Rightarrow> bytes \<Rightarrow> spawn_req" where
  "spawn_msg ses t f d = \<lparr>sq_command = AXIOM_CMD_SPAWN_REQ, sq_session_id = ses, sq_type = t,
     sq_flags = f, sq_data = d\<rparr>"

definition spawn_msgs :: "spawn_consts \<Rightarrow> u8 \<Rightarrow> bytes \<Rightarrow> bytes list \<Rightarrow> bytes list \<Rightarrow> bytes \<Rightarrow> spawn_req list" where
  "spawn_msgs k ses exe args envs cwd =
     [spawn_msg ses AXIOM_SPAWN_TYPE_EXE (AXIOM_SPAWN_FLAG_RESET k) exe]
     @ map (spawn_msg ses AXIOM_SPAWN_TYPE_ARG 0) args
     @ map (spawn_msg ses AXIOM_SPAWN_TYPE_ENV 0) envs
     @ [spawn_msg ses AXIOM_SPAWN_TYPE_CWD (AXIOM_SPAWN_FLAG_EXEC k) cwd]"

lemma spawn_args_run:
  assumes ok: "spawn_consts_ok k" and len: "\<forall>d\<in>set ds. length d = AXIOM_SPAWN_MAX_DATA_SIZE k"
    and "slot_of_session s i ses" "info_clean (sp_info s ! i)"
  shows "\<exists>l. for_each (axiom_spawn_req k) (map (spawn_msg ses AXIOM_SPAWN_TYPE_ARG 0) ds) s =
      Some (s\<lparr>sp_info := (sp_info s)[i := (sp_info s ! i)\<lparr>si_args := l\<rparr>], sp_allocs := []\<rparr>)
    \<and> sl_clean l \<and> sl_slots l = sl_slots (si_args (sp_info s ! i)) @ map (\<lambda>d. Str (msg_string k d)) ds"
  using len assms(3,4)
proof (induction ds arbitrary: s)
  case Nil
  then show ?case
    by (intro exI [of _ "si_args (sp_info s ! i)"]) (simp add: slot_of_session_def info_clean_def)
next
  case (Cons d ds)
  let ?m = "spawn_msg ses AXIOM_SPAWN_TYPE_ARG 0 d" and ?v = "sp_info s ! i"
  have i: "i < length (sp_info s)" "sp_allocs s = []" "si_session_id ?v = ses"
    using Cons.prems(2) by (auto simp: slot_of_session_def)
  from spawn_store_list(1) [OF ok, of ?m ?v] Cons.prems obtain l where
    l: "spawn_store k ?m ?v [] = Some (?v\<lparr>si_args := l\<rparr>, [])" "sl_clean l"
      "sl_slots l = sl_slots (si_args ?v) @ [Str (msg_string k d)]" by (auto simp: spawn_msg_def)
  let ?s = "s\<lparr>sp_info := (sp_info s)[i := ?v\<lparr>si_args := l\<rparr>], sp_allocs := []\<rparr>"
  have step: "axiom_spawn_req k ?m s = Some ?s"
    using spawn_req_stores [OF Cons.prems(2) _ _ _ l(1)] by (simp add: spawn_msg_def)
  have "slot_of_session ?s i ses" using slot_of_session_update [OF Cons.prems(2)] i(3) by simp
  moreover have "info_clean (sp_info ?s ! i)" using Cons.prems(3) l(2) i(1) by (simp add: info_clean_def)
  ultimately show ?case using Cons.IH [of ?s] Cons.prems(1) step l(3) i by (auto simp: spawn_msg_def)
qed

lemma spawn_envs_run:
  assumes ok: "spawn_consts_ok k" and len: "\<forall>d\<in>set ds. length d = AXIOM_SPAWN_MAX_DATA_SIZE k"
    and "slot_of_session s i ses" "info_clean (sp_info s ! i)"
  shows "\<exists>l. for_each (axiom_spawn_req k) (map (spawn_msg ses AXIOM_SPAWN_TYPE_ENV 0) ds) s =
      Some (s\<lparr>sp_info := (sp_info s)[i := (sp_info s ! i)\<lparr>si_env := l\<rparr>], sp_allocs := []\<rparr>)
    \<and> sl_clean l \<and> sl_slots l = sl_slots (si_env (sp_info s ! i)) @ map (\<lambda>d. Str (msg_string k d)) ds"
  using len assms(3,4)
proof (induction ds arbitrary: s)
  case Nil
  then show ?case
    by (intro exI [of _ "si_env (sp_info s ! i)"]) (simp add: slot_of_session_def info_clean_def)
next
  case (Cons d ds)
  let ?m = "spawn_msg ses AXIOM_SPAWN_TYPE_ENV 0 d" and ?v = "sp_info s ! i"
  have i: "i < length (sp_info s)" "sp_allocs s = []" "si_session_id ?v = ses"
    using Cons.prems(2) by (auto simp: slot_of_session_def)
  from spawn_store_list(2) [OF ok, of ?m ?v] Cons.prems obtain l where
    l: "spawn_store k ?m ?v [] = Some (?v\<lparr>si_env := l\<rparr>, [])" "sl_clean l"
      "sl_slots l = sl_slots (si_env ?v) @ [Str (msg_string k d)]" by (auto simp: spawn_msg_def)
  let ?s = "s\<lparr>sp_info := (sp_info s)[i := ?v\<lparr>si_env := l\<rparr>], sp_allocs := []\<rparr>"
  have step: "axiom_spawn_req k ?m s = Some ?s"
    using spawn_req_stores [OF Cons.prems(2) _ _ _ l(1)] by (simp add: spawn_msg_def)
  have "slot_of_session ?s i ses" using slot_of_session_update [OF Cons.prems(2)] i(3) by simp
  moreover have "info_clean (sp_info ?s ! i)" using Cons.prems(3) l(2) i(1) by (simp add: info_clean_def)
  ultimately show ?case using Cons.IH [of ?s] Cons.prems(1) step l(3) i by (auto simp: spawn_msg_def)
qed

lemma spawn_first_run:
  assumes ok: "spawn_consts_ok k" and exe: "length exe = AXIOM_SPAWN_MAX_DATA_SIZE k"
    and infos: "length (sp_info s) = MAX_CONCURRENT_SPAWNS" "\<forall>v\<in>set (sp_info s). info_clean v"
      "ses \<notin> si_session_id ` set (sp_info s)" "AXIOM_SESSION_EMPTY k \<in> si_session_id ` set (sp_info s)"
    and ses: "unat ses < 32" "unat ses \<notin> free_sessions (sp_sessions s)" "sp_allocs s = []"
  shows "\<exists>i. i < MAX_CONCURRENT_SPAWNS \<and> si_session_id (sp_info s ! i) = AXIOM_SESSION_EMPTY k
    \<and> axiom_spawn_req k (spawn_msg ses AXIOM_SPAWN_TYPE_EXE (AXIOM_SPAWN_FLAG_RESET k) exe) s =
      Some (s\<lparr>sp_info := (sp_info s)[i := \<lparr>si_session_id = ses, si_exec = Some (msg_string k exe), si_cwd = None,
        si_args = sl_init, si_env = sl_init\<rparr>], sp_allocs := []\<rparr>)"
proof -
  let ?m = "spawn_msg ses AXIOM_SPAWN_TYPE_EXE (AXIOM_SPAWN_FLAG_RESET k) exe"
  from find_slot_free [OF infos(1,3,4)] obtain i where
    i: "i < MAX_CONCURRENT_SPAWNS" "find_slot k (sp_info s) ses = Some (MAX_CONCURRENT_SPAWNS, int i)"
      "si_session_id (sp_info s ! i) = AXIOM_SESSION_EMPTY k" by blast
  have "info_clean (sp_info s ! i)" using infos(1,2) i(1) by auto
  then have "reset_info ((sp_info s ! i)\<lparr>si_session_id := ses\<rparr>) = Some \<lparr>si_session_id = ses, si_exec = None,
      si_cwd = None, si_args = sl_init, si_env = sl_init\<rparr>"
    by (cases "sp_info s ! i") (simp add: reset_info_def info_clean_def sl_free_clean)
  moreover have "spawn_store k ?m v [] = Some (v\<lparr>si_exec := Some (msg_string k exe)\<rparr>, [])" for v
    using spawn_store_string(1) [OF ok, of ?m v] exe by (simp add: spawn_msg_def)
  moreover have "AXIOM_SPAWN_FLAG_RESET k \<noteq> 0" "AXIOM_SPAWN_FLAG_RESET k AND AXIOM_SPAWN_FLAG_EXEC k = 0"
    using ok by (auto simp: spawn_consts_ok_def)
  ultimately show ?thesis
    using i infos(1) ses
    by (auto simp: axiom_spawn_req_def axiom_session_is_used_def session_used_iff spawn_serve_def
        spawn_msg_def [of _ _ "AXIOM_SPAWN_FLAG_RESET k"])
qed

lemma spawn_last_run:
  assumes ok: "spawn_consts_ok k" and cwd: "length cwd = AXIOM_SPAWN_MAX_DATA_SIZE k"
    and slot: "slot_of_session s i ses" "info_clean (sp_info s ! i)"
  shows "axiom_spawn_req k (spawn_msg ses AXIOM_SPAWN_TYPE_CWD (AXIOM_SPAWN_FLAG_EXEC k) cwd) s =
    Some (s\<lparr>sp_info := (sp_info s)[i := empty_info k], sp_sessions := sp_sessions s OR 2 ^ unat ses,
      sp_launched := sp_launched s @ [(Some (msg_string k cwd), si_exec (sp_info s ! i),
        Some (sl_slots (si_args (sp_info s ! i)) @ [Null]), Some (sl_slots (si_env (sp_info s ! i)) @ [Null]))],
      sp_allocs := []\<rparr>)"
proof -
  let ?m = "spawn_msg ses AXIOM_SPAWN_TYPE_CWD (AXIOM_SPAWN_FLAG_EXEC k) cwd" and ?v = "sp_info s ! i"
  let ?w = "?v\<lparr>si_cwd := Some (msg_string k cwd)\<rparr>"
  have st: "spawn_store k ?m ?v [] = Some (?w, [])"
    using spawn_store_string(2) [OF ok, of ?m ?v] cwd by (simp add: spawn_msg_def)
  have t: "terminated None" by (simp add: terminated_def)
  from sl_append_clean [OF _ t, of "si_args ?v"] sl_append_clean [OF _ t, of "si_env ?v"] slot(2) obtain a e where
    a: "sl_append (si_args ?v) None [] = Some (a, [])" "sl_clean a" "sl_get a = Some (sl_slots (si_args ?v) @ [Null])"
    and e: "sl_append (si_env ?v) None [] = Some (e, [])" "sl_clean e" "sl_get e = Some (sl_slots (si_env ?v) @ [Null])"
    by (auto simp: info_clean_def slot_of_def)
  have ses: "unat ses < 32" "si_session_id ?v = ses" "sp_allocs s = []" "i < length (sp_info s)"
    using slot(1) by (auto simp: slot_of_session_def)
  have x: "spawn_exec k ?w [] (sp_sessions s) = Some ((Some (msg_string k cwd), si_exec ?v,
        Some (sl_slots (si_args ?v) @ [Null]), Some (sl_slots (si_env ?v) @ [Null])), empty_info k, [],
        sp_sessions s OR 2 ^ unat ses)"
    using a e ses sl_free_clean
    by (cases ?v) (simp add: spawn_exec_def axiom_session_release_def session_release_def empty_info_def)
  have "AXIOM_SPAWN_FLAG_EXEC k \<noteq> 0" "AXIOM_SPAWN_FLAG_EXEC k AND AXIOM_SPAWN_FLAG_RESET k = 0"
    using ok by (auto simp: spawn_consts_ok_def and.commute)
  with spawn_req_known [OF slot(1), of ?m k] st x ses show ?thesis
    by (simp add: spawn_serve_def spawn_msg_def [of _ _ "AXIOM_SPAWN_FLAG_EXEC k"])
qed

lemma spawn_session_run:
  assumes "spawn_consts_ok k" "\<forall>d\<in>{exe, cwd} \<union> set args \<union> set envs. length d = AXIOM_SPAWN_MAX_DATA_SIZE k"
    "length (sp_info s) = MAX_CONCURRENT_SPAWNS" "\<forall>v\<in>set (sp_info s). info_clean v"
    "ses \<notin> si_session_id ` set (sp_info s)" "AXIOM_SESSION_EMPTY k \<in> si_session_id ` set (sp_info s)"
    "unat ses < 32" "unat ses \<notin> free_sessions (sp_sessions s)" "sp_allocs s = []"
  shows "\<exists>i. i < MAX_CONCURRENT_SPAWNS \<and> si_session_id (sp_info s ! i) = AXIOM_SESSION_EMPTY k
    \<and> for_each (axiom_spawn_req k) (spawn_msgs k ses exe args envs cwd) s =
      Some (s\<lparr>sp_info := (sp_info s)[i := empty_info k], sp_sessions := sp_sessions s OR 2 ^ unat ses,
        sp_launched := sp_launched s @ [(Some (msg_string k cwd), Some (msg_string k exe),
          Some (map (\<lambda>d. Str (msg_string k d)) args @ [Null]), Some (map (\<lambda>d. Str (msg_string k d)) envs @ [Null]))],
        sp_allocs := []\<rparr>)"
proof -
  let ?v = "\<lparr>si_session_id = ses, si_exec = Some (msg_string k exe), si_cwd = None,
        si_args = sl_init, si_env = sl_init\<rparr>"
  from spawn_first_run [OF assms(1) _ assms(3-9), of exe] assms(2) obtain i where
    i: "i < MAX_CONCURRENT_SPAWNS" "si_session_id (sp_info s ! i) = AXIOM_SESSION_EMPTY k"
    and s1: "axiom_spawn_req k (spawn_msg ses AXIOM_SPAWN_TYPE_EXE (AXIOM_SPAWN_FLAG_RESET k) exe) s =
      Some (s\<lparr>sp_info := (sp_info s)[i := ?v], sp_allocs := []\<rparr>)" by auto
  let ?s1 = "s\<lparr>sp_info := (sp_info s)[i := ?v], sp_allocs := []\<rparr>"
  have il: "i < length (sp_info s)" using i(1) assms(3) by simp
  have slot1: "slot_of_session ?s1 i ses"
    using assms(3,5,7,8) i(1) by (auto simp: slot_of_session_def image_iff)
  from spawn_args_run [OF assms(1) _ slot1, of args] assms(2) il obtain la where
    s2: "for_each (axiom_spawn_req k) (map (spawn_msg ses AXIOM_SPAWN_TYPE_ARG 0) args) ?s1 =
      Some (s\<lparr>sp_info := (sp_info s)[i := ?v\<lparr>si_args := la\<rparr>], sp_allocs := []\<rparr>)" "sl_clean la"
      "sl_slots la = map (\<lambda>d. Str (msg_string k d)) args"
    by (auto simp: info_clean_def sl.start_ok(2))
  let ?s2 = "s\<lparr>sp_info := (sp_info s)[i := ?v\<lparr>si_args := la\<rparr>], sp_allocs := []\<rparr>"
  have slot2: "slot_of_session ?s2 i ses"
    using slot_of_session_update [OF slot1, of "?v\<lparr>si_args := la\<rparr>"] by simp
  from spawn_envs_run [OF assms(1) _ slot2, of envs] assms(2) il s2(2) obtain le where
    s3: "for_each (axiom_spawn_req k) (map (spawn_msg ses AXIOM_SPAWN_TYPE_ENV 0) envs) ?s2 =
      Some (s\<lparr>sp_info := (sp_info s)[i := ?v\<lparr>si_args := la, si_env := le\<rparr>], sp_allocs := []\<rparr>)" "sl_clean le"
      "sl_slots le = map (\<lambda>d. Str (msg_string k d)) envs"
    by (auto simp: info_clean_def sl.start_ok(2))
  let ?s3 = "s\<lparr>sp_info := (sp_info s)[i := ?v\<lparr>si_args := la, si_env := le\<rparr>], sp_allocs := []\<rparr>"
  have slot3: "slot_of_session ?s3 i ses"
    using slot_of_session_update [OF slot2, of "?v\<lparr>si_args := la, si_env := le\<rparr>"] by simp
  have "axiom_spawn_req k (spawn_msg ses AXIOM_SPAWN_TYPE_CWD (AXIOM_SPAWN_FLAG_EXEC k) cwd) ?s3 =
      Some (s\<lparr>sp_info := (sp_info s)[i := empty_info k], sp_sessions := sp_sessions s OR 2 ^ unat ses,
        sp_launched := sp_launched s @ [(Some (msg_string k cwd), Some (msg_string k exe),
          Some (map (\<lambda>d. Str (msg_string k d)) args @ [Null]), Some (map (\<lambda>d. Str (msg_string k d)) envs @ [Null]))],
        sp_allocs := []\<rparr>)"
    using spawn_last_run [OF assms(1) _ slot3, of cwd] assms(2) il s2(2,3) s3(2,3)
    by (simp add: info_clean_def)
  with i s1 s2(1) s3(1) show ?thesis by (auto simp: spawn_msgs_def for_each_append)
qed

text \<open>C13: the messages of a session start exactly the program they describe. When the session is in
  use, the daemon has a free slot and the allocations succeed, the messages of a client start one
  program, with the executable, the arguments and the environment (null-terminated) and the working
  directory that were sent, in the order they were sent; then the slot is empty again, the other slots
  are untouched and the session is free.\<close>

theorem spawn_session_launches:
  assumes "spawn_consts_ok k" "\<forall>d\<in>{exe, cwd} \<union> set args \<union> set envs. length d = AXIOM_SPAWN_MAX_DATA_SIZE k"
    "length (sp_info s) = MAX_CONCURRENT_SPAWNS" "\<forall>v\<in>set (sp_info s). info_clean v"
    "ses \<notin> si_session_id ` set (sp_info s)" "AXIOM_SESSION_EMPTY k \<in> si_session_id ` set (sp_info s)"
    "unat ses < 32" "unat ses \<notin> free_sessions (sp_sessions s)" "sp_allocs s = []"
  shows "\<exists>i. i < MAX_CONCURRENT_SPAWNS \<and> si_session_id (sp_info s ! i) = AXIOM_SESSION_EMPTY k
    \<and> for_each (axiom_spawn_req k) (spawn_msgs k ses exe args envs cwd) s =
      Some (s\<lparr>sp_info := (sp_info s)[i := empty_info k], sp_sessions := sp_sessions s OR 2 ^ unat ses,
        sp_launched := sp_launched s @ [(Some (msg_string k cwd), Some (msg_string k exe),
          Some (map (\<lambda>d. Str (msg_string k d)) args @ [Null]), Some (map (\<lambda>d. Str (msg_string k d)) envs @ [Null]))],
        sp_allocs := []\<rparr>)"
  using assms by (rule spawn_session_run)

text \<open>C39: a spawn request for a session that is not in use, or made when all the slots are taken by
  other sessions, changes nothing.\<close>

theorem spawn_req_refused:
  assumes "length (sp_info s) = MAX_CONCURRENT_SPAWNS" "unat (sq_session_id m) < 32"
    "unat (sq_session_id m) \<in> free_sessions (sp_sessions s)
     \<or> sq_session_id m \<notin> si_session_id ` set (sp_info s) \<and> AXIOM_SESSION_EMPTY k \<notin> si_session_id ` set (sp_info s)"
  shows "axiom_spawn_req k m s = Some s"
proof (cases "unat (sq_session_id m) \<in> free_sessions (sp_sessions s)")
  case True
  with assms(2) show ?thesis by (simp add: axiom_spawn_req_def axiom_session_is_used_def session_used_iff)
next
  case False
  then have "find_slot k (sp_info s) (sq_session_id m) = Some (MAX_CONCURRENT_SPAWNS, - 1)"
    using assms(3) by (intro find_slot_none [OF assms(1)]) auto
  with False assms(2) show ?thesis
    by (simp add: axiom_spawn_req_def axiom_session_is_used_def session_used_iff)
qed

section \<open>Any message\<close>

text \<open>The slots hold lists that can be freed, and sessions of the pool or the empty one. Allocations succeed.\<close>

definition spawn_ok :: "spawn_consts \<Rightarrow> spawn_state \<Rightarrow> bool" where
  "spawn_ok k s \<longleftrightarrow> length (sp_info s) = MAX_CONCURRENT_SPAWNS \<and> sp_allocs s = []
     \<and> (\<forall>v\<in>set (sp_info s). info_clean v \<and> (si_session_id v = AXIOM_SESSION_EMPTY k \<or> unat (si_session_id v) < 32))"

lemma spawn_init_ok: "sp_allocs s = [] \<Longrightarrow> spawn_ok k (axiom_spawn_init k s)"
  by (auto simp: spawn_ok_def axiom_spawn_init_def empty_info_def info_clean_def)

lemma spawn_store_clean:
  assumes "spawn_consts_ok k" "length (sq_data m) = AXIOM_SPAWN_MAX_DATA_SIZE k" "info_clean v"
  shows "\<exists>v'. spawn_store k m v [] = Some (v', []) \<and> info_clean v' \<and> si_session_id v' = si_session_id v"
  using spawn_store_string [OF assms(1,2), of v] spawn_store_list [OF assms] assms(3)
  by (cases "sq_type m") (auto simp: info_clean_def spawn_store_def)

lemma spawn_exec_clean:
  assumes "info_clean v" "unat (si_session_id v) < 32"
  shows "\<exists>l v' ses'. spawn_exec k v [] ses = Some (l, v', [], ses') \<and> info_clean v' \<and> si_session_id v' = AXIOM_SESSION_EMPTY k"
proof -
  obtain a where a: "sl_append (si_args v) None [] = Some (a, [])" "sl_clean a"
    using sl_append_clean [of "si_args v" None] assms(1) by (auto simp: info_clean_def terminated_def)
  obtain e where e: "sl_append (si_env v) None [] = Some (e, [])" "sl_clean e"
    using sl_append_clean [of "si_env v" None] assms(1) by (auto simp: info_clean_def terminated_def)
  show ?thesis using a e assms(2)
    by (simp add: spawn_exec_def Let_def sl_free_clean axiom_session_release_def session_release_def info_clean_def)
qed

lemma reset_info_clean:
  "info_clean v \<Longrightarrow> \<exists>v'. reset_info v = Some v' \<and> info_clean v' \<and> si_session_id v' = si_session_id v"
  by (simp add: reset_info_def info_clean_def sl_free_clean)

lemma spawn_serve_ok:
  assumes k: "spawn_consts_ok k" and m: "length (sq_data m) = AXIOM_SPAWN_MAX_DATA_SIZE k"
    and s: "spawn_ok k s" and i: "i < MAX_CONCURRENT_SPAWNS" and v: "info_clean v" "unat (si_session_id v) < 32"
  shows "\<exists>s'. spawn_serve k m i v flags s = Some s' \<and> spawn_ok k s'"
proof -
  have sp: "length (sp_info s) = MAX_CONCURRENT_SPAWNS" "sp_allocs s = []" using s by (simp_all add: spawn_ok_def)
  obtain v1 where v1: "(if flags AND AXIOM_SPAWN_FLAG_RESET k \<noteq> 0 then reset_info v else Some v) = Some v1"
    "info_clean v1" "si_session_id v1 = si_session_id v"
    using v(1) reset_info_clean [OF v(1)] by (cases "flags AND AXIOM_SPAWN_FLAG_RESET k \<noteq> 0") auto
  obtain v2 where v2: "spawn_store k m v1 [] = Some (v2, [])" "info_clean v2" "unat (si_session_id v2) < 32"
    using spawn_store_clean [OF k m v1(2)] v1(3) v(2) by auto
  obtain l v3 ses where v3: "spawn_exec k v2 [] (sp_sessions s) = Some (l, v3, [], ses)" "info_clean v3"
    "si_session_id v3 = AXIOM_SESSION_EMPTY k" using spawn_exec_clean [OF v2(2,3)] by blast
  have up: "\<forall>u\<in>set ((sp_info s)[i := w]). info_clean u \<and> (si_session_id u = AXIOM_SESSION_EMPTY k \<or> unat (si_session_id u) < 32)"
    if "info_clean w" "si_session_id w = AXIOM_SESSION_EMPTY k \<or> unat (si_session_id w) < 32" for w
    using that s set_update_subset_insert [of "sp_info s" i w] by (auto simp: spawn_ok_def)
  show ?thesis
    using v1(1) v2(1) v3(1) sp i up [OF v2(2)] up [OF v3(2)] v2(3) v3(3)
    by (cases "flags AND AXIOM_SPAWN_FLAG_EXEC k = 0") (simp_all add: spawn_serve_def spawn_ok_def)
qed

text \<open>The search ends at a slot of the session, or after the last one with a free slot or none.\<close>

lemma find_slot_result:
  assumes "length infos = MAX_CONCURRENT_SPAWNS"
  shows "\<exists>i f. find_slot k infos ses = Some (i, f) \<and> (i < MAX_CONCURRENT_SPAWNS \<and> si_session_id (infos ! i) = ses
    \<or> i = MAX_CONCURRENT_SPAWNS \<and> (f = - 1 \<or> 0 \<le> f \<and> nat f < MAX_CONCURRENT_SPAWNS))"
proof -
  let ?P = "\<lambda>i. i < MAX_CONCURRENT_SPAWNS \<and> si_session_id (infos ! i) = ses"
  have "ses \<notin> si_session_id ` set infos" if "\<nexists>i. ?P i" using that assms by (auto simp: in_set_conv_nth)
  then consider i where "?P i" "\<forall>j<i. \<not> ?P j"
    | "ses \<notin> si_session_id ` set infos" "AXIOM_SESSION_EMPTY k \<in> si_session_id ` set infos"
    | "ses \<notin> si_session_id ` set infos" "AXIOM_SESSION_EMPTY k \<notin> si_session_id ` set infos"
    using exists_least_iff [of ?P] by blast
  then show ?thesis
  proof cases
    case 1
    then show ?thesis using find_slot_found [OF assms, of i ses k] by fastforce
  next
    case 2
    then show ?thesis using find_slot_free [OF assms 2] by fastforce
  next
    case 3
    then have "find_slot k infos ses = Some (MAX_CONCURRENT_SPAWNS, - 1)" by (rule find_slot_none [OF assms])
    then show ?thesis by simp
  qed
qed

lemma session_used_total:
  "unat ses \<noteq> 32 \<Longrightarrow> \<exists>u. session_used ses x = Some u \<and> (u \<longrightarrow> unat ses < 32)"
  using session_used_iff [of ses x] by (cases "unat ses < 32") (auto simp: session_used_def)

lemma spawn_req_ok:
  assumes k: "spawn_consts_ok k" and s: "spawn_ok k s"
    and m: "length (sq_data m) = AXIOM_SPAWN_MAX_DATA_SIZE k" "unat (sq_session_id m) \<noteq> 32"
  shows "\<exists>s'. axiom_spawn_req k m s = Some s' \<and> spawn_ok k s'"
proof -
  have len: "length (sp_info s) = MAX_CONCURRENT_SPAWNS" using s by (simp add: spawn_ok_def)
  obtain u where u: "session_used (sq_session_id m) (sp_sessions s) = Some u" "u \<longrightarrow> unat (sq_session_id m) < 32"
    using session_used_total [OF m(2)] by blast
  obtain i f where i: "find_slot k (sp_info s) (sq_session_id m) = Some (i, f)"
    "i < MAX_CONCURRENT_SPAWNS \<and> si_session_id (sp_info s ! i) = sq_session_id m
      \<or> i = MAX_CONCURRENT_SPAWNS \<and> (f = - 1 \<or> 0 \<le> f \<and> nat f < MAX_CONCURRENT_SPAWNS)"
    using find_slot_result [OF len] by blast
  have clean: "info_clean (sp_info s ! j)" if "j < MAX_CONCURRENT_SPAWNS" for j
    using s that len by (simp add: spawn_ok_def)
  consider "sq_command m \<noteq> AXIOM_CMD_SPAWN_REQ \<or> \<not> u" | "sq_command m = AXIOM_CMD_SPAWN_REQ" "u" by blast
  then show ?thesis
  proof cases
    case 1
    then show ?thesis using u(1) s by (auto simp: axiom_spawn_req_def axiom_session_is_used_def)
  next
    case 2
    have free: "\<exists>s'. spawn_serve k m (nat f) ((sp_info s ! nat f)\<lparr>si_session_id := sq_session_id m\<rparr>) fl s = Some s' \<and> spawn_ok k s'"
      if "nat f < MAX_CONCURRENT_SPAWNS" for fl
      using spawn_serve_ok [OF k m(1) s that] clean [OF that] 2 u(2) by (simp add: info_clean_def)
    have own: "\<exists>s'. spawn_serve k m i (sp_info s ! i) fl s = Some s' \<and> spawn_ok k s'"
      if "i < MAX_CONCURRENT_SPAWNS" "si_session_id (sp_info s ! i) = sq_session_id m" for fl
      using spawn_serve_ok [OF k m(1) s that(1) clean [OF that(1)]] 2 u(2) that(2) by simp
    show ?thesis using i(2) 2 u(1) i(1) s free own len
      by (auto simp: axiom_spawn_req_def axiom_session_is_used_def)
  qed
qed

interpretation spawn: event_service "\<lambda>m s. map_option (Pair Next) (axiom_spawn_req k m s)"
  "\<lambda>m. length (sq_data m) = AXIOM_SPAWN_MAX_DATA_SIZE k \<and> unat (sq_session_id m) \<noteq> 32" "\<lambda>s. spawn_consts_ok k \<and> spawn_ok k s" "\<lambda>_. ()" for k
  by unfold_locales (use spawn_req_ok in fastforce)

section \<open>Instances\<close>

definition demo_spawn_consts :: spawn_consts where
  "demo_spawn_consts = \<lparr>AXIOM_SESSION_EMPTY = 255, AXIOM_SPAWN_FLAG_RESET = 1, AXIOM_SPAWN_FLAG_EXEC = 2,
     AXIOM_SPAWN_MAX_DATA_SIZE = 2\<rparr>"

definition demo_spawn :: spawn_state where
  "demo_spawn = axiom_spawn_init demo_spawn_consts \<lparr>sp_info = [], sp_sessions = 0, sp_launched = [], sp_allocs = []\<rparr>"

lemma demo_spawn_consts_ok: "spawn_consts_ok demo_spawn_consts"
  by (simp add: spawn_consts_ok_def demo_spawn_consts_def)

theorem spawn_session_launches_witness:
  "\<exists>s'. for_each (axiom_spawn_req demo_spawn_consts)
      (spawn_msgs demo_spawn_consts 3 [65, 0] [[66, 0]] [] [67, 0]) demo_spawn = Some s'
    \<and> sp_launched s' = [(Some [67, 0], Some [65, 0], Some [Str [66, 0], Null], Some [Null])]"
proof -
  have f: "free_sessions 0 = {}" by (simp add: free_sessions_empty)
  show ?thesis
    using spawn_session_launches [OF demo_spawn_consts_ok, of "[65, 0]" "[67, 0]" "[[66, 0]]" "[]" demo_spawn 3]
    by (auto simp: demo_spawn_def axiom_spawn_init_def demo_spawn_consts_def empty_info_def info_clean_def f
        MAX_CONCURRENT_SPAWNS_def msg_string_def c_str_def)
qed

theorem spawn_req_refused_witness:
  "axiom_spawn_req demo_spawn_consts (spawn_msg 3 AXIOM_SPAWN_TYPE_EXE 0 [65, 0]) (demo_spawn\<lparr>sp_sessions := 0 OR 2 ^ 3\<rparr>)
    = Some (demo_spawn\<lparr>sp_sessions := 0 OR 2 ^ 3\<rparr>)"
  using spawn_req_refused [of "demo_spawn\<lparr>sp_sessions := 0 OR 2 ^ 3\<rparr>"
      "spawn_msg 3 AXIOM_SPAWN_TYPE_EXE 0 [65, 0]" demo_spawn_consts] free_sessions_set [of 3 0]
  by (simp add: demo_spawn_def axiom_spawn_init_def MAX_CONCURRENT_SPAWNS_def spawn_msg_def del: or.left_neutral)

end
