(* ===== verification/Traceroute.thy ===== *)
theory Traceroute
  imports Routing_Correct "HOL-Library.Multiset"
begin

text \<open>
  The traceroute service of \<open>axiom-init\<close> (\<open>axiom-traceroute-reply/axiom_traceroute_reply.c\<close>) and the program
  \<open>axiom-traceroute\<close> (\<open>axiom-traceroute/axiom-traceroute.c\<close>), on a network that forwards with the computed
  routing tables. The calls of the NIC library are parameters.
\<close>

section \<open>The code\<close>

record trace_payload =
  tp_command :: axiom_cmd
  tp_src_id :: u8
  tp_dst_id :: u8
  tp_step :: u8

text \<open>A data message goes to the port of the network utilities of a node, a neighbour message to the daemon of
  the node on an interface.\<close>

record 'd trace_api =
  ta_is_ok :: "err \<Rightarrow> bool"
  ta_nodes_max :: u8
  ta_open :: bool
  ta_bind :: bool
  ta_node_id :: "'d \<Rightarrow> u8"
  ta_next_hop :: "'d \<Rightarrow> u8 \<Rightarrow> err \<times> u8"
  ta_send_data :: "'d \<Rightarrow> u8 \<Rightarrow> trace_payload \<Rightarrow> err \<times> 'd"
  ta_send_neighbour :: "'d \<Rightarrow> u8 \<Rightarrow> trace_payload \<Rightarrow> err \<times> 'd"
  ta_recv :: "'d \<Rightarrow> (err \<times> u8 \<times> trace_payload \<times> 'd) option"

text \<open>The service: a reply to the node that has started the traceroute, and the message to the next hop unless
  this is the destination.\<close>

definition axiom_traceroute_reply :: "'d trace_api \<Rightarrow> 'd \<Rightarrow> trace_payload \<Rightarrow> 'd" where
  "axiom_traceroute_reply api dev recv_payload =
     (if tp_command recv_payload \<noteq> AXIOM_CMD_TRACEROUTE then dev
      else (let send_payload = recv_payload\<lparr>tp_step := tp_step recv_payload + 1\<rparr>;
                recv_payload = send_payload\<lparr>tp_command := AXIOM_CMD_TRACEROUTE_REPLY\<rparr>;
                (ret, dev) = ta_send_data api dev (tp_src_id recv_payload) recv_payload
            in if \<not> ta_is_ok api ret then dev
               else if ta_node_id api dev \<noteq> tp_dst_id recv_payload
               then (let (ret, if_id) = ta_next_hop api dev (tp_dst_id recv_payload)
                     in if \<not> ta_is_ok api ret then dev
                        else snd (ta_send_neighbour api dev if_id send_payload))
               else dev))"

text \<open>The program. A failed receive or another command is an error.\<close>

definition recv_traceroute_reply :: "'d trace_api \<Rightarrow> 'd \<Rightarrow> (bool \<times> u8 \<times> trace_payload \<times> 'd) option" where
  "recv_traceroute_reply api dev = do {
     (msg_err, recv_node, recv_payload, dev) \<leftarrow> ta_recv api dev;
     Some (ta_is_ok api msg_err \<and> tp_command recv_payload = AXIOM_CMD_TRACEROUTE_REPLY, recv_node, recv_payload, dev)
   }"

record 'd trace_state =
  tr_dev :: 'd
  tr_received_reply :: u8
  tr_expected_reply :: u8
  tr_error :: bool
  tr_lines :: "(u8 \<times> u8) list"

definition traceroute_body :: "'d trace_api \<Rightarrow> u8 \<Rightarrow> 'd trace_state \<Rightarrow> (ctl \<times> 'd trace_state) option" where
  "traceroute_body api dest_node s = do {
     (ok, recv_node, recv_payload, dev) \<leftarrow> recv_traceroute_reply api (tr_dev s);
     let s = s\<lparr>tr_dev := dev\<rparr>;
     if \<not> ok then Some (Break, s\<lparr>tr_error := True\<rparr>)
     else (let s = s\<lparr>tr_received_reply := tr_received_reply s + 1, tr_lines := tr_lines s @ [(tp_step recv_payload, recv_node)],
                     tr_expected_reply := if recv_node = dest_node then tp_step recv_payload else tr_expected_reply s\<rparr>
           in Some (if tr_received_reply s < tr_expected_reply s then Next else Break, s))
   }"

text \<open>The ways the program ends, with the lines it has printed; \<open>TR_HOPS\<close> is the last line, the number of
  hops.\<close>

datatype trace_end = TR_OPEN_ERROR | TR_BIND_ERROR | TR_UNREACHABLE | TR_SEND_ERROR | TR_RECV_ERROR | TR_HOPS u8

definition traceroute :: "'d trace_api \<Rightarrow> u8 \<Rightarrow> 'd \<Rightarrow> (trace_end \<times> (u8 \<times> u8) list) option" where
  "traceroute api dest_node dev =
     (if \<not> ta_open api then Some (TR_OPEN_ERROR, [])
      else if \<not> ta_bind api then Some (TR_BIND_ERROR, [])
      else (let node_id = ta_node_id api dev; (err, if_id) = ta_next_hop api dev dest_node
            in if \<not> ta_is_ok api err then Some (TR_UNREACHABLE, [])
               else (let payload = \<lparr>tp_command = AXIOM_CMD_TRACEROUTE, tp_src_id = node_id, tp_dst_id = dest_node, tp_step = 0\<rparr>;
                         (msg_err, dev) = ta_send_neighbour api dev if_id payload
                     in if \<not> ta_is_ok api msg_err then Some (TR_SEND_ERROR, [])
                        else do {
                          s \<leftarrow> while_ctl (\<lambda>_. True) (traceroute_body api dest_node)
                            \<lparr>tr_dev = dev, tr_received_reply = 0, tr_expected_reply = ta_nodes_max api, tr_error = False, tr_lines = []\<rparr>;
                          Some (if tr_error s then TR_RECV_ERROR else TR_HOPS (tr_received_reply s), tr_lines s)
                        })))"

section \<open>The message on its way\<close>

text \<open>The daemons of the network: each node that gets the message serves it with its device; what it sends to a
  neighbour is served by the node on the other side of the link, what it sends as data is a reply: the node
  it is for, the sender and the payload. \<open>data\<close> and \<open>neigh\<close> are the logs of a device.\<close>

primrec trace_walk :: "'d trace_api \<Rightarrow> ('d \<Rightarrow> (u8 \<times> trace_payload) list) \<Rightarrow> ('d \<Rightarrow> (u8 \<times> trace_payload) list) \<Rightarrow> topology
    \<Rightarrow> (nat \<Rightarrow> 'd) \<Rightarrow> nat \<Rightarrow> nat \<Rightarrow> trace_payload \<Rightarrow> (u8 \<times> u8 \<times> trace_payload) list" where
  "trace_walk api data neigh T devs 0 a p = []"
| "trace_walk api data neigh T devs (Suc k) a p = (let d = devs a; d' = axiom_traceroute_reply api d p
     in map (\<lambda>(n, m). (n, of_nat a, m)) (drop (length (data d)) (data d'))
      @ concat (map (\<lambda>(i, m). trace_walk api data neigh T devs k (unat (T ! a ! unat i)) m) (drop (length (neigh d)) (neigh d'))))"

text \<open>What is relied on: the two kinds of messages are logged apart, sending does not change the node id or
  the routes, and the next hop is an interface of the routing table.\<close>

definition trace_net_ok ::
  "'c axiom_consts_scheme \<Rightarrow> 'd trace_api \<Rightarrow> ('d \<Rightarrow> (u8 \<times> trace_payload) list) \<Rightarrow> ('d \<Rightarrow> (u8 \<times> trace_payload) list) \<Rightarrow> u8 list list
    \<Rightarrow> (nat \<Rightarrow> 'd) \<Rightarrow> bool" where
  "trace_net_ok c api data neigh rts devs \<longleftrightarrow>
     lossless (ta_is_ok api) (ta_send_data api) data \<and> lossless (ta_is_ok api) (ta_send_neighbour api) neigh
   \<and> (\<forall>d n m. neigh (snd (ta_send_data api d n m)) = neigh d \<and> data (snd (ta_send_neighbour api d n m)) = data d
        \<and> ta_node_id api (snd (ta_send_data api d n m)) = ta_node_id api d
        \<and> ta_next_hop api (snd (ta_send_data api d n m)) = ta_next_hop api d)
   \<and> (\<forall>a b. a < length rts \<and> b < length rts \<longrightarrow> ta_node_id api (devs a) = of_nat a \<and>
        (rts ! a ! b \<noteq> 0 \<longrightarrow> (\<exists>e i. ta_next_hop api (devs a) (of_nat b) = (e, i) \<and> ta_is_ok api e
           \<and> unat i \<le> AXIOM_INTERFACES_MAX c \<and> bit (rts ! a ! b) (unat i))))"

section \<open>The replies\<close>

abbreviation trace_msg :: "axiom_cmd \<Rightarrow> nat \<Rightarrow> nat \<Rightarrow> nat \<Rightarrow> trace_payload" where
  "trace_msg cmd s b j \<equiv> \<lparr>tp_command = cmd, tp_src_id = of_nat s, tp_dst_id = of_nat b, tp_step = of_nat j\<rparr>"

lemma trace_net_okD:
  assumes "trace_net_ok c api data neigh rts devs"
  shows "ta_is_ok api (fst (ta_send_data api d n m))" "data (snd (ta_send_data api d n m)) = data d @ [(n, m)]"
    "ta_is_ok api (fst (ta_send_neighbour api d n m))" "neigh (snd (ta_send_neighbour api d n m)) = neigh d @ [(n, m)]"
    "neigh (snd (ta_send_data api d n m)) = neigh d" "data (snd (ta_send_neighbour api d n m)) = data d"
    "ta_node_id api (snd (ta_send_data api d n m)) = ta_node_id api d"
    "ta_next_hop api (snd (ta_send_data api d n m)) = ta_next_hop api d"
    "a < length rts \<Longrightarrow> ta_node_id api (devs a) = of_nat a"
  using assms unfolding trace_net_ok_def lossless_def by blast+

lemma trace_net_hop:
  assumes "trace_net_ok c api data neigh rts devs" "a < length rts" "b < length rts" "rts ! a ! b \<noteq> 0"
  obtains e i where "ta_next_hop api (devs a) (of_nat b) = (e, i)" "ta_is_ok api e" "unat i \<le> AXIOM_INTERFACES_MAX c"
    "bit (rts ! a ! b) (unat i)"
  using assms unfolding trace_net_ok_def by blast

text \<open>What a node on the way sends.\<close>

lemma traceroute_reply_sends:
  assumes net: "trace_net_ok c api data neigh rts devs" and a: "a < length rts"
    and hop: "a \<noteq> b \<Longrightarrow> ta_next_hop api (devs a) (of_nat b) = (e, i)" "ta_is_ok api e" and ab: "a < 256" "b < 256"
  shows "data (axiom_traceroute_reply api (devs a) (trace_msg AXIOM_CMD_TRACEROUTE s b j))
      = data (devs a) @ [(of_nat s, trace_msg AXIOM_CMD_TRACEROUTE_REPLY s b (Suc j))]"
    "neigh (axiom_traceroute_reply api (devs a) (trace_msg AXIOM_CMD_TRACEROUTE s b j))
      = neigh (devs a) @ (if a = b then [] else [(i, trace_msg AXIOM_CMD_TRACEROUTE s b (Suc j))])"
proof -
  note n = trace_net_okD [OF net]
  have id: "ta_node_id api (devs a) = of_nat a" using n(9) [OF a] .
  have ne: "(of_nat a :: u8) = of_nat b \<longleftrightarrow> a = b" using of_nat_eq_u8_iff [OF ab(1), of "of_nat b"] ab(2) by simp
  note simps = axiom_traceroute_reply_def Let_def case_prod_beta n(1-8) ne
  show "data (axiom_traceroute_reply api (devs a) (trace_msg AXIOM_CMD_TRACEROUTE s b j))
      = data (devs a) @ [(of_nat s, trace_msg AXIOM_CMD_TRACEROUTE_REPLY s b (Suc j))]"
    using hop id by (cases "a = b") (simp_all add: simps add.commute)
  show "neigh (axiom_traceroute_reply api (devs a) (trace_msg AXIOM_CMD_TRACEROUTE s b j))
      = neigh (devs a) @ (if a = b then [] else [(i, trace_msg AXIOM_CMD_TRACEROUTE s b (Suc j))])"
    using hop id by (cases "a = b") (simp_all add: simps add.commute)
qed

definition trace_replies :: "nat \<Rightarrow> nat \<Rightarrow> nat \<Rightarrow> nat list \<Rightarrow> (u8 \<times> u8 \<times> trace_payload) list" where
  "trace_replies s b j ns = map (\<lambda>(k, n). (of_nat s, of_nat n, trace_msg AXIOM_CMD_TRACEROUTE_REPLY s b (j + Suc k))) (enumerate 0 ns)"

lemma trace_replies_Cons: "trace_replies s b j (n # ns) = (of_nat s, of_nat n, trace_msg AXIOM_CMD_TRACEROUTE_REPLY s b (Suc j)) # trace_replies s b (Suc j) ns"
proof -
  have "enumerate (Suc 0) ns = map (\<lambda>(k, n). (Suc k, n)) (enumerate 0 ns)"
    by (simp add: enumerate_map_upt enumerate_eq_zip map_Suc_upt [symmetric] zip_map1 del: upt_Suc map_Suc_upt)
  then show ?thesis by (simp add: trace_replies_def o_def case_prod_beta)
qed

text \<open>From a node at distance \<open>r\<close>, the message makes \<open>r\<close> hops along the route.\<close>

lemma trace_walk_route:
  assumes net: "trace_net_ok c api data neigh rts devs" and ok: "consts_ok c" and wf: "topo_wf c T m l"
    and len: "length rts = AXIOM_NODES_NUM c"
    and routes: "\<And>a b. a \<in> {m..<l} \<Longrightarrow> b \<in> {m..<l} \<Longrightarrow> a \<noteq> b \<Longrightarrow> route_ok c T a b (rts ! a ! b)"
    and "a \<in> {m..<l}" and b: "b \<in> {m..<l}" and "b \<in> ball c T a r" "r = 0 \<or> b \<notin> ball c T a (r - 1)"
  shows "\<exists>ns. length ns = r \<and> set ns \<subseteq> {m..<l} \<and> b \<notin> set ns \<and> hd (ns @ [b]) = a \<and> successively (nbr c T) (ns @ [b])
    \<and> trace_walk api data neigh T devs (Suc r + f) a (trace_msg AXIOM_CMD_TRACEROUTE s b j) = trace_replies s b j (ns @ [b])"
  using assms(6,8,9)
proof (induction r arbitrary: a j)
  case 0
  then have "a = b" by simp
  have lt: "b < length rts" "b < 256" using b wf len consts_okD(7) [OF ok] by (auto simp: topo_wf_def)
  have "trace_walk api data neigh T devs (Suc f) b (trace_msg AXIOM_CMD_TRACEROUTE s b j) = trace_replies s b j [b]"
    using traceroute_reply_sends [OF net lt(1) _ _ lt(2) lt(2), where e = "fst (ta_send_data api (devs b) 0 undefined)" and s = s and j = j]
      trace_net_okD(1) [OF net] by (simp add: Let_def trace_replies_def)
  with \<open>a = b\<close> show ?case by simp
next
  case (Suc r)
  have ab: "a \<noteq> b" using Suc.prems(3) by auto
  have lt: "a < length rts" "b < length rts" "a < 256" "b < 256"
    using Suc.prems(1) b wf len consts_okD(7) [OF ok] by (auto simp: topo_wf_def)
  note rt = routes [OF Suc.prems(1) b ab]
  from trace_net_hop [OF net lt(1,2) route_ok_nonzero [OF ok rt]] obtain e i where
    hop: "ta_next_hop api (devs a) (of_nat b) = (e, i)" "ta_is_ok api e" "unat i \<le> AXIOM_INTERFACES_MAX c" "bit (rts ! a ! b) (unat i)" .
  let ?a = "unat (T ! a ! unat i)"
  have fw: "forwards c T rts b a ?a"
    using hop(3,4) rt by (auto simp: forwards_def route_ok_def bit_if_mask)
  then have nb: "nbr c T a ?a" by (auto simp: forwards_def nbr_def)
  have a': "?a \<in> {m..<l}" "b \<in> ball c T ?a r" using nbr_range [OF wf Suc.prems(1) nb] forwards_nearer [OF rt fw Suc.prems(2)] by auto
  have "r = 0 \<or> b \<notin> ball c T ?a (r - 1)"
    using Suc.prems(3) ball_first [OF nb, of "r - 1"] by (cases r) auto
  from Suc.IH [OF a' this, of "Suc j"] obtain ns where ns: "length ns = r" "set ns \<subseteq> {m..<l}" "b \<notin> set ns"
    "hd (ns @ [b]) = ?a" "successively (nbr c T) (ns @ [b])"
    "trace_walk api data neigh T devs (Suc r + f) ?a (trace_msg AXIOM_CMD_TRACEROUTE s b (Suc j)) = trace_replies s b (Suc j) (ns @ [b])" by blast
  have "trace_walk api data neigh T devs (Suc (Suc r) + f) a (trace_msg AXIOM_CMD_TRACEROUTE s b j) = trace_replies s b j (a # ns @ [b])"
    using traceroute_reply_sends [OF net lt(1) hop(1,2) lt(3,4), of s j] ns(6) ab by (simp add: Let_def trace_replies_Cons)
  moreover have "successively (nbr c T) (a # ns @ [b])" using ns(4,5) nb by (cases "ns @ [b]") auto
  ultimately show ?case using ns(1-3) Suc.prems(1) ab by (intro exI [of _ "a # ns"]) auto
qed

section \<open>The program\<close>

text \<open>The loop, for replies in any order: it takes all of them when the destination answers once, with their
  number.\<close>

lemma traceroute_loop:
  assumes q: "fifo (ta_is_ok api) (ta_recv api) (ta_send_neighbour api) inbox"
    and Q: "\<forall>x\<in>set Q. tp_command (snd x) = AXIOM_CMD_TRACEROUTE_REPLY \<and> (fst x = b \<longrightarrow> tp_step (snd x) = of_nat (length Q))"
      "\<exists>x\<in>set Q. fst x = b" "length Q < 256" "length Q \<le> unat M"
  shows "Q = done @ rest \<Longrightarrow> rest \<noteq> [] \<Longrightarrow> inbox dev = rest \<Longrightarrow> \<exists>dev' e. while_ctl (\<lambda>_. True) (traceroute_body api b)
      \<lparr>tr_dev = dev, tr_received_reply = of_nat (length done),
       tr_expected_reply = (if \<exists>x\<in>set done. fst x = b then of_nat (length Q) else M), tr_error = False,
       tr_lines = map (\<lambda>x. (tp_step (snd x), fst x)) done\<rparr>
    = Some \<lparr>tr_dev = dev', tr_received_reply = of_nat (length Q), tr_expected_reply = e, tr_error = False,
       tr_lines = map (\<lambda>x. (tp_step (snd x), fst x)) Q\<rparr>"
proof (induction rest arbitrary: "done" dev)
  case (Cons x rest)
  obtain n p where x: "x = (n, p)" by (cases x)
  from q Cons.prems(3) x obtain err d1 where 1: "ta_recv api dev = Some (err, n, p, d1)" "ta_is_ok api err" "inbox d1 = rest"
    unfolding fifo_def by blast
  have xQ: "x \<in> set Q" using Cons.prems(1) by simp
  have p: "tp_command p = AXIOM_CMD_TRACEROUTE_REPLY" "n = b \<Longrightarrow> tp_step p = of_nat (length Q)" using bspec [OF Q(1) xQ] x by auto
  let ?s = "\<lparr>tr_dev = dev, tr_received_reply = of_nat (length done),
       tr_expected_reply = (if \<exists>x\<in>set done. fst x = b then of_nat (length Q) else M), tr_error = False,
       tr_lines = map (\<lambda>x. (tp_step (snd x), fst x)) done\<rparr>"
  let ?e = "if \<exists>y\<in>set (done @ [x]). fst y = b then of_nat (length Q) else M"
  let ?s1 = "\<lparr>tr_dev = d1, tr_received_reply = of_nat (length (done @ [x])), tr_expected_reply = ?e, tr_error = False,
       tr_lines = map (\<lambda>x. (tp_step (snd x), fst x)) (done @ [x])\<rparr>"
  have body: "traceroute_body api b ?s = Some (if (of_nat (length (done @ [x])) :: u8) < ?e then Next else Break, ?s1)"
    using 1(1,2) p by (auto simp: traceroute_body_def recv_traceroute_reply_def Let_def x add.commute)
  have len: "length Q = Suc (length done) + length rest" using Cons.prems(1) by simp
  have u: "unat (of_nat (length (done @ [x])) :: u8) = Suc (length done)" "unat (of_nat (length Q) :: u8) = length Q"
    using len Q(3) by (simp_all add: unat_of_nat_u8 del: of_nat_Suc)
  show ?case
  proof (cases "rest = []")
    case True
    then have Qd: "Q = done @ [x]" using Cons.prems(1) by simp
    then have e: "?e = of_nat (length Q)" using Q(2) by (simp only: if_True)
    have "\<not> (of_nat (length (done @ [x])) :: u8) < ?e" unfolding e using Qd by simp
    with body have "traceroute_body api b ?s = Some (Break, ?s1)" by (simp only: if_False)
    from loop_Break [of "traceroute_body api b" ?s ?s1, OF this] show ?thesis unfolding Qd by blast
  next
    case False
    then have "Suc (length done) < length Q" using len by simp
    then have "(of_nat (length (done @ [x])) :: u8) < ?e"
      unfolding word_less_nat_alt u(1) using u(2) Q(4) by simp
    with body have "traceroute_body api b ?s = Some (Next, ?s1)" by (simp only: if_True)
    from loop_Next [of "traceroute_body api b" ?s ?s1, OF this] Cons.IH [of "done @ [x]" d1] Cons.prems(1) False 1(3) show ?thesis by simp
  qed
qed simp

lemma mset_set_eq: "mset xs = image_mset f (mset ys) \<Longrightarrow> set xs = f ` set ys \<and> length xs = length ys"
  by (metis mset_map mset_eq_setD set_map size_mset length_map)

text \<open>The program collects the replies that are in its queue, in their order, until it has as many as the reply of the destination tells.\<close>

lemma traceroute_collects:
  assumes "trace_net_ok c api data neigh rts devs" "fifo (ta_is_ok api) (ta_recv api) (ta_send_neighbour api) inbox" "ta_open api" "ta_bind api"
    and "a < length rts" "ta_next_hop api (devs a) (of_nat b) = (e, i)" "ta_is_ok api e" "inbox (devs a) = Q"
    and "\<forall>x\<in>set Q. tp_command (snd x) = AXIOM_CMD_TRACEROUTE_REPLY \<and> (fst x = of_nat b \<longrightarrow> tp_step (snd x) = of_nat (length Q))"
    and "\<exists>x\<in>set Q. fst x = of_nat b" "length Q < 256" "length Q \<le> unat (ta_nodes_max api)"
  shows "traceroute api (of_nat b) (devs a) = Some (TR_HOPS (of_nat (length Q)), map (\<lambda>x. (tp_step (snd x), fst x)) Q)"
proof -
  let ?d = "snd (ta_send_neighbour api (devs a) i (trace_msg AXIOM_CMD_TRACEROUTE a b 0))"
  have in1: "inbox ?d = Q" using assms(2,8) unfolding fifo_def by blast
  have Qne: "Q \<noteq> []" using assms(10) by auto
  from traceroute_loop [OF assms(2,9-12), of "[]" Q ?d] in1 Qne obtain dev' e' where
    loop: "while_ctl (\<lambda>_. True) (traceroute_body api (of_nat b)) \<lparr>tr_dev = ?d, tr_received_reply = 0,
       tr_expected_reply = ta_nodes_max api, tr_error = False, tr_lines = []\<rparr>
     = Some \<lparr>tr_dev = dev', tr_received_reply = of_nat (length Q), tr_expected_reply = e', tr_error = False,
       tr_lines = map (\<lambda>x. (tp_step (snd x), fst x)) Q\<rparr>" by auto
  show ?thesis
    using assms(3,4,6,7) trace_net_okD(3) [OF assms(1), of "devs a" i "trace_msg AXIOM_CMD_TRACEROUTE a b 0"]
      trace_net_okD(9) [OF assms(1,5)] loop by (simp add: traceroute_def Let_def case_prod_beta)
qed

text \<open>C5: \<open>axiom-traceroute\<close> shows the route. On a connected network without parallel links whose nodes forward
  with the computed tables, the program, whatever the order in which the replies arrive, takes one reply of every
  node of the route and ends; the number of hops it prints is the distance of the destination, and its lines
  are the nodes of a shortest path with their numbers.\<close>

theorem traceroute_shows_route:
  assumes "consts_ok c" "topo_wf c T (unat m) (unat l)" "topo_simple c T (unat m) (unat l)" "topo_connected c T (unat m) (unat l)"
    "is_table (AXIOM_NODES_NUM c) (AXIOM_NODES_NUM c) rts0" "axiom_compute_routing_tables c T rts0 m l = Some rts"
    "trace_net_ok c api data neigh rts devs" "fifo (ta_is_ok api) (ta_recv api) (ta_send_neighbour api) inbox"
    "ta_open api" "ta_bind api" "unat l - unat m \<le> unat (ta_nodes_max api)"
    "a \<in> {unat m..<unat l}" "b \<in> {unat m..<unat l}" "b \<in> ball c T a (Suc d)" "b \<notin> ball c T a d"
    "mset (inbox (devs a)) = image_mset snd (mset (trace_walk api data neigh T devs (Suc (unat l))
       (unat (T ! a ! unat (snd (ta_next_hop api (devs a) (of_nat b))))) (trace_msg AXIOM_CMD_TRACEROUTE a b 0)))"
  shows "\<exists>lines ns. traceroute api (of_nat b) (devs a) = Some (TR_HOPS (of_nat (Suc d)), lines)
    \<and> length ns = d \<and> successively (nbr c T) (a # ns @ [b])
    \<and> mset lines = mset (map (\<lambda>(k, n). (of_nat (Suc k), of_nat n)) (enumerate 0 (ns @ [b])))"
proof -
  from compute_tables_run [OF assms(1-5)] assms(6) have rts: "is_table (AXIOM_NODES_NUM c) (AXIOM_NODES_NUM c) rts"
    "\<forall>a\<in>{unat m..<unat l}. \<forall>b<AXIOM_NODES_NUM c.
         if b \<in> {unat m..<unat l} - {a} then route_ok c T a b (rts ! a ! b) else rts ! a ! b = AXIOM_NULL_RT_INTERFACE" by auto
  have l: "unat l \<le> AXIOM_NODES_NUM c" "AXIOM_NODES_NUM c < 256" using assms(2) consts_okD(7) [OF assms(1)] by (auto simp: topo_wf_def)
  have routes: "route_ok c T x y (rts ! x ! y)" if "x \<in> {unat m..<unat l}" "y \<in> {unat m..<unat l}" "x \<noteq> y" for x y
    using rts(2) that l(1) by auto
  have len: "length rts = AXIOM_NODES_NUM c" using rts(1) by (simp add: is_table_def)
  have lt: "a < length rts" "b < length rts" using assms(12,13) l(1) len by auto
  have ab: "a \<noteq> b" using assms(15) by auto
  note rt = routes [OF assms(12,13) ab]
  from trace_net_hop [OF assms(7) lt route_ok_nonzero [OF assms(1) rt]] obtain e i where
    hop: "ta_next_hop api (devs a) (of_nat b) = (e, i)" "ta_is_ok api e" "unat i \<le> AXIOM_INTERFACES_MAX c" "bit (rts ! a ! b) (unat i)" .
  let ?a = "unat (T ! a ! unat i)"
  have fw: "forwards c T rts b a ?a" using hop(3,4) rt by (auto simp: forwards_def route_ok_def bit_if_mask)
  then have nb: "nbr c T a ?a" by (auto simp: forwards_def nbr_def)
  have a': "?a \<in> {unat m..<unat l}" "b \<in> ball c T ?a d"
    using nbr_range [OF assms(2,12) nb] forwards_nearer [OF rt fw assms(14)] by auto
  have "d = 0 \<or> b \<notin> ball c T ?a (d - 1)" using assms(15) ball_first [OF nb, of "d - 1"] by (cases d) auto
  moreover have dl: "Suc d \<le> unat l - unat m"
    using assms(4,12,13,15) ball_mono [of "unat l - unat m" d c T a] unfolding topo_connected_def by (meson not_less_eq_eq subsetD)
  ultimately obtain ns where ns: "length ns = d" "set ns \<subseteq> {unat m..<unat l}" "b \<notin> set ns" "hd (ns @ [b]) = ?a" "successively (nbr c T) (ns @ [b])"
    "trace_walk api data neigh T devs (Suc (unat l)) ?a (trace_msg AXIOM_CMD_TRACEROUTE a b 0) = trace_replies a b 0 (ns @ [b])"
    using trace_walk_route [OF assms(7,1,2) len routes a'(1) assms(13) a'(2), of "unat l - d" a 0] by auto
  let ?Q = "inbox (devs a)" and ?R = "trace_replies a b 0 (ns @ [b])"
  have Q: "mset ?Q = image_mset snd (mset ?R)" using assms(16) ns(6) hop(1) by simp
  have lenQ: "length ?Q = Suc d" and setQ: "set ?Q = snd ` set ?R" using mset_set_eq [OF Q] ns(1) by (simp_all add: trace_replies_def)
  have path: "successively (nbr c T) (a # ns @ [b])" using ns(4,5) nb by (cases "ns @ [b]") auto
  have inj: "(of_nat n :: u8) = of_nat b \<longleftrightarrow> n = b" if "n \<in> set ns" for n
    using of_nat_eq_u8_iff [of n "of_nat b"] that ns(2) assms(13) l by fastforce
  have R: "tp_command (snd x) = AXIOM_CMD_TRACEROUTE_REPLY \<and> (fst x = of_nat b \<longrightarrow> tp_step (snd x) = of_nat (Suc d))"
    if "x \<in> snd ` set ?R" for x
    using that inj ns(1,3) by (auto simp: trace_replies_def enumerate_append_eq in_set_enumerate_eq)
  have "\<exists>x\<in>snd ` set ?R. fst x = of_nat b" by (auto simp: trace_replies_def enumerate_append_eq)
  then have Q2: "\<forall>x\<in>set ?Q. tp_command (snd x) = AXIOM_CMD_TRACEROUTE_REPLY \<and> (fst x = of_nat b \<longrightarrow> tp_step (snd x) = of_nat (length ?Q))"
    "\<exists>x\<in>set ?Q. fst x = of_nat b" "length ?Q < 256" "length ?Q \<le> unat (ta_nodes_max api)"
    unfolding lenQ setQ using R dl l assms(11) by auto
  have "traceroute api (of_nat b) (devs a) = Some (TR_HOPS (of_nat (Suc d)), map (\<lambda>x. (tp_step (snd x), fst x)) ?Q)"
    using traceroute_collects [OF assms(7-10) lt(1) hop(1,2) refl Q2] lenQ by simp
  moreover have "mset (map (\<lambda>x. (tp_step (snd x), fst x)) ?Q) = mset (map (\<lambda>(k, n). (of_nat (Suc k), of_nat n)) (enumerate 0 (ns @ [b])))"
    unfolding mset_map Q by (simp add: trace_replies_def image_mset.compositionality o_def case_prod_unfold)
  ultimately show ?thesis using ns(1) path by blast
qed

section \<open>Instances\<close>

text \<open>The line of three nodes; the device of a node has the row of the node in the tables, the two logs and the
  queue.\<close>

record demo_trace_dev =
  td_node :: nat
  td_data :: "(u8 \<times> trace_payload) list"
  td_neigh :: "(u8 \<times> trace_payload) list"
  td_inbox :: "(u8 \<times> trace_payload) list"

definition demo_line_tables :: "u8 list list" where
  "demo_line_tables = [[0, 1, 1, 0], [1, 0, 2, 0], [2, 2, 0, 0], [0, 0, 0, 0]]"

definition demo_trace :: "demo_trace_dev trace_api" where
  "demo_trace = \<lparr>ta_is_ok = (\<lambda>e. 0 \<le> e), ta_nodes_max = 3, ta_open = True, ta_bind = True, ta_node_id = (\<lambda>d. of_nat (td_node d)),
     ta_next_hop = (\<lambda>d b. (0, if bit (demo_line_tables ! td_node d ! unat b) 0 then 0 else 1)),
     ta_send_data = (\<lambda>d n m. (0, d\<lparr>td_data := td_data d @ [(n, m)]\<rparr>)),
     ta_send_neighbour = (\<lambda>d i m. (0, d\<lparr>td_neigh := td_neigh d @ [(i, m)]\<rparr>)),
     ta_recv = (\<lambda>d. case td_inbox d of [] \<Rightarrow> None | (n, m) # q \<Rightarrow> Some (0, n, m, d\<lparr>td_inbox := q\<rparr>))\<rparr>"

text \<open>At node 0 the reply of the destination arrives first.\<close>

definition demo_trace_node :: "nat \<Rightarrow> demo_trace_dev" where
  "demo_trace_node a = \<lparr>td_node = a, td_data = [], td_neigh = [],
     td_inbox = [(2, trace_msg AXIOM_CMD_TRACEROUTE_REPLY 0 2 2), (1, trace_msg AXIOM_CMD_TRACEROUTE_REPLY 0 2 1)]\<rparr>"

lemma demo_line_tables_eq: "axiom_compute_routing_tables demo_consts demo_line demo_tables 0 3 = Some demo_line_tables"
  by code_simp

lemma demo_trace_ok: "trace_net_ok demo_consts demo_trace td_data td_neigh demo_line_tables demo_trace_node"
proof -
  have "a < 4 \<Longrightarrow> b < 4 \<Longrightarrow> demo_line_tables ! a ! b = 0 \<or> bit (demo_line_tables ! a ! b) 0 \<or> bit (demo_line_tables ! a ! b) 1" for a b
  proof -
    assume "a < 4" "b < 4"
    then have "a \<in> {0, 1, 2, 3}" "b \<in> {0, 1, 2, 3}" by auto
    then show ?thesis by (auto simp: demo_line_tables_def)
  qed
  moreover have "length demo_line_tables = 4" by (simp add: demo_line_tables_def)
  ultimately show ?thesis
    by (auto simp: trace_net_ok_def lossless_def demo_trace_def demo_trace_node_def demo_consts_def)
qed

theorem traceroute_shows_route_witness:
  "\<exists>lines ns. traceroute demo_trace 2 (demo_trace_node 0) = Some (TR_HOPS 2, lines) \<and> length ns = 1
    \<and> successively (nbr demo_consts demo_line) (0 # ns @ [2])
    \<and> mset lines = mset (map (\<lambda>(k, n). (of_nat (Suc k), of_nat n)) (enumerate 0 (ns @ [2])))"
proof -
  have "fifo (ta_is_ok demo_trace) (ta_recv demo_trace) (ta_send_neighbour demo_trace) td_inbox"
    by (auto simp: fifo_def demo_trace_def)
  moreover have w: "trace_walk demo_trace td_data td_neigh demo_line demo_trace_node (Suc 3)
       (unat (demo_line ! 0 ! unat (snd (ta_next_hop demo_trace (demo_trace_node 0) (of_nat 2))))) (trace_msg AXIOM_CMD_TRACEROUTE 0 2 0)
     = [(0, 1, trace_msg AXIOM_CMD_TRACEROUTE_REPLY 0 2 1), (0, 2, trace_msg AXIOM_CMD_TRACEROUTE_REPLY 0 2 2)]"
    by code_simp
  have "mset (td_inbox (demo_trace_node 0)) = image_mset snd (mset (trace_walk demo_trace td_data td_neigh demo_line demo_trace_node (Suc 3)
       (unat (demo_line ! 0 ! unat (snd (ta_next_hop demo_trace (demo_trace_node 0) (of_nat 2))))) (trace_msg AXIOM_CMD_TRACEROUTE 0 2 0)))"
    unfolding w by (simp add: demo_trace_node_def)
  moreover have "2 \<in> ball demo_consts demo_line 0 (Suc 1)" "2 \<notin> ball demo_consts demo_line 0 1" by code_simp+
  ultimately show ?thesis
    using traceroute_shows_route [OF demo_consts_ok, of demo_line 0 3 demo_tables demo_line_tables demo_trace td_data td_neigh demo_trace_node td_inbox 0 2 1]
      demo_line_wf demo_line_simple demo_line_connected demo_tables_ok demo_line_tables_eq demo_trace_ok
    by (simp add: demo_trace_def)
qed

end
