(* ===== verification/Ping.thy ===== *)
theory Ping
  imports Nic_Api
begin

text \<open>
  The program \<open>axiom-ping\<close> (\<open>axiom-ping/axiom-ping.c\<close>) and the service of the daemon that answers it
  (\<open>axiom-init/axiom-pong/axiom_pong.c\<close>). The calls of the NIC, the clock and the signal flag are inputs.
\<close>

section \<open>The code\<close>

record ping_payload =
  pp_command :: axiom_cmd
  pp_unique_id :: u32
  pp_seq_num :: u32
  pp_timestamp :: u64

record 'd ping_api =
  pg_is_ok :: "err \<Rightarrow> bool"
  pg_notreach :: err
  pg_intr :: err
  pg_send :: "'d \<Rightarrow> u8 \<Rightarrow> ping_payload \<Rightarrow> err \<times> 'd"
  pg_recv :: "'d \<Rightarrow> (err \<times> u8 \<times> ping_payload \<times> 'd) option"

text \<open>The answer goes to the port of the network utilities.\<close>

definition axiom_pong :: "'d ping_api \<Rightarrow> 'd \<Rightarrow> u8 \<Rightarrow> ping_payload \<Rightarrow> 'd" where
  "axiom_pong api dev first_src payload =
     (if pp_command payload \<noteq> AXIOM_CMD_PING then dev
      else snd (pg_send api dev first_src (payload\<lparr>pp_command := AXIOM_CMD_PONG\<rparr>)))"

text \<open>The sender thread: for every iteration the signal flag at its head and what the clock returns. When the
  list ends, the thread is still in its loop.\<close>

record 'd ping_sender =
  ps_dev :: 'd
  ps_num_ping :: int
  ps_seq_num :: u32
  ps_sent_packets :: nat

fun sender_body :: "'d ping_api \<Rightarrow> u8 \<Rightarrow> u32 \<Rightarrow> bool \<Rightarrow> (bool \<times> u64 option) list \<Rightarrow> 'd ping_sender \<Rightarrow> 'd ping_sender" where
  "sender_body api dst uid num_set [] s = s"
| "sender_body api dst uid num_set ((sigint, clock) # es) s =
     (if \<not> sigint \<and> ps_num_ping s > 0
      then (case clock of
          None \<Rightarrow> s
        | Some t \<Rightarrow> (let seq = ps_seq_num s + 1;
              (ret, dev) = pg_send api (ps_dev s) dst
                \<lparr>pp_command = AXIOM_CMD_PING, pp_unique_id = uid, pp_seq_num = seq, pp_timestamp = t\<rparr>;
              s = s\<lparr>ps_dev := dev, ps_seq_num := seq\<rparr>
            in if \<not> pg_is_ok api ret \<and> ret \<noteq> pg_notreach api then s
               else sender_body api dst uid num_set es
                 (s\<lparr>ps_sent_packets := ps_sent_packets s + 1, ps_num_ping := if num_set then ps_num_ping s - 1 else ps_num_ping s\<rparr>)))
      else s)"

text \<open>The receiver loop: for every receive what the clock returns and the signal flag after it. A line of the
  output is the node, the sequence number and the time.\<close>

datatype ping_end = PG_WAIT | PG_EXIT | PG_ERR

record 'd ping_receiver =
  pr_dev :: 'd
  pr_num_ping :: u32
  pr_recv_packets :: nat
  pr_sum :: u64
  pr_max :: u64
  pr_min :: u64
  pr_lines :: "(u8 \<times> u32 \<times> u64) list"

definition ping_stats :: "u8 \<Rightarrow> ping_payload \<Rightarrow> u64 \<Rightarrow> 'd ping_receiver \<Rightarrow> 'd ping_receiver" where
  "ping_stats src p end_ns r = (let diff = end_ns - pp_timestamp p in
     r\<lparr>pr_recv_packets := pr_recv_packets r + 1, pr_sum := pr_sum r + diff,
       pr_max := if diff > pr_max r then diff else pr_max r, pr_min := if diff < pr_min r then diff else pr_min r,
       pr_lines := pr_lines r @ [(src, pp_seq_num p, diff)]\<rparr>)"

function ping_recv :: "'d ping_api \<Rightarrow> u32 \<Rightarrow> bool \<Rightarrow> (u64 option \<times> bool) list \<Rightarrow> 'd ping_receiver \<Rightarrow> ping_end \<times> 'd ping_receiver" where
  "ping_recv api uid num_set es r =
     (if pr_num_ping r = 0 then (PG_EXIT, r)
      else (case (es, pg_recv api (pr_dev r)) of
          ((clock, sigint) # es, Some (ret, src, p, dev)) \<Rightarrow> (let r = r\<lparr>pr_dev := dev\<rparr> in
            case clock of
              None \<Rightarrow> (PG_ERR, r)
            | Some end_ns \<Rightarrow>
                if \<not> pg_is_ok api ret then (if ret = pg_intr api then PG_EXIT else PG_ERR, r)
                else if sigint then (PG_EXIT, r)
                else if pp_command p \<noteq> AXIOM_CMD_PONG \<or> pp_unique_id p \<noteq> uid then ping_recv api uid num_set es r
                else (let r = ping_stats src p end_ns r
                      in ping_recv api uid num_set es (r\<lparr>pr_num_ping := if num_set then pr_num_ping r - 1 else pr_num_ping r\<rparr>)))
        | _ \<Rightarrow> (PG_WAIT, r)))"
  by pat_completeness auto
termination
  by (relation "measure (\<lambda>(_, _, _, es, _). length es)") auto

declare ping_recv.simps [simp del]

definition ping_start :: "'d \<Rightarrow> u32 \<Rightarrow> 'd ping_receiver" where
  "ping_start dev num_ping = \<lparr>pr_dev = dev, pr_num_ping = num_ping, pr_recv_packets = 0, pr_sum = 0, pr_max = 0, pr_min = - 1, pr_lines = []\<rparr>"

section \<open>Ping and pong\<close>

abbreviation ping_msg :: "axiom_cmd \<Rightarrow> u32 \<Rightarrow> nat \<Rightarrow> u64 \<Rightarrow> ping_payload" where
  "ping_msg cmd uid k t \<equiv> \<lparr>pp_command = cmd, pp_unique_id = uid, pp_seq_num = of_nat k, pp_timestamp = t\<rparr>"

lemma sender_run:
  assumes "lossless (pg_is_ok api) (pg_send api) sent"
  shows "ps_num_ping s = int (length ts) \<Longrightarrow> ps_seq_num s = of_nat k \<Longrightarrow>
    (let s' = sender_body api dst uid True (map (\<lambda>t. (False, Some t)) ts) s
     in ps_sent_packets s' = ps_sent_packets s + length ts \<and> ps_num_ping s' = 0
      \<and> sent (ps_dev s') = sent (ps_dev s) @ map (\<lambda>(i, t). (dst, ping_msg AXIOM_CMD_PING uid (Suc i) t)) (enumerate k ts))"
proof (induction ts arbitrary: s k)
  case (Cons t ts)
  let ?m = "ping_msg AXIOM_CMD_PING uid (Suc k) t"
  obtain e d where d: "pg_send api (ps_dev s) dst ?m = (e, d)" "pg_is_ok api e" "sent d = sent (ps_dev s) @ [(dst, ?m)]"
    using lossless_send [OF assms] by blast
  let ?s = "s\<lparr>ps_dev := d, ps_seq_num := of_nat (Suc k), ps_sent_packets := ps_sent_packets s + 1, ps_num_ping := ps_num_ping s - 1\<rparr>"
  have "sender_body api dst uid True (map (\<lambda>t. (False, Some t)) (t # ts)) s = sender_body api dst uid True (map (\<lambda>t. (False, Some t)) ts) ?s"
    using Cons.prems d by (simp add: Let_def add.commute)
  moreover have "ps_num_ping ?s = int (length ts)" "ps_seq_num ?s = of_nat (Suc k)" using Cons.prems(1) by simp_all
  ultimately show ?case using Cons.IH [of ?s "Suc k"] d(3) by (simp add: Let_def)
qed simp

text \<open>The messages the receiver counts, with their times; other messages are skipped.\<close>

definition ping_hits :: "u32 \<Rightarrow> (u8 \<times> ping_payload) list \<Rightarrow> u64 list \<Rightarrow> ((u8 \<times> ping_payload) \<times> u64) list" where
  "ping_hits uid q cs = filter (\<lambda>x. pp_command (snd (fst x)) = AXIOM_CMD_PONG \<and> pp_unique_id (snd (fst x)) = uid) (zip q cs)"

definition count_hit :: "(u8 \<times> ping_payload) \<times> u64 \<Rightarrow> 'd ping_receiver \<Rightarrow> 'd ping_receiver" where
  "count_hit x r = ping_stats (fst (fst x)) (snd (fst x)) (snd x) r"

lemma ping_stats_simps [simp]:
  "ping_stats n p c (r\<lparr>pr_dev := d\<rparr>) = (ping_stats n p c r)\<lparr>pr_dev := d\<rparr>"
  "ping_stats n p c (r\<lparr>pr_num_ping := k\<rparr>) = (ping_stats n p c r)\<lparr>pr_num_ping := k\<rparr>"
  "pr_num_ping (ping_stats n p c r) = pr_num_ping r"
  by (cases r, simp add: ping_stats_def Let_def)+

lemma ping_recv_run:
  assumes q: "fifo (pg_is_ok api) (pg_recv api) (pg_send api) inbox"
  shows "length cs = length q \<Longrightarrow> inbox (pr_dev r) = q \<Longrightarrow> unat (pr_num_ping r) = length (ping_hits uid q cs) \<Longrightarrow>
    \<exists>r'. ping_recv api uid True (map (\<lambda>c. (Some c, False)) cs) r = (PG_EXIT, r')
      \<and> (\<exists>d. r'\<lparr>pr_dev := d, pr_num_ping := 0\<rparr> = (fold count_hit (ping_hits uid q cs) r)\<lparr>pr_dev := d, pr_num_ping := 0\<rparr>)"
proof (induction q arbitrary: r cs)
  case Nil
  then show ?case by (auto simp: ping_hits_def ping_recv.simps unat_eq_0)
next
  case (Cons x q)
  obtain c cs' where cs: "cs = c # cs'" using Cons.prems(1) by (cases cs) auto
  obtain n p where x: "x = (n, p)" by (cases x)
  show ?case
  proof (cases "pr_num_ping r = 0")
    case True
    then show ?thesis using Cons.prems(3) by (auto simp: ping_recv.simps)
  next
    case False
    from q Cons.prems(2) x obtain e d where d: "pg_recv api (pr_dev r) = Some (e, n, p, d)" "pg_is_ok api e" "inbox d = q"
      unfolding fifo_def by blast
    let ?hit = "pp_command p = AXIOM_CMD_PONG \<and> pp_unique_id p = uid"
    let ?r = "if ?hit then (ping_stats n p c r)\<lparr>pr_dev := d, pr_num_ping := pr_num_ping r - 1\<rparr> else r\<lparr>pr_dev := d\<rparr>"
    have step: "ping_recv api uid True (map (\<lambda>c. (Some c, False)) cs) r = ping_recv api uid True (map (\<lambda>c. (Some c, False)) cs') ?r"
      using False d by (subst ping_recv.simps) (auto simp: cs Let_def)
    have hits: "ping_hits uid (x # q) cs = (if ?hit then [(x, c)] else []) @ ping_hits uid q cs'" by (simp add: ping_hits_def cs x)
    have num: "unat (pr_num_ping ?r) = length (ping_hits uid q cs')"
    proof (cases ?hit)
      case True
      then have "unat (pr_num_ping r) = Suc (length (ping_hits uid q cs'))" using Cons.prems(3) hits by simp
      moreover from this have "unat (pr_num_ping r - 1) = unat (pr_num_ping r) - 1" by (intro unat_minus_one) auto
      ultimately show ?thesis using True by simp
    qed (use Cons.prems(3) hits in auto)
    have dev: "inbox (pr_dev ?r) = q" using d(3) by simp
    from Cons.IH [OF _ dev num] Cons.prems(1) cs obtain r' d' where r': "ping_recv api uid True (map (\<lambda>c. (Some c, False)) cs') ?r = (PG_EXIT, r')"
      "r'\<lparr>pr_dev := d', pr_num_ping := 0\<rparr> = (fold count_hit (ping_hits uid q cs') ?r)\<lparr>pr_dev := d', pr_num_ping := 0\<rparr>" by auto
    have pass: "(fold count_hit hs (s\<lparr>pr_dev := a, pr_num_ping := b\<rparr>))\<lparr>pr_dev := d', pr_num_ping := 0\<rparr>
        = (fold count_hit hs s)\<lparr>pr_dev := d', pr_num_ping := 0\<rparr>" for hs and s :: "'a ping_receiver" and a b
    proof (induction hs arbitrary: s)
      case (Cons h hs)
      have "count_hit h (s\<lparr>pr_dev := a, pr_num_ping := b\<rparr>) = (count_hit h s)\<lparr>pr_dev := a, pr_num_ping := b\<rparr>"
        by (simp add: count_hit_def)
      with Cons.IH [of "count_hit h s"] show ?case by simp
    qed simp
    have "(fold count_hit (ping_hits uid q cs') ?r)\<lparr>pr_dev := d', pr_num_ping := 0\<rparr>
        = (fold count_hit (ping_hits uid (x # q) cs) r)\<lparr>pr_dev := d', pr_num_ping := 0\<rparr>"
    proof (cases ?hit)
      case True
      then show ?thesis unfolding hits using pass [where hs = "ping_hits uid q cs'" and s = "ping_stats n p c r" and a = d and b = "pr_num_ping r - 1"]
        by (simp add: count_hit_def x)
    next
      case False
      then show ?thesis using pass [where hs = "ping_hits uid q cs'" and s = r and a = d and b = "pr_num_ping r"] unfolding hits by auto
    qed
    with r' step show ?thesis by auto
  qed
qed

lemma pong_run:
  assumes "lossless (pg_is_ok api) (pg_send api) sent" "\<forall>m\<in>set ms. pp_command m = AXIOM_CMD_PING"
  shows "sent (fold (\<lambda>m d. axiom_pong api d src m) ms dev) = sent dev @ map (\<lambda>m. (src, m\<lparr>pp_command := AXIOM_CMD_PONG\<rparr>)) ms"
  using assms(2)
proof (induction ms arbitrary: dev)
  case (Cons m ms)
  have "sent (axiom_pong api dev src m) = sent dev @ [(src, m\<lparr>pp_command := AXIOM_CMD_PONG\<rparr>)]"
    using assms(1) Cons.prems unfolding lossless_def axiom_pong_def by simp
  with Cons show ?case by simp
qed simp

lemma ping_hits_fst:
  "length cs = length q \<Longrightarrow> map fst (ping_hits uid q cs) = filter (\<lambda>x. pp_command (snd x) = AXIOM_CMD_PONG \<and> pp_unique_id (snd x) = uid) q"
  by (induction cs q rule: list_induct2) (auto simp: ping_hits_def)

lemma fold_hits:
  "pr_recv_packets (fold count_hit hs r) = pr_recv_packets r + length hs"
  "pr_lines (fold count_hit hs r) = pr_lines r @ map (\<lambda>x. (fst (fst x), pp_seq_num (snd (fst x)), snd x - pp_timestamp (snd (fst x)))) hs"
  by (induction hs arbitrary: r) (simp_all add: count_hit_def ping_stats_def Let_def)

lemma fold_bounds:
  "\<forall>l\<in>set (pr_lines r). pr_min r \<le> snd (snd l) \<and> snd (snd l) \<le> pr_max r \<Longrightarrow>
     \<forall>l\<in>set (pr_lines (fold count_hit hs r)). pr_min (fold count_hit hs r) \<le> snd (snd l) \<and> snd (snd l) \<le> pr_max (fold count_hit hs r)"
proof (induction hs arbitrary: r)
  case (Cons h hs)
  have "\<forall>l\<in>set (pr_lines (count_hit h r)). pr_min (count_hit h r) \<le> snd (snd l) \<and> snd (snd l) \<le> pr_max (count_hit h r)"
    using Cons.prems by (auto simp: count_hit_def ping_stats_def Let_def)
  from Cons.IH [OF this] show ?case by simp
qed simp

lemma stats_dev:
  assumes "r\<lparr>pr_dev := d, pr_num_ping := 0\<rparr> = r'\<lparr>pr_dev := d, pr_num_ping := 0\<rparr>"
  shows "pr_recv_packets r = pr_recv_packets r'" "pr_lines r = pr_lines r'" "pr_min r = pr_min r'" "pr_max r = pr_max r'"
  using assms by (cases r; cases r'; simp)+

text \<open>C23: all pings are answered and counted. When the network loses nothing, the sender of \<open>c\<close> pings (fewer than
  \<open>2 ^ 31\<close>, since the sender reads their number as an \<open>int\<close>) sends them all, the daemon of the destination answers each of them, and the receiver, whatever other messages come
  in between, ends with \<open>c\<close> received packets, in the order of their numbers; each of their times is between the
  minimum and the maximum that it prints.\<close>

theorem ping_all_answered:
  assumes "lossless (pg_is_ok api) (pg_send api) sent" "fifo (pg_is_ok api) (pg_recv api) (pg_send api) inbox"
    "c < 2 ^ 31" "length ts = c"
    "s' = sender_body api dst uid True (map (\<lambda>t. (False, Some t)) ts) \<lparr>ps_dev = dev, ps_num_ping = int c, ps_seq_num = 0, ps_sent_packets = 0\<rparr>"
    "pings = map snd (drop (length (sent dev)) (sent (ps_dev s')))"
    "pongs = drop (length (sent ddev)) (sent (fold (\<lambda>m d. axiom_pong api d src m) pings ddev))"
    "filter (\<lambda>x. pp_command (snd x) = AXIOM_CMD_PONG \<and> pp_unique_id (snd x) = uid) (inbox rdev) = map (\<lambda>x. (dst, snd x)) pongs"
    "length clocks = length (inbox rdev)"
  shows "ps_sent_packets s' = c \<and> map fst pongs = replicate c src \<and>
    (\<exists>r. ping_recv api uid True (map (\<lambda>t. (Some t, False)) clocks) (ping_start rdev (of_nat c)) = (PG_EXIT, r)
      \<and> pr_recv_packets r = c \<and> map (\<lambda>l. (fst l, fst (snd l))) (pr_lines r) = map (\<lambda>i. (dst, of_nat (Suc i))) [0..<c]
      \<and> (\<forall>l\<in>set (pr_lines r). pr_min r \<le> snd (snd l) \<and> snd (snd l) \<le> pr_max r))"
proof -
  let ?P = "\<lambda>x. pp_command (snd x) = AXIOM_CMD_PONG \<and> pp_unique_id (snd x) = uid"
  have s': "ps_sent_packets s' = c" "sent (ps_dev s') = sent dev @ map (\<lambda>(i, t). (dst, ping_msg AXIOM_CMD_PING uid (Suc i) t)) (enumerate 0 ts)"
    using sender_run [OF assms(1), of "\<lparr>ps_dev = dev, ps_num_ping = int c, ps_seq_num = 0, ps_sent_packets = 0\<rparr>" ts 0 dst uid] assms(4)
    unfolding assms(5) by (simp_all add: Let_def)
  have pings: "pings = map (\<lambda>(i, t). ping_msg AXIOM_CMD_PING uid (Suc i) t) (enumerate 0 ts)"
    unfolding assms(6) s'(2) by (simp add: o_def case_prod_beta)
  have "\<forall>m\<in>set pings. pp_command m = AXIOM_CMD_PING" unfolding pings by auto
  from pong_run [OF assms(1) this, of src ddev] have pongs: "pongs = map (\<lambda>(i, t). (src, ping_msg AXIOM_CMD_PONG uid (Suc i) t)) (enumerate 0 ts)"
    unfolding assms(7) by (simp add: pings o_def case_prod_beta)
  let ?hs = "ping_hits uid (inbox rdev) clocks"
  have hs: "map fst ?hs = map (\<lambda>(i, t). (dst, ping_msg AXIOM_CMD_PONG uid (Suc i) t)) (enumerate 0 ts)"
    unfolding ping_hits_fst [OF assms(9)] assms(8) pongs by (simp add: o_def case_prod_beta)
  then have len: "length ?hs = c" using assms(4) by (metis length_map length_enumerate)
  have num: "unat (pr_num_ping (ping_start rdev (of_nat c))) = length ?hs"
    using len assms(3) by (simp add: ping_start_def unat_of_nat)
  from ping_recv_run [OF assms(2), of clocks "inbox rdev" "ping_start rdev (of_nat c)" uid] assms(9) num obtain r d where
    r: "ping_recv api uid True (map (\<lambda>t. (Some t, False)) clocks) (ping_start rdev (of_nat c)) = (PG_EXIT, r)"
      "r\<lparr>pr_dev := d, pr_num_ping := 0\<rparr> = (fold count_hit ?hs (ping_start rdev (of_nat c)))\<lparr>pr_dev := d, pr_num_ping := 0\<rparr>"
    by (auto simp: ping_start_def)
  note st = stats_dev [OF r(2)]
  have "map (\<lambda>l. (fst l, fst (snd l))) (pr_lines r) = map (\<lambda>y. (fst y, pp_seq_num (snd y))) (map fst ?hs)"
    unfolding st(2) fold_hits by (simp add: ping_start_def)
  also have "\<dots> = map (\<lambda>i. (dst, of_nat (Suc i))) (map fst (enumerate 0 ts))"
    unfolding hs map_map by (rule map_cong) auto
  also have "map fst (enumerate 0 ts) = [0..<c]" using assms(4) by (simp add: enumerate_eq_zip)
  finally have lines: "map (\<lambda>l. (fst l, fst (snd l))) (pr_lines r) = map (\<lambda>i. (dst, of_nat (Suc i))) [0..<c]" .
  have "\<forall>l\<in>set (pr_lines r). pr_min r \<le> snd (snd l) \<and> snd (snd l) \<le> pr_max r"
    unfolding st by (rule fold_bounds) (simp add: ping_start_def)
  moreover have "pr_recv_packets r = c" unfolding st(1) fold_hits by (simp add: ping_start_def len)
  moreover have "map fst pongs = replicate c src" unfolding pongs using assms(4)
    by (simp add: o_def case_prod_beta map_replicate_const)
  ultimately show ?thesis using s'(1) r(1) lines by blast
qed

section \<open>Instances\<close>

definition demo_ping :: "((u8 \<times> ping_payload) list \<times> (u8 \<times> ping_payload) list) ping_api" where
  "demo_ping = \<lparr>pg_is_ok = (\<lambda>e. 0 \<le> e), pg_notreach = - 2, pg_intr = - 3,
     pg_send = (\<lambda>(l, q) n m. (0, l @ [(n, m)], q)),
     pg_recv = (\<lambda>(l, q). case q of [] \<Rightarrow> None | (n, m) # q \<Rightarrow> Some (0, n, m, l, q))\<rparr>"

lemma demo_ping_ok: "lossless (pg_is_ok demo_ping) (pg_send demo_ping) fst" "fifo (pg_is_ok demo_ping) (pg_recv demo_ping) (pg_send demo_ping) snd"
  by (auto simp: lossless_def fifo_def demo_ping_def split: prod.splits)

text \<open>Two pings from node 0 to node 2; between the answers comes one for another program.\<close>

theorem ping_all_answered_witness:
  "\<exists>r. ping_recv demo_ping 7 True (map (\<lambda>t. (Some t, False)) [15, 21, 29])
      (ping_start ([], [(2, ping_msg AXIOM_CMD_PONG 7 1 10), (1, ping_msg AXIOM_CMD_PONG 8 1 9), (2, ping_msg AXIOM_CMD_PONG 7 2 20)]) 2) = (PG_EXIT, r)
    \<and> pr_recv_packets r = 2 \<and> map (\<lambda>l. (fst l, fst (snd l))) (pr_lines r) = [(2, 1), (2, 2)]"
proof -
  let ?q = "[(2, ping_msg AXIOM_CMD_PONG 7 1 10), (1, ping_msg AXIOM_CMD_PONG 8 1 9), (2, ping_msg AXIOM_CMD_PONG 7 2 20)] :: (u8 \<times> ping_payload) list"
  let ?s = "sender_body demo_ping 2 7 True (map (\<lambda>t. (False, Some t)) [10, 20]) \<lparr>ps_dev = ([], []), ps_num_ping = int 2, ps_seq_num = 0, ps_sent_packets = 0\<rparr>"
  have s: "ps_dev ?s = ([(2, ping_msg AXIOM_CMD_PING 7 1 10), (2, ping_msg AXIOM_CMD_PING 7 2 20)], [])"
    by (simp add: demo_ping_def)
  have q: "filter (\<lambda>x. pp_command (snd x) = AXIOM_CMD_PONG \<and> pp_unique_id (snd x) = 7) (snd ([], ?q)) = map (\<lambda>x. (2, snd x))
      (drop (length (fst ([], []))) (fst (fold (\<lambda>m d. axiom_pong demo_ping d 0 m) (map snd (drop (length (fst ([], []))) (fst (ps_dev ?s)))) ([], []))))"
    unfolding s by (simp add: axiom_pong_def demo_ping_def)
  have c: "(2 :: nat) < 2 ^ 31" "length [10, 20 :: u64] = 2" "length [15, 21, 29 :: u64] = length (snd ([] :: (u8 \<times> ping_payload) list, ?q))" by simp_all
  from ping_all_answered [OF demo_ping_ok c(1,2) refl refl refl q c(3)]
  obtain r where "ping_recv demo_ping 7 True (map (\<lambda>t. (Some t, False)) [15, 21, 29]) (ping_start ([], ?q) (of_nat 2)) = (PG_EXIT, r)"
    "pr_recv_packets r = 2" "map (\<lambda>l. (fst l, fst (snd l))) (pr_lines r) = map (\<lambda>i. (2, of_nat (Suc i))) [0..<2]" by blast
  moreover have "map (\<lambda>i. (2 :: u8, of_nat (Suc i) :: u32)) [0..<2] = [(2, 1), (2, 2)]" by (simp add: upt_rec)
  ultimately show ?thesis by (intro exI [of _ r]) simp
qed

end
