(* ===== verification/C_Numbers.thy ===== *)
theory C_Numbers
  imports Axiom_Prelude
begin

text \<open>
  The number formats of the C library that the programs use to pass numbers through strings: decimal and
  hexadecimal printing (\<open>%d\<close>, \<open>%lu\<close>, \<open>%lx\<close>), \<open>atoi\<close>, \<open>strtol\<close> and the conversions of
  \<open>sscanf\<close>, the split of \<open>strtok\<close>, the prefix test of \<open>strncmp\<close>, and that what is printed is read
  back. A C string is here the list of its characters without the terminator.
\<close>

section \<open>Printing\<close>

definition digit_char :: "nat \<Rightarrow> char" where
  "digit_char n = char_of (if n < 10 then 48 + n else 87 + n)"

fun print_base :: "nat \<Rightarrow> nat \<Rightarrow> string" where
  "print_base b n = (if n < b \<or> b < 2 then [digit_char n] else print_base b (n div b) @ [digit_char (n mod b)])"

declare print_base.simps [simp del]

definition print_int :: "int \<Rightarrow> string" where
  "print_int i = (if i < 0 then CHR ''-'' # print_base 10 (nat (- i)) else print_base 10 (nat i))"

text \<open>\<open>snprintf\<close> into a buffer of \<open>sz\<close> bytes keeps the first \<open>sz - 1\<close> characters.\<close>

definition snprintf :: "nat \<Rightarrow> string \<Rightarrow> string" where
  "snprintf sz s = take (sz - 1) s"

section \<open>Reading\<close>

definition digit_val :: "nat \<Rightarrow> char \<Rightarrow> nat option" where
  "digit_val b c = (let n = of_char c :: nat;
       v = (if 48 \<le> n \<and> n \<le> 57 then n - 48 else if 97 \<le> n \<and> n \<le> 102 then n - 87
            else if 65 \<le> n \<and> n \<le> 70 then n - 55 else 99)
     in if v < b then Some v else None)"

fun read_digits :: "nat \<Rightarrow> nat \<Rightarrow> string \<Rightarrow> nat \<times> string" where
  "read_digits b acc [] = (acc, [])"
| "read_digits b acc (c # s) = (case digit_val b c of
       Some d \<Rightarrow> read_digits b (acc * b + d) s
     | None \<Rightarrow> (acc, c # s))"

definition is_space :: "char \<Rightarrow> bool" where
  "is_space c \<longleftrightarrow> c = CHR '' '' \<or> (of_char c :: nat) \<in> {9..13}"

definition starts_digit :: "nat \<Rightarrow> string \<Rightarrow> bool" where
  "starts_digit b s \<longleftrightarrow> (case s of [] \<Rightarrow> False | c # _ \<Rightarrow> digit_val b c \<noteq> None)"

text \<open>White space, an optional sign and digits; \<open>None\<close> when there are no digits.\<close>

definition scan_d :: "string \<Rightarrow> (int \<times> string) option" where
  "scan_d s = (let s = dropWhile is_space s;
       (neg, s) = (case s of c # r \<Rightarrow> if c = CHR ''-'' then (True, r) else if c = CHR ''+'' then (False, r) else (False, s)
                   | [] \<Rightarrow> (False, s))
     in if starts_digit 10 s
        then (let (n, r) = read_digits 10 0 s in Some (if neg then - int n else int n, r))
        else None)"

definition atoi :: "string \<Rightarrow> int" where
  "atoi s = (case scan_d s of Some (n, _) \<Rightarrow> n | None \<Rightarrow> 0)"

text \<open>\<open>strtol\<close> in base 10 on a 64-bit \<open>long\<close>: the value is clamped to the range of the type; without
  digits it is 0 and the end pointer is the start.\<close>

definition LONG_MAX :: int where "LONG_MAX = 2 ^ 63 - 1"
definition LONG_MIN :: int where "LONG_MIN = - (2 ^ 63)"

definition strtol10 :: "string \<Rightarrow> int \<times> string" where
  "strtol10 s = (case scan_d s of Some (n, r) \<Rightarrow> (max LONG_MIN (min LONG_MAX n), r) | None \<Rightarrow> (0, s))"

text \<open>\<open>%d\<close> of \<open>sscanf\<close>: the number is clamped to the range of \<open>long\<close> and converted to a 32-bit \<open>int\<close>.\<close>

definition to_int :: "int \<Rightarrow> int" where
  "to_int n = sint (word_of_int (max LONG_MIN (min LONG_MAX n)) :: 32 word)"

definition scan_di :: "string \<Rightarrow> (int \<times> string) option" where
  "scan_di s = map_option (\<lambda>(n, r). (to_int n, r)) (scan_d s)"

lemma to_int_id: "- (2 ^ 31) \<le> n \<Longrightarrow> n < 2 ^ 31 \<Longrightarrow> to_int n = n"
  by (simp add: to_int_def LONG_MAX_def LONG_MIN_def signed_of_int signed_take_bit_int_eq_self)

definition has_prefix :: "string \<Rightarrow> string \<Rightarrow> bool" where
  "has_prefix p s \<longleftrightarrow> take (length p) s = p"

text \<open>The value of digits as an \<open>unsigned long\<close>, clamped to its range.\<close>

definition clamp_u64 :: "nat \<Rightarrow> u64" where
  "clamp_u64 n = (if n < 2 ^ 64 then of_nat n else - 1)"

text \<open>\<open>sscanf (s, "%lx", &r)\<close> on a string that starts with \<open>0x\<close>; the prefix must be followed by a
  digit.\<close>

definition scan_lx :: "string \<Rightarrow> u64 option" where
  "scan_lx s = (if starts_digit 16 (drop 2 s) then Some (clamp_u64 (fst (read_digits 16 0 (drop 2 s)))) else None)"

text \<open>\<open>strtoull (s, NULL, 0)\<close>: the base follows from the prefix.\<close>

definition strtoull0 :: "string \<Rightarrow> u64" where
  "strtoull0 s = (let s = dropWhile is_space s;
       (neg, s) = (case s of c # r \<Rightarrow> if c = CHR ''-'' then (True, r) else if c = CHR ''+'' then (False, r) else (False, s)
                   | [] \<Rightarrow> (False, s));
       (b, s) = (if (has_prefix ''0x'' s \<or> has_prefix ''0X'' s) \<and> starts_digit 16 (drop 2 s) then (16, drop 2 s)
                 else if has_prefix ''0'' s then (8, s) else (10, s));
       n = fst (read_digits b 0 s)
     in if n < 2 ^ 64 \<and> neg then - of_nat n else clamp_u64 n)"

text \<open>The sequence of tokens that \<open>strtok (s, ",")\<close> and \<open>strtok (NULL, ",")\<close> return: the non-empty
  segments between the separators.\<close>

fun split_on :: "char \<Rightarrow> string \<Rightarrow> string list" where
  "split_on c [] = [[]]"
| "split_on c (x # s) = (if x = c then [] # split_on c s
     else case split_on c s of t # r \<Rightarrow> (x # t) # r | [] \<Rightarrow> [[x]])"

definition strtok_all :: "char \<Rightarrow> string \<Rightarrow> string list" where
  "strtok_all c s = filter (\<lambda>t. t \<noteq> []) (split_on c s)"

section \<open>What is printed is read back\<close>

lemma digit_char_val: "n < 16 \<Longrightarrow> n < b \<Longrightarrow> digit_val b (digit_char n) = Some n"
  by (auto simp: digit_val_def digit_char_def Let_def)

lemma digit_char_val_ex: "n < 16 \<Longrightarrow> n < b \<Longrightarrow> \<exists>d. digit_val b (digit_char n) = Some d"
  using digit_char_val by blast

lemma print_base_nonempty [simp]: "print_base b n \<noteq> []" "[] \<noteq> print_base b n"
  by (subst print_base.simps, simp)+

lemma print_base_digits: "2 \<le> b \<Longrightarrow> b \<le> 16 \<Longrightarrow> c \<in> set (print_base b n) \<Longrightarrow> \<exists>d < b. c = digit_char d"
proof (induction b n rule: print_base.induct)
  case (1 b n)
  show ?case
  proof (cases "n < b")
    case True
    with 1 show ?thesis by (auto simp: print_base.simps [of b n])
  next
    case False
    with 1 have "c \<in> set (print_base b (n div b)) \<or> c = digit_char (n mod b)" by (auto simp: print_base.simps [of b n])
    with 1 False show ?thesis by (auto intro: exI [of _ "n mod b"])
  qed
qed

text \<open>The number of digits.\<close>

lemma print_base_length: "n < b ^ k \<Longrightarrow> 0 < k \<Longrightarrow> 2 \<le> b \<Longrightarrow> length (print_base b n) \<le> k"
proof (induction k arbitrary: n)
  case (Suc k)
  show ?case
  proof (cases "n < b")
    case False
    with Suc.prems have "n div b < b ^ k" by (simp add: less_mult_imp_div_less mult.commute)
    moreover from Suc.prems False have "0 < k" by (cases k) auto
    ultimately show ?thesis using Suc.IH [of "n div b"] Suc.prems(3) False by (simp add: print_base.simps [of b n])
  qed (simp add: print_base.simps [of b n])
qed simp

lemma read_digits_append_one:
  "read_digits b acc s = (m, []) \<Longrightarrow> read_digits b acc (s @ t) = read_digits b m t"
  by (induction b acc s rule: read_digits.induct) (auto split: option.splits)

lemma read_print_base:
  assumes "2 \<le> b" "b \<le> 16"
  shows "read_digits b 0 (print_base b n) = (n, [])"
  using assms
proof (induction b n rule: print_base.induct)
  case (1 b n)
  show ?case
  proof (cases "n < b")
    case True
    with 1 show ?thesis by (simp add: print_base.simps [of b n] digit_char_val)
  next
    case False
    with 1 have "read_digits b 0 (print_base b (n div b)) = (n div b, [])" by simp
    moreover have "digit_val b (digit_char (n mod b)) = Some (n mod b)" 
    proof (rule digit_char_val)
      show "n mod b < b" using 1(2) by simp
      with 1(3) show "n mod b < 16" by linarith
    qed
    ultimately show ?thesis using 1 False
      by (simp add: print_base.simps [of b n] read_digits_append_one [where m = "n div b"])
  qed
qed

text \<open>The characters after the number must not continue it.\<close>

lemma read_digits_stop: "\<not> starts_digit b t \<Longrightarrow> read_digits b m t = (m, t)"
  by (cases t) (auto simp: starts_digit_def)

lemma read_print:
  assumes "2 \<le> b" "b \<le> 16" "\<not> starts_digit b t"
  shows "read_digits b 0 (print_base b n @ t) = (n, t)"
  using read_digits_append_one [OF read_print_base [OF assms(1,2), of n]] read_digits_stop [OF assms(3)] by simp

lemma print_base_hd: "2 \<le> b \<Longrightarrow> b \<le> 16 \<Longrightarrow> \<exists>d c s. print_base b n = c # s \<and> d < b \<and> c = digit_char d"
  using print_base_digits [of b "hd (print_base b n)" n] by (cases "print_base b n") auto

lemma starts_digit_print: "2 \<le> b \<Longrightarrow> b \<le> 16 \<Longrightarrow> starts_digit b (print_base b n @ t)"
  using print_base_hd [of b n] by (auto simp: starts_digit_def digit_char_val)

lemma digit_not_space: "d < 10 \<Longrightarrow> \<not> is_space (digit_char d)"
  by (auto simp: is_space_def digit_char_def char_of_eq_iff take_bit_eq_mod)

lemma digit_not_sign: "d < 10 \<Longrightarrow> digit_char d \<noteq> CHR ''-'' \<and> digit_char d \<noteq> CHR ''+'' \<and> digit_char d \<noteq> CHR '',''"
  by (simp add: digit_char_def char_of_eq_iff take_bit_eq_mod)

lemma digit_code: "d < 10 \<Longrightarrow> of_char (digit_char d) = (48 + d :: nat)"
  by (simp add: digit_char_def take_bit_eq_mod)

lemma scan_print: "\<not> starts_digit 10 t \<Longrightarrow> scan_d (print_base 10 n @ t) = Some (int n, t)"
proof -
  assume t: "\<not> starts_digit 10 t"
  obtain d c s where p: "print_base 10 n = c # s" "d < 10" "c = digit_char d" using print_base_hd [of 10 n] by auto
  have "dropWhile is_space (print_base 10 n @ t) = print_base 10 n @ t" using p digit_not_space by simp
  moreover have "read_digits 10 0 (print_base 10 n @ t) = (n, t)" using t by (simp add: read_print)
  ultimately show ?thesis using p digit_not_sign [of d] starts_digit_print [of 10 n t]
    by (simp add: scan_d_def)
qed

lemma strtol_print:
  "\<not> starts_digit 10 t \<Longrightarrow> strtol10 (print_base 10 n @ t) = (min LONG_MAX (int n), t)"
  by (simp add: strtol10_def scan_print LONG_MIN_def LONG_MAX_def)

lemma unat_u64_less [simp]: "unat (n :: u64) < 18446744073709551616"
  using unsigned_less [of n, where 'a = nat] by simp

lemma clamp_u64_unat [simp]: "clamp_u64 (unat n) = n"
  by (simp add: clamp_u64_def)

lemma scan_lx_print: "scan_lx (''0x'' @ print_base 16 (unat n)) = Some n"
  using starts_digit_print [of 16 "unat n" "[]"] by (simp add: scan_lx_def read_print_base)

lemma strtoull0_print: "strtoull0 (''0x'' @ print_base 16 (unat n)) = n"
  using starts_digit_print [of 16 "unat n" "[]"]
  by (simp add: strtoull0_def read_print_base is_space_def has_prefix_def Let_def)

text \<open>A decimal number has no leading zero, so \<open>strtoull\<close> does not take it for an octal one.\<close>

lemma print_base_lead: "2 \<le> b \<Longrightarrow> 0 < n \<Longrightarrow> \<exists>d s. print_base b n = digit_char d # s \<and> 0 < d \<and> d < b"
proof (induction b n rule: print_base.induct)
  case (1 b n)
  show ?case
  proof (cases "n < b")
    case True
    with 1 show ?thesis by (auto simp: print_base.simps [of b n])
  next
    case False
    with 1 have "0 < n div b" by (simp add: div_greater_zero_iff)
    with 1 False obtain d s where "print_base b (n div b) = digit_char d # s" "0 < d" "d < b" by auto
    with False "1.prems"(1) show ?thesis by (auto simp: print_base.simps [of b n])
  qed
qed

lemma digit_not_zero: "0 < d \<Longrightarrow> d < 10 \<Longrightarrow> digit_char d \<noteq> CHR ''0''"
  by (simp add: digit_char_def char_of_eq_iff take_bit_eq_mod)

lemma strtoull0_dec: "n < 2 ^ 64 \<Longrightarrow> strtoull0 (print_base 10 n) = of_nat n"
proof (cases "n = 0")
  case True
  then show ?thesis
    by (simp add: print_base.simps strtoull0_def Let_def is_space_def has_prefix_def digit_char_def digit_val_def clamp_u64_def)
next
  case False
  assume n: "n < 2 ^ 64"
  obtain d s where d: "print_base 10 n = digit_char d # s" "0 < d" "d < 10" using print_base_lead [of 10 n] False by auto
  have "read_digits 10 0 (print_base 10 n) = (n, [])" by (rule read_print_base) simp_all
  with n d digit_not_zero [OF d(2,3)] digit_not_sign [OF d(3)] digit_not_space [OF d(3)] show ?thesis
    by (simp add: strtoull0_def Let_def has_prefix_def clamp_u64_def)
qed

lemma split_on_append:
  "c \<notin> set s \<Longrightarrow> split_on c (s @ c # t) = s # split_on c t" "c \<notin> set s \<Longrightarrow> split_on c s = [s]"
  by (induction s) auto

lemma print_no_sign: "c \<in> {CHR '','', CHR ''-'', CHR ''+''} \<Longrightarrow> c \<notin> set (print_base 10 n)"
proof
  assume c: "c \<in> {CHR '','', CHR ''-'', CHR ''+''}" "c \<in> set (print_base 10 n)"
  then obtain d where d: "d < 10" "c = digit_char d" using print_base_digits [of 10 c n] by auto
  from c(1) digit_not_sign [OF d(1)] show False unfolding d(2) by (elim insertE emptyE) simp_all
qed

end
