(* ===== verification/Init_Daemon.thy ===== *)
theory Init_Daemon
  imports Discovery_Node Spawn Traceroute Ping C_Numbers
begin

text \<open>
  The daemon \<open>axiom-init\<close> (\<open>axiom-init/axiom-init.c\<close>): the routing tables it loads from and saves to files, the start,
  and the loop that hands every message to its service. The first level of the allocator
  (\<open>axiom-init/axiom-allocator-l1/axiom_allocator_l1.c\<close>) is modelled here; the library it calls is a parameter.
\<close>

section \<open>Routing tables in files\<close>

text \<open>A line of the file; the condition on the number in the source is always true, and a shift by a number
  outside 0 to 31 is undefined.\<close>

definition rt_line :: "nat \<Rightarrow> string \<times> nat \<Rightarrow> u8 list \<Rightarrow> u8 list option" where
  "rt_line ifmax l table = (let v = fst (strtol10 (fst l)) in
     if v \<ge> 0 \<or> v \<le> int ifmax then do { m \<leftarrow> (if v < 0 then None else shl1_u8 (nat v)); aset table (snd l) m } else Some table)"

text \<open>\<open>file\<close> has the lines of the file, if it can be opened. The result of the calls that set the registers is
  ignored.\<close>

definition axiom_rt_from_file :: "('d, 'm) nic_api_scheme \<Rightarrow> 'd \<Rightarrow> string list option \<Rightarrow> (int \<times> 'd) option" where
  "axiom_rt_from_file api dev file = (case file of
       None \<Rightarrow> Some (- 1, dev)
     | Some ls \<Rightarrow> do {
         table \<leftarrow> for_each (rt_line (AXIOM_INTERFACES_MAX api)) (zip (take (AXIOM_NODES_NUM api) ls) [0..<AXIOM_NODES_NUM api])
           (replicate (AXIOM_NODES_NUM api) 0);
         if length ls > AXIOM_NODES_NUM api then Some (- 1, dev)
         else do {
           dev \<leftarrow> for_each (\<lambda>i d. do { v \<leftarrow> aget table i; (_, d') \<leftarrow> axiom_set_routing api d (of_nat i) v; Some d' })
             [0..<AXIOM_NODES_NUM api] dev;
           Some (0, dev)
         }
       })"

text \<open>\<open>__builtin_ctzl\<close> on a table entry; the result for 0 is undefined and is the first argument.\<close>

definition ctz8 :: "nat \<Rightarrow> u8 \<Rightarrow> nat" where
  "ctz8 ctz0 x = (case List.find (bit x) [0..<8] of Some i \<Rightarrow> i | None \<Rightarrow> ctz0)"

definition read_table :: "('d, 'm) nic_api_scheme \<Rightarrow> 'd \<Rightarrow> u8 list option" where
  "read_table api dev = for_each (\<lambda>i t. do { v \<leftarrow> aget t i; (_, m) \<leftarrow> axiom_get_routing api dev (of_nat i) v; aset t i m })
     [0..<AXIOM_NODES_NUM api] (replicate (AXIOM_NODES_NUM api) 0)"

text \<open>The result and the lines that are written, if the file can be opened.\<close>

definition axiom_rt_to_file :: "('d, 'm) nic_api_scheme \<Rightarrow> nat \<Rightarrow> bool \<Rightarrow> 'd \<Rightarrow> (int \<times> string list option) option" where
  "axiom_rt_to_file api ctz0 open_ok dev = do {
     table \<leftarrow> read_table api dev;
     if \<not> open_ok then Some (- 1, None)
     else Some (0, Some (map (\<lambda>m. print_int (int (ctz8 ctz0 m)) @ [CHR 0x0A]) table))
   }"

section \<open>The allocator service\<close>

record alloc_payload =
  al_command :: axiom_cmd
  al_reply_port :: u8
  al_info :: bytes

text \<open>The calls of the daemon. \<open>'a\<close> is the state of the allocator library, whose calls return whether there is a
  reply, the block they leave, and the state; \<open>ia_al1_error\<close> stores the error code in a block.\<close>

record ('d, 'a) init_api =
  ia_nic :: "'d nic_api"
  ia_trace :: "'d trace_api"
  ia_ping :: "'d ping_api"
  ia_spawn :: spawn_consts
  ia_send_session :: "'d \<Rightarrow> u8 \<times> u8 \<Rightarrow> session_reply \<Rightarrow> err \<times> 'd"
  ia_send_alloc :: "'d \<Rightarrow> u8 \<times> u8 \<Rightarrow> alloc_payload \<Rightarrow> err \<times> 'd"
  ia_al1_alloc_appid :: "bytes \<Rightarrow> 'a \<Rightarrow> bool \<times> bytes \<times> 'a"
  ia_al1_alloc :: "bytes \<Rightarrow> 'a \<Rightarrow> bool \<times> bytes \<times> 'a"
  ia_al1_release :: "bytes \<Rightarrow> 'a \<Rightarrow> bool \<times> bytes \<times> 'a"
  ia_al1_error :: "bytes \<Rightarrow> bytes"

definition axiom_allocator_l1 :: "('d, 'a) init_api \<Rightarrow> u8 \<Rightarrow> alloc_payload \<Rightarrow> 'd \<Rightarrow> 'a \<Rightarrow> 'd \<times> 'a" where
  "axiom_allocator_l1 api src p dev al = (
     let (reply, p, al) = (case al_command p of
         AXIOM_CMD_ALLOC_APPID \<Rightarrow> (let (r, i, al) = ia_al1_alloc_appid api (al_info p) al
           in (r, p\<lparr>al_command := AXIOM_CMD_ALLOC_APPID_REPLY, al_info := i\<rparr>, al))
       | AXIOM_CMD_ALLOC \<Rightarrow> (let (r, i, al) = ia_al1_alloc api (al_info p) al
           in (r, p\<lparr>al_command := AXIOM_CMD_ALLOC_REPLY, al_info := i\<rparr>, al))
       | AXIOM_CMD_ALLOC_RELEASE \<Rightarrow> (let (r, i, al) = ia_al1_release api (al_info p) al in (r, p\<lparr>al_info := i\<rparr>, al))
       | _ \<Rightarrow> (True, p\<lparr>al_info := ia_al1_error api (al_info p)\<rparr>, al))
     in (if reply then snd (ia_send_alloc api dev (src, al_reply_port p) p) else dev, al))"

section \<open>The daemon\<close>

text \<open>A message: the payload is read as its command says.\<close>

datatype daemon_msg = IM_REQ_ID dscv_msg | IM_START_DISCOVERY | IM_PING ping_payload | IM_TRACEROUTE trace_payload
  | IM_SPAWN_REQ spawn_req | IM_SESSION_REQ session_req | IM_ALLOC alloc_payload | IM_OTHER axiom_cmd

record ('d, 'a) daemon =
  dm_dev :: 'd
  dm_topology :: topology
  dm_table :: "u8 list"
  dm_spawn :: spawn_state
  dm_al1 :: 'a
  dm_saved :: "string list option"

text \<open>The options: whether the table is saved after a discovery (the file is the one of the option that
  loads it), whether that file can be written, and the undefined result of \<open>__builtin_ctzl\<close>.\<close>

record init_opts =
  io_master :: bool
  io_node_id :: "u8 option"
  io_routing :: "string list option option"
  io_save :: bool
  io_open_ok :: bool
  io_ctz0 :: nat

definition save_table :: "('d, 'a) init_api \<Rightarrow> init_opts \<Rightarrow> ('d, 'a) daemon \<Rightarrow> (int \<times> ('d, 'a) daemon) option" where
  "save_table api o1 d = (if io_save o1
     then do {
       (r, f) \<leftarrow> axiom_rt_to_file (ia_nic api) (io_ctz0 o1) (io_open_ok o1) (dm_dev d);
       Some (r, d\<lparr>dm_saved := (case f of None \<Rightarrow> dm_saved d | Some ls \<Rightarrow> Some ls)\<rparr>)
     }
     else Some (0, d))"

definition run_master :: "('d, 'a) init_api \<Rightarrow> ('d, 'a) daemon \<Rightarrow> ('d, 'a) daemon option" where
  "run_master api d = do {
     (_, dev, topology, table) \<leftarrow> axiom_discovery_master (ia_nic api) (dm_dev d) (dm_topology d) (dm_table d);
     Some (d\<lparr>dm_dev := dev, dm_topology := topology, dm_table := table\<rparr>)
   }"

definition run_slave :: "('d, 'a) init_api \<Rightarrow> u8 \<Rightarrow> dscv_msg \<Rightarrow> ('d, 'a) daemon \<Rightarrow> ('d, 'a) daemon option" where
  "run_slave api src m d = do {
     (_, dev, topology, table) \<leftarrow> axiom_discovery_slave (ia_nic api) (dm_dev d) src m (dm_topology d) (dm_table d);
     Some (d\<lparr>dm_dev := dev, dm_topology := topology, dm_table := table\<rparr>)
   }"

text \<open>The start, after the options: the node id, then the discovery or the table of the file. The first component
  is false when the daemon ends here.\<close>

definition init_start :: "('d, 'a) init_api \<Rightarrow> init_opts \<Rightarrow> ('d, 'a) daemon \<Rightarrow> (bool \<times> ('d, 'a) daemon) option" where
  "init_start api o1 d = (
     let d = d\<lparr>dm_spawn := axiom_spawn_init (ia_spawn api) (dm_spawn d),
               dm_dev := (case io_node_id o1 of None \<Rightarrow> dm_dev d | Some n \<Rightarrow> axiom_set_node_id (ia_nic api) (dm_dev d) n)\<rparr>
     in if io_master o1
        then do { d \<leftarrow> run_master api d; (r, d) \<leftarrow> save_table api o1 d; Some (r = 0, d) }
        else case io_routing o1 of
          None \<Rightarrow> Some (True, d)
        | Some file \<Rightarrow> do {
            (r, dev) \<leftarrow> axiom_rt_from_file (ia_nic api) (dm_dev d) file;
            let d = d\<lparr>dm_dev := dev\<rparr>;
            if r \<noteq> 0 then Some (False, d) else do { (r, d) \<leftarrow> save_table api o1 d; Some (r = 0, d) }
          })"

definition init_dispatch :: "('d, 'a) init_api \<Rightarrow> init_opts \<Rightarrow> u8 \<Rightarrow> daemon_msg \<Rightarrow> ('d, 'a) daemon \<Rightarrow> ('d, 'a) daemon option" where
  "init_dispatch api o1 src msg d = (case msg of
       IM_REQ_ID m \<Rightarrow> do { d \<leftarrow> run_slave api src m d; (_, d) \<leftarrow> save_table api o1 d; Some d }
     | IM_START_DISCOVERY \<Rightarrow> do { d \<leftarrow> run_master api d; (_, d) \<leftarrow> save_table api o1 d; Some d }
     | IM_PING p \<Rightarrow> Some (d\<lparr>dm_dev := axiom_pong (ia_ping api) (dm_dev d) src p\<rparr>)
     | IM_TRACEROUTE p \<Rightarrow> Some (d\<lparr>dm_dev := axiom_traceroute_reply (ia_trace api) (dm_dev d) p\<rparr>)
     | IM_SPAWN_REQ m \<Rightarrow> map_option (\<lambda>s. d\<lparr>dm_spawn := s\<rparr>) (axiom_spawn_req (ia_spawn api) m (dm_spawn d))
     | IM_SESSION_REQ m \<Rightarrow> do {
         (r, ses) \<leftarrow> axiom_session (AXIOM_SESSION_EMPTY (ia_spawn api)) src m (sp_sessions (dm_spawn d));
         let d = d\<lparr>dm_spawn := (dm_spawn d)\<lparr>sp_sessions := ses\<rparr>\<rparr>;
         Some (case r of None \<Rightarrow> d | Some (n, port, m) \<Rightarrow> d\<lparr>dm_dev := snd (ia_send_session api (dm_dev d) (n, port) m)\<rparr>)
       }
     | IM_ALLOC p \<Rightarrow> (let (dev, al) = axiom_allocator_l1 api src p (dm_dev d) (dm_al1 d) in Some (d\<lparr>dm_dev := dev, dm_al1 := al\<rparr>))
     | IM_OTHER _ \<Rightarrow> Some d)"

text \<open>The loop: \<open>select\<close> is interrupted or fails, a receive fails, or a message comes from the local socket (its
  source is then not set) or from the NIC.\<close>

datatype init_event = IE_INTR | IE_ERROR | IE_RECV_ERROR | IE_SOCKET u8 daemon_msg | IE_NIC u8 daemon_msg

fun init_loop :: "('d, 'a) init_api \<Rightarrow> init_opts \<Rightarrow> init_event list \<Rightarrow> ('d, 'a) daemon \<Rightarrow> ('d, 'a) daemon option" where
  "init_loop api o1 [] d = Some d"
| "init_loop api o1 (IE_INTR # es) d = init_loop api o1 es d"
| "init_loop api o1 (IE_ERROR # es) d = Some d"
| "init_loop api o1 (IE_RECV_ERROR # es) d = Some d"
| "init_loop api o1 (IE_SOCKET src m # es) d = do { d \<leftarrow> init_dispatch api o1 src m d; init_loop api o1 es d }"
| "init_loop api o1 (IE_NIC src m # es) d = do { d \<leftarrow> init_dispatch api o1 src m d; init_loop api o1 es d }"

section \<open>A table survives its file\<close>

lemma routing_reg_bit:
  assumes "sim_ok c d" "i < AXIOM_NODES_NUM c" "AXIOM_NODES_NUM c \<le> 256" "bit (routing_reg c d i) b"
  shows "b \<le> AXIOM_INTERFACES_MAX c" "b < 8"
proof -
  have "unat (of_nat i :: u8) = i" using assms(2,3) by simp
  then show "b \<le> AXIOM_INTERFACES_MAX c" "b < 8"
    using sim_get_routing_row [OF assms(1), of "of_nat i" 0] assms(2,4) by (auto simp: routing_reg_def bit_row_mask)
qed

lemma read_table_regs:
  assumes "sim_registers api" "sim_ok api d"
  shows "read_table api d = Some (map (routing_reg api d) [0..<AXIOM_NODES_NUM api])"
proof -
  let ?n = "AXIOM_NODES_NUM api" and ?r = "routing_reg api d"
  let ?I = "\<lambda>k t. t = map ?r [0..<k] @ replicate (?n - k) 0"
  let ?f = "\<lambda>i t. do { v \<leftarrow> aget t i; (_, m) \<leftarrow> axiom_get_routing api d (of_nat i) v; aset t i m }"
  have "\<exists>t. for_each ?f [0..<?n] (replicate ?n 0) = Some t \<and> ?I (length [0..<?n]) t"
  proof (rule for_each_rule [where I = ?I])
    fix k t
    assume k: "k < length [0..<?n]" and t: "?I k t"
    have u: "unat (of_nat k :: u8) = k" using k assms(1) by (simp add: sim_registers_def)
    have "axiom_get_routing api d (of_nat k) v = Some (AXIOM_RET_OK api, ?r k)" for v
      using sim_get_routing_row [OF assms(2), of "of_nat k"] u k assms(1) by (simp add: routing_reg_def sim_registers_def)
    moreover have "replicate (?n - k) 0 = (0 :: u8) # replicate (?n - Suc k) 0"
      using k by (simp add: Suc_diff_Suc flip: replicate_Suc)
    ultimately show "\<exists>t'. ?f ([0..<?n] ! k) t = Some t' \<and> ?I (Suc k) t'"
      using k t by (simp add: aget_def aset_def list_update_append)
  qed simp
  then show ?thesis by (simp add: read_table_def)
qed

text \<open>The lowest interface of a mask.\<close>

lemma ctz8_lowest:
  assumes "bit (m :: u8) j"
  shows "bit m (ctz8 z m) \<and> (\<forall>i<ctz8 z m. \<not> bit m i)"
proof -
  have "j < 8" using assms bit_imp_le_length by fastforce
  have "List.find (bit m) [0..<8] \<noteq> None" using assms \<open>j < 8\<close> by (auto simp: find_None_iff)
  then obtain b where b: "List.find (bit m) [0..<8] = Some b" by blast
  then have "bit m b \<and> (\<forall>i<b. \<not> bit m i)" by (auto simp: find_Some_iff)
  with b show ?thesis by (simp add: ctz8_def)
qed

lemma ctz8_zero: "ctz8 z 0 = z"
proof -
  have "List.find (bit (0 :: u8)) [0..<8] = None" by (simp add: find_None_iff)
  then show ?thesis by (simp add: ctz8_def)
qed

lemma rt_line_print: "b < 31 \<Longrightarrow> i < length t \<Longrightarrow> rt_line n (print_int (int b) @ [CHR 0x0A], i) t = Some (t[i := 2 ^ b])"
  by (simp add: rt_line_def print_int_def strtol_print starts_digit_def digit_val_def LONG_MAX_def shl1_u8_def push_bit_eq_mult)

lemma rt_lines_print:
  assumes "\<forall>b\<in>set bs. b < 31"
  shows "for_each (rt_line n) (zip (map (\<lambda>b. print_int (int b) @ [CHR 0x0A]) bs) [0..<length bs]) (replicate (length bs) 0)
    = Some (map (\<lambda>b. 2 ^ b) bs)"
proof -
  let ?xs = "zip (map (\<lambda>b. print_int (int b) @ [CHR 0x0A]) bs) [0..<length bs]"
  let ?I = "\<lambda>k t. t = map (\<lambda>b. 2 ^ b) (take k bs) @ replicate (length bs - k) (0 :: u8)"
  have "\<exists>t. for_each (rt_line n) ?xs (replicate (length bs) 0) = Some t \<and> ?I (length ?xs) t"
  proof (rule for_each_rule [where I = ?I])
    fix k t
    assume k: "k < length ?xs" and t: "?I k t"
    have "replicate (length bs - k) 0 = (0 :: u8) # replicate (length bs - Suc k) 0"
      using k by (simp add: Suc_diff_Suc flip: replicate_Suc)
    then show "\<exists>t'. rt_line n (?xs ! k) t = Some t' \<and> ?I (Suc k) t'"
      using k t assms by (simp add: rt_line_print list_update_append take_Suc_conv_app_nth)
  qed simp
  then show ?thesis by simp
qed

text \<open>C24: Saving a routing table and loading the file again, on any node of the same size, gives every node that has a route in the table
  the route over the lowest interface of its mask; a table with one interface per node is restored as it was. When nodes have no route
  (\<open>__builtin_ctzl\<close> is then called with 0 and its result \<open>ctz0\<close> is not defined by the compiler) this needs \<open>ctz0\<close> to be one of 0 to 30, since the loading
  program shifts by it, and these nodes get the bit \<open>ctz0\<close>, if there is such an interface.\<close>

theorem rt_file_roundtrip:
  assumes "sim_registers api" "sim_ok api d" "sim_ok api d0" "\<forall>i<AXIOM_NODES_NUM api. routing_reg api d i = 0 \<longrightarrow> ctz0 < 31"
  shows "\<exists>ls d'. axiom_rt_to_file api ctz0 True d = Some (0, Some ls)
    \<and> axiom_rt_from_file api d0 (Some ls) = Some (0, d') \<and> sim_node_id d' = sim_node_id d0
    \<and> (\<forall>i<AXIOM_NODES_NUM api. if routing_reg api d i = 0 then routing_reg api d' i = 2 ^ ctz0 AND sim_mask api
         else \<exists>b. bit (routing_reg api d i) b \<and> (\<forall>j<b. \<not> bit (routing_reg api d i) j) \<and> routing_reg api d' i = 2 ^ b)"
proof -
  let ?n = "AXIOM_NODES_NUM api"
  let ?b = "\<lambda>i. ctz8 ctz0 (routing_reg api d i)"
  let ?bs = "map ?b [0..<?n]"
  have n: "?n \<le> 256" using assms(1) by (simp add: sim_registers_def)
  have low: "bit (routing_reg api d i) (?b i) \<and> (\<forall>j<?b i. \<not> bit (routing_reg api d i) j)" if "i < ?n" "routing_reg api d i \<noteq> 0" for i
    using ctz8_lowest that bit_eq_iff [of "routing_reg api d i" 0] by auto
  have b: "?b i \<le> AXIOM_INTERFACES_MAX api \<and> ?b i < 8" if "i < ?n" "routing_reg api d i \<noteq> 0" for i
    using routing_reg_bit [OF assms(2) that(1) n] low [OF that] by auto
  have zero: "?b i = ctz0" if "routing_reg api d i = 0" for i using that by (simp add: ctz8_zero)
  have b31: "?b i < 31" if "i < ?n" for i
  proof (cases "routing_reg api d i = 0")
    case True
    with assms(4) that zero show ?thesis by simp
  next
    case False
    with b [OF that] show ?thesis by simp
  qed
  let ?ls = "map (\<lambda>b. print_int (int b) @ [CHR 0x0A]) ?bs"
  have save: "axiom_rt_to_file api ctz0 True d = Some (0, Some ?ls)"
    using read_table_regs [OF assms(1,2)] by (simp add: axiom_rt_to_file_def)
  have load: "for_each (rt_line (AXIOM_INTERFACES_MAX api)) (zip ?ls [0..<?n]) (replicate ?n 0) = Some (map (\<lambda>b. 2 ^ b) ?bs)"
    using rt_lines_print [of ?bs "AXIOM_INTERFACES_MAX api"] b31 by simp
  from sim.write_array [OF assms(3), of "map (\<lambda>b. 2 ^ b) ?bs" ?n] n obtain d' where
    d': "for_each (\<lambda>i d. do { v \<leftarrow> aget (map (\<lambda>b. 2 ^ b) ?bs) i; (_, d') \<leftarrow> sim_set_routing api d (of_nat i) v; Some d' })
        [0..<?n] d0 = Some d'" "sim_get_node_id d' = sim_get_node_id d0"
      "\<forall>j<?n. routing_reg api d' j = 2 ^ ?b j AND sim_mask api" by (auto simp: sim.rt_of_def simp flip: routing_reg_def)
  have reg: "routing_reg api d' i = 2 ^ ?b i" if "i < ?n" "routing_reg api d i \<noteq> 0" for i
  proof -
    have "2 ^ ?b i AND sim_mask api = 2 ^ ?b i"
      using b [OF that] by (intro bit_word_eqI) (auto simp: bit_and_iff bit_mask_iff sim_mask_def bit_exp_iff)
    then show ?thesis using d'(3) that(1) by simp
  qed
  have "axiom_rt_from_file api d0 (Some ?ls) = Some (0, d')"
    using load d'(1) assms(1) by (simp add: axiom_rt_from_file_def sim_registers_def)
  with save low reg zero d'(2,3) show ?thesis by (auto simp: sim_get_node_id_def)
qed

section \<open>The services\<close>

text \<open>A message of a service, with the buffer of its type and a session number other than 32, which the code accepts and
  shifts by (\<open>session_release_bound\<close> shows that this message is undefined).\<close>

definition service_msg :: "spawn_consts \<Rightarrow> daemon_msg \<Rightarrow> bool" where
  "service_msg k msg = (case msg of
       IM_REQ_ID _ \<Rightarrow> False
     | IM_START_DISCOVERY \<Rightarrow> False
     | IM_SPAWN_REQ m \<Rightarrow> length (sq_data m) = AXIOM_SPAWN_MAX_DATA_SIZE k \<and> unat (sq_session_id m) \<noteq> 32
     | IM_SESSION_REQ m \<Rightarrow> unat (sr_session_id m) \<noteq> 32
     | _ \<Rightarrow> True)"

fun service_event :: "spawn_consts \<Rightarrow> init_event \<Rightarrow> bool" where
  "service_event k (IE_SOCKET _ m) = service_msg k m"
| "service_event k (IE_NIC _ m) = service_msg k m"
| "service_event k _ = True"

lemma axiom_session_total:
  assumes "unat (sr_session_id m) \<noteq> 32"
  shows "\<exists>r x'. axiom_session e src m x = Some (r, x')"
proof -
  obtain u where "session_used (sr_session_id m) x = Some u" "u \<longrightarrow> unat (sr_session_id m) < 32"
    using session_used_total [OF assms] by blast
  moreover have "\<exists>r x'. session_next e x = Some (r, x')"
    using ctz32_Min [of x] Min_free_sessions [of x] free_sessions_empty [of x] by (auto simp: session_next_def)
  ultimately show ?thesis by (auto simp: axiom_session_def session_release_def)
qed

definition daemon_ok :: "spawn_consts \<Rightarrow> ('d, 'a) daemon \<Rightarrow> bool" where
  "daemon_ok k d \<longleftrightarrow> spawn_ok k (dm_spawn d)"

lemma dispatch_service:
  assumes "spawn_consts_ok (ia_spawn api)" "daemon_ok (ia_spawn api) d" "service_msg (ia_spawn api) m"
  shows "\<exists>d'. init_dispatch api o1 src m d = Some d' \<and> daemon_ok (ia_spawn api) d' \<and> dm_topology d' = dm_topology d
    \<and> dm_table d' = dm_table d \<and> dm_saved d' = dm_saved d"
proof (cases m)
  case (IM_SPAWN_REQ r)
  then show ?thesis using spawn_req_ok [OF assms(1), of "dm_spawn d" r] assms(2,3)
    by (auto simp: init_dispatch_def service_msg_def daemon_ok_def)
next
  case (IM_SESSION_REQ r)
  then obtain x ses where "axiom_session (AXIOM_SESSION_EMPTY (ia_spawn api)) src r (sp_sessions (dm_spawn d)) = Some (x, ses)"
    using axiom_session_total assms(3) by (fastforce simp: service_msg_def)
  with IM_SESSION_REQ assms(2) show ?thesis
    by (auto simp: init_dispatch_def daemon_ok_def spawn_ok_def Let_def split: option.split)
qed (use assms(2,3) in \<open>auto simp: init_dispatch_def service_msg_def daemon_ok_def split: prod.split\<close>)

text \<open>The loop of the daemon as a service: one event, and the sequence of them.\<close>

fun init_event_step :: "('d, 'a) init_api \<Rightarrow> init_opts \<Rightarrow> init_event \<Rightarrow> ('d, 'a) daemon \<Rightarrow> (ctl \<times> ('d, 'a) daemon) option" where
  "init_event_step api o1 IE_INTR d = Some (Next, d)"
| "init_event_step api o1 IE_ERROR d = Some (Break, d)"
| "init_event_step api o1 IE_RECV_ERROR d = Some (Break, d)"
| "init_event_step api o1 (IE_SOCKET src m) d = map_option (Pair Next) (init_dispatch api o1 src m d)"
| "init_event_step api o1 (IE_NIC src m) d = map_option (Pair Next) (init_dispatch api o1 src m d)"

lemma init_loop_events: "init_loop api o1 es d = for_ctl (init_event_step api o1) es d"
  by (induction api o1 es d rule: init_loop.induct) (auto simp: map_option_case split: option.split bind_splits)

interpretation daemon: event_service "init_event_step api o1" "service_event (ia_spawn api)"
  "\<lambda>d. spawn_consts_ok (ia_spawn api) \<and> daemon_ok (ia_spawn api) d" "\<lambda>d. (dm_topology d, dm_table d, dm_saved d)" for api :: "('a, 'b) init_api" and o1
proof unfold_locales
  fix e and d :: "('a, 'b) daemon"
  assume "service_event (ia_spawn api) e" "spawn_consts_ok (ia_spawn api) \<and> daemon_ok (ia_spawn api) d"
  then show "\<exists>k d'. init_event_step api o1 e d = Some (k, d') \<and> (spawn_consts_ok (ia_spawn api) \<and> daemon_ok (ia_spawn api) d')
      \<and> (dm_topology d', dm_table d', dm_saved d') = (dm_topology d, dm_table d, dm_saved d)"
    using dispatch_service [of api d] by (cases e) fastforce+
qed

text \<open>C22: The daemon handles every sequence of messages for its services (pings, traces, spawn, session and allocator requests) that do not name the
  session number 32, from the network or the local socket, in any order and interleaved with errors: no array access or shift is
  undefined, the spawn slots keep their invariant, and the topology and the routing table of the discovery are not touched. A spawn or session request
  with the session number 32 is excluded, because the range check of \<open>session_used\<close> lets it through to a shift by 32.\<close>

theorem daemon_services_safe:
  assumes "spawn_consts_ok (ia_spawn api)" "daemon_ok (ia_spawn api) d" "\<forall>e\<in>set es. service_event (ia_spawn api) e"
  shows "\<exists>d'. init_loop api o1 es d = Some d' \<and> daemon_ok (ia_spawn api) d' \<and> dm_topology d' = dm_topology d
    \<and> dm_table d' = dm_table d \<and> dm_saved d' = dm_saved d"
  using daemon.serves [of es api d o1] assms unfolding init_loop_events by auto

section \<open>Instances\<close>

text \<open>Node 0 of the small network, with its routes over interfaces 0 and 1.\<close>

definition demo_routes :: demo_dev where
  "demo_routes = (demo_node 0)\<lparr>local_routing := [[1, 0, 0, 0], [0, 1, 0, 0], [0, 1, 1, 0], [1, 0, 0, 0]]\<rparr>"

lemma demo_routes_ok: "sim_ok demo_api demo_routes" "i < 4 \<Longrightarrow> routing_reg demo_api demo_routes i \<noteq> 0"
proof -
  show "sim_ok demo_api demo_routes" by (simp add: sim_ok_def demo_routes_def is_table_def)
  assume "i < 4"
  then have "i \<in> {0, 1, 2, 3}" by auto
  then show "routing_reg demo_api demo_routes i \<noteq> 0" by (elim insertE emptyE; simp; code_simp)
qed

theorem rt_file_roundtrip_witness:
  "\<exists>ls d'. axiom_rt_to_file demo_api 0 True demo_routes = Some (0, Some ls)
    \<and> axiom_rt_from_file demo_api (demo_node 3) (Some ls) = Some (0, d') \<and> sim_node_id d' = 3"
proof -
  have "sim_node_id (demo_node 3) = 3" by (simp add: demo_node_def)
  then show ?thesis
    using rt_file_roundtrip [OF demo_registers demo_routes_ok(1) demo_sim_ok [of 3], of 0] demo_routes_ok(2) by auto
qed

definition demo_init :: "(demo_dev, nat) init_api" where
  "demo_init = \<lparr>ia_nic = demo_api,
     ia_trace = \<lparr>ta_is_ok = (\<lambda>e. 0 \<le> e), ta_nodes_max = 3, ta_open = True, ta_bind = True, ta_node_id = sim_get_node_id,
       ta_next_hop = (\<lambda>d n. (0, 0)), ta_send_data = (\<lambda>d n m. (0, d)), ta_send_neighbour = (\<lambda>d i m. (0, d)), ta_recv = (\<lambda>d. None)\<rparr>,
     ia_ping = \<lparr>pg_is_ok = (\<lambda>e. 0 \<le> e), pg_notreach = - 2, pg_intr = - 3, pg_send = (\<lambda>d n m. (0, d)), pg_recv = (\<lambda>d. None)\<rparr>,
     ia_spawn = demo_spawn_consts, ia_send_session = (\<lambda>d n m. (0, d)), ia_send_alloc = (\<lambda>d n m. (0, d)),
     ia_al1_alloc_appid = (\<lambda>b a. (True, b, Suc a)), ia_al1_alloc = (\<lambda>b a. (True, b, a)), ia_al1_release = (\<lambda>b a. (False, b, a)),
     ia_al1_error = (\<lambda>b. b)\<rparr>"

definition demo_daemon :: "(demo_dev, nat) daemon" where
  "demo_daemon = \<lparr>dm_dev = demo_node 0, dm_topology = [], dm_table = [0, 1, 1, 2], dm_spawn = demo_spawn, dm_al1 = 0, dm_saved = None\<rparr>"

definition demo_init_opts :: init_opts where
  "demo_init_opts = \<lparr>io_master = False, io_node_id = None, io_routing = None, io_save = False, io_open_ok = True, io_ctz0 = 0\<rparr>"

definition demo_init_events :: "init_event list" where
  "demo_init_events =
     [IE_NIC 1 (IM_SESSION_REQ \<lparr>sr_command = AXIOM_CMD_SESSION_REQ, sr_reply_port = 2, sr_session_id = 255\<rparr>), IE_INTR,
      IE_SOCKET 0 (IM_SPAWN_REQ (spawn_msg 3 AXIOM_SPAWN_TYPE_ARG 2 [65, 66])),
      IE_NIC 2 (IM_ALLOC \<lparr>al_command = AXIOM_CMD_ALLOC, al_reply_port = 1, al_info = []\<rparr>)]"

theorem daemon_services_safe_witness:
  "\<exists>d'. init_loop demo_init demo_init_opts demo_init_events demo_daemon = Some d'
    \<and> daemon_ok demo_spawn_consts d' \<and> dm_table d' = [0, 1, 1, 2]"
proof -
  have "spawn_ok demo_spawn_consts demo_spawn" unfolding demo_spawn_def by (rule spawn_init_ok) simp
  then have ok: "daemon_ok (ia_spawn demo_init) demo_daemon" "ia_spawn demo_init = demo_spawn_consts"
    "dm_table demo_daemon = [0, 1, 1, 2]" by (simp_all add: daemon_ok_def demo_daemon_def demo_init_def)
  have ev: "\<forall>e\<in>set demo_init_events. service_event (ia_spawn demo_init) e"
    by (simp add: demo_init_events_def service_msg_def spawn_msg_def demo_init_def demo_spawn_consts_def)
  show ?thesis using daemon_services_safe [OF _ ok(1) ev, of demo_init_opts] demo_spawn_consts_ok ok(2,3) by auto
qed

end
