(* ===== verification/Netperf.thy ===== *)
theory Netperf
  imports C_Numbers Nic_Api "HOL-Library.Multiset"
begin

text \<open>
  The throughput measurement \<open>axiom-netperf\<close>: the client threads that share the counters of a transfer
  (\<open>axiom-netperf/axiom-netperf-client.c\<close>), the server (\<open>axiom-netperf/axiom-netperf-server.c\<close>), and the length option
  (\<open>axiom-netperf/axiom-netperf.c\<close>). The sizes that the NIC headers define are parameters; the time
  stamps of the client, which are only printed, are left out.
\<close>

section \<open>Data\<close>

datatype np_state = AXN_STATE_NULL | AXN_STATE_INIT | AXN_STATE_START | AXN_STATE_END | AXN_STATE_STOP | AXN_STATE_ERROR

datatype np_type = AXNP_NONE | AXNP_RAW | AXNP_LONG | AXNP_RDMA

record np_consts =
  AXIOM_RAW_PAYLOAD_MAX_SIZE :: u64
  AXIOM_LONG_PAYLOAD_MAX_SIZE :: u64
  AXIOM_RDMA_PAYLOAD_MAX_SIZE :: u64
  AXIOM_RDMA_ADDRESS_ALIGNMENT :: u64
  axiom_raw_hdr_size :: u64
  axiom_rdma_hdr_size :: u64

record netperf_payload =
  np_command :: axiom_cmd
  np_total_bytes :: u64
  np_elapsed_time :: u64
  np_ptype :: np_type
  np_magic :: u64
  np_error :: u8
  np_reply_port :: u8

record np_client =
  nc_payload_size :: u64
  nc_total_packets :: u64
  nc_total_bytes :: u64
  nc_sent_bytes :: u64
  nc_sent_raw_bytes :: u64
  nc_rdma_size :: u64
  nc_magic :: u64

record np_server =
  sv_start_ts :: u64
  sv_cur_ts :: u64
  sv_expected_bytes :: u64
  sv_received_bytes :: u64
  sv_reply_port :: u8

record np_status =
  ns_state :: np_state
  ns_type :: np_type
  ns_server_id :: u8
  ns_client_port :: u8
  ns_server_port :: u8
  ns_client :: np_client

section \<open>Options\<close>

definition get_scale :: "char \<Rightarrow> nat" where
  "get_scale c = (if c \<in> {CHR ''b'', CHR ''B''} then 0 else if c \<in> {CHR ''k'', CHR ''K''} then 10
     else if c \<in> {CHR ''m'', CHR ''M''} then 20 else if c \<in> {CHR ''G'', CHR ''g''} then 30 else 0)"

text \<open>\<open>%u\<close> on 32 bits reads an \<open>unsigned long\<close>, clamped to its range, and keeps the low bits.\<close>

definition scanned_u32 :: "int \<Rightarrow> u32" where
  "scanned_u32 n = (if \<bar>n\<bar> < 2 ^ 64 then of_int n else - 1)"

text \<open>The option \<open>-l\<close>: a number and a character, which stays \<open>B\<close> when it is missing. On an empty argument
  \<open>sscanf\<close> returns \<open>EOF\<close>, which is not 0, and the default length stays. The number of bytes is computed on
  32 bits.\<close>

definition AXIOM_NETPERF_DEF_DATA_LENGTH :: u32 where "AXIOM_NETPERF_DEF_DATA_LENGTH = 1024"
definition AXIOM_NETPERF_DEF_CHAR_SCALE :: char where "AXIOM_NETPERF_DEF_CHAR_SCALE = CHR ''B''"

definition length_option :: "string \<Rightarrow> (u32 \<times> nat) option" where
  "length_option arg = (if dropWhile is_space arg = [] then Some (AXIOM_NETPERF_DEF_DATA_LENGTH, get_scale AXIOM_NETPERF_DEF_CHAR_SCALE)
     else case scan_d arg of
       None \<Rightarrow> None
     | Some (n, rest) \<Rightarrow> Some (scanned_u32 n, get_scale (case rest of [] \<Rightarrow> AXIOM_NETPERF_DEF_CHAR_SCALE | c # _ \<Rightarrow> c)))"

definition np_total :: "u32 \<Rightarrow> nat \<Rightarrow> u64" where
  "np_total data_length data_scale = ucast (push_bit data_scale data_length)"

section \<open>The client\<close>

definition size_init :: "u64 \<Rightarrow> u64 \<Rightarrow> np_client \<Rightarrow> np_client option" where
  "size_init dflt max_size c = (let c = (if nc_payload_size c = 0 then c\<lparr>nc_payload_size := dflt\<rparr> else c)
     in if nc_payload_size c < 1 \<or> nc_payload_size c > max_size then None else Some c)"

definition axnetperf_raw_init :: "np_consts \<Rightarrow> np_client \<Rightarrow> np_client option" where
  "axnetperf_raw_init k c = size_init (AXIOM_RAW_PAYLOAD_MAX_SIZE k) (AXIOM_RAW_PAYLOAD_MAX_SIZE k) c"

definition axnetperf_long_init :: "np_consts \<Rightarrow> np_client \<Rightarrow> np_client option" where
  "axnetperf_long_init k c = size_init (AXIOM_LONG_PAYLOAD_MAX_SIZE k) (AXIOM_LONG_PAYLOAD_MAX_SIZE k) c"

text \<open>\<open>zone\<close> is the size of the RDMA zone, if it can be mapped. The zone is then filled with the magic number.\<close>

definition axnetperf_rdma_init :: "np_consts \<Rightarrow> u64 option \<Rightarrow> np_client \<Rightarrow> np_client option" where
  "axnetperf_rdma_init k zone c = do {
     c \<leftarrow> size_init (AXIOM_RDMA_PAYLOAD_MAX_SIZE k AND NOT (AXIOM_RDMA_ADDRESS_ALIGNMENT k - 1)) (AXIOM_RDMA_PAYLOAD_MAX_SIZE k) c;
     z \<leftarrow> zone;
     if nc_total_bytes c > z then None else Some (c\<lparr>nc_rdma_size := z\<rparr>)
   }"

text \<open>The start message; what the code does not set is 0 here.\<close>

definition start_payload :: "np_status \<Rightarrow> netperf_payload" where
  "start_payload s = \<lparr>np_command = AXIOM_CMD_NETPERF_START, np_total_bytes = nc_total_bytes (ns_client s), np_elapsed_time = 0,
     np_ptype = ns_type s, np_magic = nc_magic (ns_client s), np_error = 0, np_reply_port = ns_client_port s\<rparr>"

text \<open>The critical sections of a thread. The first thread starts the transfer; in the loop a thread takes the
  next bytes, at most its payload size; a failed send is counted (raw and long messages add, RDMA
  subtracts); the first thread that finds everything taken ends the transfer.\<close>

definition np_enter :: "np_status \<Rightarrow> np_status" where
  "np_enter s = (if ns_state s = AXN_STATE_INIT
     then s\<lparr>ns_state := AXN_STATE_START, ns_client := (ns_client s)\<lparr>nc_sent_bytes := 0\<rparr>\<rparr> else s)"

definition np_take :: "u64 \<Rightarrow> np_client \<Rightarrow> u64 \<times> u64 \<times> np_client" where
  "np_take payload_size c = (
     let left = nc_total_bytes c - nc_sent_bytes c;
         payload_size = (if left < payload_size then left else payload_size)
     in (payload_size, nc_sent_bytes c,
         c\<lparr>nc_total_packets := nc_total_packets c + 1, nc_sent_bytes := nc_sent_bytes c + payload_size\<rparr>))"

definition raw_failed :: "u64 \<Rightarrow> np_client \<Rightarrow> np_client" where
  "raw_failed payload_size c = c\<lparr>nc_total_packets := nc_total_packets c + 1, nc_sent_bytes := nc_sent_bytes c + payload_size\<rparr>"

definition rdma_failed :: "u64 \<Rightarrow> np_client \<Rightarrow> np_client" where
  "rdma_failed payload_size c = c\<lparr>nc_total_packets := nc_total_packets c - 1, nc_sent_bytes := nc_sent_bytes c - payload_size\<rparr>"

definition np_finish :: "u64 \<Rightarrow> np_status \<Rightarrow> np_status" where
  "np_finish hdr_size s = (if ns_state s = AXN_STATE_START
     then s\<lparr>ns_state := AXN_STATE_END, ns_client := (ns_client s)
       \<lparr>nc_sent_raw_bytes := nc_sent_bytes (ns_client s) + nc_total_packets (ns_client s) * hdr_size\<rparr>\<rparr> else s)"

text \<open>The calls of the NIC: data messages of some bytes, control messages to a node and a port, remote writes of
  some bytes at some address, and waiting for a number of them.\<close>

record 'd np_api =
  na_is_ok :: "err \<Rightarrow> bool"
  na_ok :: err
  na_error :: err
  na_send_raw :: "'d \<Rightarrow> u8 \<times> u8 \<Rightarrow> u64 \<Rightarrow> err \<times> 'd"
  na_send_long :: "'d \<Rightarrow> u8 \<times> u8 \<Rightarrow> u64 \<Rightarrow> err \<times> 'd"
  na_send :: "'d \<Rightarrow> u8 \<times> u8 \<Rightarrow> netperf_payload \<Rightarrow> err \<times> 'd"
  na_recv :: "'d \<Rightarrow> (err \<times> u8 \<times> netperf_payload \<times> 'd) option"
  na_rdma_write :: "'d \<Rightarrow> u8 \<Rightarrow> u64 \<times> u64 \<Rightarrow> err \<times> 'd"
  na_rdma_write_sync :: "'d \<Rightarrow> u8 \<Rightarrow> u64 \<times> u64 \<Rightarrow> err \<times> 'd"
  na_rdma_wait :: "'d \<Rightarrow> nat \<Rightarrow> err \<times> 'd"
  na_rdma_zone :: "u64 option"
  na_magic :: u64

text \<open>The loops of one thread that runs alone. Their state: the shared status, the payload size of the thread,
  the number of writes to wait for, the result, and the device.\<close>

record 'd np_loop =
  lp_status :: np_status
  lp_size :: u64
  lp_tokens :: nat
  lp_err :: err
  lp_dev :: 'd

definition np_more :: "'d np_loop \<Rightarrow> bool" where
  "np_more l \<longleftrightarrow> nc_sent_bytes (ns_client (lp_status l)) < nc_total_bytes (ns_client (lp_status l))"

abbreviation set_client :: "np_client \<Rightarrow> np_status \<Rightarrow> np_status" where
  "set_client c s \<equiv> s\<lparr>ns_client := c\<rparr>"

definition raw_long_body :: "'d np_api \<Rightarrow> 'd np_loop \<Rightarrow> (ctl \<times> 'd np_loop) option" where
  "raw_long_body api l = (let s = lp_status l; (sz, off, c) = np_take (lp_size l) (ns_client s);
     dst = (ns_server_id s, ns_server_port s);
     (err, dev) = (if ns_type s = AXNP_RAW then na_send_raw api (lp_dev l) dst sz else na_send_long api (lp_dev l) dst sz);
     l = l\<lparr>lp_size := sz, lp_err := err, lp_dev := dev\<rparr>
     in Some (if na_is_ok api err then (Next, l\<lparr>lp_status := set_client c s\<rparr>)
              else (Break, l\<lparr>lp_status := set_client (raw_failed sz c) s\<rparr>)))"

definition axnetperf_raw_long :: "np_consts \<Rightarrow> 'd np_api \<Rightarrow> np_status \<Rightarrow> 'd \<Rightarrow> (err \<times> np_status \<times> 'd) option" where
  "axnetperf_raw_long k api s dev = do {
     l \<leftarrow> while_ctl np_more (raw_long_body api)
       \<lparr>lp_status = np_enter s, lp_size = nc_payload_size (ns_client s), lp_tokens = 0, lp_err = na_ok api, lp_dev = dev\<rparr>;
     Some (if na_is_ok api (lp_err l) then (0, np_finish (axiom_raw_hdr_size k) (lp_status l), lp_dev l)
           else (lp_err l, lp_status l, lp_dev l))
   }"

text \<open>Asynchronous writes are waited for in groups of \<open>TOKEN_LEN\<close> (without a look at the result), and at the
  end. What follows the loop in the source for a rest of the bytes is never reached: the loop ends with
  nothing left.\<close>

definition TOKEN_LEN :: nat where "TOKEN_LEN = 2048"

definition rdma_async_body :: "'d np_api \<Rightarrow> 'd np_loop \<Rightarrow> (ctl \<times> 'd np_loop) option" where
  "rdma_async_body api l = (let s = lp_status l; (sz, off, c) = np_take (lp_size l) (ns_client s);
     (err, dev) = na_rdma_write api (lp_dev l) (ns_server_id s) (off, sz);
     l = l\<lparr>lp_size := sz, lp_err := err, lp_dev := dev\<rparr>
     in Some (if na_is_ok api err
         then (let i = Suc (lp_tokens l); l = l\<lparr>lp_status := set_client c s\<rparr>
               in (Next, if i = TOKEN_LEN then l\<lparr>lp_tokens := 0, lp_dev := snd (na_rdma_wait api (lp_dev l) i)\<rparr> else l\<lparr>lp_tokens := i\<rparr>))
         else (Break, l\<lparr>lp_status := set_client (rdma_failed sz c) s\<rparr>)))"

definition axnetperf_rdma_async :: "'d np_api \<Rightarrow> np_status \<Rightarrow> 'd \<Rightarrow> (err \<times> np_status \<times> 'd) option" where
  "axnetperf_rdma_async api s dev = do {
     l \<leftarrow> while_ctl np_more (rdma_async_body api)
       \<lparr>lp_status = s, lp_size = nc_payload_size (ns_client s), lp_tokens = 0, lp_err = na_ok api, lp_dev = dev\<rparr>;
     Some (if na_is_ok api (lp_err l)
           then (let (err, dev) = na_rdma_wait api (lp_dev l) (lp_tokens l) in (err, lp_status l, dev))
           else (lp_err l, lp_status l, lp_dev l))
   }"

definition rdma_sync_body :: "'d np_api \<Rightarrow> 'd np_loop \<Rightarrow> (ctl \<times> 'd np_loop) option" where
  "rdma_sync_body api l = (let s = lp_status l; (sz, off, c) = np_take (lp_size l) (ns_client s);
     (err, dev) = na_rdma_write_sync api (lp_dev l) (ns_server_id s) (off, sz);
     l = l\<lparr>lp_size := sz, lp_err := err, lp_dev := dev\<rparr>
     in Some (if na_is_ok api err then (Next, l\<lparr>lp_status := set_client c s\<rparr>)
              else (Break, l\<lparr>lp_status := set_client (rdma_failed sz c) s\<rparr>)))"

definition axnetperf_rdma_sync :: "'d np_api \<Rightarrow> np_status \<Rightarrow> 'd \<Rightarrow> (err \<times> np_status \<times> 'd) option" where
  "axnetperf_rdma_sync api s dev = do {
     l \<leftarrow> while_ctl np_more (rdma_sync_body api)
       \<lparr>lp_status = s, lp_size = nc_payload_size (ns_client s), lp_tokens = 0, lp_err = na_ok api, lp_dev = dev\<rparr>;
     Some (lp_err l, lp_status l, lp_dev l)
   }"

definition end_payload :: "np_status \<Rightarrow> netperf_payload" where
  "end_payload s = \<lparr>np_command = AXIOM_CMD_NETPERF_END, np_total_bytes = nc_sent_bytes (ns_client s), np_elapsed_time = 0,
     np_ptype = ns_type s, np_magic = nc_magic (ns_client s), np_error = 0, np_reply_port = 0\<rparr>"

definition axnetperf_rdma :: "np_consts \<Rightarrow> 'd np_api \<Rightarrow> bool \<Rightarrow> np_status \<Rightarrow> 'd \<Rightarrow> (err \<times> np_status \<times> 'd) option" where
  "axnetperf_rdma k api rdma_sync s dev = do {
     let s = np_enter s;
     (err, s, dev) \<leftarrow> if rdma_sync then axnetperf_rdma_sync api s dev else axnetperf_rdma_async api s dev;
     if \<not> na_is_ok api err then Some (err, s, dev)
     else if ns_state s = AXN_STATE_START
     then (let s = np_finish (axiom_rdma_hdr_size k) s; (err, dev) = na_send api dev (ns_server_id s, ns_server_port s) (end_payload s)
           in Some (if na_is_ok api err then 0 else err, s, dev))
     else Some (0, s, dev)
   }"

definition axnetperf_start :: "'d np_api \<Rightarrow> np_status \<Rightarrow> 'd \<Rightarrow> err \<times> 'd" where
  "axnetperf_start api s dev = (let (err, dev) = na_send api dev (ns_server_id s, ns_server_port s) (start_payload s)
     in (if na_is_ok api err then 0 else err, dev))"

text \<open>The reply of the server; the result says whether it was the expected message, and the error it
  reports.\<close>

definition axnetperf_stop :: "'d np_api \<Rightarrow> np_status \<Rightarrow> 'd \<Rightarrow> (int \<times> netperf_payload \<times> 'd) option" where
  "axnetperf_stop api s dev = do {
     (err, src_node, payload, dev) \<leftarrow> na_recv api dev;
     Some (if \<not> na_is_ok api err \<or> src_node \<noteq> ns_server_id s \<or> np_command payload \<noteq> AXIOM_CMD_NETPERF_END then - 1 else 0,
       payload, dev)
   }"

definition axnetperf_init :: "np_consts \<Rightarrow> 'd np_api \<Rightarrow> np_status \<Rightarrow> np_status option" where
  "axnetperf_init k api s = (let s = set_client ((ns_client s)\<lparr>nc_magic := na_magic api\<rparr>) s in
     map_option (\<lambda>c. set_client c s) (case ns_type s of
       AXNP_RDMA \<Rightarrow> axnetperf_rdma_init k (na_rdma_zone api) (ns_client s)
     | AXNP_RAW \<Rightarrow> axnetperf_raw_init k (ns_client s)
     | AXNP_LONG \<Rightarrow> axnetperf_long_init k (ns_client s)
     | AXNP_NONE \<Rightarrow> None))"

text \<open>A client thread from its start. The result is \<open>AXIOM_RET_OK\<close> or \<open>AXIOM_RET_ERROR\<close>; an error of the
  transfer itself is only seen in the state.\<close>

definition axnetperf_client :: "np_consts \<Rightarrow> 'd np_api \<Rightarrow> bool \<Rightarrow> np_status \<Rightarrow> 'd \<Rightarrow> (err \<times> np_status \<times> 'd) option" where
  "axnetperf_client k api rdma_sync s dev = (
     let (s, dev) = (if ns_state s = AXN_STATE_NULL
       then (case axnetperf_init k api s of
           None \<Rightarrow> (set_client ((ns_client s)\<lparr>nc_magic := na_magic api\<rparr>) s\<lparr>ns_state := AXN_STATE_ERROR\<rparr>, dev)
         | Some s \<Rightarrow> (let (ret, dev) = axnetperf_start api s dev
             in (s\<lparr>ns_state := if ret = 0 then AXN_STATE_INIT else AXN_STATE_ERROR\<rparr>, dev)))
       else (s, dev))
     in if ns_state s = AXN_STATE_ERROR \<or> ns_type s = AXNP_NONE then Some (na_error api, s, dev)
        else do {
          (_, s, dev) \<leftarrow> if ns_type s = AXNP_RDMA then axnetperf_rdma k api rdma_sync s dev else axnetperf_raw_long k api s dev;
          if ns_state s = AXN_STATE_END
          then do {
            let s = s\<lparr>ns_state := AXN_STATE_STOP\<rparr>;
            (ret, _, dev) \<leftarrow> axnetperf_stop api s dev;
            Some (if ret = 0 then na_ok api else na_error api, s, dev)
          }
          else Some (na_ok api, s, dev)
        })"

section \<open>The server\<close>

text \<open>The elapsed time: \<open>timespec_sub\<close> and \<open>timespec2nsec\<close>, on nanoseconds here.\<close>

definition server_reply :: "np_server \<Rightarrow> u8 \<Rightarrow> u8 \<times> netperf_payload" where
  "server_reply sv failed = (sv_reply_port sv, \<lparr>np_command = AXIOM_CMD_NETPERF_END, np_total_bytes = sv_received_bytes sv,
     np_elapsed_time = sv_cur_ts sv - sv_start_ts sv, np_ptype = AXNP_NONE, np_magic = 0, np_error = failed, np_reply_port = 0\<rparr>)"

text \<open>The check of the RDMA zone, eight bytes at a time; the index is an \<open>int\<close> and is compared as 64-bit
  unsigned. \<open>None\<close> is a read outside the zone or an overflow of the index.\<close>

function zone_differs :: "u64 list \<Rightarrow> u64 \<Rightarrow> nat \<Rightarrow> nat \<Rightarrow> bool option" where
  "zone_differs zone magic i n = (if i < n
     then if i < 2 ^ 31
       then do { w \<leftarrow> aget zone (i div 8); if w \<noteq> magic then Some True else zone_differs zone magic (i + 8) n }
       else None
     else Some False)"
  by pat_completeness auto
termination
  by (relation "measure (\<lambda>(_, _, i, n). n - i)") auto

declare zone_differs.simps [simp del]

text \<open>One message of \<open>payload_size\<close> bytes: the new state of the sender's session and the reply. \<open>clock\<close> is the
  time, if \<open>clock_gettime\<close> succeeds.\<close>

definition server_msg ::
  "u64 option \<Rightarrow> u64 list option \<Rightarrow> u64 \<Rightarrow> netperf_payload \<Rightarrow> np_server \<Rightarrow> (np_server \<times> (u8 \<times> netperf_payload) option) option" where
  "server_msg clock zone payload_size p sv = (case clock of
       None \<Rightarrow> Some (sv, None)
     | Some now \<Rightarrow> (let sv = sv\<lparr>sv_cur_ts := now\<rparr> in
         if np_command p = AXIOM_CMD_NETPERF_START
         then Some (sv\<lparr>sv_expected_bytes := np_total_bytes p, sv_received_bytes := 0, sv_reply_port := np_reply_port p, sv_start_ts := now\<rparr>, None)
         else if np_command p = AXIOM_CMD_NETPERF_END
         then (if np_ptype p \<noteq> AXNP_RDMA then Some (sv, None)
               else (let sv = sv\<lparr>sv_received_bytes := np_total_bytes p\<rparr> in
                     case zone of
                       None \<Rightarrow> Some (sv, Some (server_reply sv 1))
                     | Some z \<Rightarrow> do {
                         bad \<leftarrow> zone_differs z (np_magic p) 0 (unat (sv_received_bytes sv));
                         Some (sv, Some (server_reply sv (if bad then 1 else 0)))
                       }))
         else if np_command p = AXIOM_CMD_NETPERF
         then (let sv = sv\<lparr>sv_received_bytes := sv_received_bytes sv + payload_size\<rparr>
               in Some (sv, if sv_received_bytes sv \<ge> sv_expected_bytes sv then Some (server_reply sv 0) else None))
         else Some (sv, None)))"

text \<open>The messages of one sender, each with its time; the replies in their order.\<close>

fun server_run :: "(u64 \<times> u64 \<times> netperf_payload) list \<Rightarrow> u64 list option \<Rightarrow> np_server \<Rightarrow> (np_server \<times> (u8 \<times> netperf_payload) list) option" where
  "server_run [] zone sv = Some (sv, [])"
| "server_run ((now, sz, p) # ms) zone sv = do {
     (sv, r) \<leftarrow> server_msg (Some now) zone sz p sv;
     (sv, rs) \<leftarrow> server_run ms zone sv;
     Some (sv, (case r of None \<Rightarrow> [] | Some r \<Rightarrow> [r]) @ rs)
   }"

section \<open>The threads together\<close>

text \<open>Where a thread is: before the transfer, at the head of the loop, in a send of some bytes at some position,
  after the loop, or ended by a failed send.\<close>

datatype np_pc = NP_ENTER | NP_LOOP | NP_SEND u64 u64 | NP_DONE | NP_FAILED

record np_sys =
  sys_status :: np_status
  sys_pc :: "nat \<Rightarrow> np_pc"
  sys_size :: "nat \<Rightarrow> u64"
  sys_log :: "(u64 \<times> u64) list"

text \<open>The steps of the threads. The log has the messages in the order in which they were sent; \<open>n\<close> is the number
  of threads. A thread whose send fails changes the counters once more and returns.\<close>

inductive np_step :: "u64 \<Rightarrow> nat \<Rightarrow> np_sys \<Rightarrow> np_sys \<Rightarrow> bool" for hs n where
  enter: "t < n \<Longrightarrow> sys_pc s t = NP_ENTER
    \<Longrightarrow> np_step hs n s (s\<lparr>sys_status := np_enter (sys_status s), sys_pc := (sys_pc s)(t := NP_LOOP)\<rparr>)"
| take: "t < n \<Longrightarrow> sys_pc s t = NP_LOOP \<Longrightarrow> nc_sent_bytes (ns_client (sys_status s)) < nc_total_bytes (ns_client (sys_status s))
    \<Longrightarrow> np_take (sys_size s t) (ns_client (sys_status s)) = (sz, off, c)
    \<Longrightarrow> np_step hs n s (s\<lparr>sys_status := (sys_status s)\<lparr>ns_client := c\<rparr>, sys_pc := (sys_pc s)(t := NP_SEND off sz), sys_size := (sys_size s)(t := sz)\<rparr>)"
| sent: "t < n \<Longrightarrow> sys_pc s t = NP_SEND off sz
    \<Longrightarrow> np_step hs n s (s\<lparr>sys_pc := (sys_pc s)(t := NP_LOOP), sys_log := sys_log s @ [(off, sz)]\<rparr>)"
| failed: "t < n \<Longrightarrow> sys_pc s t = NP_SEND off sz
    \<Longrightarrow> np_step hs n s (s\<lparr>sys_status := (sys_status s)\<lparr>ns_client := (if ns_type (sys_status s) = AXNP_RDMA
          then rdma_failed sz (ns_client (sys_status s)) else raw_failed sz (ns_client (sys_status s)))\<rparr>,
        sys_pc := (sys_pc s)(t := NP_FAILED)\<rparr>)"
| finish: "t < n \<Longrightarrow> sys_pc s t = NP_LOOP \<Longrightarrow> \<not> nc_sent_bytes (ns_client (sys_status s)) < nc_total_bytes (ns_client (sys_status s))
    \<Longrightarrow> np_step hs n s (s\<lparr>sys_status := np_finish hs (sys_status s), sys_pc := (sys_pc s)(t := NP_DONE)\<rparr>)"

definition np_start :: "nat \<Rightarrow> u64 \<Rightarrow> np_sys \<Rightarrow> bool" where
  "np_start n tot s \<longleftrightarrow> ns_state (sys_status s) = AXN_STATE_INIT \<and> nc_total_bytes (ns_client (sys_status s)) = tot
     \<and> sys_log s = [] \<and> (\<forall>t<n. sys_pc s t = NP_ENTER \<and> sys_size s t = nc_payload_size (ns_client (sys_status s)))
     \<and> 0 < nc_payload_size (ns_client (sys_status s))"

inductive np_reach :: "u64 \<Rightarrow> nat \<Rightarrow> u64 \<Rightarrow> np_sys \<Rightarrow> bool" for hs n tot where
  start: "np_start n tot s \<Longrightarrow> np_reach hs n tot s"
| step: "np_reach hs n tot s \<Longrightarrow> np_step hs n s s' \<Longrightarrow> np_reach hs n tot s'"

text \<open>The number of messages that have byte \<open>x\<close>.\<close>

definition has_byte :: "nat \<Rightarrow> u64 \<times> u64 \<Rightarrow> nat" where
  "has_byte x m = (if unat (fst m) \<le> x \<and> x < unat (fst m) + unat (snd m) then 1 else 0)"

definition log_bytes :: "nat \<Rightarrow> (u64 \<times> u64) list \<Rightarrow> nat" where
  "log_bytes x l = sum_list (map (has_byte x) l)"

definition pc_bytes :: "nat \<Rightarrow> np_pc \<Rightarrow> nat" where
  "pc_bytes x pc = (case pc of NP_SEND off sz \<Rightarrow> has_byte x (off, sz) | _ \<Rightarrow> 0)"

text \<open>Every byte below the counter is in exactly one message, sent or in a thread, and no other byte is.\<close>

definition np_inv :: "nat \<Rightarrow> u64 \<Rightarrow> np_sys \<Rightarrow> bool" where
  "np_inv n tot s \<longleftrightarrow> nc_total_bytes (ns_client (sys_status s)) = tot \<and> (\<forall>t<n. 0 < sys_size s t)
     \<and> (if ns_state (sys_status s) = AXN_STATE_INIT then sys_log s = [] \<and> (\<forall>t<n. sys_pc s t = NP_ENTER)
        else nc_sent_bytes (ns_client (sys_status s)) \<le> tot
          \<and> (\<forall>x. log_bytes x (sys_log s) + (\<Sum>t<n. pc_bytes x (sys_pc s t)) = (if x < unat (nc_sent_bytes (ns_client (sys_status s))) then 1 else 0))
          \<and> ((\<exists>t<n. sys_pc s t = NP_DONE) \<longrightarrow> nc_sent_bytes (ns_client (sys_status s)) = tot))"

lemma sum_update:
  fixes f :: "'a \<Rightarrow> nat" and n t :: nat
  assumes "t < n"
  shows "(\<Sum>i<n. f (if i = t then a else g i)) + f (g t) = (\<Sum>i<n. f (g i)) + f a"
proof -
  have "(\<Sum>i\<in>{..<n} - {t}. f (if i = t then a else g i)) = (\<Sum>i\<in>{..<n} - {t}. f (g i))" by (rule sum.cong) auto
  moreover have "(\<Sum>i<n. h i) = h t + (\<Sum>i\<in>{..<n} - {t}. h i)" for h :: "nat \<Rightarrow> nat"
    by (rule sum.remove) (use assms in simp_all)
  ultimately show ?thesis by simp
qed

lemma pc_bytes_update:
  fixes n t :: nat
  assumes "t < n"
  shows "(\<Sum>i<n. pc_bytes x ((pc(t := a)) i)) + pc_bytes x (pc t) = (\<Sum>i<n. pc_bytes x (pc i)) + pc_bytes x a"
  using sum_update [OF assms, of "pc_bytes x" a pc] by (simp add: fun_upd_apply)

lemma np_take_props:
  assumes "np_take p c = (sz, off, c')" "nc_sent_bytes c < nc_total_bytes c" "0 < p"
  shows "0 < sz" "off = nc_sent_bytes c" "nc_total_bytes c' = nc_total_bytes c"
    "unat (nc_sent_bytes c') = unat off + unat sz" "nc_sent_bytes c' \<le> nc_total_bytes c"
proof -
  let ?l = "nc_total_bytes c - nc_sent_bytes c"
  have l: "unat ?l = unat (nc_total_bytes c) - unat (nc_sent_bytes c)" using assms(2) by (simp add: unat_sub_if' word_less_nat_alt)
  have sz: "sz = (if ?l < p then ?l else p)" "nc_sent_bytes c' = nc_sent_bytes c + sz" and o: "off = nc_sent_bytes c"
    and t: "nc_total_bytes c' = nc_total_bytes c"
    using assms(1) by (auto simp: np_take_def Let_def)
  then have u: "unat sz \<le> unat (nc_total_bytes c) - unat (nc_sent_bytes c)"
    using l by (auto simp: word_less_nat_alt not_less)
  have pos: "0 < unat sz" using sz(1) l assms(2,3) by (auto simp: word_less_nat_alt)
  have lt: "unat (nc_sent_bytes c) + unat sz \<le> unat (nc_total_bytes c)" using u assms(2) by (simp add: word_less_nat_alt)
  have "unat (nc_sent_bytes c) + unat sz < 18446744073709551616" by (rule le_less_trans [OF lt unat_u64_less])
  then have a: "unat (nc_sent_bytes c + sz) = unat (nc_sent_bytes c) + unat sz" by (simp add: unat_word_ariths)
  show "0 < sz" "off = nc_sent_bytes c" "nc_total_bytes c' = nc_total_bytes c" using pos o t by (simp_all add: word_less_nat_alt)
  show "unat (nc_sent_bytes c') = unat off + unat sz" "nc_sent_bytes c' \<le> nc_total_bytes c"
    using a sz(2) o lt by (simp_all add: word_le_nat_alt)
qed

lemma log_bytes_simps [simp]: "log_bytes x [] = 0" "log_bytes x (l @ [m]) = log_bytes x l + has_byte x m"
  by (simp_all add: log_bytes_def)

lemma pc_bytes_simps [simp]: "pc_bytes x NP_ENTER = 0" "pc_bytes x NP_LOOP = 0" "pc_bytes x NP_DONE = 0" "pc_bytes x NP_FAILED = 0"
  "pc_bytes x (NP_SEND off sz) = has_byte x (off, sz)"
  by (simp_all add: pc_bytes_def)

lemma np_start_inv: "np_start n tot s \<Longrightarrow> np_inv n tot s"
  by (auto simp: np_start_def np_inv_def)

abbreviation none_failed :: "nat \<Rightarrow> np_sys \<Rightarrow> bool" where
  "none_failed n s \<equiv> \<forall>t<n. sys_pc s t \<noteq> NP_FAILED"

lemma none_failed_step: "np_step hs n s s' \<Longrightarrow> none_failed n s' \<Longrightarrow> none_failed n s"
  by (cases rule: np_step.cases) (auto split: if_splits)

lemma np_inv_step:
  assumes "np_inv n tot s" "np_step hs n s s'" "none_failed n s'"
  shows "np_inv n tot s'"
  using assms(2)
proof (cases rule: np_step.cases)
  case (enter t)
  show ?thesis
  proof (cases "ns_state (sys_status s) = AXN_STATE_INIT")
    case True
    have "(\<Sum>i<n. pc_bytes x (sys_pc s' i)) = 0" for x
      using assms(1) True enter(1) by (auto simp: np_inv_def intro!: sum.neutral)
    moreover have "\<not> (\<exists>t<n. sys_pc s' t = NP_DONE)" using assms(1) True enter(1) by (auto simp: np_inv_def)
    ultimately show ?thesis using assms(1) True enter(1) by (auto simp: np_inv_def np_enter_def)
  next
    case False
    have "(\<Sum>i<n. pc_bytes x (sys_pc s' i)) = (\<Sum>i<n. pc_bytes x (sys_pc s i))" for x
      using pc_bytes_update [OF enter(2), of x "sys_pc s" NP_LOOP] enter(1,3) by simp
    moreover have "(\<exists>i<n. sys_pc s' i = NP_DONE) \<longrightarrow> (\<exists>i<n. sys_pc s i = NP_DONE)" using enter(1) by auto
    ultimately show ?thesis using assms(1) False enter(1) by (auto simp: np_inv_def np_enter_def)
  qed
next
  case (take t sz off c)
  have ni: "ns_state (sys_status s) \<noteq> AXN_STATE_INIT" using assms(1) take(2,3) by (auto simp: np_inv_def)
  have "0 < sys_size s t" using assms(1) take(2) by (simp add: np_inv_def)
  note p = np_take_props [OF take(5,4) this]
  have "(\<Sum>i<n. pc_bytes x (sys_pc s' i)) = (\<Sum>i<n. pc_bytes x (sys_pc s i)) + has_byte x (off, sz)" for x
    using pc_bytes_update [OF take(2), of x "sys_pc s" "NP_SEND off sz"] take(1,3) by simp
  moreover have "(if x < unat (nc_sent_bytes c) then 1 else 0 :: nat)
      = (if x < unat (nc_sent_bytes (ns_client (sys_status s))) then 1 else 0) + has_byte x (off, sz)" for x
    using p(2,4) by (auto simp: has_byte_def)
  moreover have "\<not> (\<exists>i<n. sys_pc s' i = NP_DONE)" using assms(1) ni take(1,4) by (auto simp: np_inv_def)
  moreover have "ns_client (sys_status s') = c" "ns_state (sys_status s') = ns_state (sys_status s)" "sys_log s' = sys_log s"
    "\<forall>i<n. 0 < sys_size s' i" using take(1) p(1) assms(1) by (auto simp: np_inv_def)
  ultimately show ?thesis using assms(1) ni p(2,3,5) unfolding np_inv_def by auto
next
  case (sent t off sz)
  have ni: "ns_state (sys_status s) \<noteq> AXN_STATE_INIT" using assms(1) sent(2,3) by (auto simp: np_inv_def)
  have "(\<Sum>i<n. pc_bytes x (sys_pc s' i)) + has_byte x (off, sz) = (\<Sum>i<n. pc_bytes x (sys_pc s i))" for x
    using pc_bytes_update [OF sent(2), of x "sys_pc s" NP_LOOP] sent(1,3) by simp
  then have "log_bytes x (sys_log s') + (\<Sum>i<n. pc_bytes x (sys_pc s' i)) = log_bytes x (sys_log s) + (\<Sum>i<n. pc_bytes x (sys_pc s i))" for x
    using sent(1) by (simp add: add.commute add.left_commute)
  moreover have "(\<exists>i<n. sys_pc s' i = NP_DONE) \<longrightarrow> (\<exists>i<n. sys_pc s i = NP_DONE)" using sent(1) by auto
  moreover have "sys_status s' = sys_status s" "sys_size s' = sys_size s" using sent(1) by simp_all
  ultimately show ?thesis using assms(1) ni unfolding np_inv_def by auto
next
  case (failed t off sz)
  then show ?thesis using assms(3) by auto
next
  case (finish t)
  have ni: "ns_state (sys_status s) \<noteq> AXN_STATE_INIT" using assms(1) finish(2,3) by (auto simp: np_inv_def)
  have "(\<Sum>i<n. pc_bytes x (sys_pc s' i)) = (\<Sum>i<n. pc_bytes x (sys_pc s i))" for x
    using pc_bytes_update [OF finish(2), of x "sys_pc s" NP_DONE] finish(1,3) by simp
  then show ?thesis using assms(1) ni finish(1,4) by (auto simp: np_inv_def np_finish_def)
qed

lemma np_reach_inv:
  assumes "np_reach hs n tot s" "none_failed n s"
  shows "np_inv n tot s"
  using assms by (induction) (blast intro: np_start_inv np_inv_step dest: none_failed_step)+

text \<open>With failed sends of raw or long messages the counter runs ahead: the bytes of a failed message are counted
  twice, and the bytes that are skipped so are in no message. Every thread fails at most once.\<close>

definition failed_threads :: "nat \<Rightarrow> np_sys \<Rightarrow> nat" where
  "failed_threads n s = (\<Sum>t<n. if sys_pc s t = NP_FAILED then 1 else 0)"

definition np_once :: "nat \<Rightarrow> u64 \<Rightarrow> u64 \<Rightarrow> np_sys \<Rightarrow> bool" where
  "np_once n tot p s \<longleftrightarrow> nc_total_bytes (ns_client (sys_status s)) = tot \<and> nc_payload_size (ns_client (sys_status s)) = p
     \<and> (\<forall>t<n. 0 < sys_size s t \<and> sys_size s t \<le> p \<and> (\<forall>off sz. sys_pc s t = NP_SEND off sz \<longrightarrow> sz \<le> p))
     \<and> (if ns_state (sys_status s) = AXN_STATE_INIT then sys_log s = [] \<and> (\<forall>t<n. sys_pc s t = NP_ENTER)
        else unat (nc_sent_bytes (ns_client (sys_status s))) \<le> unat tot + failed_threads n s * unat p
          \<and> (\<forall>x. log_bytes x (sys_log s) + (\<Sum>t<n. pc_bytes x (sys_pc s t)) \<le> (if x < unat (nc_sent_bytes (ns_client (sys_status s))) then 1 else 0)))"

lemma np_take_bound: "np_take p c = (sz, off, c') \<Longrightarrow> sz \<le> p \<and> nc_payload_size c' = nc_payload_size c"
  by (auto simp: np_take_def Let_def)

lemma failed_threads_update:
  assumes "t < n"
  shows "failed_threads n (s\<lparr>sys_pc := (sys_pc s)(t := a)\<rparr>) + (if sys_pc s t = NP_FAILED then 1 else 0)
    = failed_threads n s + (if a = NP_FAILED then 1 else 0)"
  using sum_update [OF assms, of "\<lambda>pc. if pc = NP_FAILED then 1 else 0" a "sys_pc s"]
  by (simp add: failed_threads_def fun_upd_apply)

lemma failed_threads_cong: "sys_pc s' = sys_pc s \<Longrightarrow> failed_threads n s' = failed_threads n s"
  by (simp add: failed_threads_def)

lemma failed_threads_le: "failed_threads n s \<le> n"
proof -
  have "failed_threads n s \<le> (\<Sum>t<n. 1)" unfolding failed_threads_def by (rule sum_mono) simp
  then show ?thesis by simp
qed

text \<open>A step of thread \<open>t\<close> that neither starts the transfer nor changes what is in the messages.\<close>

lemma np_once_move:
  assumes "np_once n tot p s" "ns_state (sys_status s) \<noteq> AXN_STATE_INIT" "ns_state (sys_status s') \<noteq> AXN_STATE_INIT" "t < n"
    "sys_pc s' = (sys_pc s)(t := a)" "sys_pc s t \<noteq> NP_FAILED" "a \<noteq> NP_FAILED" "\<And>off sz. a \<noteq> NP_SEND off sz"
    "\<And>x. log_bytes x (sys_log s') = log_bytes x (sys_log s) + pc_bytes x (sys_pc s t)"
    "sys_size s' = sys_size s" "nc_total_bytes (ns_client (sys_status s')) = nc_total_bytes (ns_client (sys_status s))"
    "nc_payload_size (ns_client (sys_status s')) = nc_payload_size (ns_client (sys_status s))"
    "nc_sent_bytes (ns_client (sys_status s')) = nc_sent_bytes (ns_client (sys_status s))"
  shows "np_once n tot p s'"
proof -
  have "pc_bytes x a = 0" for x using assms(8) by (cases a) auto
  then have "(\<Sum>i<n. pc_bytes x (sys_pc s' i)) + pc_bytes x (sys_pc s t) = (\<Sum>i<n. pc_bytes x (sys_pc s i))" for x
    using pc_bytes_update [OF assms(4), of x "sys_pc s" a] unfolding assms(5) by simp
  then have bytes: "log_bytes x (sys_log s') + (\<Sum>i<n. pc_bytes x (sys_pc s' i)) = log_bytes x (sys_log s) + (\<Sum>i<n. pc_bytes x (sys_pc s i))" for x
    using assms(9) by (simp add: ac_simps)
  have "failed_threads n s' = failed_threads n s"
    using failed_threads_update [OF assms(4), of s a] assms(6,7)
      failed_threads_cong [of s' "s\<lparr>sys_pc := (sys_pc s)(t := a)\<rparr>"] assms(5) by simp
  moreover have "\<forall>i<n. \<forall>off sz. sys_pc s' i = NP_SEND off sz \<longrightarrow> sz \<le> p"
    using assms(1,8) unfolding assms(5) np_once_def by (auto split: if_splits)
  ultimately show ?thesis using assms(1-3,10-13) bytes unfolding np_once_def by simp
qed

lemma np_once_enter:
  assumes "np_once n tot p s" "t < n" "sys_pc s t = NP_ENTER"
  shows "np_once n tot p (s\<lparr>sys_status := np_enter (sys_status s), sys_pc := (sys_pc s)(t := NP_LOOP)\<rparr>)" (is "np_once n tot p ?s")
proof (cases "ns_state (sys_status s) = AXN_STATE_INIT")
  case True
  have "(\<Sum>i<n. pc_bytes x (sys_pc ?s i)) = 0" for x
    using assms(1) True by (auto simp: np_once_def intro!: sum.neutral)
  then show ?thesis using assms(1) True by (auto simp: np_once_def np_enter_def)
next
  case False
  then show ?thesis by (intro np_once_move [OF assms(1) _ _ assms(2)]) (use assms(3) in \<open>auto simp: np_enter_def\<close>)
qed

lemma np_once_take:
  assumes "np_once n tot p s" "t < n" "sys_pc s t = NP_LOOP"
    "nc_sent_bytes (ns_client (sys_status s)) < nc_total_bytes (ns_client (sys_status s))"
    "np_take (sys_size s t) (ns_client (sys_status s)) = (sz, off, c)"
  shows "np_once n tot p (s\<lparr>sys_status := (sys_status s)\<lparr>ns_client := c\<rparr>, sys_pc := (sys_pc s)(t := NP_SEND off sz),
    sys_size := (sys_size s)(t := sz)\<rparr>)" (is "np_once n tot p ?s")
proof -
  have ni: "ns_state (sys_status s) \<noteq> AXN_STATE_INIT" using assms(1-3) by (auto simp: np_once_def)
  have z: "0 < sys_size s t" "sys_size s t \<le> p" using assms(1,2) by (simp_all add: np_once_def)
  note q = np_take_props [OF assms(5,4) z(1)] and b = np_take_bound [OF assms(5)]
  have sz: "sz \<le> p" using b z(2) by auto
  have sums: "(\<Sum>i<n. pc_bytes x (sys_pc ?s i)) = (\<Sum>i<n. pc_bytes x (sys_pc s i)) + has_byte x (off, sz)" for x
    using pc_bytes_update [OF assms(2), of x "sys_pc s" "NP_SEND off sz"] assms(3) by simp
  have old: "log_bytes x (sys_log s) + (\<Sum>i<n. pc_bytes x (sys_pc s i)) \<le> (if x < unat (nc_sent_bytes (ns_client (sys_status s))) then 1 else 0)" for x
    using assms(1) ni by (simp add: np_once_def)
  have "(if x < unat (nc_sent_bytes c) then 1 else 0 :: nat)
      = (if x < unat (nc_sent_bytes (ns_client (sys_status s))) then 1 else 0) + has_byte x (off, sz)" for x
    using q(2,4) by (auto simp: has_byte_def)
  then have "log_bytes x (sys_log ?s) + (\<Sum>i<n. pc_bytes x (sys_pc ?s i)) \<le> (if x < unat (nc_sent_bytes c) then 1 else 0)" for x
    unfolding sums using old [of x] by simp
  moreover have "unat (nc_sent_bytes c) \<le> unat tot" using q(5) assms(1) by (simp add: np_once_def word_le_nat_alt)
  ultimately show ?thesis using assms(1) ni q(1,3) b sz unfolding np_once_def by (auto simp: trans_le_add1)
qed

lemma np_once_failed:
  assumes "np_once n tot p s" "t < n" "sys_pc s t = NP_SEND off sz" "unat tot + n * unat p < 2 ^ 64"
  shows "np_once n tot p (s\<lparr>sys_status := (sys_status s)\<lparr>ns_client := raw_failed sz (ns_client (sys_status s))\<rparr>,
    sys_pc := (sys_pc s)(t := NP_FAILED)\<rparr>)" (is "np_once n tot p ?s")
proof -
  let ?u = "nc_sent_bytes (ns_client (sys_status s))"
  have ni: "ns_state (sys_status s) \<noteq> AXN_STATE_INIT" using assms(1-3) by (auto simp: np_once_def)
  have sz: "unat sz \<le> unat p" using assms(1-3) by (auto simp: np_once_def word_le_nat_alt)
  have f: "failed_threads n ?s = Suc (failed_threads n s)"
    using failed_threads_update [OF assms(2), of s NP_FAILED] assms(3)
      failed_threads_cong [of ?s "s\<lparr>sys_pc := (sys_pc s)(t := NP_FAILED)\<rparr>"] by simp
  have "unat ?u + unat sz \<le> unat tot + failed_threads n s * unat p + unat p"
    using assms(1) ni sz by (simp add: np_once_def)
  then have le: "unat ?u + unat sz \<le> unat tot + failed_threads n ?s * unat p" by (simp add: f)
  moreover have "failed_threads n ?s * unat p \<le> n * unat p" by (rule mult_le_mono1 [OF failed_threads_le])
  ultimately have "unat ?u + unat sz < 2 ^ 64" using assms(4) by linarith
  then have u: "unat (?u + sz) = unat ?u + unat sz" by (simp add: unat_word_ariths)
  have sums: "(\<Sum>i<n. pc_bytes x (sys_pc ?s i)) \<le> (\<Sum>i<n. pc_bytes x (sys_pc s i))" for x
    using pc_bytes_update [OF assms(2), of x "sys_pc s" NP_FAILED] by simp
  have "log_bytes x (sys_log ?s) + (\<Sum>i<n. pc_bytes x (sys_pc ?s i)) \<le> (if x < unat (?u + sz) then 1 else 0)" for x
  proof -
    have "log_bytes x (sys_log s) + (\<Sum>i<n. pc_bytes x (sys_pc s i)) \<le> (if x < unat ?u then 1 else 0)"
      using assms(1) ni by (simp add: np_once_def)
    with sums [of x] u show ?thesis by (auto split: if_splits)
  qed
  with le u assms(1) ni show ?thesis unfolding np_once_def by (auto simp: raw_failed_def)
qed

lemma np_once_step:
  assumes "np_once n tot p s" "np_step hs n s s'" "unat tot + n * unat p < 2 ^ 64" "ns_type (sys_status s) \<noteq> AXNP_RDMA"
  shows "np_once n tot p s'"
  using assms(2)
proof (cases rule: np_step.cases)
  case (sent t off sz)
  have "ns_state (sys_status s) \<noteq> AXN_STATE_INIT" using assms(1) sent(2,3) by (auto simp: np_once_def)
  then show ?thesis by (intro np_once_move [OF assms(1) _ _ sent(2), of s' NP_LOOP]) (use sent in auto)
next
  case (finish t)
  have "ns_state (sys_status s) \<noteq> AXN_STATE_INIT" using assms(1) finish(2,3) by (auto simp: np_once_def)
  then show ?thesis
    by (intro np_once_move [OF assms(1) _ _ finish(2), of s' NP_DONE]) (use finish in \<open>auto simp: np_finish_def\<close>)
qed (use assms np_once_enter np_once_take np_once_failed in auto)

lemma np_start_once: "np_start n tot s \<Longrightarrow> np_once n tot (nc_payload_size (ns_client (sys_status s))) s"
  by (auto simp: np_start_def np_once_def)

lemma np_step_keeps:
  "np_step hs n s s' \<Longrightarrow> nc_payload_size (ns_client (sys_status s')) = nc_payload_size (ns_client (sys_status s))
    \<and> ns_type (sys_status s') = ns_type (sys_status s)"
  by (cases rule: np_step.cases) (auto simp: np_enter_def np_finish_def raw_failed_def rdma_failed_def np_take_bound)

lemma np_reach_once:
  assumes "np_reach hs n tot s" "unat tot + n * unat (nc_payload_size (ns_client (sys_status s))) < 2 ^ 64"
    "ns_type (sys_status s) \<noteq> AXNP_RDMA"
  shows "np_once n tot (nc_payload_size (ns_client (sys_status s))) s"
  using assms
proof (induction)
  case (step s s')
  then show ?case using np_step_keeps [OF step.hyps(2)] np_once_step [OF _ step.hyps(2)] by simp
qed (rule np_start_once)

text \<open>C26: the threads of a transfer send every byte once. As long as no send has failed, however the threads are
  interleaved, every byte below the counter of the bytes taken is in exactly one message, sent or being sent, no
  other byte is in one, and the counter does not pass the length of the transfer. When sends of raw or long messages have
  failed, a byte below the counter is still in at most one message, and the counter passes the length by at most one
  payload for every failed thread, which counts its bytes a second time; the length and one payload for every thread
  are together below \<open>2 ^ 64\<close>.\<close>

theorem netperf_bytes_once:
  assumes "np_reach hs n tot s" "ns_state (sys_status s) \<noteq> AXN_STATE_INIT"
  shows "((\<forall>t<n. sys_pc s t \<noteq> NP_FAILED) \<longrightarrow> nc_sent_bytes (ns_client (sys_status s)) \<le> tot
      \<and> (\<forall>x. log_bytes x (sys_log s) + (\<Sum>t<n. pc_bytes x (sys_pc s t)) = (if x < unat (nc_sent_bytes (ns_client (sys_status s))) then 1 else 0)))
    \<and> (ns_type (sys_status s) \<noteq> AXNP_RDMA \<and> unat tot + n * unat (nc_payload_size (ns_client (sys_status s))) < 2 ^ 64 \<longrightarrow>
        unat (nc_sent_bytes (ns_client (sys_status s))) \<le> unat tot + failed_threads n s * unat (nc_payload_size (ns_client (sys_status s)))
      \<and> (\<forall>x. log_bytes x (sys_log s) + (\<Sum>t<n. pc_bytes x (sys_pc s t)) \<le> (if x < unat (nc_sent_bytes (ns_client (sys_status s))) then 1 else 0)))"
  using np_reach_inv [OF assms(1)] np_reach_once [OF assms(1)] assms(2) by (auto simp: np_inv_def np_once_def)

section \<open>The end of a transfer\<close>

definition np_positive :: "nat \<Rightarrow> np_sys \<Rightarrow> bool" where
  "np_positive n s \<longleftrightarrow> (\<forall>m\<in>set (sys_log s). 0 < snd m) \<and> (\<forall>t<n. \<forall>off sz. sys_pc s t = NP_SEND off sz \<longrightarrow> 0 < sz)"

lemma np_reach_positive:
  assumes "np_reach hs n tot s" "none_failed n s"
  shows "np_positive n s"
  using assms
proof (induction)
  case (start s)
  then show ?case by (auto simp: np_start_def np_positive_def)
next
  case (step s s')
  have nf: "none_failed n s" using none_failed_step [OF step.hyps(2) step.prems] .
  have inv: "np_inv n tot s" using np_reach_inv [OF step.hyps(1) nf] .
  show ?case using step.hyps(2)
  proof (cases rule: np_step.cases)
    case (take t sz off c)
    have "0 < sys_size s t" using inv take(2) by (simp add: np_inv_def)
    from np_take_props(1) [OF take(5,4) this] step.IH [OF nf] show ?thesis using take(1) by (auto simp: np_positive_def)
  qed (use step.IH [OF nf] in \<open>auto simp: np_positive_def\<close>)
qed

lemma has_byte_sum: "unat (fst m) + unat (snd m) \<le> B \<Longrightarrow> (\<Sum>x<B. has_byte x m) = unat (snd m)"
proof -
  assume le: "unat (fst m) + unat (snd m) \<le> B"
  have "(\<Sum>x<B. has_byte x m) = card {x \<in> {..<B}. unat (fst m) \<le> x \<and> x < unat (fst m) + unat (snd m)}"
    by (simp add: has_byte_def sum.If_cases Int_def)
  also have "{x \<in> {..<B}. unat (fst m) \<le> x \<and> x < unat (fst m) + unat (snd m)} = {unat (fst m)..<unat (fst m) + unat (snd m)}"
    using le by auto
  finally show ?thesis by simp
qed

lemma log_bytes_sum: "(\<Sum>x<36893488147419103232. log_bytes x l) = sum_list (map (unat \<circ> snd) l)"
proof (induction l)
  case (Cons m l)
  have "unat (fst m) + unat (snd m) \<le> 36893488147419103232" using unat_u64_less [of "fst m"] unat_u64_less [of "snd m"] by linarith
  from Cons.IH has_byte_sum [OF this] show ?case by (simp add: log_bytes_def sum.distrib)
qed (simp add: log_bytes_def)

lemma log_total:
  assumes "\<And>x. log_bytes x l = (if x < N then 1 else 0)" "N \<le> 36893488147419103232"
  shows "sum_list (map (unat \<circ> snd) l) = N"
proof -
  have "(\<Sum>x<36893488147419103232. log_bytes x l) = card ({..<36893488147419103232} \<inter> {..<N})" unfolding assms(1) by (simp add: sum.If_cases lessThan_def)
  also have "{..<36893488147419103232} \<inter> {..<N} = {..<N}" using assms(2) by auto
  finally show ?thesis by (simp add: log_bytes_sum)
qed

text \<open>The server answers the message that completes the transfer, and no other one.\<close>

lemma server_data_run:
  assumes "\<forall>m\<in>set ms. np_command (snd (snd m)) = AXIOM_CMD_NETPERF \<and> 0 < fst (snd m)" "ms \<noteq> []"
    "unat (sv_received_bytes sv) + sum_list (map (\<lambda>m. unat (fst (snd m))) ms) = unat (sv_expected_bytes sv)"
  shows "\<exists>sv' r. server_run ms zone sv = Some (sv', [(sv_reply_port sv, r)]) \<and> np_command r = AXIOM_CMD_NETPERF_END
    \<and> np_total_bytes r = sv_expected_bytes sv \<and> np_error r = 0"
  using assms
proof (induction ms arbitrary: sv)
  case (Cons m ms)
  obtain now sz p where m: "m = (now, sz, p)" by (cases m) auto
  let ?sv = "sv\<lparr>sv_cur_ts := now, sv_received_bytes := sv_received_bytes sv + sz\<rparr>"
  have lt: "unat (sv_received_bytes sv) + unat sz \<le> unat (sv_expected_bytes sv)" using Cons.prems(3) m by simp
  have "unat (sv_received_bytes sv) + unat sz < 18446744073709551616" by (rule le_less_trans [OF lt unat_u64_less])
  then have u: "unat (sv_received_bytes sv + sz) = unat (sv_received_bytes sv) + unat sz" by (simp add: unat_word_ariths)
  have step: "server_msg (Some now) zone sz p sv = Some (?sv,
      if sv_received_bytes sv + sz \<ge> sv_expected_bytes sv then Some (server_reply ?sv 0) else None)"
    using Cons.prems(1) m by (simp add: server_msg_def Let_def)
  show ?case
  proof (cases "ms = []")
    case True
    then have "sv_received_bytes sv + sz = sv_expected_bytes sv" using Cons.prems(3) m u by (simp add: word_unat_eq_iff)
    with True step m show ?thesis by (simp add: server_reply_def)
  next
    case False
    then have "0 < sum_list (map (\<lambda>m. unat (fst (snd m))) ms)" using Cons.prems(1)
      by (cases ms) (auto simp: word_less_nat_alt)
    then have "\<not> sv_expected_bytes sv \<le> sv_received_bytes sv + sz" using Cons.prems(3) m u by (simp add: word_le_nat_alt)
    then have st: "server_msg (Some now) zone sz p sv = Some (?sv, None)" using step by simp
    have "unat (sv_received_bytes ?sv) + sum_list (map (\<lambda>m. unat (fst (snd m))) ms) = unat (sv_expected_bytes ?sv)"
      using Cons.prems(3) m u by simp
    with Cons.IH [OF _ False, of ?sv] Cons.prems(1) obtain sv' r where "server_run ms zone ?sv = Some (sv', [(sv_reply_port sv, r)])"
      "np_command r = AXIOM_CMD_NETPERF_END" "np_total_bytes r = sv_expected_bytes sv" "np_error r = 0" by auto
    with st m show ?thesis by simp
  qed
qed simp

text \<open>C27: a transfer is answered once. When the threads have ended, their messages, in whatever order they arrive
  after the start message, make the server send exactly one reply, to the port of the client, with the length of
  the transfer and no error.\<close>

theorem netperf_one_reply:
  assumes "np_reach hs n tot s" "0 < n" "\<forall>t<n. sys_pc s t = NP_DONE" "0 < tot"
    "np_command p = AXIOM_CMD_NETPERF_START" "np_total_bytes p = tot"
    "\<forall>m\<in>set ms. np_command (snd (snd m)) = AXIOM_CMD_NETPERF" "mset (map (\<lambda>m. fst (snd m)) ms) = mset (map snd (sys_log s))"
  shows "\<exists>sv' r. server_run ((t0, sz0, p) # ms) zone sv = Some (sv', [(np_reply_port p, r)]) \<and> np_command r = AXIOM_CMD_NETPERF_END
    \<and> np_total_bytes r = tot \<and> np_error r = 0"
proof -
  have "none_failed n s" using assms(3) by simp
  then have inv: "np_inv n tot s" "np_positive n s" using np_reach_inv [OF assms(1)] np_reach_positive [OF assms(1)] by auto
  have ni: "ns_state (sys_status s) \<noteq> AXN_STATE_INIT" using inv(1) assms(2,3) by (auto simp: np_inv_def)
  have sent: "nc_sent_bytes (ns_client (sys_status s)) = tot" using inv(1) ni assms(2,3) by (auto simp: np_inv_def)
  have "log_bytes x (sys_log s) = (if x < unat tot then 1 else 0)" for x
    using inv(1) ni sent assms(3) by (simp add: np_inv_def)
  moreover have "unat tot \<le> 36893488147419103232" using less_imp_le [OF unat_u64_less [of tot]] by linarith
  ultimately have sum: "sum_list (map (unat \<circ> snd) (sys_log s)) = unat tot" by (rule log_total)
  have eq: "sum_list (map (\<lambda>m. unat (fst (snd m))) ms) = unat tot"
  proof -
    have "sum_list (map (\<lambda>m. unat (fst (snd m))) ms) = sum_mset (image_mset unat (mset (map (\<lambda>m. fst (snd m)) ms)))"
      by (simp add: sum_mset_sum_list [symmetric] image_mset.compositionality o_def)
    also have "\<dots> = sum_list (map (unat \<circ> snd) (sys_log s))"
      unfolding assms(8) by (simp add: sum_mset_sum_list [symmetric] image_mset.compositionality)
    finally show ?thesis using sum by simp
  qed
  have "set (map (\<lambda>m. fst (snd m)) ms) = set (map snd (sys_log s))" using assms(8) by (rule mset_eq_setD)
  moreover have "\<forall>v\<in>set (map snd (sys_log s)). 0 < v" using inv(2) by (simp add: np_positive_def)
  ultimately have pos: "\<forall>m\<in>set ms. 0 < fst (snd m)" by (metis (no_types, lifting) image_eqI list.set_map)
  have ne: "ms \<noteq> []" using eq assms(4) by (auto simp: word_less_nat_alt)
  let ?sv = "sv\<lparr>sv_cur_ts := t0, sv_expected_bytes := tot, sv_received_bytes := 0, sv_reply_port := np_reply_port p, sv_start_ts := t0\<rparr>"
  have st: "server_msg (Some t0) zone sz0 p sv = Some (?sv, None)" using assms(5,6) by (simp add: server_msg_def Let_def)
  from server_data_run [of ms ?sv zone] assms(7) pos ne eq st show ?thesis by auto
qed

section \<open>One thread alone\<close>

text \<open>The pieces of a transfer: positions and sizes.\<close>

function np_chunks :: "nat \<Rightarrow> nat \<Rightarrow> nat \<Rightarrow> (nat \<times> nat) list" where
  "np_chunks p off tot = (if off < tot \<and> 0 < p then (off, min p (tot - off)) # np_chunks (min p (tot - off)) (off + min p (tot - off)) tot else [])"
  by pat_completeness auto
termination
  by (relation "measure (\<lambda>(_, off, tot). tot - off)") auto

declare np_chunks.simps [simp del]

definition word_chunk :: "nat \<times> nat \<Rightarrow> u64 \<times> u64" where
  "word_chunk m = (of_nat (fst m), of_nat (snd m))"

lemma np_take_chunk:
  assumes "nc_sent_bytes c < nc_total_bytes c" "0 < p" "np_take p c = (sz, off, c')"
  shows "np_chunks (unat p) (unat (nc_sent_bytes c)) (unat (nc_total_bytes c))
      = (unat off, unat sz) # np_chunks (unat sz) (unat (nc_sent_bytes c')) (unat (nc_total_bytes c))"
    "word_chunk (unat off, unat sz) = (off, sz)"
proof -
  note t = np_take_props [OF assms(3,1,2)]
  have sz: "sz = (if nc_total_bytes c - nc_sent_bytes c < p then nc_total_bytes c - nc_sent_bytes c else p)"
    using assms(3) by (auto simp: np_take_def Let_def)
  have "unat (nc_total_bytes c - nc_sent_bytes c) = unat (nc_total_bytes c) - unat (nc_sent_bytes c)"
    using assms(1) by (simp add: unat_sub_if' word_less_nat_alt)
  then have "unat sz = min (unat p) (unat (nc_total_bytes c) - unat (nc_sent_bytes c))"
    unfolding sz by (simp add: word_less_nat_alt min_def not_less)
  then show "np_chunks (unat p) (unat (nc_sent_bytes c)) (unat (nc_total_bytes c))
      = (unat off, unat sz) # np_chunks (unat sz) (unat (nc_sent_bytes c')) (unat (nc_total_bytes c))"
    using assms(1,2) t(2,4) by (subst np_chunks.simps) (simp add: word_less_nat_alt)
  show "word_chunk (unat off, unat sz) = (off, sz)" by (simp add: word_chunk_def)
qed

text \<open>A loop whose body takes the next piece, logs it and succeeds.\<close>

definition logs_body :: "(err \<Rightarrow> bool) \<Rightarrow> ('d np_loop \<Rightarrow> (ctl \<times> 'd np_loop) option) \<Rightarrow> ('d \<Rightarrow> 'm list) \<Rightarrow> (np_status \<Rightarrow> u64 \<times> u64 \<Rightarrow> 'm)
    \<Rightarrow> 'd np_loop \<Rightarrow> bool" where
  "logs_body ok body log g l \<longleftrightarrow> (\<forall>sz off c. np_take (lp_size l) (ns_client (lp_status l)) = (sz, off, c) \<longrightarrow>
     (\<exists>l'. body l = Some (Next, l') \<and> lp_status l' = set_client c (lp_status l) \<and> lp_size l' = sz \<and> ok (lp_err l')
       \<and> log (lp_dev l') = log (lp_dev l) @ [g (lp_status l) (off, sz)]))"

lemma np_loop_run:
  assumes body: "\<And>l. set_client c0 (lp_status l) = st0 \<Longrightarrow> logs_body ok body log g l" and g: "\<And>c st. g (set_client c st) = g st"
  shows "set_client c0 (lp_status l) = st0 \<Longrightarrow> 0 < lp_size l \<Longrightarrow> ok (lp_err l) \<Longrightarrow>
    nc_sent_bytes (ns_client (lp_status l)) \<le> nc_total_bytes (ns_client (lp_status l)) \<Longrightarrow>
    \<exists>l' c'. while_ctl np_more body l = Some l' \<and> lp_status l' = set_client c' (lp_status l) \<and> ok (lp_err l')
      \<and> c' = (ns_client (lp_status l))\<lparr>nc_sent_bytes := nc_total_bytes (ns_client (lp_status l)), nc_total_packets := nc_total_packets c'\<rparr>
      \<and> nc_total_packets c' = nc_total_packets (ns_client (lp_status l)) + of_nat (length (np_chunks (unat (lp_size l))
          (unat (nc_sent_bytes (ns_client (lp_status l)))) (unat (nc_total_bytes (ns_client (lp_status l))))))
      \<and> log (lp_dev l') = log (lp_dev l) @ map (g (lp_status l) \<circ> word_chunk)
          (np_chunks (unat (lp_size l)) (unat (nc_sent_bytes (ns_client (lp_status l)))) (unat (nc_total_bytes (ns_client (lp_status l)))))"
proof (induction "unat (nc_total_bytes (ns_client (lp_status l))) - unat (nc_sent_bytes (ns_client (lp_status l)))" arbitrary: l rule: less_induct)
  case less
  let ?c = "ns_client (lp_status l)"
  show ?case
  proof (cases "np_more l")
    case False
    then have "nc_sent_bytes ?c = nc_total_bytes ?c" using less.prems(4) by (simp add: np_more_def)
    then show ?thesis using False less.prems(3)
      by (intro exI [of _ l] exI [of _ ?c]) (simp add: np_chunks.simps)
  next
    case True
    then have lt: "nc_sent_bytes ?c < nc_total_bytes ?c" by (simp add: np_more_def)
    obtain sz off c where t: "np_take (lp_size l) ?c = (sz, off, c)" using prod_cases3 by blast
    note tp = np_take_props [OF t lt less.prems(2)] and ch = np_take_chunk [OF lt less.prems(2) t]
    have c: "c = ?c\<lparr>nc_total_packets := nc_total_packets ?c + 1, nc_sent_bytes := nc_sent_bytes c\<rparr>"
      using t by (auto simp: np_take_def Let_def)
    from body [OF less.prems(1)] t obtain l1 where l1: "body l = Some (Next, l1)" "lp_status l1 = set_client c (lp_status l)"
      "lp_size l1 = sz" "ok (lp_err l1)" "log (lp_dev l1) = log (lp_dev l) @ [g (lp_status l) (off, sz)]"
      unfolding logs_body_def by blast
    have "unat (nc_total_bytes c) - unat (nc_sent_bytes c) < unat (nc_total_bytes ?c) - unat (nc_sent_bytes ?c)"
      using tp lt by (auto simp: word_less_nat_alt)
    moreover have "set_client c0 (lp_status l1) = st0" using less.prems(1) l1(2) by simp
    ultimately obtain l' c' where r: "while_ctl np_more body l1 = Some l'" "lp_status l' = set_client c' (lp_status l1)" "ok (lp_err l')"
      "c' = c\<lparr>nc_sent_bytes := nc_total_bytes c, nc_total_packets := nc_total_packets c'\<rparr>"
      "nc_total_packets c' = nc_total_packets c + of_nat (length (np_chunks (unat sz) (unat (nc_sent_bytes c)) (unat (nc_total_bytes c))))"
      "log (lp_dev l') = log (lp_dev l1) @ map (g (lp_status l1) \<circ> word_chunk) (np_chunks (unat sz) (unat (nc_sent_bytes c)) (unat (nc_total_bytes c)))"
      using less.hyps [of l1] l1 tp by auto
    have "while_ctl np_more body l = Some l'" using while_ctl_Next [of np_more l body l1] True l1(1) r(1) by simp
    moreover have "c' = ?c\<lparr>nc_sent_bytes := nc_total_bytes ?c, nc_total_packets := nc_total_packets c'\<rparr>"
      using r(4) c tp(3) by (metis np_client.surjective np_client.update_convs(2,4) np_client.select_convs(2,3,4))
    moreover have "nc_total_packets c = nc_total_packets ?c + 1" by (subst c) simp
    ultimately show ?thesis using r l1 ch tp(3) g by (intro exI [of _ l'] exI [of _ c']) (simp add: add.assoc)
  qed
qed

lemma raw_long_logs:
  assumes "if ns_type (lp_status l) = AXNP_RAW then lossless (na_is_ok api) (na_send_raw api) log else lossless (na_is_ok api) (na_send_long api) log"
  shows "logs_body (na_is_ok api) (raw_long_body api) log (\<lambda>s m. ((ns_server_id s, ns_server_port s), snd m)) l"
  using assms unfolding logs_body_def raw_long_body_def lossless_def
  by (auto simp: Let_def case_prod_beta split: if_splits)

lemma rdma_sync_logs:
  assumes "lossless (na_is_ok api) (na_rdma_write_sync api) log"
  shows "logs_body (na_is_ok api) (rdma_sync_body api) log (\<lambda>s m. (ns_server_id s, m)) l"
  using assms unfolding logs_body_def rdma_sync_body_def lossless_def by (auto simp: Let_def case_prod_beta)

lemma rdma_async_logs:
  assumes "lossless (na_is_ok api) (na_rdma_write api) log" "\<And>d i. log (snd (na_rdma_wait api d i)) = log d"
  shows "logs_body (na_is_ok api) (rdma_async_body api) log (\<lambda>s m. (ns_server_id s, m)) l"
  using assms unfolding logs_body_def rdma_async_body_def lossless_def by (auto simp: Let_def case_prod_beta)

text \<open>One thread sends the whole transfer. With raw or long messages that are all accepted, the function ends
  with success; it has sent the pieces of the transfer in their order, and the state and the counters are those
  of a complete transfer.\<close>

theorem raw_long_sends_all:
  assumes "if ns_type s = AXNP_RAW then lossless (na_is_ok api) (na_send_raw api) log else lossless (na_is_ok api) (na_send_long api) log"
    "na_is_ok api (na_ok api)" "ns_state s = AXN_STATE_INIT" "0 < nc_payload_size (ns_client s)"
  shows "\<exists>s' dev'. axnetperf_raw_long k api s dev = Some (0, s', dev') \<and> ns_state s' = AXN_STATE_END
    \<and> nc_sent_bytes (ns_client s') = nc_total_bytes (ns_client s)
    \<and> log dev' = log dev @ map (\<lambda>m. ((ns_server_id s, ns_server_port s), of_nat (snd m)))
        (np_chunks (unat (nc_payload_size (ns_client s))) 0 (unat (nc_total_bytes (ns_client s))))"
proof -
  let ?s = "np_enter s" and ?g = "\<lambda>s (m :: u64 \<times> u64). ((ns_server_id s, ns_server_port s), snd m)"
  let ?l = "\<lparr>lp_status = ?s, lp_size = nc_payload_size (ns_client s), lp_tokens = 0, lp_err = na_ok api, lp_dev = dev\<rparr>"
  have s: "?s = s\<lparr>ns_state := AXN_STATE_START, ns_client := (ns_client s)\<lparr>nc_sent_bytes := 0\<rparr>\<rparr>" using assms(3) by (simp add: np_enter_def)
  let ?c0 = "ns_client s"
  have b: "logs_body (na_is_ok api) (raw_long_body api) log ?g l" if st: "set_client ?c0 (lp_status l) = set_client ?c0 ?s" for l
  proof -
    have "ns_type (lp_status l) = ns_type (set_client ?c0 (lp_status l))" by simp
    also have "\<dots> = ns_type s" unfolding st s by simp
    finally have t: "ns_type (lp_status l) = ns_type s" .
    show ?thesis by (rule raw_long_logs) (use assms(1) in \<open>simp only: t\<close>)
  qed
  obtain l' c' where r: "while_ctl np_more (raw_long_body api) ?l = Some l'" "lp_status l' = set_client c' ?s" "na_is_ok api (lp_err l')"
    "c' = (ns_client ?s)\<lparr>nc_sent_bytes := nc_total_bytes (ns_client ?s), nc_total_packets := nc_total_packets c'\<rparr>"
    "log (lp_dev l') = log dev @ map (?g ?s \<circ> word_chunk) (np_chunks (unat (nc_payload_size (ns_client s))) 0 (unat (nc_total_bytes (ns_client ?s))))"
    using np_loop_run [of ?c0 "set_client ?c0 ?s" "na_is_ok api" "raw_long_body api" log ?g ?l, OF b] assms(2,4) s by auto
  have "nc_sent_bytes c' = nc_total_bytes (ns_client s)" by (subst r(4)) (simp add: s)
  with r(1-3,5) show ?thesis by (simp add: axnetperf_raw_long_def np_finish_def s word_chunk_def o_def)
qed

text \<open>C28: synchronous and asynchronous RDMA are equivalent. When all writes are accepted, both end with
  success and the same status, and have written the same pieces in the same order.\<close>

theorem rdma_sync_async_equiv:
  assumes "lossless (na_is_ok api) (na_rdma_write_sync api) log" "lossless (na_is_ok api) (na_rdma_write api) log"
    "\<And>d i. na_is_ok api (fst (na_rdma_wait api d i)) \<and> log (snd (na_rdma_wait api d i)) = log d"
    "na_is_ok api (na_ok api)" "0 < nc_payload_size (ns_client s)" "nc_sent_bytes (ns_client s) \<le> nc_total_bytes (ns_client s)"
  shows "\<exists>e1 e2 s' d1 d2. axnetperf_rdma_sync api s dev = Some (e1, s', d1) \<and> axnetperf_rdma_async api s dev = Some (e2, s', d2)
    \<and> na_is_ok api e1 \<and> na_is_ok api e2 \<and> log d1 = log d2
    \<and> log d1 = log dev @ map (\<lambda>m. (ns_server_id s, word_chunk m))
        (np_chunks (unat (nc_payload_size (ns_client s))) (unat (nc_sent_bytes (ns_client s))) (unat (nc_total_bytes (ns_client s))))"
proof -
  let ?l = "\<lparr>lp_status = s, lp_size = nc_payload_size (ns_client s), lp_tokens = 0, lp_err = na_ok api, lp_dev = dev\<rparr>"
  let ?g = "\<lambda>s (m :: u64 \<times> u64). (ns_server_id s, m)"
  let ?ch = "np_chunks (unat (nc_payload_size (ns_client s))) (unat (nc_sent_bytes (ns_client s))) (unat (nc_total_bytes (ns_client s)))"
  let ?s = "set_client ((ns_client s)\<lparr>nc_sent_bytes := nc_total_bytes (ns_client s),
    nc_total_packets := nc_total_packets (ns_client s) + of_nat (length ?ch)\<rparr>) s"
  have run: "\<exists>l'. while_ctl np_more body ?l = Some l' \<and> lp_status l' = ?s \<and> na_is_ok api (lp_err l') \<and> log (lp_dev l') = log dev @ map (?g s \<circ> word_chunk) ?ch"
    if "\<And>l. logs_body (na_is_ok api) body log ?g l" for body
    using np_loop_run [of "ns_client s" s "na_is_ok api" body log ?g ?l, OF that] assms(4-6) by auto
  obtain l1 where 1: "while_ctl np_more (rdma_sync_body api) ?l = Some l1" "lp_status l1 = ?s" "na_is_ok api (lp_err l1)"
    "log (lp_dev l1) = log dev @ map (?g s \<circ> word_chunk) ?ch" using run [OF rdma_sync_logs [OF assms(1)]] by blast
  obtain l2 where 2: "while_ctl np_more (rdma_async_body api) ?l = Some l2" "lp_status l2 = ?s" "na_is_ok api (lp_err l2)"
    "log (lp_dev l2) = log dev @ map (?g s \<circ> word_chunk) ?ch" using run [OF rdma_async_logs [OF assms(2)]] assms(3) by blast
  from 1 2 assms(3) show ?thesis
    by (simp add: axnetperf_rdma_sync_def axnetperf_rdma_async_def case_prod_beta o_def)
qed

section \<open>The check of the RDMA zone\<close>

lemma zone_differs_from:
  assumes "n \<le> 2 ^ 31" "(n + 7) div 8 \<le> length z" "j \<le> (n + 7) div 8"
  shows "zone_differs z magic (8 * j) n = Some (\<exists>w\<in>set (drop j (take ((n + 7) div 8) z)). w \<noteq> magic)"
  using assms(3)
proof (induction "(n + 7) div 8 - j" arbitrary: j)
  case 0
  then have "n \<le> 8 * j" by linarith
  with 0 show ?case by (simp add: zone_differs.simps)
next
  case (Suc k)
  then have j: "j < (n + 7) div 8" by simp
  then have n: "8 * j < n" by linarith
  have d: "drop j (take ((n + 7) div 8) z) = z ! j # drop (Suc j) (take ((n + 7) div 8) z)"
    using j assms(2) by (simp add: Cons_nth_drop_Suc [symmetric])
  have "zone_differs z magic (8 * Suc j) n = Some (\<exists>w\<in>set (drop (Suc j) (take ((n + 7) div 8) z)). w \<noteq> magic)"
    using Suc(1) [of "Suc j"] Suc(2) j by simp
  then have IH: "zone_differs z magic (8 * j + 8) n = Some (\<exists>w\<in>set (drop (Suc j) (take ((n + 7) div 8) z)). w \<noteq> magic)"
    by (simp add: add.commute)
  have a: "aget z (8 * j div 8) = Some (z ! j)" using j assms(2) by (simp add: aget_def)
  have "8 * j < 2 ^ 31" using n assms(1) by linarith
  with n a IH show ?case unfolding d by (subst zone_differs.simps) simp
qed

text \<open>The check of the server is complete. For a transfer of at most \<open>2 ^ 31\<close> bytes inside the zone, the
  loop over the bytes by steps of eight reports a difference exactly when one of the words of the transfer
  is not the magic number.\<close>

theorem rdma_check_words:
  assumes "n \<le> 2 ^ 31" "(n + 7) div 8 \<le> length z"
  shows "zone_differs z magic 0 n = Some (\<exists>w\<in>set (take ((n + 7) div 8) z). w \<noteq> magic)"
  using zone_differs_from [OF assms, of 0] by simp

section \<open>The length option\<close>

text \<open>The length of a transfer is taken modulo \<open>2 ^ 32\<close>. A number below \<open>2 ^ 32\<close> with a unit is read as
  the number and the scale of the unit, and the number of bytes is their product modulo \<open>2 ^ 32\<close>.\<close>

lemma length_option_unit:
  assumes "k < 2 ^ 32" "digit_val 10 c = None"
  shows "length_option (print_base 10 k @ [c]) = Some (of_nat k, get_scale c)"
    and "unat (np_total (of_nat k) (get_scale c)) = k * 2 ^ get_scale c mod 2 ^ 32"
proof -
  obtain d x xs where h: "print_base 10 k = x # xs" "d < 10" "x = digit_char d" using print_base_hd [of 10 k] by auto
  have sc: "scan_d (print_base 10 k @ [c]) = Some (int k, [c])" using assms(2) by (intro scan_print) (simp add: starts_digit_def)
  show "length_option (print_base 10 k @ [c]) = Some (of_nat k, get_scale c)"
    using sc assms(1) h digit_not_space [OF h(2)] by (simp add: length_option_def scanned_u32_def)
  have "unat (push_bit (get_scale c) (of_nat k :: u32)) = k * 2 ^ get_scale c mod 2 ^ 32"
  proof -
    have "get_scale c = 0 \<or> get_scale c = 10 \<or> get_scale c = 20 \<or> get_scale c = 30" by (simp add: get_scale_def)
    then have "unat (2 ^ get_scale c :: u32) = 2 ^ get_scale c" by auto
    then show ?thesis by (simp add: push_bit_eq_mult unat_word_ariths unat_of_nat mod_mult_left_eq)
  qed
  then show "unat (np_total (of_nat k) (get_scale c)) = k * 2 ^ get_scale c mod 2 ^ 32"
    unfolding np_total_def unsigned_ucast_eq by (simp add: take_bit_nat_eq_self)
qed

section \<open>Instances\<close>

text \<open>Two threads send twelve bytes with payloads of eight bytes.\<close>

definition demo_status :: "np_status" where
  "demo_status = \<lparr>ns_state = AXN_STATE_INIT, ns_type = AXNP_LONG, ns_server_id = 2, ns_client_port = 3, ns_server_port = 3,
     ns_client = \<lparr>nc_payload_size = 8, nc_total_packets = 0, nc_total_bytes = 12, nc_sent_bytes = 0, nc_sent_raw_bytes = 0,
       nc_rdma_size = 0, nc_magic = 7\<rparr>\<rparr>"

definition demo_np :: np_sys where
  "demo_np = \<lparr>sys_status = demo_status, sys_pc = \<lambda>_. NP_ENTER, sys_size = \<lambda>_. 8, sys_log = []\<rparr>"

definition demo_taken :: "u64 \<Rightarrow> u64 \<Rightarrow> np_client" where
  "demo_taken k b = (ns_client demo_status)\<lparr>nc_total_packets := k, nc_sent_bytes := b\<rparr>"

text \<open>Both threads take their bytes; the second one sends first.\<close>

lemma demo_np_run:
  "\<exists>s. np_reach 16 2 12 s \<and> ns_state (sys_status s) = AXN_STATE_START \<and> ns_client (sys_status s) = demo_taken 2 12
    \<and> sys_pc s 0 = NP_LOOP \<and> sys_pc s (Suc 0) = NP_LOOP \<and> sys_log s = [(8, 4), (0, 8)]"
proof -
  have 0: "np_reach 16 2 12 demo_np" by (rule np_reach.start) (simp add: np_start_def demo_np_def demo_status_def)
  define s1 where "s1 = demo_np\<lparr>sys_status := np_enter (sys_status demo_np), sys_pc := (sys_pc demo_np)(0 := NP_LOOP)\<rparr>"
  have f1: "ns_state (sys_status s1) = AXN_STATE_START" "ns_client (sys_status s1) = ns_client demo_status"
    "sys_pc s1 0 = NP_LOOP" "sys_pc s1 (Suc 0) = NP_ENTER" "sys_size s1 0 = 8" "sys_size s1 (Suc 0) = 8" "sys_log s1 = []"
    by (simp_all add: s1_def demo_np_def demo_status_def np_enter_def)
  have 1: "np_reach 16 2 12 s1" unfolding s1_def
    by (rule np_reach.step [OF 0 np_step.enter [of 0 2 demo_np 16]]) (simp_all add: demo_np_def np_enter_def demo_np_def demo_status_def)
  define s2 where "s2 = s1\<lparr>sys_status := np_enter (sys_status s1), sys_pc := (sys_pc s1)(Suc 0 := NP_LOOP)\<rparr>"
  have f2: "ns_state (sys_status s2) = AXN_STATE_START" "ns_client (sys_status s2) = ns_client demo_status"
    "sys_pc s2 0 = NP_LOOP" "sys_pc s2 (Suc 0) = NP_LOOP" "sys_size s2 0 = 8" "sys_size s2 (Suc 0) = 8" "sys_log s2 = []"
    by (simp_all add: s2_def f1 np_enter_def)
  have 2: "np_reach 16 2 12 s2" unfolding s2_def
    by (rule np_reach.step [OF 1 np_step.enter [of "Suc 0" 2 s1 16]]) (simp_all add: f1 np_enter_def)
  define s3 where "s3 = s2\<lparr>sys_status := (sys_status s2)\<lparr>ns_client := demo_taken 1 8\<rparr>, sys_pc := (sys_pc s2)(0 := NP_SEND 0 8), sys_size := (sys_size s2)(0 := 8)\<rparr>"
  have f3: "ns_state (sys_status s3) = AXN_STATE_START" "ns_client (sys_status s3) = demo_taken 1 8"
    "sys_pc s3 0 = NP_SEND 0 8" "sys_pc s3 (Suc 0) = NP_LOOP" "sys_size s3 0 = 8" "sys_size s3 (Suc 0) = 8" "sys_log s3 = []"
    by (simp_all add: s3_def f2 np_enter_def)
  have 3: "np_reach 16 2 12 s3" unfolding s3_def
    by (rule np_reach.step [OF 2 np_step.take [of 0 2 s2 8 0 "demo_taken 1 8" 16]]) (simp_all add: f2 demo_taken_def np_take_def demo_status_def)
  define s4 where "s4 = s3\<lparr>sys_status := (sys_status s3)\<lparr>ns_client := demo_taken 2 12\<rparr>, sys_pc := (sys_pc s3)(Suc 0 := NP_SEND 8 4), sys_size := (sys_size s3)(Suc 0 := 4)\<rparr>"
  have f4: "ns_state (sys_status s4) = AXN_STATE_START" "ns_client (sys_status s4) = demo_taken 2 12"
    "sys_pc s4 0 = NP_SEND 0 8" "sys_pc s4 (Suc 0) = NP_SEND 8 4" "sys_size s4 0 = 8" "sys_size s4 (Suc 0) = 4" "sys_log s4 = []"
    by (simp_all add: s4_def f3 np_enter_def)
  have 4: "np_reach 16 2 12 s4" unfolding s4_def
    by (rule np_reach.step [OF 3 np_step.take [of "Suc 0" 2 s3 4 8 "demo_taken 2 12" 16]]) (simp_all add: f3 demo_taken_def np_take_def demo_status_def)
  define s5 where "s5 = s4\<lparr>sys_pc := (sys_pc s4)(Suc 0 := NP_LOOP), sys_log := sys_log s4 @ [(8, 4)]\<rparr>"
  have f5: "ns_state (sys_status s5) = AXN_STATE_START" "ns_client (sys_status s5) = demo_taken 2 12"
    "sys_pc s5 0 = NP_SEND 0 8" "sys_pc s5 (Suc 0) = NP_LOOP" "sys_size s5 0 = 8" "sys_size s5 (Suc 0) = 4" "sys_log s5 = [(8, 4)]"
    by (simp_all add: s5_def f4 np_enter_def)
  have 5: "np_reach 16 2 12 s5" unfolding s5_def
    by (rule np_reach.step [OF 4 np_step.sent [of "Suc 0" 2 s4 8 4 16]]) (simp_all add: f4 )
  define s6 where "s6 = s5\<lparr>sys_pc := (sys_pc s5)(0 := NP_LOOP), sys_log := sys_log s5 @ [(0, 8)]\<rparr>"
  have f6: "ns_state (sys_status s6) = AXN_STATE_START" "ns_client (sys_status s6) = demo_taken 2 12"
    "sys_pc s6 0 = NP_LOOP" "sys_pc s6 (Suc 0) = NP_LOOP" "sys_size s6 0 = 8" "sys_size s6 (Suc 0) = 4" "sys_log s6 = [(8, 4), (0, 8)]"
    by (simp_all add: s6_def f5 np_enter_def)
  have 6: "np_reach 16 2 12 s6" unfolding s6_def
    by (rule np_reach.step [OF 5 np_step.sent [of 0 2 s5 0 8 16]]) (simp_all add: f5 )
  from 6 f6 show ?thesis by blast
qed

lemma demo_np_end:
  "\<exists>s. np_reach 16 2 12 s \<and> sys_pc s 0 = NP_DONE \<and> sys_pc s (Suc 0) = NP_DONE \<and> sys_log s = [(8, 4), (0, 8)]"
proof -
  obtain s where s: "np_reach 16 2 12 s" "ns_client (sys_status s) = demo_taken 2 12"
    "sys_pc s 0 = NP_LOOP" "sys_pc s (Suc 0) = NP_LOOP" "sys_log s = [(8, 4), (0, 8)]" using demo_np_run by blast
  define s1 where "s1 = s\<lparr>sys_status := np_finish 16 (sys_status s), sys_pc := (sys_pc s)(0 := NP_DONE)\<rparr>"
  have f1: "nc_sent_bytes (ns_client (sys_status s1)) = 12" "nc_total_bytes (ns_client (sys_status s1)) = 12"
    "sys_pc s1 0 = NP_DONE" "sys_pc s1 (Suc 0) = NP_LOOP" "sys_log s1 = [(8, 4), (0, 8)]"
    using s by (simp_all add: s1_def np_finish_def demo_taken_def demo_status_def)
  have 1: "np_reach 16 2 12 s1" unfolding s1_def
    by (rule np_reach.step [OF s(1) np_step.finish [of 0 2 s 16]]) (simp_all add: s demo_taken_def demo_status_def)
  let ?s = "s1\<lparr>sys_status := np_finish 16 (sys_status s1), sys_pc := (sys_pc s1)(Suc 0 := NP_DONE)\<rparr>"
  have "np_reach 16 2 12 ?s"
    by (rule np_reach.step [OF 1 np_step.finish [of "Suc 0" 2 s1 16]]) (simp_all add: f1)
  with f1 show ?thesis by (intro exI [of _ ?s]) simp
qed

theorem netperf_bytes_once_witness:
  "\<exists>s. np_reach 16 2 12 s \<and> sys_log s = [(8, 4), (0, 8)] \<and> log_bytes 5 (sys_log s) + (\<Sum>t<2. pc_bytes 5 (sys_pc s t)) = 1"
proof -
  obtain s where s: "np_reach 16 2 12 s" "ns_state (sys_status s) = AXN_STATE_START" "ns_client (sys_status s) = demo_taken 2 12"
    "sys_pc s 0 = NP_LOOP" "sys_pc s (Suc 0) = NP_LOOP" "sys_log s = [(8, 4), (0, 8)]" using demo_np_run by blast
  have "\<forall>t<2. sys_pc s t \<noteq> NP_FAILED" using s(4,5) by (simp add: less_Suc_eq numeral_2_eq_2)
  with netperf_bytes_once [OF s(1)] s(2,3) have "log_bytes 5 (sys_log s) + (\<Sum>t<2. pc_bytes 5 (sys_pc s t)) = 1"
    by (simp add: demo_taken_def)
  with s show ?thesis by blast
qed

theorem netperf_one_reply_witness:
  "let data = \<lambda>sz. (9, sz, (start_payload demo_status)\<lparr>np_command := AXIOM_CMD_NETPERF\<rparr>)
   in \<exists>sv' r. server_run [(5, 100, start_payload demo_status), data 8, data 4] None
       \<lparr>sv_start_ts = 0, sv_cur_ts = 0, sv_expected_bytes = 0, sv_received_bytes = 0, sv_reply_port = 0\<rparr> = Some (sv', [(3, r)])
     \<and> np_total_bytes r = 12"
proof -
  obtain s where s: "np_reach 16 2 12 s" "sys_pc s 0 = NP_DONE" "sys_pc s (Suc 0) = NP_DONE" "sys_log s = [(8, 4), (0, 8)]"
    using demo_np_end by blast
  then have "\<forall>t<2. sys_pc s t = NP_DONE" by (simp add: less_Suc_eq numeral_2_eq_2)
  from netperf_one_reply [OF s(1) _ this, of "start_payload demo_status"
      "[(9, 8, (start_payload demo_status)\<lparr>np_command := AXIOM_CMD_NETPERF\<rparr>), (9, 4, (start_payload demo_status)\<lparr>np_command := AXIOM_CMD_NETPERF\<rparr>)]"]
    s(4) show ?thesis by (fastforce simp: start_payload_def demo_status_def Let_def)
qed

theorem rdma_check_words_witness:
  "zone_differs [7, 7, 9] 7 0 12 = Some False \<and> zone_differs [7, 7, 9] 7 0 17 = Some True"
  using rdma_check_words [of 12 "[7, 7, 9]" 7] rdma_check_words [of 17 "[7, 7, 9]" 7] by simp

text \<open>A NIC that accepts everything and logs what is sent.\<close>

record demo_np_dev =
  nd_data :: "((u8 \<times> u8) \<times> u64) list"
  nd_writes :: "(u8 \<times> u64 \<times> u64) list"

definition demo_np_api :: "demo_np_dev np_api" where
  "demo_np_api = \<lparr>na_is_ok = (\<lambda>e. 0 \<le> e), na_ok = 0, na_error = - 1,
     na_send_raw = (\<lambda>d n m. (0, d\<lparr>nd_data := nd_data d @ [(n, m)]\<rparr>)), na_send_long = (\<lambda>d n m. (0, d\<lparr>nd_data := nd_data d @ [(n, m)]\<rparr>)),
     na_send = (\<lambda>d n m. (0, d)), na_recv = (\<lambda>d. None),
     na_rdma_write = (\<lambda>d n m. (0, d\<lparr>nd_writes := nd_writes d @ [(n, m)]\<rparr>)),
     na_rdma_write_sync = (\<lambda>d n m. (0, d\<lparr>nd_writes := nd_writes d @ [(n, m)]\<rparr>)),
     na_rdma_wait = (\<lambda>d i. (0, d)), na_rdma_zone = Some 4096, na_magic = 7\<rparr>"

lemma demo_np_chunks: "np_chunks 8 0 12 = [(0, 8), (8, 4)]"
  by (simp add: np_chunks.simps)

definition demo_np_consts :: np_consts where
  "demo_np_consts = \<lparr>AXIOM_RAW_PAYLOAD_MAX_SIZE = 248, AXIOM_LONG_PAYLOAD_MAX_SIZE = 4096, AXIOM_RDMA_PAYLOAD_MAX_SIZE = 65536,
     AXIOM_RDMA_ADDRESS_ALIGNMENT = 8, axiom_raw_hdr_size = 8, axiom_rdma_hdr_size = 16\<rparr>"

theorem raw_long_sends_all_witness:
  "\<exists>s' dev'. axnetperf_raw_long demo_np_consts demo_np_api demo_status \<lparr>nd_data = [], nd_writes = []\<rparr> = Some (0, s', dev')
    \<and> nd_data dev' = [((2, 3), 8), ((2, 3), 4)]"
proof -
  have "if ns_type demo_status = AXNP_RAW then lossless (na_is_ok demo_np_api) (na_send_raw demo_np_api) nd_data
      else lossless (na_is_ok demo_np_api) (na_send_long demo_np_api) nd_data"
    by (simp add: lossless_def demo_np_api_def)
  from raw_long_sends_all [OF this, where dev = "\<lparr>nd_data = [], nd_writes = []\<rparr>" and k = demo_np_consts] demo_np_chunks show ?thesis
    by (auto simp: demo_np_api_def demo_status_def)
qed

theorem rdma_sync_async_equiv_witness:
  "\<exists>e1 e2 s' d1 d2. axnetperf_rdma_sync demo_np_api demo_status \<lparr>nd_data = [], nd_writes = []\<rparr> = Some (e1, s', d1)
    \<and> axnetperf_rdma_async demo_np_api demo_status \<lparr>nd_data = [], nd_writes = []\<rparr> = Some (e2, s', d2)
    \<and> nd_writes d1 = [(2, 0, 8), (2, 8, 4)] \<and> nd_writes d2 = [(2, 0, 8), (2, 8, 4)]"
  using rdma_sync_async_equiv [of demo_np_api nd_writes demo_status "\<lparr>nd_data = [], nd_writes = []\<rparr>"] demo_np_chunks
  by (auto simp: lossless_def demo_np_api_def demo_status_def word_chunk_def)

end
