(* ===== verification/Run_Nodes.thy ===== *)
theory Run_Nodes
  imports C_Numbers
begin

text \<open>
  The node sets of \<open>axiom-run\<close> (\<open>axiom-run/axiom-run.c\<close>, \<open>axiom-run/lib/nodes.c\<close>): 64-bit masks in which
  bit \<open>k\<close> stands for node \<open>k\<close>, the text forms of the command line, and the loops that go through
  the nodes of a mask.
\<close>

section \<open>The code\<close>

lemma drop_bit_less: "nodes \<noteq> 0 \<Longrightarrow> unat (drop_bit 1 (nodes :: u64)) < unat nodes"
  by (simp add: drop_bit_eq_div unat_div unat_gt_0)

text \<open>The nodes that the loops \<open>while (nodes != 0) { if (nodes & 0x1) \<dots>; node++; nodes >>= 1; }\<close> visit,
  in their order; \<open>node\<close> is an 8-bit counter.\<close>

function mask_nodes :: "u8 \<Rightarrow> u64 \<Rightarrow> u8 list" where
  "mask_nodes node nodes = (if nodes = 0 then []
     else (if nodes AND 1 \<noteq> 0 then [node] else []) @ mask_nodes (node + 1) (drop_bit 1 nodes))"
  by auto

termination
  by (relation "measure (unat \<circ> snd)") (use drop_bit_less in auto)

declare mask_nodes.simps [simp del]

text \<open>The count of the nodes of a mask, in \<open>manage_master_services\<close> and \<open>prepare_env\<close>.\<close>

definition count_nodes :: "u64 \<Rightarrow> nat" where
  "count_nodes nodes = length (mask_nodes 0 nodes)"

definition MAX_NUM_NODES :: nat where "MAX_NUM_NODES = 63"
definition MAX_NODES_SUPPORTED :: nat where "MAX_NODES_SUPPORTED = 63"
definition ALL_NODES :: u64 where "ALL_NODES = 0xfffffffffffffffe"

definition ALL_NODES_MASK :: "nat \<Rightarrow> u64" where
  "ALL_NODES_MASK x = (if x \<ge> MAX_NODES_SUPPORTED then 0xfffffffffffffffe else push_bit 1 (push_bit x 1 - 1))"

text \<open>One token of the node list; \<open>None\<close> is the exit with a usage message. The numbers of the C text
  are converted to \<open>int\<close>; those that do not fit are rejected here with the other numbers above
  \<open>MAX_NUM_NODES\<close>.\<close>

definition scan_range :: "string \<Rightarrow> (int \<times> int) option" where
  "scan_range s = do {
     (a, r) \<leftarrow> scan_di s;
     case r of c # r \<Rightarrow> if c = CHR ''-'' then map_option (\<lambda>(b, _). (a, b)) (scan_di r) else None | [] \<Rightarrow> None
   }"

definition decode_token :: "string \<Rightarrow> u64 \<Rightarrow> u64 option" where
  "decode_token s r =
     (if CHR ''-'' \<in> set s
      then case scan_range s of
          None \<Rightarrow> None
        | Some (a, b) \<Rightarrow>
            if a < 1 \<or> a > b \<or> b > int MAX_NUM_NODES then None
            else if b - a + 1 = int MAX_NUM_NODES then Some ALL_NODES
            else Some (r OR push_bit (nat a) (push_bit (nat (b - a + 1)) 1 - 1))
      else case scan_di s of
          None \<Rightarrow> None
        | Some (a, _) \<Rightarrow> if a < 1 \<or> a > int MAX_NUM_NODES then None else Some (r OR push_bit (nat a) 1))"

definition decode_node_arg :: "string \<Rightarrow> u64 option" where
  "decode_node_arg arg =
     (if has_prefix ''0x'' arg then scan_lx arg else for_each decode_token (strtok_all CHR '','' arg) 0)"

text \<open>\<open>None\<close> is the exit for a missing colon or a bad node list.\<close>

definition decode_gdb_arg :: "string \<Rightarrow> (u64 \<times> int) option" where
  "decode_gdb_arg arg =
     (if CHR '':'' \<in> set arg
      then do {
        nodes \<leftarrow> decode_node_arg (takeWhile (\<lambda>c. c \<noteq> CHR '':'') arg);
        Some (nodes, atoi (drop 1 (dropWhile (\<lambda>c. c \<noteq> CHR '':'') arg)))
      }
      else None)"

definition clz :: "u64 \<Rightarrow> nat option" where
  "clz n = (if n = 0 then Some 64
     else map_option snd (while_ctl (\<lambda>(n, _). n \<noteq> 0)
       (\<lambda>(n, c). if n AND 0x8000000000000000 \<noteq> 0 then Some (Break, n, c) else Some (Next, push_bit 1 n, c + 1))
       (n, 0)))"

text \<open>The nodes of the session, from the number of nodes of the network and the node set of the command
  line (0 when it was not given). \<open>None\<close> is the failed assertion that the set is not empty.\<close>

definition select_nodes :: "nat \<Rightarrow> u64 \<Rightarrow> u64 option" where
  "select_nodes num_nodes nodes = (
     let n = (if num_nodes > MAX_NUM_NODES then MAX_NUM_NODES else num_nodes);
         nodes = (if nodes = 0 then ALL_NODES_MASK n else nodes)
     in do {
       z \<leftarrow> clz nodes;
       let bn = int MAX_NODES_SUPPORTED - int z - 1;
       let nodes = (if bn > int n then nodes AND ALL_NODES_MASK n else nodes);
       if nodes \<noteq> 0 then Some nodes else None
     })"

text \<open>The values that an application reads from its environment.\<close>

definition axrun_get_nodes :: "string option \<Rightarrow> u64" where
  "axrun_get_nodes env = (case env of None \<Rightarrow> 0 | Some s \<Rightarrow> strtoull0 s)"

definition axrun_get_num_nodes :: "string option \<Rightarrow> int" where
  "axrun_get_num_nodes env = (case env of None \<Rightarrow> - 1 | Some s \<Rightarrow> sint (ucast (strtoull0 s) :: u32))"

section \<open>Masks are sets of nodes\<close>

definition nodes_of :: "u64 \<Rightarrow> nat set" where
  "nodes_of m = {k. bit m k}"

lemma nodes_of_less: "k \<in> nodes_of m \<Longrightarrow> k < 64"
  unfolding nodes_of_def using bit_imp_le_length [of m k] by simp

lemma finite_nodes_of [simp]: "finite (nodes_of m)"
  by (rule finite_subset [of _ "{..<64}"]) (auto dest: nodes_of_less)

lemma nodes_of_eq_empty [simp]: "nodes_of m = {} \<longleftrightarrow> m = 0"
  by (auto simp: nodes_of_def intro: bit_eqI)

lemma nodes_of_simps [simp]:
  "nodes_of 0 = {}" "nodes_of (a OR b) = nodes_of a \<union> nodes_of b" "nodes_of (a AND b) = nodes_of a \<inter> nodes_of b"
  by (auto simp: nodes_of_def bit_or_iff bit_and_iff)

lemma and_1_bit: "(m :: u64) AND 1 \<noteq> 0 \<longleftrightarrow> bit m 0"
  by (simp add: and_one_eq even_iff_mod_2_eq_zero bit_0 odd_iff_mod_2_eq_one)

lemma mask_nodes_filter:
  assumes "n + i = 64" "\<And>k. bit m k \<Longrightarrow> k < n"
  shows "mask_nodes (of_nat i) m = map of_nat (filter (\<lambda>k. bit m (k - i)) [i..<64])"
  using assms
proof (induction n arbitrary: i m)
  case 0
  then have "nodes_of m = {}" by (auto simp: nodes_of_def)
  with 0 show ?case by (simp add: mask_nodes.simps)
next
  case (Suc n)
  show ?case
  proof (cases "m = 0")
    case True
    then show ?thesis by (simp add: mask_nodes.simps)
  next
    case False
    have b: "bit (drop_bit 1 m) k \<longleftrightarrow> bit m (Suc k)" for k by (simp add: bit_drop_bit_eq)
    have IH: "mask_nodes (of_nat (Suc i)) (drop_bit 1 m)
        = map of_nat (filter (\<lambda>k. bit (drop_bit 1 m) (k - Suc i)) [Suc i..<64])"
      using Suc.prems(1) Suc.prems(2) [of "Suc _"] by (intro Suc.IH) (auto simp: b [simplified])
    have "filter (\<lambda>k. bit (drop_bit 1 m) (k - Suc i)) [Suc i..<64] = filter (\<lambda>k. bit m (k - i)) [Suc i..<64]"
      by (rule filter_cong) (auto simp: b [simplified] Suc_diff_Suc)
    with IH False Suc.prems(1) show ?thesis
      by (simp add: mask_nodes.simps [of "of_nat i" m] and_1_bit upt_conv_Cons add.commute)
  qed
qed

lemma mask_nodes_eq: "mask_nodes 0 m = map of_nat (filter (bit m) [0..<64])"
  using mask_nodes_filter [of 64 0 m] nodes_of_less [of _ m] by (simp add: nodes_of_def)

lemma set_mask_nodes: "set (mask_nodes 0 m) = of_nat ` nodes_of m"
  unfolding mask_nodes_eq nodes_of_def using nodes_of_less [of _ m] by (auto simp: nodes_of_def)

lemma unat_of_nat_u8_inj: "inj_on (of_nat :: nat \<Rightarrow> u8) {..<256}"
  by (auto intro!: inj_onI simp: of_nat_eq_u8_iff)

lemma distinct_mask_nodes: "distinct (mask_nodes 0 m)"
  unfolding mask_nodes_eq by (auto simp: distinct_map intro: inj_on_subset [OF unat_of_nat_u8_inj])

lemma count_nodes_card: "count_nodes m = card (nodes_of m)"
proof -
  have "count_nodes m = card (set (filter (bit m) [0..<64]))"
    unfolding count_nodes_def mask_nodes_eq by (subst distinct_card) simp_all
  also have "set (filter (bit m) [0..<64]) = nodes_of m" using nodes_of_less [of _ m] by (auto simp: nodes_of_def)
  finally show ?thesis .
qed

section \<open>Ranges\<close>

lemma nodes_of_push_1: "a < 64 \<Longrightarrow> nodes_of (push_bit a 1) = {a}"
  by (auto simp: nodes_of_def bit_push_bit_iff bit_1_iff)

lemma push_1_minus_1: "push_bit n 1 - 1 = (mask n :: u64)"
  by (simp add: mask_eq_exp_minus_1)

lemma nodes_of_mask: "nodes_of (mask n) = {k. k < n \<and> k < 64}"
  by (auto simp: nodes_of_def bit_mask_iff)

lemma nodes_of_range: "a + n \<le> 64 \<Longrightarrow> nodes_of (push_bit a (push_bit n 1 - 1)) = {a..<a + n}"
  unfolding push_1_minus_1 nodes_of_def by (auto simp: bit_push_bit_iff bit_mask_iff)

lemma all_nodes_mask: "0xfffffffffffffffe = (push_bit 1 (mask 63) :: u64)"
  by (simp add: mask_eq_exp_minus_1)

lemma nodes_of_all: "nodes_of 0xfffffffffffffffe = {1..<64}"
  unfolding all_nodes_mask nodes_of_def by (intro set_eqI) (simp only: mem_Collect_eq bit_push_bit_iff bit_mask_iff, auto)

lemma nodes_of_ALL_NODES_MASK: "nodes_of (ALL_NODES_MASK n) = {1..min n 63}"
proof (cases "n < 63")
  case True
  then have "ALL_NODES_MASK n = push_bit 1 (push_bit n 1 - 1)"
    unfolding ALL_NODES_MASK_def MAX_NODES_SUPPORTED_def by (intro if_not_P) simp
  then have "nodes_of (ALL_NODES_MASK n) = {1..<1 + n}" using True nodes_of_range [of 1 n] by (simp only:)
  also have "\<dots> = {1..min n 63}" using True by auto
  finally show ?thesis .
next
  case False
  then have "nodes_of (ALL_NODES_MASK n) = {1..<64}"
    unfolding ALL_NODES_MASK_def MAX_NODES_SUPPORTED_def using nodes_of_all by simp
  also have "\<dots> = {1..min n 63}" using False by auto
  finally show ?thesis .
qed

section \<open>The node list\<close>

text \<open>The text form of a node list: single nodes and ranges.\<close>

datatype node_item = One nat | Range nat nat

fun item_nodes :: "node_item \<Rightarrow> nat set" where
  "item_nodes (One a) = {a}"
| "item_nodes (Range a b) = {a..b}"

fun item_ok :: "node_item \<Rightarrow> bool" where
  "item_ok (One a) \<longleftrightarrow> 1 \<le> a \<and> a \<le> MAX_NUM_NODES"
| "item_ok (Range a b) \<longleftrightarrow> 1 \<le> a \<and> a \<le> b \<and> b \<le> MAX_NUM_NODES"

fun print_item :: "node_item \<Rightarrow> string" where
  "print_item (One a) = print_base 10 a"
| "print_item (Range a b) = print_base 10 a @ ''-'' @ print_base 10 b"

fun print_items :: "node_item list \<Rightarrow> string" where
  "print_items [] = []"
| "print_items [i] = print_item i"
| "print_items (i # is) = print_item i @ '','' @ print_items is"

lemma not_digit_minus [simp]: "\<not> starts_digit 10 []" "\<not> starts_digit 10 (CHR ''-'' # t)"
  by (simp_all add: starts_digit_def digit_val_def)

lemma scan_di_print: "n < 2 ^ 31 \<Longrightarrow> \<not> starts_digit 10 t \<Longrightarrow> scan_di (print_base 10 n @ t) = Some (int n, t)"
  using scan_print [of t n] to_int_id [of "int n"] by (simp add: scan_di_def)

lemma scan_range_print: "a < 2 ^ 31 \<Longrightarrow> b < 2 ^ 31 \<Longrightarrow> scan_range (print_base 10 a @ CHR ''-'' # print_base 10 b) = Some (int a, int b)"
  using scan_di_print [of a "CHR ''-'' # print_base 10 b"] scan_di_print [of b "[]"] by (simp add: scan_range_def)

lemma decode_item:
  assumes "item_ok i" "nodes_of r \<subseteq> {1..<64}"
  shows "\<exists>r'. decode_token (print_item i) r = Some r' \<and> nodes_of r' = nodes_of r \<union> item_nodes i \<and> nodes_of r' \<subseteq> {1..<64}"
proof (cases i)
  case (One a)
  then have "\<not> (int a < 1 \<or> int a > int MAX_NUM_NODES)" "a < 64" "CHR ''-'' \<notin> set (print_item i)"
    "scan_di (print_item i) = Some (int a, [])"
    using assms print_no_sign [of "CHR ''-''" a] scan_di_print [of a "[]"] by (simp_all add: MAX_NUM_NODES_def)
  then have "decode_token (print_item i) r = Some (r OR push_bit a 1)"
    by (simp only: decode_token_def if_False option.case prod.case nat_int)
  moreover have "nodes_of (r OR push_bit a 1) = nodes_of r \<union> {a}"
    using \<open>a < 64\<close> by (simp only: nodes_of_simps nodes_of_push_1)
  ultimately show ?thesis using One assms \<open>a < 64\<close> by (intro exI [of _ "r OR push_bit a 1"]) (simp only: item_nodes.simps item_ok.simps, simp)
next
  case (Range a b)
  have ok: "1 \<le> a" "a \<le> b" "b \<le> 63" using assms Range by (simp_all add: MAX_NUM_NODES_def)
  then have s: "CHR ''-'' \<in> set (print_item i)" "scan_range (print_item i) = Some (int a, int b)"
      "\<not> (int a < 1 \<or> int a > int b \<or> int b > int MAX_NUM_NODES)"
    using Range scan_range_print [of a b] by (simp_all add: MAX_NUM_NODES_def)
  have d: "decode_token (print_item i) r = (if int b - int a + 1 = int MAX_NUM_NODES then Some ALL_NODES
      else Some (r OR push_bit a (push_bit (nat (int b - int a + 1)) 1 - 1)))"
    by (simp only: decode_token_def s if_True if_False option.case prod.case nat_int)
  show ?thesis
  proof (cases "int b - int a + 1 = int MAX_NUM_NODES")
    case True
    then have "a = 1" "b = 63" using ok by (auto simp: MAX_NUM_NODES_def)
    with d True Range assms nodes_of_all show ?thesis by (intro exI [of _ ALL_NODES]) (auto simp: ALL_NODES_def)
  next
    case False
    then have "decode_token (print_item i) r = Some (r OR push_bit a (push_bit (b - a + 1) 1 - 1))"
      using ok d by (simp add: nat_diff_distrib nat_add_distrib Suc_diff_le)
    moreover have "nodes_of (push_bit a (push_bit (b - a + 1) 1 - 1)) = {a..b}"
      using ok by (intro trans [OF nodes_of_range]) auto
    ultimately show ?thesis using Range assms(2) ok
      by (intro exI [of _ "r OR push_bit a (push_bit (b - a + 1) 1 - 1)"]) (simp only: nodes_of_simps item_nodes.simps, auto)
  qed
qed

lemma print_item_props: "CHR '','' \<notin> set (print_item i)" "print_item i \<noteq> []" "CHR ''x'' \<notin> set (print_item i)"
proof -
  have "CHR ''x'' \<notin> set (print_base 10 n)" for n
  proof
    assume "CHR ''x'' \<in> set (print_base 10 n)"
    then obtain d where d: "d < 10" "CHR ''x'' = digit_char d" using print_base_digits [of 10 "CHR ''x''" n] by auto
    from digit_code [OF d(1)] d(1) show False unfolding d(2) [symmetric] by simp
  qed
  then show "CHR '','' \<notin> set (print_item i)" "print_item i \<noteq> []" "CHR ''x'' \<notin> set (print_item i)"
    using print_no_sign [of "CHR '',''"] by (cases i; simp)+
qed

lemma print_items_no_x: "CHR ''x'' \<notin> set (print_items is)"
  by (induction "is" rule: print_items.induct) (auto simp: print_item_props)

lemma strtok_items: "strtok_all CHR '','' (print_items is) = map print_item is"
proof (induction "is" rule: print_items.induct)
  case (3 i j "is")
  then show ?case using split_on_append(1) [OF print_item_props(1), of i "print_items (j # is)"]
    by (simp add: strtok_all_def print_item_props)
qed (simp_all add: strtok_all_def split_on_append print_item_props)

lemma decode_items:
  assumes "\<forall>i\<in>set is. item_ok i" "nodes_of r \<subseteq> {1..<64}"
  shows "\<exists>r'. for_each decode_token (map print_item is) r = Some r' \<and> nodes_of r' = nodes_of r \<union> \<Union> (item_nodes ` set is)"
  using assms
proof (induction "is" arbitrary: r)
  case (Cons i "is")
  then obtain r1 where 1: "decode_token (print_item i) r = Some r1" "nodes_of r1 = nodes_of r \<union> item_nodes i"
    "nodes_of r1 \<subseteq> {1..<64}" using decode_item [of i r] by auto
  from Cons.IH [OF _ 1(3)] Cons.prems(1) obtain r' where
    "for_each decode_token (map print_item is) r1 = Some r'" "nodes_of r' = nodes_of r1 \<union> \<Union> (item_nodes ` set is)" by auto
  with 1 show ?case by auto
qed simp

text \<open>C34: the node list of the command line. Every list of nodes and ranges between 1 and 63 is
  accepted, and the mask has exactly the nodes of the list.\<close>

theorem decode_node_list:
  assumes "\<forall>i\<in>set is. item_ok i"
  shows "\<exists>m. decode_node_arg (print_items is) = Some m \<and> nodes_of m = \<Union> (item_nodes ` set is)"
proof -
  have "\<not> has_prefix ''0x'' (print_items is)"
    unfolding has_prefix_def using print_items_no_x [of "is"] by (metis in_set_takeD list.set_intros(1,2))
  with decode_items [OF assms, of 0] show ?thesis by (auto simp: decode_node_arg_def strtok_items)
qed

text \<open>The node set reaches the slaves and the applications unchanged. The hexadecimal text that the
  master passes to the slaves (option \<open>-n\<close>), and a slave to its application (\<open>AXIOM_NODES\<close>), is read
  back as the same set.\<close>

theorem nodes_hex_roundtrip:
  "decode_node_arg (''0x'' @ print_base 16 (unat m)) = Some m \<and> axrun_get_nodes (Some (''0x'' @ print_base 16 (unat m))) = m"
  using scan_lx_print [of m] strtoull0_print [of m] by (simp add: decode_node_arg_def axrun_get_nodes_def has_prefix_def)

section \<open>The nodes of a session\<close>

lemma top_bit: "m AND 0x8000000000000000 \<noteq> 0 \<longleftrightarrow> 63 \<in> nodes_of m"
proof -
  have "nodes_of (0x8000000000000000 :: u64) = {63}" using nodes_of_push_1 [of 63] by simp
  then have "nodes_of (m AND 0x8000000000000000) = nodes_of m \<inter> {63}" by (simp only: nodes_of_simps)
  then show ?thesis using nodes_of_eq_empty [of "m AND 0x8000000000000000"] by auto
qed

lemma nodes_of_shift: "63 \<notin> nodes_of m \<Longrightarrow> nodes_of (push_bit 1 m) = Suc ` nodes_of m"
proof -
  assume top: "63 \<notin> nodes_of m"
  have "k \<in> nodes_of (push_bit 1 m) \<longleftrightarrow> k \<in> Suc ` nodes_of m" for k
  proof (cases k)
    case 0
    then show ?thesis by (simp add: nodes_of_def bit_push_bit_iff del: push_bit_of_1) (simp add: bit_0)
  next
    case (Suc j)
    then have "k \<in> nodes_of (push_bit 1 m) \<longleftrightarrow> Suc j < 64 \<and> j \<in> nodes_of m"
      unfolding nodes_of_def mem_Collect_eq bit_push_bit_iff by auto
    moreover have "j < 63" if "j \<in> nodes_of m" using that top nodes_of_less [OF that] by (cases "j = 63") auto
    ultimately show ?thesis using Suc by auto
  qed
  then show ?thesis by auto
qed

lemma clz_loop:
  assumes "m \<noteq> 0" "Max (nodes_of m) = 63 - j" "j < 64"
  shows "\<exists>m'. while_ctl (\<lambda>(n :: u64, _). n \<noteq> 0)
       (\<lambda>(n, c). if n AND 0x8000000000000000 \<noteq> 0 then Some (Break, n, c) else Some (Next, push_bit 1 n, c + 1))
       (m, c) = Some (m', c + j)"
  using assms
proof (induction j arbitrary: m c)
  case 0
  then have "63 \<in> nodes_of m" using Max_in [of "nodes_of m"] by simp
  with 0(1) top_bit [of m] show ?case by (intro exI [of _ m]) (simp add: while_ctl_Break)
next
  case (Suc j)
  then have top: "63 \<notin> nodes_of m" using Max_ge [of "nodes_of m" 63] by auto
  have ne: "nodes_of m \<noteq> {}" using Suc.prems(1) by simp
  have sh: "nodes_of (push_bit 1 m) = Suc ` nodes_of m" by (rule nodes_of_shift [OF top])
  then have m1: "push_bit 1 m \<noteq> 0" using ne nodes_of_eq_empty by blast
  have "Max (nodes_of (push_bit 1 m)) = Suc (Max (nodes_of m))"
    unfolding sh using ne by (intro mono_Max_commute [symmetric]) (auto simp: mono_def)
  then have "Max (nodes_of (push_bit 1 m)) = 63 - j" using Suc.prems by simp
  from Suc.IH [OF m1 this, of "c + 1"] Suc.prems(1,3) top top_bit [of m] show ?case
    by (auto simp: while_ctl.simps [of _ _ "(m, c)"])
qed

lemma clz_Max: "m \<noteq> 0 \<Longrightarrow> clz m = Some (63 - Max (nodes_of m))"
proof -
  assume m: "m \<noteq> 0"
  have "Max (nodes_of m) \<le> 63" using m by (auto dest: nodes_of_less)
  then show ?thesis using clz_loop [OF m, of "63 - Max (nodes_of m)" 0] m by (auto simp: clz_def)
qed

lemma select_nodes_run:
  assumes n_def: "n = min num 63"
  shows "select_nodes num m = (if m = 0 then (if n = 0 then None else Some (ALL_NODES_MASK n))
    else if Max (nodes_of m) \<le> n + 1 then Some m
    else if nodes_of m \<inter> {1..n} = {} then None else Some (m AND ALL_NODES_MASK n))"
proof -
  have n: "(if num > MAX_NUM_NODES then MAX_NUM_NODES else num) = n" by (auto simp: n_def MAX_NUM_NODES_def)
  have bn: "(int MAX_NODES_SUPPORTED - int (63 - Max (nodes_of m')) - 1 > int n) \<longleftrightarrow> \<not> Max (nodes_of m') \<le> n + 1"
    if "m' \<noteq> 0" for m'
  proof -
    have "Max (nodes_of m') \<le> 63" using that by (auto dest: nodes_of_less)
    then show ?thesis by (auto simp: MAX_NODES_SUPPORTED_def simp del: Max_le_iff)
  qed
  have all: "nodes_of (ALL_NODES_MASK n) = {1..n}" unfolding nodes_of_ALL_NODES_MASK by (auto simp: n_def)
  show ?thesis
  proof (cases "m = 0")
    case True
    show ?thesis
    proof (cases "n = 0")
      case True
      then have "ALL_NODES_MASK n = 0" using all nodes_of_eq_empty [of "ALL_NODES_MASK n"] by auto
      with \<open>m = 0\<close> True show ?thesis unfolding select_nodes_def n Let_def by (simp add: clz_def)
    next
      case False
      then have a: "ALL_NODES_MASK n \<noteq> 0" using all nodes_of_eq_empty [of "ALL_NODES_MASK n"] by auto
      have "Max (nodes_of (ALL_NODES_MASK n)) \<le> n + 1" unfolding all using False by simp
      with \<open>m = 0\<close> False bn [OF a] show ?thesis unfolding select_nodes_def n Let_def by (simp add: clz_Max a del: Max_le_iff)
    qed
  next
    case False
    have "m AND ALL_NODES_MASK n = 0 \<longleftrightarrow> nodes_of m \<inter> {1..n} = {}"
      using nodes_of_eq_empty [of "m AND ALL_NODES_MASK n"] all by simp
    with False bn [OF False] show ?thesis unfolding select_nodes_def n Let_def by (simp add: clz_Max del: Max_le_iff)
  qed
qed

text \<open>C35: the nodes of a session. Without a node list they are all the nodes of the network, up to 63. A
  given set is kept when its highest node is at most one above the number \<open>n\<close> of nodes, and cropped to
  the nodes from 1 to \<open>n\<close> otherwise; the program stops when nothing is left. (So a node one above the
  last existing one is not cropped.)\<close>

theorem select_nodes_spec:
  "select_nodes num m = (let n = min num 63 in
     if m = 0 then (if n = 0 then None else Some (ALL_NODES_MASK n))
     else if Max (nodes_of m) \<le> n + 1 then Some m
     else if nodes_of m \<inter> {1..n} = {} then None else Some (m AND ALL_NODES_MASK n))"
  unfolding Let_def by (rule select_nodes_run [OF refl])

theorem decode_node_list_witness:
  "\<exists>m. decode_node_arg ''1-3,7'' = Some m \<and> nodes_of m = {1, 2, 3, 7}"
proof -
  have "print_items [Range 1 3, One 7] = ''1-3,7''" by code_simp
  moreover have "{1..3} \<union> {7} = {1, 2, 3, 7 :: nat}" by auto
  ultimately show ?thesis using decode_node_list [of "[Range 1 3, One 7]"] by (simp add: MAX_NUM_NODES_def)
qed

end
