(* ===== verification/Run_Common.thy ===== *)
theory Run_Common
  imports Run_Nodes Strlist Nic_Api
begin

text \<open>
  What the master and the slaves of \<open>axiom-run\<close> share (\<open>axiom-run/common.h\<close>, \<open>axiom-run/axiom-run.h\<close>): the
  messages, the services and the flags, the calls of the NIC and of the allocator library, which are
  parameters, and the broadcast of a message to a set of nodes.
\<close>

section \<open>Messages, services and flags\<close>

definition CMD_EXIT :: u8 where "CMD_EXIT = 0x80"
definition CMD_KILL :: u8 where "CMD_KILL = 0x81"
definition CMD_SEND_TO_STDOUT :: u8 where "CMD_SEND_TO_STDOUT = 0x82"
definition CMD_SEND_TO_STDERR :: u8 where "CMD_SEND_TO_STDERR = 0x83"
definition CMD_RECV_FROM_STDIN :: u8 where "CMD_RECV_FROM_STDIN = 0x84"
definition CMD_BARRIER :: u8 where "CMD_BARRIER = 0x85"
definition CMD_RPC :: u8 where "CMD_RPC = 0x86"
definition CMD_START :: u8 where "CMD_START = 0x87"

definition AXRUN_MAX_BARRIER_ID :: u32 where "AXRUN_MAX_BARRIER_ID = 15"

lemmas cmd_defs = CMD_EXIT_def CMD_KILL_def CMD_SEND_TO_STDOUT_def CMD_SEND_TO_STDERR_def
  CMD_RECV_FROM_STDIN_def CMD_BARRIER_def CMD_RPC_def CMD_START_def

text \<open>The header. The members of the union are views of the same bytes; the program only reads the
  view that belongs to the command.\<close>

record header =
  command :: u8
  status :: u32
  barrier_id :: u32
  rpc_id :: u64
  rpc_function :: u32
  rpc_size :: u32
  magic :: u64

text \<open>A message of \<open>size\<close> bytes: the header and the \<open>size - sizeof (header_t)\<close> bytes after it.\<close>

record run_msg =
  hdr :: header
  raw :: bytes

definition BARRIER_SERVICE :: u32 where "BARRIER_SERVICE = 0x01"
definition EXIT_SERVICE :: u32 where "EXIT_SERVICE = 0x02"
definition REDIRECT_SERVICE :: u32 where "REDIRECT_SERVICE = 0x04"
definition RPC_SERVICE :: u32 where "RPC_SERVICE = 0x08"
definition ALLOCATOR_SERVICE :: u32 where "ALLOCATOR_SERVICE = 0x10"
definition KILL_SERVICE :: u32 where "KILL_SERVICE = 0x20"

lemmas service_defs = BARRIER_SERVICE_def EXIT_SERVICE_def REDIRECT_SERVICE_def RPC_SERVICE_def
  ALLOCATOR_SERVICE_def KILL_SERVICE_def

definition EXIT_FLAG_MASK :: u32 where "EXIT_FLAG_MASK = 0x1c"
definition EXIT_FLAG_SHIFT :: nat where "EXIT_FLAG_SHIFT = 2"
definition FIRST_ABS_EXIT_FLAG :: u32 where "FIRST_ABS_EXIT_FLAG = push_bit EXIT_FLAG_SHIFT 5"
definition NOFAIL_EXIT_FLAG :: u32 where "NOFAIL_EXIT_FLAG = push_bit EXIT_FLAG_SHIFT 4"
definition FIRST_EXIT_FLAG :: u32 where "FIRST_EXIT_FLAG = push_bit EXIT_FLAG_SHIFT 3"
definition LAST_EXIT_FLAG :: u32 where "LAST_EXIT_FLAG = push_bit EXIT_FLAG_SHIFT 2"
definition LESSER_EXIT_FLAG :: u32 where "LESSER_EXIT_FLAG = push_bit EXIT_FLAG_SHIFT 1"
definition GREATHER_EXIT_FLAG :: u32 where "GREATHER_EXIT_FLAG = push_bit EXIT_FLAG_SHIFT 0"

lemmas exit_flag_defs = FIRST_ABS_EXIT_FLAG_def NOFAIL_EXIT_FLAG_def FIRST_EXIT_FLAG_def LAST_EXIT_FLAG_def
  LESSER_EXIT_FLAG_def GREATHER_EXIT_FLAG_def EXIT_FLAG_SHIFT_def EXIT_FLAG_MASK_def

text \<open>The macros of \<open><sys/wait.h>\<close> on a 32-bit status.\<close>

definition WTERMSIG :: "u32 \<Rightarrow> u32" where "WTERMSIG s = s AND 0x7f"
definition WIFEXITED :: "u32 \<Rightarrow> bool" where "WIFEXITED s \<longleftrightarrow> WTERMSIG s = 0"
definition WEXITSTATUS :: "u32 \<Rightarrow> nat" where "WEXITSTATUS s = unat (drop_bit 8 (s AND 0xff00))"
definition WIFSIGNALED :: "u32 \<Rightarrow> bool" where "WIFSIGNALED s \<longleftrightarrow> WTERMSIG s \<noteq> 0 \<and> WTERMSIG s \<noteq> 0x7f"

definition service_on :: "u32 \<Rightarrow> u32 \<Rightarrow> bool" where
  "service_on services s \<longleftrightarrow> services AND s \<noteq> 0"

section \<open>Calls\<close>

text \<open>The raw messages of the NIC, to a node and a port, and the second level of the allocator, whose
  state is part of the device here; \<open>ra_raw_max\<close> is the size of the \<open>raw\<close> field of \<open>buffer_t\<close>. The allocator calls return whether there is a reply, the
  payload they leave, and the device.\<close>

record 'd run_api =
  ra_is_ok :: "err \<Rightarrow> bool"
  ra_ret_ok :: err
  ra_ret_error :: err
  ra_send :: "'d \<Rightarrow> u8 \<times> int \<Rightarrow> run_msg \<Rightarrow> err \<times> 'd"
  ra_recv :: "'d \<Rightarrow> (err \<times> u8 \<times> run_msg \<times> 'd) option"
  AXIOM_CMD_ALLOC_REPLY :: u8
  ra_raw_max :: nat
  al2_alloc_reply :: "run_msg \<Rightarrow> 'd \<Rightarrow> bool \<times> bytes \<times> 'd"
  al2_alloc :: "int \<Rightarrow> bytes \<Rightarrow> 'd \<Rightarrow> bool \<times> bytes \<times> 'd"
  al2_get_regions :: "u8 \<Rightarrow> bytes \<Rightarrow> 'd \<Rightarrow> bool \<times> bytes \<times> 'd"
  al2_alloc_shblock :: "u8 \<Rightarrow> bytes \<Rightarrow> 'd \<Rightarrow> bool \<times> bytes \<times> 'd"

text \<open>\<open>my_axiom_send_raw\<close>: the same message to every node of a mask. An error does not stop it.\<close>

definition send_node :: "'d run_api \<Rightarrow> int \<Rightarrow> run_msg \<Rightarrow> u8 \<Rightarrow> err \<times> 'd \<Rightarrow> err \<times> 'd" where
  "send_node api port m node s = (
     let (ret, dev) = ra_send api (snd s) (node, port) m
     in (if ra_is_ok api ret then fst s else ra_ret_error api, dev))"

definition my_axiom_send_raw :: "'d run_api \<Rightarrow> 'd \<Rightarrow> u64 \<Rightarrow> int \<Rightarrow> run_msg \<Rightarrow> err \<times> 'd" where
  "my_axiom_send_raw api dev nodes port m = fold (send_node api port m) (mask_nodes 0 nodes) (ra_ret_ok api, dev)"

text \<open>\<open>s_my_axiom_send_raw\<close>, which the signal handler of the master uses: the same loop with a log that is safe there.\<close>

function s_send_loop :: "'d run_api \<Rightarrow> int \<Rightarrow> run_msg \<Rightarrow> u8 \<Rightarrow> u64 \<Rightarrow> err \<Rightarrow> 'd \<Rightarrow> err \<times> 'd" where
  "s_send_loop api port m node nodes err dev =
     (if nodes = 0 then (err, dev)
      else let (err, dev) = (if nodes AND 1 \<noteq> 0
          then let (ret, dev) = ra_send api dev (node, port) m in (if ra_is_ok api ret then err else ra_ret_error api, dev)
          else (err, dev))
        in s_send_loop api port m (node + 1) (drop_bit 1 nodes) err dev)"
  by pat_completeness auto
termination
  by (relation "measure (\<lambda>(_, _, _, _, nodes, _). unat nodes)") (use drop_bit_less in auto)

declare s_send_loop.simps [simp del]

definition s_my_axiom_send_raw :: "'d run_api \<Rightarrow> 'd \<Rightarrow> u64 \<Rightarrow> int \<Rightarrow> run_msg \<Rightarrow> err \<times> 'd" where
  "s_my_axiom_send_raw api dev nodes port m = s_send_loop api port m 0 nodes (ra_ret_ok api) dev"

lemma s_send_loop_eq: "s_send_loop api port m node nodes err dev = fold (send_node api port m) (mask_nodes node nodes) (err, dev)"
proof (induction api port m node nodes err dev rule: s_send_loop.induct)
  case (1 api port m node nodes err dev)
  show ?case
  proof (cases "nodes = 0")
    case False
    with 1 show ?thesis
      by (simp add: s_send_loop.simps [of api port m node nodes] mask_nodes.simps [of node nodes] send_node_def split: prod.splits)
  qed (simp add: s_send_loop.simps mask_nodes.simps)
qed

lemma s_my_axiom_send_raw_eq [simp]: "s_my_axiom_send_raw = my_axiom_send_raw"
  by (intro ext) (simp add: s_my_axiom_send_raw_def my_axiom_send_raw_def s_send_loop_eq)

section \<open>Broadcast\<close>

abbreviation logs_run :: "'d run_api \<Rightarrow> ('d \<Rightarrow> ((u8 \<times> int) \<times> run_msg) list) \<Rightarrow> bool" where
  "logs_run api \<equiv> lossless (ra_is_ok api) (ra_send api)"

lemma logs_send: "logs_run api sent \<Longrightarrow> sent (snd (ra_send api d dst m)) = sent d @ [(dst, m)]"
  unfolding lossless_def by blast

definition queues_run :: "'d run_api \<Rightarrow> ('d \<Rightarrow> (u8 \<times> run_msg) list) \<Rightarrow> bool" where
  "queues_run api inbox \<longleftrightarrow>
     (\<forall>d src m ms. inbox d = (src, m) # ms \<longrightarrow> (\<exists>e d'. ra_recv api d = Some (e, src, m, d') \<and> ra_is_ok api e \<and> inbox d' = ms))
   \<and> (\<forall>d dst m. inbox (snd (ra_send api d dst m)) = inbox d)"

lemma queues_send: "queues_run api inbox \<Longrightarrow> inbox (snd (ra_send api d dst m)) = inbox d"
  unfolding queues_run_def by blast

lemma queues_recv:
  assumes "queues_run api inbox" "inbox d = (src, m) # ms"
  obtains e d' where "ra_recv api d = Some (e, src, m, d')" "ra_is_ok api e" "inbox d' = ms"
  using assms unfolding queues_run_def by blast

definition broadcast :: "u64 \<Rightarrow> int \<Rightarrow> run_msg \<Rightarrow> ((u8 \<times> int) \<times> run_msg) list" where
  "broadcast nodes port m = map (\<lambda>n. ((n, port), m)) (mask_nodes 0 nodes)"

lemma send_nodes_log:
  assumes "logs_run api sent"
  shows "\<exists>dev'. fold (send_node api port m) ns (e, dev) = (e, dev') \<and> sent dev' = sent dev @ map (\<lambda>n. ((n, port), m)) ns"
proof (induction ns arbitrary: dev)
  case (Cons n ns)
  obtain e1 d1 where 1: "ra_send api dev (n, port) m = (e1, d1)" "ra_is_ok api e1" "sent d1 = sent dev @ [((n, port), m)]"
    using lossless_send [OF assms] by blast
  from Cons.IH [of d1] 1 show ?case by (auto simp: send_node_def)
qed simp

lemma broadcast_log:
  assumes "logs_run api sent"
  obtains dev' where "my_axiom_send_raw api dev nodes port m = (ra_ret_ok api, dev')"
    "sent dev' = sent dev @ broadcast nodes port m"
  using send_nodes_log [OF assms, of port m "mask_nodes 0 nodes" "ra_ret_ok api" dev]
  unfolding my_axiom_send_raw_def broadcast_def by blast

text \<open>A property of the device that a send keeps is kept by a broadcast.\<close>

lemma broadcast_keeps:
  assumes "\<And>d dst m. P d \<Longrightarrow> P (snd (ra_send api d dst m))" "P dev"
  shows "P (snd (my_axiom_send_raw api dev nodes port m))"
proof -
  have "P (snd s) \<Longrightarrow> P (snd (send_node api port m n s))" for n s
    using assms(1) [of "snd s" "(n, port)" m] by (auto simp: send_node_def split: prod.splits)
  then have "P (snd s) \<Longrightarrow> P (snd (fold (send_node api port m) ns s))" for ns s
    by (induction ns arbitrary: s) simp_all
  from this [of "(ra_ret_ok api, dev)"] assms(2) show ?thesis by (simp add: my_axiom_send_raw_def)
qed

end
