(* ===== verification/Run_Slave.thy ===== *)
theory Run_Slave
  imports Run_Common
begin

text \<open>
  The services of the slave processes of \<open>axiom-run\<close> (\<open>axiom-run/slave.c\<close>) and the library calls by which
  the application reaches them (\<open>axiom-run/lib/sync.c\<close>, \<open>axiom-run/lib/rpc.c\<close>). What the operating system
  answers (\<open>select\<close>, \<open>read\<close>, \<open>write\<close>, \<open>waitpid\<close>, \<open>kill\<close>, the sockets) is an input of the
  definitions.
\<close>

section \<open>Forwarding the output of the application\<close>

text \<open>What \<open>select\<close> and \<open>read\<close> report: an interrupted call, an error, the request to end, or data; no data
  is the end of the file.\<close>

datatype read_event = RD_INTR | RD_ERROR | RD_END | RD_DATA bytes

definition out_msg :: "header \<Rightarrow> u8 \<Rightarrow> bytes \<Rightarrow> run_msg" where
  "out_msg h cmd d = \<lparr>hdr = h\<lparr>command := cmd\<rparr>, raw = d\<rparr>"

text \<open>The thread ends with the list of events, or stays in \<open>select\<close> when the list has no event that ends
  it; \<open>h\<close> is the rest of the header, which is not initialised.\<close>

fun send_thread :: "'d run_api \<Rightarrow> u8 \<times> int \<Rightarrow> header \<Rightarrow> u8 \<Rightarrow> read_event list \<Rightarrow> 'd \<Rightarrow> 'd" where
  "send_thread api master h cmd [] dev = dev"
| "send_thread api master h cmd (RD_INTR # es) dev = send_thread api master h cmd es dev"
| "send_thread api master h cmd (RD_ERROR # es) dev = dev"
| "send_thread api master h cmd (RD_END # es) dev = dev"
| "send_thread api master h cmd (RD_DATA d # es) dev =
     (if d \<noteq> [] then send_thread api master h cmd es (snd (ra_send api dev master (out_msg h cmd d))) else dev)"

section \<open>Messages of the master\<close>

text \<open>The results of \<open>write\<close>; when the list is empty, everything is written.\<close>

datatype write_result = WR_INTR | WR_FAIL | WR_OK nat

text \<open>The function \<open>output\<close>: what is written to the pipe, the results left, and whether all was written.\<close>

fun slave_write :: "write_result list \<Rightarrow> bytes \<Rightarrow> bytes \<times> write_result list \<times> bool" where
  "slave_write ws [] = ([], ws, True)"
| "slave_write [] (b # bs) = (b # bs, [], True)"
| "slave_write (WR_INTR # ws) (b # bs) = slave_write ws (b # bs)"
| "slave_write (WR_FAIL # ws) (b # bs) = ([], ws, False)"
| "slave_write (WR_OK n # ws) (b # bs) =
     (let (out, ws, ok) = slave_write ws (drop n (b # bs)) in (take n (b # bs) @ out, ws, ok))"

text \<open>The state of the receiver thread: the pipe to the application, the signals that were sent, the
  flag \<open>my_sigterm\<close>, and the datagrams, each with its path, the number of bytes sent and the message.\<close>

record slave_state =
  ss_pipe :: bytes
  ss_writes :: "write_result list"
  ss_signals :: "nat list"
  my_sigterm :: bool
  ss_datagrams :: "(string \<times> nat \<times> run_msg) list"

record slave_info =
  si_services :: u32
  si_pid :: int
  si_termmode :: nat
  si_mypid :: int

definition SIGKILL :: nat where "SIGKILL = 9"
definition HEADER_SIZE :: nat where "HEADER_SIZE = 20"

definition BARRIER_CHILD_NAME :: "int \<Rightarrow> u32 \<Rightarrow> string" where
  "BARRIER_CHILD_NAME pid b = ''/tmp/axbar'' @ print_int pid @ ''.'' @ print_int (sint b)"

definition RPC_CHILD_NAME :: "int \<Rightarrow> u64 \<Rightarrow> string" where
  "RPC_CHILD_NAME pid t = ''/tmp/axrpc'' @ print_int pid @ ''.'' @ print_int (sint t)"

definition SLAVE_NAME :: "int \<Rightarrow> string" where
  "SLAVE_NAME pid = ''/tmp/ax'' @ print_int pid"

text \<open>One message. \<open>res\<close> is the variable that holds the result of \<open>select\<close> when the message is handled; a
  barrier message is forwarded with that many bytes. \<open>kill_err\<close> is the error of \<open>kill\<close>: none, or whether
  it is \<open>ESRCH\<close>.\<close>

definition slave_msg :: "slave_info \<Rightarrow> nat \<Rightarrow> bool option \<Rightarrow> run_msg \<Rightarrow> slave_state \<Rightarrow> slave_state" where
  "slave_msg info res kill_err m s = (let cmd = command (hdr m); sv = service_on (si_services info) in
     if cmd = CMD_RECV_FROM_STDIN
     then (if sv REDIRECT_SERVICE
           then (let (out, ws, _) = slave_write (ss_writes s) (raw m) in s\<lparr>ss_pipe := ss_pipe s @ out, ss_writes := ws\<rparr>)
           else s)
     else if cmd = CMD_KILL
     then (if sv (EXIT_SERVICE OR KILL_SERVICE)
           then s\<lparr>my_sigterm := True, ss_signals := ss_signals s @ [si_termmode info]
                    @ (if kill_err = Some False then [SIGKILL] else [])\<rparr>
           else s)
     else if cmd = CMD_BARRIER
     then (if sv BARRIER_SERVICE
           then s\<lparr>ss_datagrams := ss_datagrams s @ [(BARRIER_CHILD_NAME (si_mypid info) (barrier_id (hdr m)), res, m)]\<rparr>
           else s)
     else if cmd = CMD_RPC
     then (if sv RPC_SERVICE
           then s\<lparr>ss_datagrams := ss_datagrams s @ [(RPC_CHILD_NAME (si_mypid info) (rpc_id (hdr m)), HEADER_SIZE + length (raw m), m)]\<rparr>
           else s)
     else s)"

text \<open>The loop: \<open>select\<close> is interrupted, fails, reports the request to end, or reports a message; it
  then returns 1, the one descriptor that is ready.\<close>

datatype recv_event = RV_INTR | RV_ERROR | RV_END | RV_MSG "bool option"

fun recv_thread :: "'d run_api \<Rightarrow> slave_info \<Rightarrow> recv_event list \<Rightarrow> 'd \<Rightarrow> slave_state \<Rightarrow> ('d \<times> slave_state) option" where
  "recv_thread api info [] dev s = Some (dev, s)"
| "recv_thread api info (RV_INTR # es) dev s = recv_thread api info es dev s"
| "recv_thread api info (RV_ERROR # es) dev s = Some (dev, s)"
| "recv_thread api info (RV_END # es) dev s = Some (dev, s)"
| "recv_thread api info (RV_MSG kerr # es) dev s = do {
     (ret, _, m, dev) \<leftarrow> ra_recv api dev;
     recv_thread api info es dev (if ra_is_ok api ret then slave_msg info 1 kerr m s else s)
   }"

text \<open>The thread that takes the requests of the application from the socket to the master. An event is
  an interrupted call, an error of \<open>select\<close>, the request to end, an error of \<open>recv\<close> (which does not
  end the loop), or a datagram, of which \<open>recv\<close> keeps what fits in the buffer.\<close>

datatype sock_event = SK_INTR | SK_ERROR | SK_END | SK_RECV_ERROR | SK_MSG run_msg

fun sock_thread :: "'d run_api \<Rightarrow> u8 \<times> int \<Rightarrow> sock_event list \<Rightarrow> 'd \<Rightarrow> 'd" where
  "sock_thread api master [] dev = dev"
| "sock_thread api master (SK_INTR # es) dev = sock_thread api master es dev"
| "sock_thread api master (SK_ERROR # es) dev = dev"
| "sock_thread api master (SK_END # es) dev = dev"
| "sock_thread api master (SK_RECV_ERROR # es) dev = sock_thread api master es dev"
| "sock_thread api master (SK_MSG m # es) dev = sock_thread api master es 
     (snd (ra_send api dev master (m\<lparr>raw := take (ra_raw_max api) (raw m)\<rparr>)))"

section \<open>Start and end\<close>

datatype slave_thread = TH_STDOUT | TH_STDERR | TH_RECV | TH_SOCK

text \<open>The threads that \<open>manage_slave_services\<close> starts for a process that runs.\<close>

definition slave_threads :: "u32 \<Rightarrow> slave_thread list" where
  "slave_threads services =
     (if service_on services REDIRECT_SERVICE then [TH_STDOUT, TH_STDERR] else [])
   @ (if service_on services (REDIRECT_SERVICE OR EXIT_SERVICE OR KILL_SERVICE) then [TH_RECV] else [])
   @ (if service_on services (BARRIER_SERVICE OR RPC_SERVICE) then [TH_SOCK] else [])"

text \<open>The thread of the socket and the receiver, as far as they have been started.\<close>

definition slave_forwards :: "'d run_api \<Rightarrow> slave_info \<Rightarrow> u8 \<times> int \<Rightarrow> sock_event list \<Rightarrow> 'd \<Rightarrow> 'd" where
  "slave_forwards api info master es dev =
     (if TH_SOCK \<in> set (slave_threads (si_services info)) then sock_thread api master es dev else dev)"

definition slave_receives ::
  "'d run_api \<Rightarrow> slave_info \<Rightarrow> recv_event list \<Rightarrow> 'd \<Rightarrow> slave_state \<Rightarrow> ('d \<times> slave_state) option" where
  "slave_receives api info es dev s =
     (if TH_RECV \<in> set (slave_threads (si_services info)) then recv_thread api info es dev s else Some (dev, s))"

lemma service_on_OR: "service_on s a \<Longrightarrow> service_on s (a OR b)"
  by (auto simp: service_on_def bit_eq_iff bit_simps)

lemma slave_forwards_on:
  assumes "service_on (si_services info) BARRIER_SERVICE \<or> service_on (si_services info) RPC_SERVICE"
  shows "slave_forwards api info master es dev = sock_thread api master es dev"
  using assms service_on_OR [of "si_services info" BARRIER_SERVICE RPC_SERVICE]
    service_on_OR [of "si_services info" RPC_SERVICE BARRIER_SERVICE]
  by (auto simp: slave_forwards_def slave_threads_def or.commute)

text \<open>Waiting for the application: \<open>waitpid\<close> is interrupted, fails, or reports a status.\<close>

datatype wait_event = WT_INTR | WT_ERROR | WT_STATUS u32

fun slave_wait :: "wait_event list \<Rightarrow> u32 option" where
  "slave_wait [] = None"
| "slave_wait (WT_INTR # es) = slave_wait es"
| "slave_wait (WT_ERROR # es) = Some 0"
| "slave_wait (WT_STATUS st # es) = Some st"

text \<open>A process that was killed on request of the master counts as ended normally.\<close>

definition slave_exit_status :: "bool \<Rightarrow> nat \<Rightarrow> u32 \<Rightarrow> u32" where
  "slave_exit_status sigterm termmode st =
     (if sigterm \<and> WIFSIGNALED st \<and> unat (WTERMSIG st) = termmode then 0 else st)"

text \<open>The output that is still in the pipes after the end. One round of the loop: an error or a timeout of
  \<open>select\<close>, or for each pipe what \<open>read\<close> returns (none when the pipe is not ready, an error, or data).\<close>

datatype drain_read = DR_NONE | DR_ERROR | DR_DATA bytes

datatype drain_event = DV_STOP | DV_READ drain_read drain_read

definition drain_one :: "'d run_api \<Rightarrow> u8 \<times> int \<Rightarrow> header \<Rightarrow> u8 \<Rightarrow> drain_read \<Rightarrow> 'd \<Rightarrow> bool \<times> 'd" where
  "drain_one api master h cmd r dev = (case r of
       DR_DATA d \<Rightarrow> if d \<noteq> [] then (False, snd (ra_send api dev master (out_msg h cmd d))) else (True, dev)
     | _ \<Rightarrow> (False, dev))"

fun slave_drain_output :: "'d run_api \<Rightarrow> u8 \<times> int \<Rightarrow> header \<Rightarrow> bool \<Rightarrow> bool \<Rightarrow> drain_event list \<Rightarrow> 'd \<Rightarrow> 'd" where
  "slave_drain_output api master h cout cerr [] dev = dev"
| "slave_drain_output api master h cout cerr (DV_STOP # es) dev = dev"
| "slave_drain_output api master h cout cerr (DV_READ o1 o2 # es) dev =
     (let (c1, dev) = (if cout then (False, dev) else drain_one api master h CMD_SEND_TO_STDOUT o1 dev);
          (c2, dev) = (if cerr then (False, dev) else drain_one api master h CMD_SEND_TO_STDERR o2 dev);
          cout = (cout \<or> c1); cerr = (cerr \<or> c2)
      in if cout \<and> cerr then dev else slave_drain_output api master h cout cerr es dev)"

definition exit_msg :: "header \<Rightarrow> u32 \<Rightarrow> run_msg" where
  "exit_msg h st = \<lparr>hdr = h\<lparr>command := CMD_EXIT, status := st\<rparr>, raw = []\<rparr>"

text \<open>From the end of the application on: its status, the rest of its output, the exit message. The
  threads have ended; \<open>waits\<close> are the results of \<open>waitpid\<close>.\<close>

definition slave_finish ::
  "'d run_api \<Rightarrow> u8 \<times> int \<Rightarrow> header \<Rightarrow> u32 \<Rightarrow> nat \<Rightarrow> bool \<Rightarrow> wait_event list \<Rightarrow> drain_event list \<Rightarrow> 'd \<Rightarrow> (u32 \<times> 'd) option" where
  "slave_finish api master h services termmode sigterm waits drains dev = do {
     st \<leftarrow> slave_wait waits;
     let st = slave_exit_status sigterm termmode st;
     let dev = (if service_on services REDIRECT_SERVICE then slave_drain_output api master h False False drains dev else dev);
     Some (st, snd (ra_send api dev master (exit_msg h st)))
   }"

text \<open>The exit signal handler: the signal to the application, if there is one, and the exit message, if
  the device is open.\<close>

definition slave_myexit :: "'d run_api \<Rightarrow> u8 \<times> int \<Rightarrow> header \<Rightarrow> int \<Rightarrow> nat \<Rightarrow> 'd option \<Rightarrow> nat list \<times> 'd option" where
  "slave_myexit api master h pid sig dev =
     (if pid > 0 then [sig] else [],
      map_option (\<lambda>dev. snd (ra_send api dev master (exit_msg h (of_nat sig AND 0x7f)))) dev)"

section \<open>The library of the applications\<close>

text \<open>What the operating system answers to a call of the library: the value of \<open>AXIOM_USOCK\<close>, whether
  \<open>socket\<close> and \<open>bind\<close> succeed, the result of \<open>sendto\<close> or \<open>sendmsg\<close>, and what \<open>recv\<close> or \<open>recvmsg\<close> finds: the
  number of bytes of the datagram and the message they are the first bytes of.\<close>

record lib_os =
  os_usock :: "string option"
  os_socket :: bool
  os_bind :: bool
  os_send :: int
  os_recv :: "(nat \<times> run_msg) option"

text \<open>What a call has done: its result, the datagrams sent, and the paths unlinked.\<close>

record lib_run =
  lr_ret :: int
  lr_sent :: "(string \<times> run_msg) list"
  lr_unlinked :: "string list"

text \<open>A header after the first \<open>n\<close> bytes of another one have been received into it: byte 0 is the command,
  the bytes 4 to 7 are the barrier number, little endian.\<close>

definition recv_header :: "nat \<Rightarrow> header \<Rightarrow> header \<Rightarrow> header" where
  "recv_header n new old = (let k = 8 * (min n 8 - 4) in
     old\<lparr>command := if 0 < n then command new else command old,
         barrier_id := take_bit k (barrier_id new) OR (barrier_id old AND NOT (mask k))\<rparr>)"

definition sync_request :: "header \<Rightarrow> u32 \<Rightarrow> run_msg" where
  "sync_request h b = \<lparr>hdr = h\<lparr>command := CMD_BARRIER, barrier_id := b\<rparr>, raw = []\<rparr>"

definition axrun_sync :: "lib_os \<Rightarrow> header \<Rightarrow> u32 \<Rightarrow> lib_run" where
  "axrun_sync os h b = (
     if b > AXRUN_MAX_BARRIER_ID then \<lparr>lr_ret = - 1, lr_sent = [], lr_unlinked = []\<rparr>
     else case os_usock os of
       None \<Rightarrow> \<lparr>lr_ret = - 1, lr_sent = [], lr_unlinked = []\<rparr>
     | Some v \<Rightarrow> (let ppid = atoi v; path = BARRIER_CHILD_NAME ppid b; m = sync_request h b in
         if \<not> os_socket os then \<lparr>lr_ret = - 1, lr_sent = [], lr_unlinked = []\<rparr>
         else if \<not> os_bind os then \<lparr>lr_ret = - 1, lr_sent = [], lr_unlinked = [path]\<rparr>
         else (let sent = [(SLAVE_NAME ppid, m)] in
           if os_send os \<noteq> int HEADER_SIZE then \<lparr>lr_ret = - 1, lr_sent = sent, lr_unlinked = [path]\<rparr>
           else case os_recv os of
             None \<Rightarrow> \<lparr>lr_ret = - 1, lr_sent = sent, lr_unlinked = [path]\<rparr>
           | Some (n, r) \<Rightarrow> (let h = recv_header n (hdr r) (hdr m) in
               if barrier_id h \<noteq> b \<or> command h \<noteq> CMD_BARRIER
               then \<lparr>lr_ret = - 1, lr_sent = sent, lr_unlinked = [path]\<rparr>
               else \<lparr>lr_ret = 0, lr_sent = sent, lr_unlinked = [path]\<rparr>))))"

definition rpc_request :: "header \<Rightarrow> u64 \<Rightarrow> u32 \<Rightarrow> bytes \<Rightarrow> run_msg" where
  "rpc_request h tid func payload =
     \<lparr>hdr = h\<lparr>command := CMD_RPC, rpc_id := tid, rpc_function := func, rpc_size := of_nat (length payload)\<rparr>, raw = payload\<rparr>"

text \<open>The reply is received when there is a buffer for it, of \<open>recv_size\<close> bytes; the result has the new value
  of \<open>recv_size\<close> and what is written to the buffer.\<close>

definition axrun_rpc :: "lib_os \<Rightarrow> header \<Rightarrow> u64 \<Rightarrow> u32 \<Rightarrow> bytes \<Rightarrow> u64 option \<Rightarrow> lib_run \<times> (u64 \<times> bytes) option" where
  "axrun_rpc os h tid func payload recv_size = (case os_usock os of
       None \<Rightarrow> (\<lparr>lr_ret = - 1, lr_sent = [], lr_unlinked = []\<rparr>, None)
     | Some v \<Rightarrow> (let ppid = atoi v; path = RPC_CHILD_NAME ppid tid; m = rpc_request h tid func payload in
         if \<not> os_socket os then (\<lparr>lr_ret = - 1, lr_sent = [], lr_unlinked = []\<rparr>, None)
         else if \<not> os_bind os then (\<lparr>lr_ret = - 1, lr_sent = [], lr_unlinked = [path]\<rparr>, None)
         else (let sent = [(SLAVE_NAME ppid, m)] in
           if os_send os \<noteq> int (HEADER_SIZE + length payload)
           then (\<lparr>lr_ret = - 1, lr_sent = sent, lr_unlinked = [path]\<rparr>, None)
           else case recv_size of
             None \<Rightarrow> (\<lparr>lr_ret = 0, lr_sent = sent, lr_unlinked = [path]\<rparr>, None)
           | Some rs \<Rightarrow> if rs = 0 then (\<lparr>lr_ret = 0, lr_sent = sent, lr_unlinked = [path]\<rparr>, None)
             else (case os_recv os of
                 None \<Rightarrow> (\<lparr>lr_ret = - 1, lr_sent = sent, lr_unlinked = [path]\<rparr>, None)
               | Some (n, r) \<Rightarrow> (let got = min n (HEADER_SIZE + unat rs) in
                   (\<lparr>lr_ret = 0, lr_sent = sent, lr_unlinked = [path]\<rparr>,
                    Some (of_nat got - of_nat HEADER_SIZE, take (got - HEADER_SIZE) (raw r))))))))"

section \<open>The output reaches the master\<close>

text \<open>The bytes that the master is sent for a stream, and the bytes that the threads read from the pipes.\<close>

definition stream_bytes :: "u8 \<Rightarrow> ((u8 \<times> int) \<times> run_msg) list \<Rightarrow> bytes" where
  "stream_bytes cmd l = concat (map (\<lambda>x. if command (hdr (snd x)) = cmd then raw (snd x) else []) l)"

fun read_data :: "read_event list \<Rightarrow> bytes" where
  "read_data (RD_INTR # es) = read_data es"
| "read_data (RD_DATA d # es) = (if d \<noteq> [] then d @ read_data es else [])"
| "read_data _ = []"

definition drain_bytes :: "drain_read \<Rightarrow> bytes" where
  "drain_bytes r = (case r of DR_DATA d \<Rightarrow> d | _ \<Rightarrow> [])"

fun drain_data :: "bool \<Rightarrow> bool \<Rightarrow> drain_event list \<Rightarrow> bytes \<times> bytes" where
  "drain_data cout cerr (DV_READ o1 o2 # es) =
     (let b1 = (if cout then [] else drain_bytes o1); b2 = (if cerr then [] else drain_bytes o2);
          cout = (cout \<or> o1 = DR_DATA []); cerr = (cerr \<or> o2 = DR_DATA []);
          r = (if cout \<and> cerr then ([], []) else drain_data cout cerr es)
      in (b1 @ fst r, b2 @ snd r))"
| "drain_data cout cerr _ = ([], [])"

lemma stream_bytes_simps [simp]:
  "stream_bytes cmd [] = []" "stream_bytes cmd (a @ b) = stream_bytes cmd a @ stream_bytes cmd b"
  "stream_bytes cmd [(dst, m)] = (if command (hdr m) = cmd then raw m else [])"
  by (simp_all add: stream_bytes_def)

lemma out_msg_simps [simp]: "command (hdr (out_msg h c d)) = c" "raw (out_msg h c d) = d"
  by (simp_all add: out_msg_def)

lemma send_thread_bytes:
  assumes "logs_run api sent"
  shows "stream_bytes c (sent (send_thread api master h cmd es dev))
    = stream_bytes c (sent dev) @ (if c = cmd then read_data es else [])"
  using assms
proof (induction api master h cmd es dev rule: send_thread.induct)
  case (5 api master h cmd d es dev)
  then show ?case by (cases d) (simp_all add: logs_send)
qed simp_all

lemma drain_one_bytes:
  assumes "logs_run api sent" "drain_one api master h cmd r dev = (c, dev')"
  shows "c = (r = DR_DATA [])" "stream_bytes k (sent dev') = stream_bytes k (sent dev) @ (if k = cmd then drain_bytes r else [])"
  using assms(2) by (auto simp: drain_one_def drain_bytes_def logs_send [OF assms(1)] split: drain_read.splits if_splits)

lemma slave_drain_bytes:
  assumes log: "logs_run api sent"
  shows "stream_bytes CMD_SEND_TO_STDOUT (sent (slave_drain_output api master h cout cerr es dev))
      = stream_bytes CMD_SEND_TO_STDOUT (sent dev) @ fst (drain_data cout cerr es)
    \<and> stream_bytes CMD_SEND_TO_STDERR (sent (slave_drain_output api master h cout cerr es dev))
      = stream_bytes CMD_SEND_TO_STDERR (sent dev) @ snd (drain_data cout cerr es)"
proof (induction es arbitrary: cout cerr dev)
  case (Cons e es)
  show ?case
  proof (cases e)
    case (DV_READ o1 o2)
    obtain c1 d1 where 1: "(if cout then (False, dev) else drain_one api master h CMD_SEND_TO_STDOUT o1 dev) = (c1, d1)" by fastforce
    obtain c2 d2 where 2: "(if cerr then (False, d1) else drain_one api master h CMD_SEND_TO_STDERR o2 d1) = (c2, d2)" by fastforce
    have c: "cout \<or> c1 \<longleftrightarrow> cout \<or> o1 = DR_DATA []" "cerr \<or> c2 \<longleftrightarrow> cerr \<or> o2 = DR_DATA []"
      using 1 2 drain_one_bytes(1) [OF log] by (auto split: if_splits)
    have d1: "stream_bytes k (sent d1) = stream_bytes k (sent dev) @ (if k = CMD_SEND_TO_STDOUT then (if cout then [] else drain_bytes o1) else [])" for k
      using 1 drain_one_bytes(2) [OF log] by (auto split: if_splits)
    have d2: "stream_bytes k (sent d2) = stream_bytes k (sent d1) @ (if k = CMD_SEND_TO_STDERR then (if cerr then [] else drain_bytes o2) else [])" for k
      using 2 drain_one_bytes(2) [OF log] by (auto split: if_splits)
    have ne: "CMD_SEND_TO_STDOUT \<noteq> CMD_SEND_TO_STDERR" by (simp add: cmd_defs)
    define co ce where co: "co = (cout \<or> o1 = DR_DATA [])" and ce: "ce = (cerr \<or> o2 = DR_DATA [])"
    let ?r = "if co \<and> ce then ([], []) else drain_data co ce es"
    have "slave_drain_output api master h cout cerr (e # es) dev = (if co \<and> ce then d2 else slave_drain_output api master h co ce es d2)"
      unfolding DV_READ co ce c [symmetric] using 1 2 by (simp only: slave_drain_output.simps Let_def prod.case)
    moreover have "drain_data cout cerr (e # es)
        = ((if cout then [] else drain_bytes o1) @ fst ?r, (if cerr then [] else drain_bytes o2) @ snd ?r)"
      unfolding DV_READ co ce by (simp only: drain_data.simps Let_def)
    ultimately show ?thesis using Cons.IH [of co ce d2] d1 d2 ne by (cases "co \<and> ce") auto
  qed simp
qed simp

text \<open>C30: a slave loses no output. With the redirect service, the master is sent every byte that the slave
  has read from the standard output and the standard error of the application, while it runs and after its end, in
  the order of each stream, and the exit status follows as the last message. (The two threads only share the
  device; their messages are told apart by the command.)\<close>

theorem slave_output_complete:
  assumes "logs_run api sent" "service_on services REDIRECT_SERVICE"
    "slave_finish api master h services termmode sigterm waits drains
       (send_thread api master h CMD_SEND_TO_STDERR es2 (send_thread api master h CMD_SEND_TO_STDOUT es1 dev)) = Some (st, dev')"
    "sent dev = []"
  shows "stream_bytes CMD_SEND_TO_STDOUT (sent dev') = read_data es1 @ fst (drain_data False False drains)
    \<and> stream_bytes CMD_SEND_TO_STDERR (sent dev') = read_data es2 @ snd (drain_data False False drains)
    \<and> last (sent dev') = (master, exit_msg h st)"
proof -
  let ?d1 = "send_thread api master h CMD_SEND_TO_STDERR es2 (send_thread api master h CMD_SEND_TO_STDOUT es1 dev)"
  let ?d2 = "slave_drain_output api master h False False drains ?d1"
  have "dev' = snd (ra_send api ?d2 master (exit_msg h st))"
    using assms(2,3) by (auto simp: slave_finish_def Let_def split: bind_splits)
  then have "sent dev' = sent ?d2 @ [(master, exit_msg h st)]" by (simp add: logs_send [OF assms(1)])
  with slave_drain_bytes [OF assms(1), of master h False False drains ?d1] send_thread_bytes [OF assms(1)] assms(4) show ?thesis
    by (simp add: cmd_defs exit_msg_def)
qed

section \<open>The end of an application\<close>

lemma slave_wait_status: "slave_wait (replicate k WT_INTR @ WT_STATUS st # es) = Some st"
  by (induction k) simp_all

text \<open>A process that the master has killed counts as ended normally. When the slave has got
  \<open>CMD_KILL\<close>, it has sent the termination signal to the application; when the application then dies from that
  signal, the status sent to the master is 0; any other status is sent as it is.\<close>

theorem slave_kill_status:
  assumes "command (hdr m) = CMD_KILL" "service_on (si_services info) (EXIT_SERVICE OR KILL_SERVICE)"
    "s' = slave_msg info res err m s"
  shows "si_termmode info \<in> set (ss_signals s')
    \<and> map_option fst (slave_finish api master h (si_services info) (si_termmode info) (my_sigterm s')
        (replicate k WT_INTR @ WT_STATUS st # ws) drains dev)
      = Some (if WIFSIGNALED st \<and> unat (WTERMSIG st) = si_termmode info then 0 else st)"
  using assms by (simp add: slave_msg_def Let_def cmd_defs slave_finish_def slave_wait_status slave_exit_status_def)

text \<open>A failed \<open>bind\<close> in \<open>axrun_sync\<close> removes the socket of another caller. When two threads of an application
  call \<open>axrun_sync\<close> for the same barrier, \<open>bind\<close> fails in the second call, which then unlinks the path to which the
  slave sends the release for the first one.\<close>

theorem axrun_sync_bind_failure:
  assumes "b \<le> AXRUN_MAX_BARRIER_ID" "os_usock os = Some v" "os_socket os" "\<not> os_bind os"
    "command (hdr m) = CMD_BARRIER" "barrier_id (hdr m) = b" "service_on (si_services info) BARRIER_SERVICE" "atoi v = si_mypid info"
  shows "lr_ret (axrun_sync os h b) = - 1
    \<and> fst (last (ss_datagrams (slave_msg info res err m s))) \<in> set (lr_unlinked (axrun_sync os h b))"
  using assms by (simp add: axrun_sync_def Let_def slave_msg_def cmd_defs)

end
