(* ===== verification/Run_Output.thy ===== *)
theory Run_Output
  imports C_Strings C_Numbers Run_Nodes
begin

text \<open>
  The output of the nodes on the terminal of the master (\<open>output\<close>, \<open>flush\<close> and \<open>emit\<close> in
  \<open>axiom-run/master.c\<close>): the master receives pieces of the output of every node and writes whole lines,
  with the number of the node before each line when this was asked for. The theorem is that lines of
  different nodes are never mixed.
\<close>

section \<open>The code\<close>

definition MAX_BUFFER_SIZE :: nat where "MAX_BUFFER_SIZE = 8192"

definition IDENT_FLAG :: u32 where "IDENT_FLAG = 1"
definition ALTERNATE_IDENT_FLAG :: u32 where "ALTERNATE_IDENT_FLAG = 2"

text \<open>An output stream: what has been written, and how many bytes each of the next \<open>fwrite\<close> calls accepts
  (all of them when the list is empty).\<close>

record out_file =
  of_data :: bytes
  of_room :: "nat list"

definition fwrite :: "bytes \<Rightarrow> out_file \<Rightarrow> nat \<times> out_file" where
  "fwrite ptr f = (case of_room f of
       [] \<Rightarrow> (length ptr, f\<lparr>of_data := of_data f @ ptr\<rparr>)
     | n # r \<Rightarrow> (min n (length ptr), f\<lparr>of_data := of_data f @ take n ptr, of_room := r\<rparr>))"

definition fprintf :: "bytes \<Rightarrow> out_file \<Rightarrow> out_file" where
  "fprintf s f = snd (fwrite s f)"

text \<open>The function \<open>output\<close>; a pointer and a size are the list of the bytes.\<close>

function write_out :: "bytes \<Rightarrow> out_file \<Rightarrow> out_file" where
  "write_out ptr f = (if ptr = [] then f
     else let (sz, f) = fwrite ptr f in if sz = 0 then f else write_out (drop sz ptr) f)"
  by auto

termination
  by (relation "measure (length \<circ> fst)") auto

declare write_out.simps [simp del]

record output_info =
  oi_buffer :: bytes
  oi_sz :: nat

definition pending :: "output_info \<Rightarrow> bytes" where
  "pending v = take (oi_sz v) (oi_buffer v)"

text \<open>The formats \<open>{%02d}\<close> and \<open>%02d:\<close>.\<close>

definition char_bytes :: "string \<Rightarrow> bytes" where
  "char_bytes s = map of_char s"

definition ident_tag :: "bool \<Rightarrow> u8 \<Rightarrow> bytes" where
  "ident_tag alternate node = (
     let d = print_base 10 (unat node); d = (if length d < 2 then CHR ''0'' # d else d)
     in char_bytes (if alternate then ''{'' @ d @ ''}'' else d @ '':''))"

definition flush_node :: "u32 \<Rightarrow> nat \<Rightarrow> output_info list \<times> out_file \<Rightarrow> (output_info list \<times> out_file) option" where
  "flush_node flags node s = (let (infos, f) = s in do {
     v \<leftarrow> aget infos node;
     if oi_sz v > 0
     then do {
       let f = (if flags \<noteq> 0 then fprintf (ident_tag (flags AND ALTERNATE_IDENT_FLAG \<noteq> 0) (of_nat node)) f else f);
       let f = write_out (pending v) f;
       infos \<leftarrow> aset infos node (v\<lparr>oi_sz := 0\<rparr>);
       Some (infos, fprintf [10] f)
     }
     else Some s
   })"

definition flush :: "output_info list \<Rightarrow> nat \<Rightarrow> out_file \<Rightarrow> u32 \<Rightarrow> (output_info list \<times> out_file) option" where
  "flush infos num_nodes f flags = for_each (flush_node flags) [0..<num_nodes] (infos, f)"

definition memchr_nl :: "bytes \<Rightarrow> nat option" where
  "memchr_nl b = (if 10 \<in> set b then Some (length (takeWhile (\<lambda>x. x \<noteq> 10) b)) else None)"

definition memrchr_nl :: "bytes \<Rightarrow> nat option" where
  "memrchr_nl b = map_option (\<lambda>p. length b - 1 - p) (memchr_nl (rev b))"

lemma drop_shorter: "x \<in> set (drop (Suc p) b) \<Longrightarrow> length b - Suc p < length b"
  by (cases b) auto

text \<open>The loop over the lines of the buffer; \<open>p\<close> is the position of the line end.\<close>

function emit_lines :: "bool \<Rightarrow> bytes \<Rightarrow> bool \<Rightarrow> nat \<Rightarrow> bytes \<Rightarrow> out_file \<Rightarrow> bytes \<times> out_file" where
  "emit_lines emit_id tag no_stop p buffer f = (
     let f = (if emit_id \<and> no_stop then fprintf tag f else f);
         f = write_out (take (Suc p) buffer) f;
         buffer = drop (Suc p) buffer
     in case memchr_nl buffer of None \<Rightarrow> (buffer, f) | Some p \<Rightarrow> emit_lines emit_id tag True p buffer f)"
  by auto

termination
  by (relation "measure (\<lambda>(_, _, _, _, b, _). length b)") (auto simp: memchr_nl_def split: if_splits dest: drop_shorter)

declare emit_lines.simps [simp del]

text \<open>The pending line is written before the loop, the rest is stored after it.\<close>

definition emit_pending :: "bool \<Rightarrow> bytes \<Rightarrow> output_info \<Rightarrow> out_file \<Rightarrow> output_info \<times> out_file \<times> bool" where
  "emit_pending emit_id tag v f = (if oi_sz v > 0
     then (v\<lparr>oi_sz := 0\<rparr>, write_out (pending v) (if emit_id then fprintf tag f else f), False)
     else (v, f, True))"

definition store_rest :: "bytes \<Rightarrow> output_info \<Rightarrow> output_info option" where
  "store_rest rest v = (if rest = [] then Some v
     else if length rest \<le> MAX_BUFFER_SIZE
     then Some (v\<lparr>oi_sz := length rest, oi_buffer := splice (oi_buffer v) 0 rest\<rparr>)
     else None)"

text \<open>\<open>None\<close> is a failed assertion or an access outside the array, which has \<open>MAX_NUM_NODES\<close> entries.\<close>

definition emit ::
  "u8 \<Rightarrow> bytes \<Rightarrow> output_info list \<Rightarrow> out_file \<Rightarrow> u32 \<Rightarrow> (output_info list \<times> out_file) option" where
  "emit node buffer infos f flags = (
     let emit_id = flags AND IDENT_FLAG \<noteq> 0;
         tag = ident_tag (flags AND ALTERNATE_IDENT_FLAG \<noteq> 0) node
     in if unat node \<le> MAX_NUM_NODES
     then do {
       v \<leftarrow> aget infos (unat node);
       case (if emit_id then memchr_nl buffer else memrchr_nl buffer) of
         Some p \<Rightarrow>
           let (v, f, no_stop) = emit_pending emit_id tag v f;
               (rest, f) = emit_lines emit_id tag no_stop p buffer f
           in do {
             v \<leftarrow> store_rest rest v;
             infos \<leftarrow> aset infos (unat node) v;
             Some (infos, f)
           }
       | None \<Rightarrow>
           let (v, f) = (if oi_sz v + length buffer > MAX_BUFFER_SIZE \<and> oi_sz v > 0
                 then (v\<lparr>oi_sz := 0\<rparr>, write_out (pending v) f) else (v, f))
           in if length buffer + oi_sz v \<le> MAX_BUFFER_SIZE
           then do {
             infos \<leftarrow> aset infos (unat node) (v\<lparr>oi_buffer := splice (oi_buffer v) (oi_sz v) buffer, oi_sz := oi_sz v + length buffer\<rparr>);
             Some (infos, f)
           }
           else None
     }
     else None)"

section \<open>Writing\<close>

text \<open>A stream that takes what it is given writes everything; so does \<open>write_out\<close> on a stream whose writes
  are short, as long as none of them fails.\<close>

lemma write_out_all:
  assumes "\<forall>n\<in>set (of_room f). n \<noteq> 0"
  shows "of_data (write_out ptr f) = of_data f @ ptr"
  using assms
proof (induction ptr f rule: write_out.induct)
  case (1 ptr f)
  show ?case
  proof (cases "ptr = []")
    case False
    obtain sz f' where w: "fwrite ptr f = (sz, f')" by fastforce
    with 1(2) False have "sz \<noteq> 0" "of_data f' = of_data f @ take sz ptr" "\<forall>n\<in>set (of_room f'). n \<noteq> 0"
      by (auto simp: fwrite_def min_def split: list.splits if_splits)
    with 1(1) [OF False w [symmetric] refl] w False show ?thesis by (simp add: write_out.simps [of ptr f])
  qed (simp add: write_out.simps)
qed

lemma fwrite_open [simp]: "of_room f = [] \<Longrightarrow> fwrite s f = (length s, f\<lparr>of_data := of_data f @ s\<rparr>)"
  by (simp add: fwrite_def)

lemma fprintf_open [simp]: "of_room f = [] \<Longrightarrow> fprintf s f = f\<lparr>of_data := of_data f @ s\<rparr>"
  by (simp add: fprintf_def)

lemma write_out_open [simp]: "of_room f = [] \<Longrightarrow> write_out s f = f\<lparr>of_data := of_data f @ s\<rparr>"
  by (cases "s = []") (simp_all add: write_out.simps [of s f] write_out.simps [of "[]"])

section \<open>Lines\<close>

text \<open>The lines of a byte sequence that continues the unfinished line \<open>acc\<close>, and the new unfinished
  line.\<close>

fun lines_of :: "bytes \<Rightarrow> bytes \<Rightarrow> bytes list \<times> bytes" where
  "lines_of acc [] = ([], acc)"
| "lines_of acc (x # xs) = (if x = 10
     then (let (ls, r) = lines_of [] xs in ((acc @ [x]) # ls, r))
     else lines_of (acc @ [x]) xs)"

lemma lines_of_append:
  "lines_of acc (xs @ ys) = (let (ls, r) = lines_of acc xs; (ls', r') = lines_of r ys in (ls @ ls', r'))"
  by (induction acc xs rule: lines_of.induct) (auto split: prod.splits)

lemma lines_of_no_nl: "10 \<notin> set xs \<Longrightarrow> lines_of acc xs = ([], acc @ xs)"
  by (induction acc xs rule: lines_of.induct) auto

lemma lines_of_concat: "lines_of acc xs = (ls, r) \<Longrightarrow> concat ls @ r = acc @ xs"
  by (induction acc xs arbitrary: ls r rule: lines_of.induct) (auto split: prod.splits if_splits)

lemma lines_of_nl: "10 \<notin> set xs \<Longrightarrow> lines_of acc (xs @ 10 # ys) = (let (ls, r) = lines_of [] ys in ((acc @ xs @ [10]) # ls, r))"
  by (auto simp: lines_of_append lines_of_no_nl split: prod.splits)

lemma memchr_nl_split:
  "memchr_nl b = Some p \<Longrightarrow> \<exists>xs ys. b = xs @ 10 # ys \<and> p = length xs \<and> 10 \<notin> set xs"
proof -
  assume "memchr_nl b = Some p"
  then have b: "10 \<in> set b" "p = length (takeWhile (\<lambda>x. x \<noteq> 10) b)" by (auto simp: memchr_nl_def split: if_splits)
  then obtain xs ys where s: "b = xs @ 10 # ys" "10 \<notin> set xs" by (meson split_list_first)
  then have "takeWhile (\<lambda>x. x \<noteq> 10) b = xs" unfolding s(1) using s(2) by (induction xs) auto
  with b(2) s show ?thesis by (intro exI [of _ xs] exI [of _ ys]) simp
qed

lemma memchr_nl_None: "memchr_nl b = None \<longleftrightarrow> 10 \<notin> set b"
  by (simp add: memchr_nl_def)

lemma memrchr_nl_split:
  "memrchr_nl b = Some p \<Longrightarrow> \<exists>xs ys. b = xs @ 10 # ys \<and> p = length xs \<and> 10 \<notin> set ys"
proof -
  assume "memrchr_nl b = Some p"
  then obtain q where q: "memchr_nl (rev b) = Some q" "p = length b - 1 - q" by (auto simp: memrchr_nl_def)
  from memchr_nl_split [OF q(1)] obtain xs ys where s: "rev b = xs @ 10 # ys" "q = length xs" "10 \<notin> set xs" by blast
  then have "b = rev ys @ 10 # rev xs" by (simp add: rev_swap)
  with s q(2) show ?thesis by (intro exI [of _ "rev ys"] exI [of _ "rev xs"]) simp
qed

lemma memrchr_nl_None: "memrchr_nl b = None \<longleftrightarrow> 10 \<notin> set b"
  by (simp add: memrchr_nl_def memchr_nl_None)

text \<open>The lines that are written, each after its tag.\<close>

definition tagged :: "bool \<Rightarrow> bytes \<Rightarrow> bytes list \<Rightarrow> bytes" where
  "tagged emit_id tag ls = concat (map (\<lambda>l. (if emit_id then tag else []) @ l) ls)"

lemma tagged_simps [simp]:
  "tagged e t [] = []" "tagged e t (l # ls) = (if e then t else []) @ l @ tagged e t ls" "tagged False t ls = concat ls"
  by (simp_all add: tagged_def)

lemma emit_lines_run:
  assumes "of_room f = []" "buffer = xs @ 10 # ys" "p = length xs" "lines_of [] ys = (ls, r)"
  shows "emit_lines emit_id tag no_stop p buffer f
    = (r, f\<lparr>of_data := of_data f @ (if emit_id \<and> no_stop then tag else []) @ xs @ [10] @ tagged emit_id tag ls\<rparr>)"
  using assms
proof (induction buffer arbitrary: no_stop p f xs ys ls r rule: measure_induct_rule [where f = length])
  case (less buffer)
  let ?f = "f\<lparr>of_data := of_data f @ (if emit_id \<and> no_stop then tag else []) @ xs @ [10]\<rparr>"
  have b: "drop (Suc p) buffer = ys" "take (Suc p) buffer = xs @ [10]" using less.prems(2,3) by simp_all
  have step: "emit_lines emit_id tag no_stop p buffer f
      = (case memchr_nl ys of None \<Rightarrow> (ys, ?f) | Some q \<Rightarrow> emit_lines emit_id tag True q ys ?f)"
    using less.prems(1) by (subst emit_lines.simps) (simp only: b Let_def, cases "emit_id \<and> no_stop", auto split: option.split)
  show ?case
  proof (cases "memchr_nl ys")
    case None
    with less.prems(4) have "ls = []" "r = ys" using lines_of_no_nl [of ys "[]"] by (auto simp: memchr_nl_None)
    with step None show ?thesis by simp
  next
    case (Some q)
    from memchr_nl_split [OF Some] obtain us vs where s: "ys = us @ 10 # vs" "q = length us" "10 \<notin> set us" by blast
    obtain ls' r' where v: "lines_of [] vs = (ls', r')" by fastforce
    with less.prems(4) s(1) lines_of_nl [OF s(3), of "[]" vs] have l: "ls = (us @ [10]) # ls'" "r = r'" by auto
    have "emit_lines emit_id tag True q ys ?f = (r', ?f\<lparr>of_data := of_data ?f @ (if emit_id then tag else []) @ us @ [10] @ tagged emit_id tag ls'\<rparr>)"
      using less.IH [of ys ?f us vs q ls' r' True] less.prems(1,2) s v by simp
    with step Some l show ?thesis by simp
  qed
qed

section \<open>One message\<close>

definition info_ok :: "output_info \<Rightarrow> bool" where
  "info_ok v \<longleftrightarrow> length (oi_buffer v) = MAX_BUFFER_SIZE \<and> oi_sz v \<le> MAX_BUFFER_SIZE"

definition infos_ok :: "output_info list \<Rightarrow> bool" where
  "infos_ok infos \<longleftrightarrow> length infos = MAX_NUM_NODES \<and> (\<forall>v\<in>set infos. info_ok v)"

lemma infos_okD: "infos_ok infos \<Longrightarrow> i < 63 \<Longrightarrow> info_ok (infos ! i)"
  by (simp add: infos_ok_def MAX_NUM_NODES_def)

lemma infos_ok_update: "infos_ok infos \<Longrightarrow> info_ok v \<Longrightarrow> infos_ok (infos[i := v])"
  by (auto simp: infos_ok_def dest!: set_update_subset_insert [THEN subsetD])

lemma pending_none [simp]: "oi_sz v = 0 \<Longrightarrow> pending v = []"
  by (simp add: pending_def)

text \<open>What \<open>memcpy\<close> stores is what is pending.\<close>

lemma store_rest_run:
  assumes "info_ok v" "pending v = []" "length r \<le> MAX_BUFFER_SIZE"
  shows "\<exists>v'. store_rest r v = Some v' \<and> info_ok v' \<and> pending v' = r"
  using assms by (auto simp: store_rest_def info_ok_def pending_def splice_def)

lemma emit_pending_run:
  assumes "of_room f = []" "info_ok v"
  obtains v' f' ns where "emit_pending emit_id tag v f = (v', f', ns)" "info_ok v'" "pending v' = []" "of_room f' = []"
    "\<And>x. f'\<lparr>of_data := of_data f' @ (if emit_id \<and> ns then tag else []) @ x\<rparr>
      = f\<lparr>of_data := of_data f @ (if emit_id then tag else []) @ pending v @ x\<rparr>"
proof (cases "oi_sz v > 0")
  case True
  then show ?thesis using assms
    by (intro that [of "v\<lparr>oi_sz := 0\<rparr>" "f\<lparr>of_data := of_data f @ (if emit_id then tag else []) @ pending v\<rparr>" False])
      (auto simp: emit_pending_def info_ok_def)
next
  case False
  then show ?thesis using assms by (intro that [of v f True]) (auto simp: emit_pending_def pending_def)
qed

lemma pending_add:
  assumes "info_ok v" "oi_sz v + length b \<le> MAX_BUFFER_SIZE"
  shows "info_ok (v\<lparr>oi_buffer := splice (oi_buffer v) (oi_sz v) b, oi_sz := oi_sz v + length b\<rparr>)"
    "pending (v\<lparr>oi_buffer := splice (oi_buffer v) (oi_sz v) b, oi_sz := oi_sz v + length b\<rparr>) = pending v @ b"
  using assms by (auto simp: info_ok_def pending_def splice_def)

lemma length_pending: "info_ok v \<Longrightarrow> length (pending v) = oi_sz v"
  by (simp add: info_ok_def pending_def)

lemma lines_of_last: "snd (lines_of acc (xs @ [10])) = []"
  by (induction acc xs rule: lines_of.induct) (auto split: prod.splits)

text \<open>The part of the buffer up to the first line end of the loop completes the pending line (with
  identification), or the pending lines (without).\<close>

lemma first_chunk:
  assumes "(if emit_id then memchr_nl b else memrchr_nl b) = Some p" "lines_of acc b = (ls, r)"
  shows "\<exists>xs ys ls'. b = xs @ 10 # ys \<and> p = length xs \<and> lines_of [] ys = (ls', r)
    \<and> tagged emit_id tag ls = (if emit_id then tag else []) @ acc @ xs @ [10] @ tagged emit_id tag ls'"
proof (cases emit_id)
  case True
  with assms(1) memchr_nl_split [of b p] obtain xs ys where s: "b = xs @ 10 # ys" "p = length xs" "10 \<notin> set xs" by auto
  obtain ls' r' where "lines_of [] ys = (ls', r')" by fastforce
  with s assms(2) True lines_of_nl [OF s(3), of acc ys] show ?thesis
    by (intro exI [of _ xs] exI [of _ ys] exI [of _ ls']) auto
next
  case False
  with assms(1) memrchr_nl_split [of b p] obtain xs ys where s: "b = xs @ 10 # ys" "p = length xs" "10 \<notin> set ys" by auto
  obtain l1 where l1: "lines_of acc (xs @ [10]) = (l1, [])" using lines_of_last [of acc xs] by (metis prod.collapse)
  have "lines_of acc ((xs @ [10]) @ ys) = (l1, ys)"
    using l1 lines_of_no_nl [OF s(3), of "[]"] by (simp only: lines_of_append) simp
  with assms(2) s(1) have "ls = l1" "r = ys" by auto
  with lines_of_concat [OF l1] lines_of_no_nl [OF s(3), of "[]"] s False show ?thesis
    by (intro exI [of _ xs] exI [of _ ys] exI [of _ "[]"]) simp
qed

lemma emit_run:
  assumes f: "of_room f = []" and ok: "infos_ok infos" and node: "unat node < 63" and b: "length buffer \<le> MAX_BUFFER_SIZE"
    and l: "lines_of (pending (infos ! unat node)) buffer = (ls, r)" "length r \<le> MAX_BUFFER_SIZE"
    and e: "emit_id = (flags AND IDENT_FLAG \<noteq> 0)" and t: "tag = ident_tag (flags AND ALTERNATE_IDENT_FLAG \<noteq> 0) node"
  shows "\<exists>v. emit node buffer infos f flags = Some (infos[unat node := v], f\<lparr>of_data := of_data f @ tagged emit_id tag ls\<rparr>)
    \<and> info_ok v \<and> pending v = r"
proof -
  let ?v = "infos ! unat node"
  have v: "aget infos (unat node) = Some ?v" "info_ok ?v" and n: "unat node \<le> MAX_NUM_NODES"
    and set: "aset infos (unat node) w = Some (infos[unat node := w])" for w
    using ok node infos_okD by (auto simp: infos_ok_def MAX_NUM_NODES_def)
  show ?thesis
  proof (cases "if emit_id then memchr_nl buffer else memrchr_nl buffer")
    case None
    then have "10 \<notin> set buffer" by (auto simp: memchr_nl_None memrchr_nl_None split: if_splits)
    with l have lr: "ls = []" "r = pending ?v @ buffer" using lines_of_no_nl by auto
    then have fit: "oi_sz ?v + length buffer \<le> MAX_BUFFER_SIZE" using l(2) length_pending [OF v(2)] by simp
    have "emit node buffer infos f flags = Some (infos[unat node :=
        ?v\<lparr>oi_buffer := splice (oi_buffer ?v) (oi_sz ?v) buffer, oi_sz := oi_sz ?v + length buffer\<rparr>], f)"
      using None v n set fit by (simp add: emit_def Let_def flip: e t)
    with pending_add [OF v(2) fit] lr show ?thesis by auto
  next
    case (Some p)
    from first_chunk [OF Some l(1), of tag] obtain xs ys ls' where s: "buffer = xs @ 10 # ys" "p = length xs"
      "lines_of [] ys = (ls', r)" "tagged emit_id tag ls = (if emit_id then tag else []) @ pending ?v @ xs @ [10] @ tagged emit_id tag ls'"
      by blast
    from emit_pending_run [OF f v(2), of emit_id tag] obtain v1 f1 ns where 1: "emit_pending emit_id tag ?v f = (v1, f1, ns)"
      "info_ok v1" "pending v1 = []" "of_room f1 = []"
      and d: "\<And>x. f1\<lparr>of_data := of_data f1 @ (if emit_id \<and> ns then tag else []) @ x\<rparr>
        = f\<lparr>of_data := of_data f @ (if emit_id then tag else []) @ pending ?v @ x\<rparr>" by blast
    have "emit_lines emit_id tag ns p buffer f1 = (r, f\<lparr>of_data := of_data f @ tagged emit_id tag ls\<rparr>)"
      using emit_lines_run [OF 1(4) s(1,2,3), of emit_id tag ns] d [of "xs @ [10] @ tagged emit_id tag ls'"] s(4) by simp
    moreover from store_rest_run [OF 1(2,3) l(2)] obtain v2 where "store_rest r v1 = Some v2" "info_ok v2" "pending v2 = r" by blast
    ultimately show ?thesis using Some v n set 1(1) by (auto simp: emit_def Let_def simp flip: e t)
  qed
qed

section \<open>All the messages\<close>

definition emit_msg :: "u32 \<Rightarrow> u8 \<times> bytes \<Rightarrow> output_info list \<times> out_file \<Rightarrow> (output_info list \<times> out_file) option" where
  "emit_msg flags m s = emit (fst m) (snd m) (fst s) (snd s) flags"

text \<open>What a node has sent.\<close>

definition node_bytes :: "u8 \<Rightarrow> (u8 \<times> bytes) list \<Rightarrow> bytes" where
  "node_bytes n ms = concat (map snd (filter (\<lambda>m. fst m = n) ms))"

lemma node_bytes_simps [simp]:
  "node_bytes n [] = []" "node_bytes n ((n, b) # ms) = b @ node_bytes n ms"
  "n \<noteq> n' \<Longrightarrow> node_bytes n ((n', b) # ms) = node_bytes n ms"
  by (simp_all add: node_bytes_def)

text \<open>No line is longer than the buffer.\<close>

definition short_lines :: "bytes \<Rightarrow> bytes \<Rightarrow> bool" where
  "short_lines acc xs \<longleftrightarrow> (\<forall>l\<in>set (fst (lines_of acc xs)) \<union> {snd (lines_of acc xs)}. length l \<le> MAX_BUFFER_SIZE)"

lemma lines_of_longer: "\<exists>l\<in>set (fst (lines_of acc xs)) \<union> {snd (lines_of acc xs)}. length acc \<le> length l"
proof (induction acc xs rule: lines_of.induct)
  case (2 acc x xs)
  then show ?case
  proof (cases "x = 10")
    case False
    with 2 show ?thesis by fastforce
  qed (auto split: prod.splits)
qed auto

lemma short_lines_append:
  assumes "short_lines acc (xs @ ys)"
  shows "length (snd (lines_of acc xs)) \<le> MAX_BUFFER_SIZE" "short_lines (snd (lines_of acc xs)) ys"
proof -
  from assms show s: "short_lines (snd (lines_of acc xs)) ys"
    by (auto simp: short_lines_def lines_of_append Let_def split: prod.splits)
  from lines_of_longer [of "snd (lines_of acc xs)" ys] s show "length (snd (lines_of acc xs)) \<le> MAX_BUFFER_SIZE"
    unfolding short_lines_def by (meson order_trans)
qed

text \<open>C29: the output of the nodes is never mixed. Given any sequence of pieces of output from the nodes
  0 to 62, without lines longer than the buffer, the master writes whole lines only, each after its
  tag when identification is on; the lines of a node are the lines of what it has sent, in their order, and
  the unfinished line is kept for later.\<close>

theorem emit_lines_whole:
  assumes "of_room f = []" "infos_ok infos" "\<forall>m\<in>set ms. unat (fst m) < 63 \<and> length (snd m) \<le> MAX_BUFFER_SIZE"
    "\<forall>n. unat n < 63 \<longrightarrow> short_lines (pending (infos ! unat n)) (node_bytes n ms)"
  shows "\<exists>infos' f' ls. for_each (emit_msg flags) ms (infos, f) = Some (infos', f')
    \<and> of_data f' = of_data f @ concat (map (\<lambda>(n, l). (if flags AND IDENT_FLAG \<noteq> 0
         then ident_tag (flags AND ALTERNATE_IDENT_FLAG \<noteq> 0) n else []) @ l) ls)
    \<and> (\<forall>n. unat n < 63 \<longrightarrow> lines_of (pending (infos ! unat n)) (node_bytes n ms)
         = (map snd (filter (\<lambda>x. fst x = n) ls), pending (infos' ! unat n)))"
  using assms
proof (induction ms arbitrary: infos f)
  case Nil
  then show ?case by (intro exI [of _ infos] exI [of _ f] exI [of _ "[]"]) simp
next
  case (Cons m ms)
  obtain n b where m: "m = (n, b)" by fastforce
  let ?tag = "\<lambda>n. if flags AND IDENT_FLAG \<noteq> 0 then ident_tag (flags AND ALTERNATE_IDENT_FLAG \<noteq> 0) n else []"
  have n: "unat n < 63" "length b \<le> MAX_BUFFER_SIZE" using Cons.prems(3) m by auto
  obtain l1 r1 where l1: "lines_of (pending (infos ! unat n)) b = (l1, r1)" by fastforce
  have "short_lines (pending (infos ! unat n)) (b @ node_bytes n ms)" using Cons.prems(4) n(1) m by force
  from short_lines_append [OF this] l1 have r1: "length r1 \<le> MAX_BUFFER_SIZE" "short_lines r1 (node_bytes n ms)" by auto
  from emit_run [OF Cons.prems(1,2) n l1 r1(1) refl refl, of flags] obtain v where
    1: "emit n b infos f flags = Some (infos[unat n := v], f\<lparr>of_data := of_data f @ concat (map (\<lambda>l. ?tag n @ l) l1)\<rparr>)"
      "info_ok v" "pending v = r1" by (auto simp: tagged_def)
  let ?infos = "infos[unat n := v]" and ?f = "f\<lparr>of_data := of_data f @ concat (map (\<lambda>l. ?tag n @ l) l1)\<rparr>"
  have len: "length infos = 63" using Cons.prems(2) by (simp add: infos_ok_def MAX_NUM_NODES_def)
  have other: "?infos ! unat k = infos ! unat k" if "k \<noteq> n" for k using that by (simp add: word_unat_eq_iff)
  have "\<forall>k. unat k < 63 \<longrightarrow> short_lines (pending (?infos ! unat k)) (node_bytes k ms)"
  proof (intro allI impI)
    fix k :: u8
    assume "unat k < 63"
    with Cons.prems(4) m other [of k] r1(2) 1(3) len show "short_lines (pending (?infos ! unat k)) (node_bytes k ms)"
      by (cases "k = n") fastforce+
  qed
  from Cons.IH [OF _ infos_ok_update [OF Cons.prems(2) 1(2)] _ this, of ?f] Cons.prems(1,3) obtain infos' f' ls where
    2: "for_each (emit_msg flags) ms (?infos, ?f) = Some (infos', f')"
      "of_data f' = of_data ?f @ concat (map (\<lambda>(n, l). ?tag n @ l) ls)"
      "\<forall>k. unat k < 63 \<longrightarrow> lines_of (pending (?infos ! unat k)) (node_bytes k ms)
        = (map snd (filter (\<lambda>x. fst x = k) ls), pending (infos' ! unat k))" by auto
  have "lines_of (pending (infos ! unat k)) (node_bytes k (m # ms))
      = (map snd (filter (\<lambda>x. fst x = k) (map (Pair n) l1 @ ls)), pending (infos' ! unat k))" if "unat k < 63" for k
  proof (cases "k = n")
    case True
    with 2(3) that 1(3) len n(1) l1 m show ?thesis
      by (simp add: lines_of_append filter_map o_def split: prod.splits) fastforce
  next
    case False
    with 2(3) [rule_format, OF that] other [OF False] m show ?thesis by (simp add: filter_map o_def)
  qed
  moreover have "for_each (emit_msg flags) (m # ms) (infos, f) = Some (infos', f')"
  proof -
    have "emit_msg flags m (infos, f) = Some (?infos, ?f)" using 1(1) m by (simp only: emit_msg_def fst_conv snd_conv)
    with 2(1) show ?thesis by (simp only: for_each.simps bind.simps)
  qed
  moreover have "of_data f' = of_data f @ concat (map (\<lambda>(n, l). ?tag n @ l) (map (Pair n) l1 @ ls))"
    using 2(2) by (simp add: o_def)
  ultimately show ?case
    by (intro exI [of _ infos'] exI [of _ f'] exI [of _ "map (Pair n) l1 @ ls"]) blast
qed

text \<open>Node 63, which the node masks and the assertion of \<open>emit\<close> allow, is outside the array of
  pending output.\<close>

theorem emit_node_63: "infos_ok infos \<Longrightarrow> emit 63 buffer infos f flags = None"
proof -
  assume "infos_ok infos"
  then have "aget infos (unat (63 :: u8)) = None" by (simp add: infos_ok_def MAX_NUM_NODES_def aget_None_iff)
  then show ?thesis unfolding emit_def Let_def by simp
qed

definition demo_infos :: "output_info list" where
  "demo_infos = replicate 63 \<lparr>oi_buffer = replicate 8192 0, oi_sz = 0\<rparr>"

lemma demo_infos_ok: "infos_ok demo_infos" "i < 63 \<Longrightarrow> pending (demo_infos ! i) = []"
  by (auto simp: demo_infos_def infos_ok_def info_ok_def MAX_NUM_NODES_def MAX_BUFFER_SIZE_def)

theorem emit_lines_whole_witness:
  "\<exists>infos' f' ls. for_each (emit_msg 1) [(1, [97]), (2, [98, 10]), (1, [10])] (demo_infos, \<lparr>of_data = [], of_room = []\<rparr>)
      = Some (infos', f') \<and> of_data f' = concat (map (\<lambda>(n, l). ident_tag False n @ l) ls)
    \<and> map snd (filter (\<lambda>x. fst x = 1) ls) = [[97, 10]] \<and> map snd (filter (\<lambda>x. fst x = 2) ls) = [[98, 10]]"
proof -
  let ?ms = "[(1, [97]), (2, [98, 10]), (1, [10])] :: (u8 \<times> bytes) list"
  have "\<forall>n. unat n < 63 \<longrightarrow> short_lines (pending (demo_infos ! unat n)) (node_bytes n ?ms)"
    by (auto simp: demo_infos_ok short_lines_def node_bytes_def MAX_BUFFER_SIZE_def)
  from emit_lines_whole [OF _ demo_infos_ok(1) _ this, of "\<lparr>of_data = [], of_room = []\<rparr>" 1] obtain infos' f' ls where
    1: "for_each (emit_msg 1) ?ms (demo_infos, \<lparr>of_data = [], of_room = []\<rparr>) = Some (infos', f')"
      "of_data f' = concat (map (\<lambda>(n, l). ident_tag False n @ l) ls)"
    and l: "\<forall>n. unat n < 63 \<longrightarrow> lines_of (pending (demo_infos ! unat n)) (node_bytes n ?ms)
         = (map snd (filter (\<lambda>x. fst x = n) ls), pending (infos' ! unat n))"
    by (auto simp: MAX_BUFFER_SIZE_def IDENT_FLAG_def ALTERNATE_IDENT_FLAG_def)
  have "lines_of [] (node_bytes 1 ?ms) = ([[97, 10]], [])" "lines_of [] (node_bytes 2 ?ms) = ([[98, 10]], [])"
    by (simp_all add: node_bytes_def)
  with l [rule_format, of 1] l [rule_format, of 2] 1 show ?thesis
    by (intro exI [of _ infos'] exI [of _ f'] exI [of _ ls]) (simp add: demo_infos_ok)
qed

theorem emit_node_63_witness: "emit 63 [10] demo_infos \<lparr>of_data = [], of_room = []\<rparr> 0 = None"
  by (rule emit_node_63 [OF demo_infos_ok(1)])

end
