(* ===== verification/Sched.thy ===== *)
theory Sched
  imports C_Numbers
begin

text \<open>
  Scheduling parameters (\<open>axiom_common_library/schedfuncs.c\<close>): the option of \<open>axiom-run\<close> and
  \<open>axiom-init\<close> that sets them, and the text in which the master passes them to the slaves.
\<close>

section \<open>The code\<close>

text \<open>The policies of \<open><linux/sched.h>\<close>.\<close>

abbreviation (input) "SCHED_OTHER \<equiv> 0 :: int"
abbreviation (input) "SCHED_FIFO \<equiv> 1 :: int"
abbreviation (input) "SCHED_RR \<equiv> 2 :: int"
abbreviation (input) "SCHED_BATCH \<equiv> 3 :: int"
abbreviation (input) "SCHED_IDLE \<equiv> 5 :: int"
abbreviation (input) "SCHED_DEADLINE \<equiv> 6 :: int"

record sched_state =
  sched_policy :: int
  sched_p0 :: u64
  sched_p1 :: u64
  sched_p2 :: u64

definition sched_default :: sched_state where
  "sched_default = \<lparr>sched_policy = SCHED_OTHER, sched_p0 = 0, sched_p1 = 0, sched_p2 = 0\<rparr>"

text \<open>The text left in the buffer, which keeps its content when the policy is none of the known
  ones.\<close>

definition sch_encodeopt :: "sched_state \<Rightarrow> string \<Rightarrow> nat \<Rightarrow> string" where
  "sch_encodeopt s buf bufsize = (
     let pol = print_int (sched_policy s); lu = (\<lambda>p. print_base 10 (unat (p :: u64))) in
     if sched_policy s = SCHED_IDLE then snprintf bufsize pol
     else if sched_policy s \<in> {SCHED_OTHER, SCHED_BATCH, SCHED_FIFO, SCHED_RR}
     then snprintf bufsize (pol @ '','' @ lu (sched_p0 s))
     else if sched_policy s = SCHED_DEADLINE
     then snprintf bufsize (pol @ '','' @ lu (sched_p0 s) @ ''u,'' @ lu (sched_p1 s) @ ''u,'' @ lu (sched_p2 s) @ ''u'')
     else buf)"

text \<open>The policy, a number or a name, and the rest of the text. A number is converted to \<open>int\<close>.\<close>

definition sch_policy :: "string \<Rightarrow> int \<times> string option" where
  "sch_policy start = (let (n, e) = strtol10 start in
     if e \<noteq> start then (sint (word_of_int n :: u32), Some e)
     else if has_prefix ''OTHER'' start then (SCHED_OTHER, Some (drop 5 start))
     else if has_prefix ''DEADLINE'' start then (SCHED_DEADLINE, Some (drop 8 start))
     else if has_prefix ''FIFO'' start then (SCHED_FIFO, Some (drop 4 start))
     else if has_prefix ''BATCH'' start then (SCHED_BATCH, Some (drop 5 start))
     else if has_prefix ''IDLE'' start then (SCHED_IDLE, Some (drop 4 start))
     else if has_prefix ''RR'' start then (SCHED_RR, Some (drop 2 start))
     else (sint (word_of_int n :: u32), None))"

text \<open>A parameter after its comma: the value with its unit applied, whether it is a percentage (only
  the first one may be), and the rest; no rest when there is no number.\<close>

definition sch_param :: "int \<Rightarrow> bool \<Rightarrow> string \<Rightarrow> u64 \<times> bool \<times> string option" where
  "sch_param policy first start = (let (n, e) = strtol10 start; p = word_of_int n in
     if e = start then (p, False, None)
     else if policy = SCHED_DEADLINE
     then (case e of
         c # r \<Rightarrow> if c = CHR ''u'' then (p, False, Some r)
                 else if c = CHR ''m'' then (p * 1000, False, Some r)
                 else if c = CHR ''%'' \<and> first then (p, True, Some r)
                 else (p * (1000 * 1000), False, Some e)
       | [] \<Rightarrow> (p * (1000 * 1000), False, Some e))
     else (p, False, Some e))"

definition sch_defaults :: "sched_state \<Rightarrow> sched_state" where
  "sch_defaults s =
     (if sched_policy s \<in> {SCHED_OTHER, SCHED_BATCH} then s\<lparr>sched_p0 := 0\<rparr>
      else if sched_policy s \<in> {SCHED_FIFO, SCHED_RR} then s\<lparr>sched_p0 := 1\<rparr>
      else if sched_policy s = SCHED_DEADLINE
      then s\<lparr>sched_p0 := 100 * 1000, sched_p1 := 995 * 1000, sched_p2 := 1000 * 1000\<rparr>
      else s)"

text \<open>The three optional parameters, each after a comma. The result: the return value, the state, the
  percentage flag and the rest.\<close>

definition sch_first :: "string \<Rightarrow> sched_state \<Rightarrow> sched_state \<times> bool \<times> string option" where
  "sch_first e s = (case e of
       [] \<Rightarrow> (sch_defaults s, False, Some e)
     | c # start \<Rightarrow> if c \<noteq> CHR '','' then (s, False, None)
         else (let (p, per, r) = sch_param (sched_policy s) True start in (s\<lparr>sched_p0 := p\<rparr>, per, r)))"

definition sch_next :: "(u64 \<Rightarrow> sched_state \<Rightarrow> sched_state) \<Rightarrow> string \<Rightarrow> sched_state \<Rightarrow> sched_state \<times> string option" where
  "sch_next upd e s = (case e of
       [] \<Rightarrow> (s, Some e)
     | c # start \<Rightarrow> if c \<noteq> CHR '','' then (s, None)
         else (let (p, _, r) = sch_param (sched_policy s) False start in (upd p s, r)))"

text \<open>The result: the return value and the state, which a failed call leaves partly changed.\<close>

definition sch_decodeopt :: "string option \<Rightarrow> sched_state \<Rightarrow> int \<times> sched_state" where
  "sch_decodeopt arg s = (case arg of
       None \<Rightarrow> (0, s)
     | Some start \<Rightarrow>
         let (pol, e) = sch_policy start; s = s\<lparr>sched_policy := pol\<rparr> in
         case e of None \<Rightarrow> (- 1, s) | Some e \<Rightarrow>
         let (s, per, e) = sch_first e s in
         case e of None \<Rightarrow> (- 1, s) | Some e \<Rightarrow>
         let (s, e) = sch_next (\<lambda>p. sched_p1_update (\<lambda>_. p)) e s in
         case e of None \<Rightarrow> (- 1, s) | Some e \<Rightarrow>
         let (s, e) = sch_next (\<lambda>p. sched_p2_update (\<lambda>_. p)) e s in
         case e of None \<Rightarrow> (- 1, s) | Some e \<Rightarrow>
         if e \<noteq> [] then (- 1, s)
         else (0, if per then s\<lparr>sched_p0 := sched_p0 s * sched_p2 s div 100\<rparr> else s))"

text \<open>The attributes of the \<open>sched_setattr\<close> system call, which is a parameter.\<close>

record sched_attr =
  sa_policy :: u32
  sa_nice :: "32 word"
  sa_priority :: u32
  sa_runtime :: u64
  sa_deadline :: u64
  sa_period :: u64

definition sch_attr :: "sched_state \<Rightarrow> sched_attr" where
  "sch_attr s = (let a = \<lparr>sa_policy = word_of_int (sched_policy s), sa_nice = 0, sa_priority = 0, sa_runtime = 0,
                         sa_deadline = 0, sa_period = 0\<rparr> in
     if sched_policy s \<in> {SCHED_OTHER, SCHED_BATCH} then a\<lparr>sa_nice := ucast (sched_p0 s)\<rparr>
     else if sched_policy s \<in> {SCHED_FIFO, SCHED_RR} then a\<lparr>sa_priority := ucast (sched_p0 s)\<rparr>
     else if sched_policy s = SCHED_DEADLINE
     then a\<lparr>sa_runtime := sched_p0 s * 1000, sa_deadline := sched_p1 s * 1000, sa_period := sched_p2 s * 1000\<rparr>
     else a)"

definition sch_setsched :: "(sched_attr \<Rightarrow> int) \<Rightarrow> sched_state \<Rightarrow> int" where
  "sch_setsched setattr s = setattr (sch_attr s)"

section \<open>From the master to the slaves\<close>

text \<open>The policies that the program knows.\<close>

definition known_policies :: "int set" where
  "known_policies = {SCHED_OTHER, SCHED_FIFO, SCHED_RR, SCHED_BATCH, SCHED_IDLE, SCHED_DEADLINE}"

lemma print_policy: "p \<in> known_policies \<Longrightarrow> print_int p = print_base 10 (nat p) \<and> sint (word_of_int p :: u32) = p"
  by (auto simp: known_policies_def print_int_def signed_of_int)

lemma not_digit [simp]: "\<not> starts_digit 10 []" "\<not> starts_digit 10 (CHR '','' # t)" "\<not> starts_digit 10 (CHR ''u'' # t)"
  by (simp_all add: starts_digit_def digit_val_def)

lemma strtol_print_ne: "t \<noteq> print_base b n @ t"
  by (metis append_self_conv2 print_base_nonempty)

lemma sch_policy_print:
  assumes "p \<in> known_policies" "\<not> starts_digit 10 t"
  shows "sch_policy (print_int p @ t) = (p, Some t)"
proof -
  have "0 \<le> p" "p \<le> 6" using assms(1) by (auto simp: known_policies_def)
  then have "min LONG_MAX (int (nat p)) = p" by (simp add: LONG_MAX_def)
  with print_policy [OF assms(1)] strtol_print [OF assms(2), of "nat p"] strtol_print_ne [of t 10 "nat p"] show ?thesis
    by (simp add: sch_policy_def)
qed

lemma strtol_print_u64:
  assumes "unat (p :: u64) < 2 ^ 63" "\<not> starts_digit 10 t"
  shows "strtol10 (print_base 10 (unat p) @ t) = (int (unat p), t)"
proof -
  have "int (unat p) < int (2 ^ 63)" using assms(1) by (simp only: of_nat_less_iff)
  then have "int (unat p) \<le> LONG_MAX" by (simp add: LONG_MAX_def)
  with strtol_print [OF assms(2), of "unat p"] show ?thesis by simp
qed

lemma sch_param_print:
  assumes "unat p < 2 ^ 63"
  shows "pol \<noteq> SCHED_DEADLINE \<Longrightarrow> \<not> starts_digit 10 t \<Longrightarrow> sch_param pol f (print_base 10 (unat p) @ t) = (p, False, Some t)"
    "sch_param SCHED_DEADLINE f (print_base 10 (unat p) @ CHR ''u'' # t) = (p, False, Some t)"
  using strtol_print_u64 [OF assms, of t] strtol_print_u64 [OF assms, of "CHR ''u'' # t"] strtol_print_ne [of _ 10 "unat p"]
  by (auto simp: sch_param_def)

lemma sch_first_print:
  assumes "unat p < 2 ^ 63"
  shows "sched_policy s \<noteq> SCHED_DEADLINE \<Longrightarrow> sch_first (CHR '','' # print_base 10 (unat p)) s = (s\<lparr>sched_p0 := p\<rparr>, False, Some [])"
    "sched_policy s = SCHED_DEADLINE \<Longrightarrow>
       sch_first (CHR '','' # print_base 10 (unat p) @ CHR ''u'' # t) s = (s\<lparr>sched_p0 := p\<rparr>, False, Some t)"
  using sch_param_print [OF assms, where t = "[]"] sch_param_print(2) [OF assms] by (auto simp: sch_first_def)

lemma sch_next_print:
  assumes "unat p < 2 ^ 63" "sched_policy s = SCHED_DEADLINE"
  shows "sch_next upd (CHR '','' # print_base 10 (unat p) @ CHR ''u'' # t) s = (upd p s, Some t)"
  using sch_param_print(2) [OF assms(1)] assms(2) by (auto simp: sch_next_def)

text \<open>The slave reads back what the master writes. For the six policies, with parameters below
  \<open>10 ^ 18\<close> (microseconds, priorities and non-negative nice values), the text fits in the 64-byte
  buffer and decoding it, in any state, succeeds and gives the policy and its parameters.\<close>

lemma sched_decode_encode:
  assumes "sched_policy s \<in> known_policies"
    "unat (sched_p0 s) < 10 ^ 18" "unat (sched_p1 s) < 10 ^ 18" "unat (sched_p2 s) < 10 ^ 18"
  shows "\<exists>s'. sch_decodeopt (Some (sch_encodeopt s buf 64)) s0 = (0, s') \<and> sch_attr s' = sch_attr s"
proof -
  let ?p = "\<lambda>p. print_base 10 (unat (p :: u64))" and ?pol = "sched_policy s"
  have lt: "unat (sched_p0 s) < 2 ^ 63" "unat (sched_p1 s) < 2 ^ 63" "unat (sched_p2 s) < 2 ^ 63"
    using assms(2-) by auto
  have len: "length (?p (sched_p0 s)) \<le> 18" "length (?p (sched_p1 s)) \<le> 18" "length (?p (sched_p2 s)) \<le> 18"
    using assms(2-) by (auto intro: print_base_length)
  have one: "length (print_int ?pol) = 1" using assms(1)
    by (auto simp: known_policies_def print_int_def print_base.simps)
  consider "?pol = SCHED_IDLE" | "?pol \<in> {SCHED_OTHER, SCHED_BATCH, SCHED_FIFO, SCHED_RR}" | "?pol = SCHED_DEADLINE"
    using assms(1) by (auto simp: known_policies_def)
  then show ?thesis
  proof cases
    case 1
    have "sch_decodeopt (Some (print_int ?pol)) s0 = (0, s0\<lparr>sched_policy := ?pol\<rparr>)"
      using sch_policy_print [OF assms(1), of "[]"] 1 by (simp add: sch_decodeopt_def sch_first_def sch_next_def sch_defaults_def)
    with 1 one show ?thesis by (auto simp: sch_encodeopt_def snprintf_def sch_attr_def Let_def)
  next
    case 2
    then have e: "sch_encodeopt s buf 64 = print_int ?pol @ '','' @ ?p (sched_p0 s)" using one len
      by (auto simp: sch_encodeopt_def snprintf_def Let_def)
    have "sch_decodeopt (Some (sch_encodeopt s buf 64)) s0 = (0, s0\<lparr>sched_policy := ?pol, sched_p0 := sched_p0 s\<rparr>)"
      unfolding e using sch_policy_print [OF assms(1), of "CHR '','' # ?p (sched_p0 s)"] 2
        sch_first_print(1) [OF lt(1), of "s0\<lparr>sched_policy := ?pol\<rparr>"]
      by (auto simp: sch_decodeopt_def sch_next_def)
    with 2 show ?thesis by (auto simp: sch_attr_def Let_def)
  next
    case 3
    then have e: "sch_encodeopt s buf 64 = print_int ?pol @ CHR '','' # ?p (sched_p0 s) @ CHR ''u'' #
        CHR '','' # ?p (sched_p1 s) @ CHR ''u'' # CHR '','' # ?p (sched_p2 s) @ [CHR ''u'']" using one len
      by (simp add: sch_encodeopt_def snprintf_def Let_def)
    have "sch_decodeopt (Some (sch_encodeopt s buf 64)) s0
        = (0, s0\<lparr>sched_policy := ?pol, sched_p0 := sched_p0 s, sched_p1 := sched_p1 s, sched_p2 := sched_p2 s\<rparr>)"
      unfolding e using sch_policy_print [OF assms(1)] 3 sch_first_print(2) [OF lt(1)] sch_next_print [OF lt(2)]
        sch_next_print [OF lt(3), where t = "[]"]
      by (simp add: sch_decodeopt_def)
    with 3 show ?thesis by (auto simp: sch_attr_def Let_def)
  qed
qed

lemma unat_minus_5: "unat (- 5 :: u64) = 2 ^ 64 - 5"
  by (simp add: unat_eq_nat_uint uint_word_ariths)

text \<open>A negative nice value does not survive the way to the slaves. The option \<open>OTHER,-5\<close> sets
  nice -5 on the master; the text passed to the slaves has the value as an unsigned number, which
  \<open>strtol\<close> clamps: the slaves run with nice -1.\<close>

theorem sched_negative_nice:
  "let (r, m) = sch_decodeopt (Some ''OTHER,-5'') sched_default;
       (r', s) = sch_decodeopt (Some (sch_encodeopt m '''' 64)) sched_default
   in r = 0 \<and> sint (sa_nice (sch_attr m)) = - 5 \<and> r' = 0 \<and> sint (sa_nice (sch_attr s)) = - 1"
proof -
  let ?m = "\<lparr>sched_policy = 0, sched_p0 = - 5, sched_p1 = 0, sched_p2 = 0\<rparr> :: sched_state"
  let ?p = "print_base 10 (unat (- 5 :: u64))"
  have m: "sch_decodeopt (Some ''OTHER,-5'') sched_default = (0, ?m)" by code_simp
  have "length ?p \<le> 20" by (rule print_base_length) (simp_all add: unat_minus_5)
  then have e: "sch_encodeopt ?m '''' 64 = print_int 0 @ CHR '','' # ?p"
    by (simp add: sch_encodeopt_def snprintf_def print_int_def print_base.simps [of 10 0])
  have "strtol10 ?p = (LONG_MAX, [])"
    using strtol_print [of "[]" "unat (- 5 :: u64)"] by (simp add: unat_minus_5 LONG_MAX_def)
  then have "sch_decodeopt (Some (sch_encodeopt ?m '''' 64)) sched_default
      = (0, ?m\<lparr>sched_p0 := word_of_int LONG_MAX\<rparr>)"
    unfolding e using sch_policy_print [of 0 "CHR '','' # ?p"]
    by (simp add: known_policies_def sch_decodeopt_def sch_first_def sch_param_def sch_next_def sched_default_def)
  then show ?thesis unfolding m by (simp add: sch_attr_def LONG_MAX_def)
qed

end
