(* ===== verification/Getopt.thy ===== *)
theory Getopt
  imports C_Numbers
begin

text \<open>
  The command lines of the programs: \<open>getopt_long\<close> of the C library, for the tables of a program, and the values that
  \<open>sscanf\<close> reads from the arguments of the options.
\<close>

section \<open>The next option\<close>

datatype arg_kind = no_argument | required_argument | optional_argument

text \<open>The tables of a program: the option string, the long options, and the value that stands for a short option.\<close>

record 'o optspec =
  os_char :: "char \<Rightarrow> 'o"
  os_short :: "(char \<times> arg_kind) list"
  os_long :: "(string \<times> arg_kind \<times> 'o) list"

text \<open>The exact name or a prefix of one name only.\<close>

definition find_long :: "'o optspec \<Rightarrow> string \<Rightarrow> (arg_kind \<times> 'o) option" where
  "find_long sp name = (case map_of (os_long sp) name of
       Some r \<Rightarrow> Some r
     | None \<Rightarrow> (case remdups (map snd (filter (\<lambda>(n, _). has_prefix name n) (os_long sp))) of [r] \<Rightarrow> Some r | _ \<Rightarrow> None))"

text \<open>An option, its argument, the rest of a group of short options and the arguments that follow.\<close>

type_synonym 'o opt_item = "'o \<times> string option \<times> string \<times> string list"

definition bad_option :: "'o optspec \<Rightarrow> string \<Rightarrow> string list \<Rightarrow> 'o opt_item" where
  "bad_option sp cl args = (os_char sp CHR ''?'', None, cl, args)"

definition getopt_short :: "'o optspec \<Rightarrow> char \<Rightarrow> string \<Rightarrow> string list \<Rightarrow> 'o opt_item" where
  "getopt_short sp c cl args = (case map_of (os_short sp) c of
       None \<Rightarrow> bad_option sp cl args
     | Some no_argument \<Rightarrow> (os_char sp c, None, cl, args)
     | Some optional_argument \<Rightarrow> (os_char sp c, if cl = [] then None else Some cl, [], args)
     | Some required_argument \<Rightarrow>
         if cl \<noteq> [] then (os_char sp c, Some cl, [], args)
         else (case args of a # r \<Rightarrow> (os_char sp c, Some a, [], r) | [] \<Rightarrow> bad_option sp [] []))"

definition getopt_long_opt :: "'o optspec \<Rightarrow> string \<Rightarrow> string list \<Rightarrow> 'o opt_item" where
  "getopt_long_opt sp s args = (
     let name = takeWhile (\<lambda>c. c \<noteq> CHR ''='') s; val = (case dropWhile (\<lambda>c. c \<noteq> CHR ''='') s of [] \<Rightarrow> None | _ # v \<Rightarrow> Some v)
     in case find_long sp name of
       None \<Rightarrow> bad_option sp [] args
     | Some (no_argument, c) \<Rightarrow> if val = None then (c, None, [], args) else bad_option sp [] args
     | Some (optional_argument, c) \<Rightarrow> (c, val, [], args)
     | Some (required_argument, c) \<Rightarrow> (case (val, args) of
           (Some v, _) \<Rightarrow> (c, Some v, [], args)
         | (None, a # r) \<Rightarrow> (c, Some a, [], r)
         | (None, []) \<Rightarrow> bad_option sp [] []))"

text \<open>The next option, or the arguments that are left. This is the behaviour for an option string that starts with \<open>+\<close>: the
  options end at the first argument that is none.\<close>

fun getopt :: "'o optspec \<Rightarrow> string \<Rightarrow> string list \<Rightarrow> string list + 'o opt_item" where
  "getopt sp (c # cl) args = Inr (getopt_short sp c cl args)"
| "getopt sp [] [] = Inl []"
| "getopt sp [] (t # args) =
     (if t = ''--'' then Inl args
      else if has_prefix ''--'' t then Inr (getopt_long_opt sp (drop 2 t) args)
      else case t of c # d # cl \<Rightarrow> if c = CHR ''-'' then Inr (getopt_short sp d cl args) else Inl (t # args) | _ \<Rightarrow> Inl (t # args))"

text \<open>Every option takes something from the arguments.\<close>

definition opt_size :: "string \<Rightarrow> string list \<Rightarrow> nat" where
  "opt_size cl args = length cl + sum_list (map (\<lambda>t. Suc (length t)) args)"

lemma getopt_size: "getopt sp cl args = Inr (c, a, cl', args') \<Longrightarrow> opt_size cl' args' < opt_size cl args"
  by (cases "(sp, cl, args)" rule: getopt.cases)
     (auto simp: getopt_short_def getopt_long_opt_def bad_option_def opt_size_def Let_def
        split: option.splits arg_kind.splits list.splits if_splits prod.splits)

section \<open>The loop over the options\<close>

text \<open>Without the \<open>+\<close> the arguments that are no options are moved to the end. \<open>step\<close> is the body of the loop; it gives the new values of the
  variables or the code of an exit. The result has the arguments that are no options.\<close>

definition is_operand :: "string \<Rightarrow> bool" where
  "is_operand t \<longleftrightarrow> t = ''-'' \<or> \<not> has_prefix ''-'' t"

function parse_options ::
  "'o optspec \<Rightarrow> ('o \<Rightarrow> string option \<Rightarrow> 'c \<Rightarrow> int + 'c) \<Rightarrow> 'c \<Rightarrow> string \<Rightarrow> string list \<Rightarrow> string list \<Rightarrow> int + 'c \<times> string list" where
  "parse_options sp step c cl args ops =
     (if cl = [] \<and> args = [] then Inr (c, ops)
      else if cl = [] \<and> hd args = ''--'' then Inr (c, ops @ tl args)
      else if cl = [] \<and> is_operand (hd args) then parse_options sp step c [] (tl args) (ops @ [hd args])
      else case getopt sp cl args of
        Inl rest \<Rightarrow> Inr (c, ops @ rest)
      | Inr (opt, arg, cl', args') \<Rightarrow> (case step opt arg c of
            Inl n \<Rightarrow> Inl n
          | Inr c' \<Rightarrow> parse_options sp step c' cl' args' ops))"
  by pat_completeness auto
termination
  by (relation "measure (\<lambda>(_, _, _, cl, args, _). opt_size cl args)")
     (auto dest: getopt_size simp: opt_size_def neq_Nil_conv)

declare parse_options.simps [simp del]

lemma parse_end [simp]: "parse_options sp step c [] [] ops = Inr (c, ops)"
  by (simp add: parse_options.simps)

lemma parse_operand: "is_operand t \<Longrightarrow> parse_options sp step c [] (t # args) ops = parse_options sp step c [] args (ops @ [t])"
  by (subst parse_options.simps) (auto simp: is_operand_def has_prefix_def)

lemma parse_operands: "\<forall>t\<in>set ts. is_operand t \<Longrightarrow> parse_options sp step c [] (ts @ args) ops = parse_options sp step c [] args (ops @ ts)"
  by (induction ts arbitrary: ops) (auto simp: parse_operand)

lemma parse_flag:
  assumes "map_of (os_short sp) o1 = Some no_argument" "o1 \<noteq> CHR ''-''" "step (os_char sp o1) None c = Inr c'"
  shows "parse_options sp step c [] ([CHR ''-'', o1] # args) ops = parse_options sp step c' [] args ops"
  using assms by (subst parse_options.simps) (simp add: is_operand_def has_prefix_def getopt_short_def)

lemma parse_value:
  assumes "map_of (os_short sp) o1 = Some required_argument" "o1 \<noteq> CHR ''-''" "step (os_char sp o1) (Some a) c = Inr c'"
  shows "parse_options sp step c [] ([CHR ''-'', o1] # a # args) ops = parse_options sp step c' [] args ops"
  using assms by (subst parse_options.simps) (simp add: is_operand_def has_prefix_def getopt_short_def)

lemma parse_flag_if:
  assumes "map_of (os_short sp) o1 = Some no_argument" "o1 \<noteq> CHR ''-''" "step (os_char sp o1) None c = Inr (f c)"
  shows "parse_options sp step c [] ((if b then [[CHR ''-'', o1]] else []) @ args) ops = parse_options sp step (if b then f c else c) [] args ops"
  using parse_flag [of sp o1 step c "f c" args ops, OF assms] by simp

section \<open>Values\<close>

text \<open>\<open>%d\<close>, \<open>%u\<close> and \<open>%hhu\<close> of \<open>sscanf\<close>: the number is clamped to the range of \<open>long\<close> or \<open>unsigned long\<close> and cut to the width of the
  variable.\<close>

definition scan_ulong :: "string \<Rightarrow> u64 option" where
  "scan_ulong s = map_option (\<lambda>(n, _). if \<bar>n\<bar> < 2 ^ 64 then word_of_int n else - 1) (scan_d s)"

definition scan_u8 :: "string \<Rightarrow> u8 option" where
  "scan_u8 s = map_option ucast (scan_ulong s)"

definition scan_u32 :: "string \<Rightarrow> u32 option" where
  "scan_u32 s = map_option ucast (scan_ulong s)"

definition scan_int :: "string \<Rightarrow> int option" where
  "scan_int s = map_option (\<lambda>(n, _). sint (word_of_int (max LONG_MIN (min LONG_MAX n)) :: u32)) (scan_d s)"

text \<open>\<open>%s\<close>: the characters up to a space, at least one.\<close>

definition scan_s :: "string \<Rightarrow> string option" where
  "scan_s s = (let t = takeWhile (\<lambda>c. \<not> is_space c) (dropWhile is_space s) in if t = [] then None else Some t)"

text \<open>A value that cannot be read ends the program.\<close>

definition set_opt :: "'v option \<Rightarrow> ('v \<Rightarrow> 'c) \<Rightarrow> int + 'c" where
  "set_opt v f = (case v of None \<Rightarrow> Inl (- 1) | Some x \<Rightarrow> Inr (f x))"

lemma scan_d_print: "scan_d (print_base 10 n) = Some (int n, [])"
  using scan_print [of "[]" n] by (simp add: starts_digit_def)

lemma scan_u8_print [simp]: "scan_u8 (print_base 10 (unat n)) = Some n"
proof -
  have "int (unat n) < 2 ^ 64" using uint_lt2p [of n] by simp
  moreover have "(ucast (word_of_nat (unat n) :: u64) :: u8) = n"
    by transfer (simp add: take_bit_take_bit min_def)
  ultimately show ?thesis by (simp add: scan_u8_def scan_ulong_def scan_d_print)
qed

lemma scan_int_print [simp]: "n < 2 ^ 31 \<Longrightarrow> scan_int (print_base 10 n) = Some (int n)"
  by (simp add: scan_int_def scan_d_print LONG_MAX_def LONG_MIN_def sint_uint signed_take_bit_int_eq_self uint_word_of_int mod_pos_pos_trivial)

lemma scan_u32_print: "n < 2 ^ 64 \<Longrightarrow> scan_u32 (print_base 10 n) = Some (of_nat n)"
proof -
  assume "n < 2 ^ 64"
  moreover have "(ucast (of_nat n :: u64) :: u32) = of_nat n" by transfer (simp add: take_bit_take_bit min_def)
  ultimately show ?thesis by (simp add: scan_u32_def scan_ulong_def scan_d_print)
qed

lemma operand_print [simp]: "is_operand (print_base 10 n)"
proof -
  obtain d s where "print_base 10 n = digit_char d # s" "d < 10" using print_base_hd [of 10 n] by auto
  then show ?thesis using digit_not_sign [of d] by (simp add: is_operand_def has_prefix_def)
qed

text \<open>Arguments with a number.\<close>

definition byte_arg :: "u8 \<Rightarrow> string" where
  "byte_arg b = print_base 10 (unat b)"

definition int_arg :: "int \<Rightarrow> string" where
  "int_arg n = print_base 10 (nat n)"

lemma arg_read [simp]:
  "scan_u8 (byte_arg b) = Some b" "0 \<le> n \<Longrightarrow> n < 2 ^ 31 \<Longrightarrow> scan_int (int_arg n) = Some n" "is_operand (byte_arg b)"
  by (simp_all add: byte_arg_def int_arg_def)

text \<open>A way to write a value as an argument and to read it back.\<close>

locale arg_format =
  fixes show_arg :: "'v \<Rightarrow> string"
    and scan :: "string \<Rightarrow> 'v option"
    and valid :: "'v \<Rightarrow> bool"
  assumes scan_show: "valid v \<Longrightarrow> scan (show_arg v) = Some v"
    and show_operand: "valid v \<Longrightarrow> is_operand (show_arg v)"
begin

text \<open>An option whose value is read gives the value; values that are no options stay together; and each of them is read back.\<close>

lemma parse_arg:
  assumes "valid v" "map_of (os_short sp) o1 = Some required_argument" "o1 \<noteq> CHR ''-''"
    and "step (os_char sp o1) (Some (show_arg v)) c = set_opt (scan (show_arg v)) f"
  shows "parse_options sp step c [] ([CHR ''-'', o1] # show_arg v # args) ops = parse_options sp step (f v) [] args ops"
  using assms by (intro parse_value) (simp_all add: scan_show set_opt_def)

lemma parse_args: "\<forall>v\<in>set vs. valid v \<Longrightarrow> parse_options sp step c [] (map show_arg vs @ args) ops = parse_options sp step c [] args (ops @ map show_arg vs)"
  by (rule parse_operands) (auto simp: show_operand)

lemma scan_args: "\<forall>v\<in>set vs. valid v \<Longrightarrow> map scan (map show_arg vs) = map Some vs"
  by (auto simp: scan_show)

end

interpretation byte: arg_format byte_arg scan_u8 "\<lambda>_. True"
  by unfold_locales simp_all

interpretation num: arg_format int_arg scan_int "\<lambda>n. 0 \<le> n \<and> n < 2 ^ 31"
proof unfold_locales
  fix v :: int
  assume "0 \<le> v \<and> v < 2 ^ 31"
  then show "scan_int (int_arg v) = Some v" by (intro arg_read(2)) simp_all
qed (simp add: int_arg_def)

interpretation num32: arg_format "\<lambda>n. int_arg (int (unat n))" scan_u32 "\<lambda>_. True"
proof unfold_locales
  fix v :: u32
  have "unat v < 2 ^ LENGTH(32)" by (rule unsigned_less)
  then have "unat v < 2 ^ 64" by simp
  then show "scan_u32 (int_arg (int (unat v))) = Some v" by (simp add: int_arg_def scan_u32_print)
qed (simp add: int_arg_def)

end
