(* ===== verification/Run_Options.thy ===== *)
theory Run_Options
  imports Run_Slave Run_Output Sched Getopt
begin

text \<open>
  The command line of \<open>axiom-run\<close> (\<open>axiom-run/axiom-run.c\<close>): the options, the checks that follow them, and the
  command line that the master builds for the slaves. Opening the device, its node number, the size of
  the network and whether the regular expression of the environment compiles are inputs.
\<close>

section \<open>The command line\<close>

text \<open>The tables for \<open>getopt_long\<close>. The option string starts with \<open>+\<close>.\<close>

datatype run_opt = Opt char | NO_REDIRECT | NO_EXIT | NO_BARRIER | NO_RPC | NO_ALLOCATOR | NO_KILL

definition short_options :: "(char \<times> arg_kind) list" where
  "short_options =
     map (\<lambda>c. (c, no_argument)) ''rekbcashHV'' @ map (\<lambda>c. (c, required_argument)) ''pETPXmxnNugS'' @ [(CHR ''i'', optional_argument)]"

definition long_options :: "(string \<times> arg_kind \<times> run_opt) list" where
  "long_options =
    [(''redirect'', no_argument, Opt CHR ''r''),
     (''no-redirect'', no_argument, NO_REDIRECT),
     (''ident'', optional_argument, Opt CHR ''i''),
     (''exit'', no_argument, Opt CHR ''e''),
     (''no-exit'', no_argument, NO_EXIT),
     (''kill'', no_argument, Opt CHR ''k''),
     (''no-kill'', no_argument, NO_KILL),
     (''exitmode'', required_argument, Opt CHR ''E''),
     (''termmode'', required_argument, Opt CHR ''T''),
     (''barrier'', no_argument, Opt CHR ''b''),
     (''no-barrier'', no_argument, NO_BARRIER),
     (''rpc'', no_argument, Opt CHR ''c''),
     (''no-rpc'', no_argument, NO_RPC),
     (''slave'', no_argument, Opt CHR ''s''),
     (''master'', required_argument, Opt CHR ''m''),
     (''nodes'', required_argument, Opt CHR ''n''),
     (''numnodes'', required_argument, Opt CHR ''N''),
     (''port'', required_argument, Opt CHR ''p''),
     (''env'', required_argument, Opt CHR ''u''),
     (''gdb'', required_argument, Opt CHR ''g''),
     (''allocator'', no_argument, Opt CHR ''a''),
     (''no-allocator'', no_argument, NO_ALLOCATOR),
     (''profile'', required_argument, Opt CHR ''P''),
     (''extension'', required_argument, Opt CHR ''X''),
     (''magic'', required_argument, Opt CHR ''x''),
     (''help'', no_argument, Opt CHR ''h''),
     (''deephelp'', no_argument, Opt CHR ''H''),
     (''version'', no_argument, Opt CHR ''V''),
     (''sched'', optional_argument, Opt CHR ''S'')]"

definition run_optspec :: "run_opt optspec" where
  "run_optspec = \<lparr>os_char = Opt, os_short = short_options, os_long = long_options\<rparr>"

lemma run_optspec_sel [simp]: "os_char run_optspec = Opt" "os_short run_optspec = short_options"
  by (simp_all add: run_optspec_def)

section \<open>The options\<close>

text \<open>The variables of \<open>main\<close> that the options set. \<open>rc_envstr\<close> is the text in its buffer, which has no final zero
  when the text fills it.\<close>

record run_conf =
  rc_port :: int
  rc_slave :: bool
  rc_services :: u32
  rc_nodes :: u64
  rc_gdb_nodes :: u64
  rc_gdb_port :: int
  rc_flags :: u32
  rc_termmode :: int
  rc_magic :: int
  rc_envstr :: string
  rc_sched :: sched_state
  rc_master_node :: int
  rc_master_port :: int
  rc_slave_port :: int

definition MAXENVREGEXP :: nat where "MAXENVREGEXP = 2048"

abbreviation (input) "SIGINT \<equiv> 2 :: int"
abbreviation (input) "SIGQUIT \<equiv> 3 :: int"
abbreviation (input) "SIGABRT \<equiv> 6 :: int"
abbreviation (input) "SIGTERM \<equiv> 15 :: int"

definition DEFAULT_SPAWN_ENV_REGEXP :: string where
  "DEFAULT_SPAWN_ENV_REGEXP = ''PATH|SHELL|AXIOM_.*|EXTRAE_.*''"

definition run_conf0 :: run_conf where
  "run_conf0 = \<lparr>rc_port = - 1, rc_slave = False, rc_services = 0, rc_nodes = 0, rc_gdb_nodes = 0, rc_gdb_port = 0, rc_flags = 0,
     rc_termmode = SIGTERM, rc_magic = 0, rc_envstr = DEFAULT_SPAWN_ENV_REGEXP, rc_sched = sched_default,
     rc_master_node = - 1, rc_master_port = - 1, rc_slave_port = - 1\<rparr>"

text \<open>The profiles and extensions; \<open>strncat\<close> past the end of the buffer is undefined.\<close>

definition set_profile :: "string \<Rightarrow> run_conf \<Rightarrow> run_conf option" where
  "set_profile a c =
     (if a = ''gasnet''
      then Some (c\<lparr>rc_services := rc_services c OR REDIRECT_SERVICE OR EXIT_SERVICE OR KILL_SERVICE OR RPC_SERVICE OR BARRIER_SERVICE OR ALLOCATOR_SERVICE,
        rc_flags := rc_flags c OR IDENT_FLAG OR FIRST_ABS_EXIT_FLAG, rc_termmode := SIGQUIT,
        rc_envstr := ''PATH|SHELL|AXIOM_.*|GASNET_.*|EXTRAE_.*''\<rparr>)
      else if a = ''ompss''
      then Some (c\<lparr>rc_services := rc_services c OR REDIRECT_SERVICE OR EXIT_SERVICE OR RPC_SERVICE OR KILL_SERVICE OR BARRIER_SERVICE OR ALLOCATOR_SERVICE,
        rc_flags := rc_flags c OR IDENT_FLAG,
        rc_envstr := ''PATH|SHELL|AXIOM_.*|GASNET_.*|NX_.*|EXTRAE_.*|LD_LIBRARY_PATH|LD_PRELOAD''\<rparr>)
      else if a = ''all''
      then Some (c\<lparr>rc_services := rc_services c OR REDIRECT_SERVICE OR RPC_SERVICE OR BARRIER_SERVICE OR ALLOCATOR_SERVICE OR KILL_SERVICE,
        rc_flags := rc_flags c OR IDENT_FLAG\<rparr>)
      else None)"

definition extend_env :: "run_conf \<Rightarrow> run_conf option" where
  "extend_env c = (let e = rc_envstr c @ ''|GST_.*|OPENCV_.*'' in if length e < MAXENVREGEXP then Some (c\<lparr>rc_envstr := e\<rparr>) else None)"

definition to_lower :: "char \<Rightarrow> char" where
  "to_lower c = (let n = of_char c :: nat in if 65 \<le> n \<and> n \<le> 90 then char_of (n + 32) else c)"

definition strcaseeq :: "string \<Rightarrow> string \<Rightarrow> bool" where
  "strcaseeq a b \<longleftrightarrow> map to_lower a = map to_lower b"

definition decode_termmode :: "string \<Rightarrow> int" where
  "decode_termmode a = (let m = atoi a in
     if m = 0
     then (if strcaseeq a ''TERM'' then SIGTERM else if strcaseeq a ''QUIT'' then SIGQUIT else if strcaseeq a ''INT'' then SIGINT
           else if strcaseeq a ''ABRT'' then SIGABRT else if strcaseeq a ''KILL'' then int SIGKILL else m)
     else m)"

text \<open>\<open>sscanf (optarg, "%d,%d", &master_node, &master_port)\<close> sets what it reads.\<close>

definition decode_master :: "string \<Rightarrow> run_conf \<Rightarrow> run_conf" where
  "decode_master a c =
     (if CHR '','' \<in> set a
      then (case scan_di a of
          None \<Rightarrow> c
        | Some (n, r) \<Rightarrow> (case r of
            [] \<Rightarrow> c\<lparr>rc_master_node := n\<rparr>
          | x # r \<Rightarrow> (case (x = CHR '','', scan_di r) of
              (True, Some (p, _)) \<Rightarrow> c\<lparr>rc_master_node := n, rc_master_port := p\<rparr>
            | _ \<Rightarrow> c\<lparr>rc_master_node := n\<rparr>)))
      else c\<lparr>rc_master_node := atoi a\<rparr>)"

text \<open>The exits of the program and the undefined behaviour.\<close>

type_synonym 'a run_result = "(int + 'a) option"

abbreviation run_exit :: "int \<Rightarrow> 'a run_result" where "run_exit n \<equiv> Some (Inl n)"
abbreviation run_ok :: "'a \<Rightarrow> 'a run_result" where "run_ok x \<equiv> Some (Inr x)"

definition set_service :: "u32 \<Rightarrow> run_conf \<Rightarrow> run_conf" where
  "set_service s c = c\<lparr>rc_services := rc_services c OR s\<rparr>"

definition clear_service :: "u32 \<Rightarrow> run_conf \<Rightarrow> run_conf" where
  "clear_service s c = c\<lparr>rc_services := rc_services c AND NOT s\<rparr>"

text \<open>The switch, with the identification option apart. The argument of an option that needs one is there.\<close>

definition run_option_arg :: "char \<Rightarrow> string \<Rightarrow> run_conf \<Rightarrow> run_conf run_result" where
  "run_option_arg o1 a c =
     (if o1 = CHR ''P'' then (case set_profile a c of None \<Rightarrow> run_exit (- 1) | Some c \<Rightarrow> run_ok c)
      else if o1 = CHR ''X'' then (if a = ''vimar'' then map_option Inr (extend_env c) else run_exit (- 1))
      else if o1 = CHR ''u'' then run_ok (c\<lparr>rc_envstr := take MAXENVREGEXP a\<rparr>)
      else if o1 = CHR ''E''
      then (let m = atoi a in if m < 0 \<or> m > 5 then run_exit (- 1)
            else run_ok (c\<lparr>rc_flags := rc_flags c AND NOT EXIT_FLAG_MASK OR push_bit EXIT_FLAG_SHIFT (word_of_int m)\<rparr>))
      else if o1 = CHR ''T''
      then (let m = decode_termmode a in if m \<notin> {SIGTERM, SIGINT, SIGABRT, SIGQUIT, int SIGKILL} then run_exit (- 1) else run_ok (c\<lparr>rc_termmode := m\<rparr>))
      else if o1 = CHR ''n'' then (case decode_node_arg a of None \<Rightarrow> run_exit 1 | Some n \<Rightarrow> run_ok (c\<lparr>rc_nodes := n\<rparr>))
      else if o1 = CHR ''N'' then (let n = atoi a in if n \<le> 0 then run_exit (- 1) else run_ok (c\<lparr>rc_nodes := ALL_NODES_MASK (nat n)\<rparr>))
      else if o1 = CHR ''g''
      then (case decode_gdb_arg a of None \<Rightarrow> run_exit 1 | Some (n, p) \<Rightarrow> run_ok (c\<lparr>rc_gdb_nodes := n, rc_gdb_port := p\<rparr>))
      else if o1 = CHR ''p'' then run_ok (c\<lparr>rc_port := atoi a\<rparr>)
      else if o1 = CHR ''m'' then run_ok (decode_master a c)
      else if o1 = CHR ''x'' then run_ok (c\<lparr>rc_magic := fst (strtol10 a)\<rparr>)
      else run_exit (- 1))"

definition run_option :: "run_opt \<Rightarrow> string option \<Rightarrow> run_conf \<Rightarrow> run_conf run_result" where
  "run_option opt arg c = (case opt of
       NO_REDIRECT \<Rightarrow> run_ok (clear_service REDIRECT_SERVICE c)
     | NO_BARRIER \<Rightarrow> run_ok (clear_service BARRIER_SERVICE c)
     | NO_RPC \<Rightarrow> run_ok (clear_service RPC_SERVICE c)
     | NO_EXIT \<Rightarrow> run_ok (clear_service EXIT_SERVICE c)
     | NO_KILL \<Rightarrow> run_ok (clear_service KILL_SERVICE c)
     | NO_ALLOCATOR \<Rightarrow> run_ok (clear_service ALLOCATOR_SERVICE c)
     | Opt o1 \<Rightarrow>
         if o1 = CHR ''r'' then run_ok (set_service REDIRECT_SERVICE c)
         else if o1 = CHR ''b'' then run_ok (set_service BARRIER_SERVICE c)
         else if o1 = CHR ''c'' then run_ok (set_service RPC_SERVICE c)
         else if o1 = CHR ''e'' then run_ok (set_service EXIT_SERVICE c)
         else if o1 = CHR ''k'' then run_ok (set_service KILL_SERVICE c)
         else if o1 = CHR ''a'' then run_ok (set_service ALLOCATOR_SERVICE c)
         else if o1 = CHR ''s'' then run_ok (c\<lparr>rc_slave := True\<rparr>)
         else if o1 = CHR ''S'' then run_ok (c\<lparr>rc_sched := snd (sch_decodeopt arg (rc_sched c))\<rparr>)
         else if o1 = CHR ''h'' \<or> o1 = CHR ''H'' then run_exit (- 1)
         else if o1 = CHR ''V'' then run_exit 0
         else if o1 = CHR ''?'' \<or> o1 = CHR '':'' then run_ok c
         else run_option_arg o1 (case arg of None \<Rightarrow> [] | Some a \<Rightarrow> a) c)"

text \<open>The identification, which also takes the next argument when it starts with a digit.\<close>

definition run_ident :: "string option \<Rightarrow> string list \<Rightarrow> run_conf \<Rightarrow> run_conf \<times> string list" where
  "run_ident arg args c = (
     let (arg, args) = (case args of t # r \<Rightarrow> if starts_digit 10 t then (Some t, r) else (arg, args) | [] \<Rightarrow> (arg, args));
         c = c\<lparr>rc_flags := rc_flags c OR IDENT_FLAG\<rparr>
     in (case arg of None \<Rightarrow> c | Some a \<Rightarrow> if atoi a = 1 then c\<lparr>rc_flags := rc_flags c OR ALTERNATE_IDENT_FLAG\<rparr> else c, args))"

lemma run_ident_size: "(c', args') = run_ident a args c \<Longrightarrow> opt_size cl args' \<le> opt_size cl args"
  by (auto simp: run_ident_def opt_size_def Let_def split: list.splits if_splits)

function run_options :: "run_conf \<Rightarrow> string \<Rightarrow> string list \<Rightarrow> (run_conf \<times> string list) run_result" where
  "run_options c cl args = (case getopt run_optspec cl args of
       Inl rest \<Rightarrow> run_ok (c, rest)
     | Inr (opt, arg, cl', args') \<Rightarrow>
         if opt = Opt CHR ''i'' then (case run_ident arg args' c of (c', args'') \<Rightarrow> run_options c' cl' args'')
         else (case run_option opt arg c of
             None \<Rightarrow> None
           | Some (Inl n) \<Rightarrow> run_exit n
           | Some (Inr c') \<Rightarrow> run_options c' cl' args'))"
  by pat_completeness auto
termination
  by (relation "measure (\<lambda>(_, cl, args). opt_size cl args)")
     (auto dest!: getopt_size dest: run_ident_size [THEN order.strict_trans1])

declare run_options.simps [simp del]

section \<open>The checks\<close>

definition MY_DEFAULT_PORT :: int where "MY_DEFAULT_PORT = 5"
definition MY_DEFAULT_MASTER_PORT :: int where "MY_DEFAULT_MASTER_PORT = MY_DEFAULT_PORT"
definition MY_DEFAULT_SLAVE_PORT :: int where "MY_DEFAULT_SLAVE_PORT = MY_DEFAULT_PORT + 1"
definition MY_DEFAULT_MASTER_NODE :: int where "MY_DEFAULT_MASTER_NODE = 0"

definition set_ports :: "run_conf \<Rightarrow> run_conf" where
  "set_ports c = (
     let c = (if rc_port c = - 1 then c else if rc_slave c then c\<lparr>rc_slave_port := rc_port c\<rparr> else c\<lparr>rc_master_port := rc_port c\<rparr>);
         c = (if rc_master_port c = - 1 then c\<lparr>rc_master_port := MY_DEFAULT_MASTER_PORT\<rparr> else c)
     in if rc_slave_port c = - 1 then c\<lparr>rc_slave_port := MY_DEFAULT_SLAVE_PORT\<rparr> else c)"

text \<open>What the device answers: whether it opens and binds, the node number and the number of nodes, and whether
  the regular expression compiles.\<close>

record setup_env =
  su_open :: bool
  su_bind :: "int \<Rightarrow> bool"
  su_node_id :: u8
  su_num_nodes :: nat
  su_regcomp :: "string \<Rightarrow> bool"

definition needs_device :: "run_conf \<Rightarrow> bool" where
  "needs_device c \<longleftrightarrow> rc_services c \<noteq> 0 \<or> \<not> rc_slave c \<or> rc_gdb_nodes c > 0"

definition open_device :: "setup_env \<Rightarrow> run_conf \<Rightarrow> run_conf run_result" where
  "open_device e c =
     (if \<not> su_open e then run_exit 1
      else (let c = (if \<not> rc_slave c \<and> rc_master_node c = - 1 then c\<lparr>rc_master_node := int (unat (su_node_id e))\<rparr> else c)
            in if su_bind e (if rc_slave c then rc_slave_port c else rc_master_port c) then run_ok c else run_exit 1))"

definition set_nodes :: "setup_env \<Rightarrow> run_conf \<Rightarrow> run_conf run_result" where
  "set_nodes e c = (
     let c = (if rc_master_node c = - 1 then c\<lparr>rc_master_node := if rc_slave c then MY_DEFAULT_MASTER_NODE else int (unat (su_node_id e))\<rparr> else c)
     in if rc_slave c then run_ok c else map_option (\<lambda>n. Inr (c\<lparr>rc_nodes := n\<rparr>)) (select_nodes (su_num_nodes e) (rc_nodes c)))"

definition run_setup :: "setup_env \<Rightarrow> run_conf \<Rightarrow> string list \<Rightarrow> run_conf run_result" where
  "run_setup e c args = (
     let c = c\<lparr>rc_envstr := take (MAXENVREGEXP - 1) (rc_envstr c)\<rparr> in
     if \<not> su_regcomp e (rc_envstr c) then run_exit 1
     else if args = [] then run_exit 1
     else (let c = set_ports c in
       if rc_slave c \<and> rc_magic c = 0 then run_exit 1
       else (case (if needs_device c then open_device e c else run_ok c) of
           None \<Rightarrow> None
         | Some (Inl n) \<Rightarrow> run_exit n
         | Some (Inr c) \<Rightarrow> set_nodes e c)))"

section \<open>The commands that are started\<close>

text \<open>The command line of the slaves.\<close>

definition service_args :: "u32 \<Rightarrow> string list" where
  "service_args services =
     (if service_on services REDIRECT_SERVICE then [''-r''] else []) @ (if service_on services BARRIER_SERVICE then [''-b''] else [])
     @ (if service_on services EXIT_SERVICE then [''-e''] else []) @ (if service_on services KILL_SERVICE then [''-k''] else [])
     @ (if service_on services RPC_SERVICE then [''-c''] else [])"

definition slave_args :: "run_conf \<Rightarrow> string list" where
  "slave_args c = (
     let master = snprintf 64 (print_int (rc_master_node c) @ '','' @ print_int (rc_master_port c)) in
     [''-s'', ''-n'', snprintf 64 (''0x'' @ print_base 16 (unat (rc_nodes c))), ''-p'', snprintf 64 (print_int (rc_slave_port c)),
      ''-m'', master, ''-S'', sch_encodeopt (rc_sched c) master 64, ''-u'', ''.*'', ''-x'', snprintf 64 (print_int (rc_magic c))]
     @ service_args (rc_services c)
     @ (if rc_termmode c \<noteq> SIGTERM then [''-T'', snprintf 64 (print_int (rc_termmode c))] else [])
     @ (if rc_gdb_nodes c \<noteq> 0 then [''-g'', snprintf 64 (''0x'' @ print_base 16 (unat (rc_gdb_nodes c)) @ '':'' @ print_int (rc_gdb_port c))] else []))"

text \<open>The file and the arguments that the master starts on the nodes; \<open>now\<close> is the time.\<close>

definition master_command :: "int \<Rightarrow> string \<Rightarrow> string list \<Rightarrow> run_conf \<Rightarrow> run_conf \<times> string \<times> string list" where
  "master_command now argv0 args c =
     (if rc_services c = 0 then (c, hd args, args)
      else (let c = (if rc_magic c = 0 then c\<lparr>rc_magic := now\<rparr> else c) in (c, argv0, argv0 # slave_args c @ args)))"

text \<open>A program under the debugger.\<close>

definition gdb_args :: "int \<Rightarrow> 'a \<Rightarrow> 'a list \<Rightarrow> (string \<Rightarrow> 'a) \<Rightarrow> 'a list" where
  "gdb_args gdb_port filename argv str = [str ''gdbserver'', str (snprintf 16 (''0.0.0.0:'' @ print_int gdb_port)), filename] @ tl argv"

text \<open>What a slave executes. The shift is undefined for the nodes above 30.\<close>

definition slave_command :: "u8 \<Rightarrow> string list \<Rightarrow> run_conf \<Rightarrow> (string \<times> string list) option" where
  "slave_command nodeid args c =
     (if rc_gdb_nodes c = 0 then Some (hd args, args)
      else if unat nodeid > 30 then None
      else if rc_gdb_nodes c AND push_bit (unat nodeid) 1 \<noteq> 0
      then Some (''gdbserver'', gdb_args (rc_gdb_port c) (hd args) args id)
      else Some (hd args, args))"

section \<open>The command line of the slaves is read back\<close>

lemma run_option_flag:
  assumes "map_of short_options o1 = Some no_argument" "o1 \<noteq> CHR ''-''" "run_option (Opt o1) None c = run_ok c'"
  shows "run_options c [] ([CHR ''-'', o1] # args) = run_options c' [] args"
proof -
  have "o1 \<noteq> CHR ''i''" using assms(1) by (auto simp: short_options_def)
  with assms show ?thesis by (simp add: run_options.simps [of c] has_prefix_def getopt_short_def)
qed

lemma run_option_value:
  assumes "map_of short_options o1 = Some required_argument" "o1 \<noteq> CHR ''-''" "run_option (Opt o1) (Some a) c = run_ok c'"
  shows "run_options c [] ([CHR ''-'', o1] # a # args) = run_options c' [] args"
proof -
  have "o1 \<noteq> CHR ''i''" using assms(1) by (auto simp: short_options_def)
  with assms show ?thesis by (simp add: run_options.simps [of c] has_prefix_def getopt_short_def)
qed

lemma run_options_end: "take 1 a \<noteq> ''-'' \<Longrightarrow> run_options c [] (a # args) = run_ok (c, a # args)"
  by (cases a) (auto simp: run_options.simps [of c] has_prefix_def split: list.split)

text \<open>The services.\<close>

lemma word_and_exp: "(w :: u32) AND 2 ^ k = (if bit w k then 2 ^ k else 0)"
  by (rule bit_word_eqI) (auto simp: bit_and_iff bit_exp_iff)

lemma service_bit: "(if service_on s (2 ^ k) then w OR 2 ^ k else w) = w OR (s AND 2 ^ k)"
  by (simp add: service_on_def word_and_exp)

lemma service_step:
  assumes "map_of short_options o1 = Some no_argument" "o1 \<noteq> CHR ''-''" "X = 2 ^ k"
    "\<And>c. run_option (Opt o1) None c = run_ok (set_service X c)"
  shows "run_options c [] ((if service_on s X then [[CHR ''-'', o1]] else []) @ args)
    = run_options (c\<lparr>rc_services := rc_services c OR (s AND X)\<rparr>) [] args"
proof -
  have "run_options c [] ((if service_on s X then [[CHR ''-'', o1]] else []) @ args)
    = run_options (c\<lparr>rc_services := if service_on s X then rc_services c OR X else rc_services c\<rparr>) [] args"
    using run_option_flag [OF assms(1,2,4)] by (simp add: set_service_def)
  then show ?thesis using service_bit [of s k "rc_services c"] assms(3) by (simp only:)
qed

definition slave_services :: u32 where
  "slave_services = REDIRECT_SERVICE OR BARRIER_SERVICE OR EXIT_SERVICE OR KILL_SERVICE OR RPC_SERVICE"

lemma service_args_read:
  "run_options c [] (service_args s @ args) = run_options (c\<lparr>rc_services := rc_services c OR (s AND slave_services)\<rparr>) [] args"
proof -
  have dist: "(((((w OR (s AND r)) OR (s AND b)) OR (s AND e)) OR (s AND k)) OR (s AND cc)) = w OR (s AND (r OR b OR e OR k OR cc))"
    for w s r b e k cc :: u32 by (rule bit_word_eqI) (auto simp: bit_and_iff bit_or_iff)
  have r: "run_options c [] ((if service_on s REDIRECT_SERVICE then [''-r''] else []) @ args)
      = run_options (c\<lparr>rc_services := rc_services c OR (s AND REDIRECT_SERVICE)\<rparr>) [] args" for c args
    by (rule service_step [where k = 2]) (simp_all add: short_options_def run_option_def REDIRECT_SERVICE_def)
  have b: "run_options c [] ((if service_on s BARRIER_SERVICE then [''-b''] else []) @ args)
      = run_options (c\<lparr>rc_services := rc_services c OR (s AND BARRIER_SERVICE)\<rparr>) [] args" for c args
    by (rule service_step [where k = 0]) (simp_all add: short_options_def run_option_def BARRIER_SERVICE_def)
  have e: "run_options c [] ((if service_on s EXIT_SERVICE then [''-e''] else []) @ args)
      = run_options (c\<lparr>rc_services := rc_services c OR (s AND EXIT_SERVICE)\<rparr>) [] args" for c args
    by (rule service_step [where k = 1]) (simp_all add: short_options_def run_option_def EXIT_SERVICE_def)
  have k: "run_options c [] ((if service_on s KILL_SERVICE then [''-k''] else []) @ args)
      = run_options (c\<lparr>rc_services := rc_services c OR (s AND KILL_SERVICE)\<rparr>) [] args" for c args
    by (rule service_step [where k = 5]) (simp_all add: short_options_def run_option_def KILL_SERVICE_def)
  have c: "run_options c [] ((if service_on s RPC_SERVICE then [''-c''] else []) @ args)
      = run_options (c\<lparr>rc_services := rc_services c OR (s AND RPC_SERVICE)\<rparr>) [] args" for c args
    by (rule service_step [where k = 3]) (simp_all add: short_options_def run_option_def RPC_SERVICE_def)
  show ?thesis unfolding service_args_def append_assoc r b e k c slave_services_def by (simp add: dist)
qed

text \<open>The texts of the values fit in their buffers.\<close>

lemma hex_length: "length (print_base 16 (unat (n :: u64))) \<le> 16"
  by (rule print_base_length) simp_all

lemma dec_length: "0 \<le> n \<Longrightarrow> n \<le> 2 ^ 63 - 1 \<Longrightarrow> length (print_int n) \<le> 19"
  unfolding print_int_def by (simp, rule print_base_length) auto

lemma print_int_nonneg: "0 \<le> n \<Longrightarrow> print_int n = print_base 10 (nat n)"
  by (simp add: print_int_def)

lemma not_starts_digit [simp]: "\<not> starts_digit 10 (CHR '':'' # t)"
  by (simp add: starts_digit_def digit_val_def)

lemma atoi_print: "0 \<le> n \<Longrightarrow> atoi (print_int n) = n"
  using scan_print [of "[]" "nat n"] by (simp add: atoi_def print_int_nonneg)

lemma read_nodes: "run_option (Opt CHR ''n'') (Some (snprintf 64 (''0x'' @ print_base 16 (unat n)))) c = run_ok (c\<lparr>rc_nodes := n\<rparr>)"
  using hex_length [of n] scan_lx_print [of n]
  by (simp add: run_option_def run_option_arg_def snprintf_def decode_node_arg_def has_prefix_def)

lemma read_port:
  "0 \<le> p \<Longrightarrow> p \<le> 2 ^ 31 - 1 \<Longrightarrow> run_option (Opt CHR ''p'') (Some (snprintf 64 (print_int p))) c = run_ok (c\<lparr>rc_port := p\<rparr>)"
  using dec_length [of p] atoi_print [of p] by (simp add: run_option_def run_option_arg_def snprintf_def)

lemma read_master:
  assumes "0 \<le> n" "n \<le> 2 ^ 31 - 1" "0 \<le> p" "p \<le> 2 ^ 31 - 1"
  shows "run_option (Opt CHR ''m'') (Some (snprintf 64 (print_int n @ '','' @ print_int p))) c
    = run_ok (c\<lparr>rc_master_node := n, rc_master_port := p\<rparr>)"
proof -
  have "snprintf 64 (print_int n @ '','' @ print_int p) = print_int n @ '','' @ print_int p"
    using dec_length [of n] dec_length [of p] assms by (simp add: snprintf_def)
  moreover have "scan_di (print_int n @ CHR '','' # print_int p) = Some (n, CHR '','' # print_int p)" "scan_di (print_int p) = Some (p, [])"
    using scan_di_print [of "nat n" "CHR '','' # print_int p"] scan_di_print [of "nat p" "[]"] assms
    by (simp_all add: print_int_nonneg nat_less_iff)
  ultimately show ?thesis by (simp add: run_option_def run_option_arg_def decode_master_def)
qed

lemma read_magic:
  "0 \<le> m \<Longrightarrow> m \<le> LONG_MAX \<Longrightarrow> run_option (Opt CHR ''x'') (Some (snprintf 64 (print_int m))) c = run_ok (c\<lparr>rc_magic := m\<rparr>)"
  using dec_length [of m] strtol_print [of "[]" "nat m"]
  by (simp add: run_option_def run_option_arg_def snprintf_def print_int_nonneg LONG_MAX_def)

lemma read_termmode:
  assumes "m \<in> {SIGINT, SIGABRT, SIGQUIT, int SIGKILL}"
  shows "run_option (Opt CHR ''T'') (Some (snprintf 64 (print_int m))) c = run_ok (c\<lparr>rc_termmode := m\<rparr>)"
proof -
  have "0 < m" "m \<le> 2 ^ 63 - 1" using assms by (auto simp: SIGKILL_def)
  then show ?thesis using dec_length [of m] atoi_print [of m] assms
    by (auto simp: run_option_def run_option_arg_def snprintf_def decode_termmode_def Let_def)
qed

lemma digit_not_colon: "d < 16 \<Longrightarrow> digit_char d \<noteq> CHR '':''"
  by (auto simp: digit_char_def char_of_eq_iff take_bit_eq_mod)

lemma read_gdb:
  assumes "0 \<le> p" "p \<le> 2 ^ 31 - 1"
  shows "run_option (Opt CHR ''g'') (Some (snprintf 64 (''0x'' @ print_base 16 (unat n) @ '':'' @ print_int p))) c
    = run_ok (c\<lparr>rc_gdb_nodes := n, rc_gdb_port := p\<rparr>)"
proof -
  let ?h = "''0x'' @ print_base 16 (unat n)"
  have h: "CHR '':'' \<notin> set ?h" using print_base_digits [of 16 "CHR '':''" "unat n"] digit_not_colon by fastforce
  then have "takeWhile (\<lambda>c. c \<noteq> CHR '':'') (?h @ CHR '':'' # print_int p) = ?h"
    "dropWhile (\<lambda>c. c \<noteq> CHR '':'') (?h @ CHR '':'' # print_int p) = CHR '':'' # print_int p"
    by (simp_all only: takeWhile_tail dropWhile_append) (auto simp: takeWhile_append dropWhile_append)
  moreover have "snprintf 64 (?h @ CHR '':'' # print_int p) = ?h @ CHR '':'' # print_int p"
    using hex_length [of n] dec_length [of p] assms by (simp add: snprintf_def)
  moreover have "decode_node_arg ?h = Some n" using scan_lx_print [of n] by (simp add: decode_node_arg_def has_prefix_def)
  ultimately show ?thesis using atoi_print [OF assms(1)] by (simp add: run_option_def run_option_arg_def decode_gdb_arg_def)
qed

text \<open>The session that a master hands to its slaves: ports, node number and debugger port that an \<open>int\<close> holds, a
  magic number and a signal as the options set them, and scheduling parameters below \<open>10 ^ 18\<close>. The last
  condition leaves out negative nice values, which are stored as large unsigned numbers and reach the slaves
  as another value (\<open>sched_negative_nice\<close> in theory \<open>Sched\<close>).\<close>

definition master_conf_ok :: "run_conf \<Rightarrow> bool" where
  "master_conf_ok c \<longleftrightarrow> 0 \<le> rc_slave_port c \<and> rc_slave_port c \<le> 2 ^ 31 - 1 \<and> 0 \<le> rc_master_port c \<and> rc_master_port c \<le> 2 ^ 31 - 1
     \<and> 0 \<le> rc_master_node c \<and> rc_master_node c \<le> 2 ^ 31 - 1 \<and> 0 < rc_magic c \<and> rc_magic c \<le> LONG_MAX
     \<and> rc_termmode c \<in> {SIGTERM, SIGINT, SIGABRT, SIGQUIT, int SIGKILL} \<and> 0 \<le> rc_gdb_port c \<and> rc_gdb_port c \<le> 2 ^ 31 - 1
     \<and> sched_policy (rc_sched c) \<in> known_policies \<and> unat (sched_p0 (rc_sched c)) < 10 ^ 18
     \<and> unat (sched_p1 (rc_sched c)) < 10 ^ 18 \<and> unat (sched_p2 (rc_sched c)) < 10 ^ 18"

text \<open>The options the slaves know.\<close>

definition slave_view :: "run_conf \<Rightarrow> sched_state \<Rightarrow> run_conf" where
  "slave_view c sch = run_conf0\<lparr>rc_port := rc_slave_port c, rc_slave := True, rc_services := rc_services c AND slave_services,
     rc_nodes := rc_nodes c, rc_gdb_nodes := rc_gdb_nodes c, rc_gdb_port := if rc_gdb_nodes c = 0 then 0 else rc_gdb_port c,
     rc_termmode := rc_termmode c, rc_magic := rc_magic c, rc_envstr := ''.*'', rc_sched := sch,
     rc_master_node := rc_master_node c, rc_master_port := rc_master_port c\<rparr>"

lemma read_tail:
  assumes "master_conf_ok c" "rc_termmode c0 = SIGTERM" "rc_gdb_nodes c0 = 0" "rc_gdb_port c0 = 0"
  shows "run_options c0 [] ((if rc_termmode c \<noteq> SIGTERM then [''-T'', snprintf 64 (print_int (rc_termmode c))] else [])
     @ (if rc_gdb_nodes c \<noteq> 0 then [''-g'', snprintf 64 (''0x'' @ print_base 16 (unat (rc_gdb_nodes c)) @ '':'' @ print_int (rc_gdb_port c))] else [])
     @ args) = run_options (c0\<lparr>rc_termmode := rc_termmode c, rc_gdb_nodes := rc_gdb_nodes c,
        rc_gdb_port := if rc_gdb_nodes c = 0 then 0 else rc_gdb_port c\<rparr>) [] args"
proof -
  let ?g = "if rc_gdb_nodes c \<noteq> 0 then [''-g'', snprintf 64 (''0x'' @ print_base 16 (unat (rc_gdb_nodes c)) @ '':'' @ print_int (rc_gdb_port c))] else []"
  let ?t = "if rc_termmode c \<noteq> SIGTERM then [''-T'', snprintf 64 (print_int (rc_termmode c))] else []"
  have T: "run_options c0 [] (?t @ r) = run_options (c0\<lparr>rc_termmode := rc_termmode c\<rparr>) [] r" for r
    using run_option_value [OF _ _ read_termmode] assms(1,2)
    by (cases c0) (auto simp: short_options_def master_conf_ok_def)
  have g: "run_options c1 [] (?g @ r) = run_options (c1\<lparr>rc_gdb_nodes := rc_gdb_nodes c,
      rc_gdb_port := if rc_gdb_nodes c = 0 then 0 else rc_gdb_port c\<rparr>) [] r"
    if "rc_gdb_nodes c1 = 0" "rc_gdb_port c1 = 0" for r c1
    using run_option_value [OF _ _ read_gdb] assms(1) that
    by (cases c1) (auto simp: short_options_def master_conf_ok_def)
  show ?thesis unfolding T using g [of "c0\<lparr>rc_termmode := rc_termmode c\<rparr>" args] assms(3,4) by simp
qed

lemma slave_args_read:
  assumes "master_conf_ok c" "take 1 a \<noteq> ''-''"
  shows "\<exists>sch. run_options run_conf0 [] (slave_args c @ a # args) = run_ok (slave_view c sch, a # args) \<and> sch_attr sch = sch_attr (rc_sched c)"
proof -
  let ?m = "snprintf 64 (print_int (rc_master_node c) @ '','' @ print_int (rc_master_port c))"
  obtain sch where sch: "sch_decodeopt (Some (sch_encodeopt (rc_sched c) ?m 64)) sched_default = (0, sch)" "sch_attr sch = sch_attr (rc_sched c)"
    using sched_decode_encode [of "rc_sched c" ?m sched_default] assms(1) by (auto simp: master_conf_ok_def)
  let ?n = "snprintf 64 (''0x'' @ print_base 16 (unat (rc_nodes c)))" and ?p = "snprintf 64 (print_int (rc_slave_port c))"
  let ?S = "sch_encodeopt (rc_sched c) ?m 64" and ?x = "snprintf 64 (print_int (rc_magic c))"
  let ?t = "if rc_termmode c \<noteq> SIGTERM then [''-T'', snprintf 64 (print_int (rc_termmode c))] else []"
  let ?g = "if rc_gdb_nodes c \<noteq> 0 then [''-g'', snprintf 64 (''0x'' @ print_base 16 (unat (rc_gdb_nodes c)) @ '':'' @ print_int (rc_gdb_port c))] else []"
  have args: "slave_args c @ a # args = ''-s'' # ''-n'' # ?n # ''-p'' # ?p # ''-m'' # ?m # ''-S'' # ?S # ''-u'' # ''.*'' # ''-x'' # ?x
      # (service_args (rc_services c) @ ?t @ ?g @ a # args)" by (simp add: slave_args_def Let_def)
  have 1: "run_options c1 [] (''-s'' # r) = run_options (c1\<lparr>rc_slave := True\<rparr>) [] r" for c1 r
    by (rule run_option_flag) (simp_all add: short_options_def run_option_def)
  have 2: "run_options c1 [] (''-n'' # ?n # r) = run_options (c1\<lparr>rc_nodes := rc_nodes c\<rparr>) [] r" for c1 r
    by (rule run_option_value [OF _ _ read_nodes]) (simp_all add: short_options_def)
  have 3: "run_options c1 [] (''-p'' # ?p # r) = run_options (c1\<lparr>rc_port := rc_slave_port c\<rparr>) [] r" for c1 r
    by (rule run_option_value [OF _ _ read_port]) (use assms(1) in \<open>simp_all add: short_options_def master_conf_ok_def\<close>)
  have 4: "run_options c1 [] (''-m'' # ?m # r) = run_options (c1\<lparr>rc_master_node := rc_master_node c, rc_master_port := rc_master_port c\<rparr>) [] r" for c1 r
    by (rule run_option_value [OF _ _ read_master]) (use assms(1) in \<open>simp_all add: short_options_def master_conf_ok_def\<close>)
  have 5: "run_options c1 [] (''-S'' # ?S # r) = run_options (c1\<lparr>rc_sched := sch\<rparr>) [] r" if "rc_sched c1 = sched_default" for c1 r
    by (rule run_option_value) (use sch(1) that in \<open>simp_all add: short_options_def run_option_def\<close>)
  have 6: "run_options c1 [] (''-u'' # ''.*'' # r) = run_options (c1\<lparr>rc_envstr := ''.*''\<rparr>) [] r" for c1 r
    by (rule run_option_value) (simp_all add: short_options_def run_option_def run_option_arg_def MAXENVREGEXP_def)
  have 7: "run_options c1 [] (''-x'' # ?x # r) = run_options (c1\<lparr>rc_magic := rc_magic c\<rparr>) [] r" for c1 r
    by (rule run_option_value [OF _ _ read_magic]) (use assms(1) in \<open>simp_all add: short_options_def master_conf_ok_def\<close>)
  let ?c = "run_conf0\<lparr>rc_slave := True, rc_nodes := rc_nodes c, rc_port := rc_slave_port c, rc_master_node := rc_master_node c,
    rc_master_port := rc_master_port c\<rparr>"
  have d: "rc_sched ?c = sched_default" by (simp add: run_conf0_def)
  have "run_options run_conf0 [] (slave_args c @ a # args) = run_options (slave_view c sch) [] (a # args)"
    unfolding args 1 2 3 4 5 [OF d] 6 7 service_args_read
    by (subst read_tail [OF assms(1)]) (simp_all add: run_conf0_def slave_view_def)
  then show ?thesis using run_options_end [OF assms(2)] sch(2) by auto
qed

text \<open>C12: The command line that the master builds for its slaves is read back by them: the options are accepted, the
  application and its arguments are what is left, the checks pass, and the slave then has the nodes of the
  session, the ports, the node of the master, the magic number, the services it takes part in, the signal,
  the debugger nodes and the scheduling attributes of the master. The scheduling parameters are numbers below
  \<open>10 ^ 18\<close>: a negative nice value is left out, since the code hands the slaves another one. The program name
  does not start with a dash, at least one service is on, and opening the device, binding the port and
  compiling the pattern of the environment succeed.\<close>

theorem slave_command_line:
  assumes "master_conf_ok c" "rc_services c \<noteq> 0" "take 1 a \<noteq> ''-''"
    "su_open e" "su_bind e (rc_slave_port c)" "su_regcomp e ''.*''"
  shows "\<exists>c1 c'. run_options run_conf0 [] (tl (snd (snd (master_command now argv0 (a # args) c)))) = run_ok (c1, a # args)
    \<and> run_setup e c1 (a # args) = run_ok c'
    \<and> rc_slave c' \<and> rc_nodes c' = rc_nodes c \<and> rc_slave_port c' = rc_slave_port c
    \<and> rc_master_node c' = rc_master_node c \<and> rc_master_port c' = rc_master_port c \<and> rc_magic c' = rc_magic c
    \<and> rc_services c' = rc_services c AND slave_services \<and> rc_termmode c' = rc_termmode c
    \<and> rc_gdb_nodes c' = rc_gdb_nodes c \<and> (rc_gdb_nodes c \<noteq> 0 \<longrightarrow> rc_gdb_port c' = rc_gdb_port c)
    \<and> sch_attr (rc_sched c') = sch_attr (rc_sched c)"
proof -
  obtain sch where sch: "run_options run_conf0 [] (slave_args c @ a # args) = run_ok (slave_view c sch, a # args)"
    "sch_attr sch = sch_attr (rc_sched c)" using slave_args_read [OF assms(1,3)] by blast
  have "rc_magic c \<noteq> 0" using assms(1) by (simp add: master_conf_ok_def)
  then have cmd: "tl (snd (snd (master_command now argv0 (a # args) c))) = slave_args c @ a # args"
    using assms(2) by (simp add: master_command_def)
  have "run_setup e (slave_view c sch) (a # args) = run_ok ((slave_view c sch)\<lparr>rc_slave_port := rc_slave_port c\<rparr>)"
    using assms(1,4-6)
    by (auto simp: run_setup_def slave_view_def set_ports_def open_device_def set_nodes_def MAXENVREGEXP_def run_conf0_def
        master_conf_ok_def Let_def)
  with sch cmd show ?thesis by (auto simp: slave_view_def run_conf0_def)
qed

section \<open>Instances\<close>

definition demo_conf :: run_conf where
  "demo_conf = run_conf0\<lparr>rc_services := BARRIER_SERVICE OR REDIRECT_SERVICE OR ALLOCATOR_SERVICE, rc_nodes := 6, rc_magic := 1234,
     rc_termmode := SIGQUIT, rc_master_node := 0, rc_master_port := 5, rc_slave_port := 6\<rparr>"

theorem slave_command_line_witness:
  "\<exists>c1 c'. run_options run_conf0 [] (tl (snd (snd (master_command 0 ''axiom-run'' [''app'', ''-x''] demo_conf)))) = run_ok (c1, [''app'', ''-x''])
    \<and> run_setup \<lparr>su_open = True, su_bind = (\<lambda>_. True), su_node_id = 2, su_num_nodes = 3, su_regcomp = (\<lambda>_. True)\<rparr> c1 [''app'', ''-x''] = run_ok c'
    \<and> rc_nodes c' = 6 \<and> rc_magic c' = 1234"
proof -
  let ?e = "\<lparr>su_open = True, su_bind = (\<lambda>_. True), su_node_id = 2, su_num_nodes = 3, su_regcomp = (\<lambda>_. True)\<rparr>"
  have ok: "master_conf_ok demo_conf" "rc_services demo_conf \<noteq> 0" "take 1 ''app'' \<noteq> ''-''"
    "su_open ?e" "su_bind ?e (rc_slave_port demo_conf)" "su_regcomp ?e ''.*''"
    by (simp_all add: master_conf_ok_def demo_conf_def run_conf0_def LONG_MAX_def sched_default_def known_policies_def service_defs)
  have "rc_nodes demo_conf = 6" "rc_magic demo_conf = 1234" by (simp_all add: demo_conf_def)
  then show ?thesis using slave_command_line [OF ok, of 0 "''axiom-run''" "[''-x'']"] by metis
qed

end
