(* ===== verification/Execvpe.thy ===== *)
theory Execvpe
  imports Spawn
begin

text \<open>
  The client of the spawn service (\<open>axiom-init/lib/execvpe.c\<close>): start a program on a node, or on all of
  them. The NIC calls are a parameter. The theorem at the end joins the client with the daemon's side
  in theory \<open>Spawn\<close>.
\<close>

section \<open>The code\<close>

text \<open>The messages between the client and the daemon; a spawn message carries its size.\<close>

datatype init_msg = SESSION_REQ session_req | SESSION_REPLY session_reply | SPAWN_REQ nat spawn_req

text \<open>The calls of the NIC library. \<open>ea_max_size\<close> is \<open>AXIOM_SPAWN_MAX_SIZE\<close>, the size of \<open>packet_buffer\<close>,
  and \<open>ea_header_size\<close> is \<open>AXIOM_SPAWN_HEADER_SIZE\<close>. \<open>ea_overlay\<close> is the byte that a spawn message in the packet buffer has
  at the place where a session request has its session number (the layouts are in the NIC headers).\<close>

record 'd exec_api =
  ea_is_ok :: "err \<Rightarrow> bool"
  ea_ret_error :: err
  ea_get_node_id :: "'d \<Rightarrow> u8"
  ea_get_num_nodes :: "'d \<Rightarrow> int"
  ea_send :: "'d \<Rightarrow> u8 \<Rightarrow> init_msg \<Rightarrow> err \<times> 'd"
  ea_recv :: "'d \<Rightarrow> (err \<times> u8 \<times> init_msg \<times> 'd) option"
  ea_getcwd :: "'d \<Rightarrow> bytes option"
  ea_header_size :: nat
  ea_max_size :: nat
  ea_overlay :: "spawn_req \<Rightarrow> u8"

definition AXINIT_EXEC_BROADCAST :: u32 where "AXINIT_EXEC_BROADCAST = 1"
definition AXINIT_EXEC_NOSELF :: u32 where "AXINIT_EXEC_NOSELF = 2"

text \<open>Filling the data of the message and sending it. The size that is sent is computed from the length of the
  whole string and not of what \<open>strlcpy\<close> has copied: with a long string the send reads behind the end of
  \<open>packet_buffer\<close>, which is undefined. The result: the return code, the message as it is left in the
  buffer, and the device.\<close>

definition exec_send_string ::
  "'d exec_api \<Rightarrow> spawn_consts \<Rightarrow> u8 \<Rightarrow> bytes \<Rightarrow> spawn_req \<Rightarrow> 'd \<Rightarrow> (err \<times> spawn_req \<times> 'd) option" where
  "exec_send_string api k node str m dev = do {
     (len, d) \<leftarrow> strlcpy (sq_data m) str (AXIOM_SPAWN_MAX_DATA_SIZE k);
     let m = m\<lparr>sq_data := d\<rparr>;
     let sz = ea_header_size api + len + 1;
     if sz \<le> ea_max_size api
     then let (ret, dev) = ea_send api dev node (SPAWN_REQ sz m) in Some (ret, m, dev)
     else None
   }"

text \<open>The loops over \<open>argv\<close> and \<open>envp\<close>; they stop at the null pointer or after a failed send.\<close>

fun exec_send_all ::
  "'d exec_api \<Rightarrow> spawn_consts \<Rightarrow> u8 \<Rightarrow> slot list \<Rightarrow> err \<Rightarrow> spawn_req \<Rightarrow> 'd \<Rightarrow> (err \<times> spawn_req \<times> 'd) option" where
  "exec_send_all api k node [] ret m dev = None"
| "exec_send_all api k node (Null # _) ret m dev = Some (ret, m, dev)"
| "exec_send_all api k node (Str s # r) ret m dev = do {
     (ret, m, dev) \<leftarrow> exec_send_string api k node s m dev;
     if ea_is_ok api ret then exec_send_all api k node r ret m dev else Some (ret, m, dev)
   }"
| "exec_send_all api k node (_ # _) ret m dev = None"

definition exec_send_list ::
  "'d exec_api \<Rightarrow> spawn_consts \<Rightarrow> u8 \<Rightarrow> spawn_type \<Rightarrow> slot list option \<Rightarrow> err \<Rightarrow> spawn_req \<Rightarrow> 'd
     \<Rightarrow> (err \<times> spawn_req \<times> 'd) option" where
  "exec_send_list api k node t l ret m dev = (case l of
       None \<Rightarrow> Some (ret, m, dev)
     | Some a \<Rightarrow> exec_send_all api k node a ret (m\<lparr>sq_flags := 0, sq_type := t\<rparr>) dev)"

text \<open>The \<open>release\<close> label: the session request is built over the spawn message.\<close>

definition exec_release :: "'d exec_api \<Rightarrow> u8 \<Rightarrow> u8 \<Rightarrow> spawn_req \<Rightarrow> 'd \<Rightarrow> 'd" where
  "exec_release api port node m dev = snd (ea_send api dev node
     (SESSION_REQ \<lparr>sr_command = AXIOM_CMD_SESSION_REQ, sr_reply_port = port, sr_session_id = ea_overlay api m\<rparr>))"

text \<open>The spawn messages of one node after the session number has arrived. The first component of the
  result tells whether all of them were sent.\<close>

definition exec_spawn ::
  "'d exec_api \<Rightarrow> spawn_consts \<Rightarrow> u8 \<Rightarrow> u8 \<Rightarrow> bytes \<Rightarrow> slot list option \<Rightarrow> slot list option \<Rightarrow> bytes \<Rightarrow> 'd
     \<Rightarrow> (bool \<times> err \<times> spawn_req \<times> 'd) option" where
  "exec_spawn api k node session filename argv envp data dev = do {
     (ret, m, dev) \<leftarrow> exec_send_string api k node filename
       \<lparr>sq_command = AXIOM_CMD_SPAWN_REQ, sq_session_id = session, sq_type = AXIOM_SPAWN_TYPE_EXE,
        sq_flags = AXIOM_SPAWN_FLAG_RESET k, sq_data = data\<rparr> dev;
     if \<not> ea_is_ok api ret then Some (False, ret, m, dev)
     else do {
       (ret, m, dev) \<leftarrow> exec_send_list api k node AXIOM_SPAWN_TYPE_ARG argv ret m dev;
       if \<not> ea_is_ok api ret then Some (False, ret, m, dev)
       else do {
         (ret, m, dev) \<leftarrow> exec_send_list api k node AXIOM_SPAWN_TYPE_ENV envp ret m dev;
         if \<not> ea_is_ok api ret then Some (False, ret, m, dev)
         else do {
           let m = m\<lparr>sq_type := AXIOM_SPAWN_TYPE_CWD, sq_flags := AXIOM_SPAWN_FLAG_EXEC k\<rparr>;
           case ea_getcwd api dev of
             None \<Rightarrow> Some (False, ea_ret_error api, m, dev)
           | Some cwd \<Rightarrow> do {
               (ret, m, dev) \<leftarrow> exec_send_string api k node cwd m dev;
               Some (ea_is_ok api ret, ret, m, dev)
             }
         }
       }
     }
   }"

text \<open>The work for one node: \<open>Inl\<close> is a return from the function.\<close>

definition exec_node ::
  "'d exec_api \<Rightarrow> spawn_consts \<Rightarrow> u8 \<Rightarrow> u8 \<Rightarrow> bytes \<Rightarrow> slot list option \<Rightarrow> slot list option \<Rightarrow> bytes \<Rightarrow> 'd
     \<Rightarrow> ((err + bytes) \<times> 'd) option" where
  "exec_node api k port node filename argv envp data dev = (
     let (ret, dev) = ea_send api dev node
           (SESSION_REQ \<lparr>sr_command = AXIOM_CMD_SESSION_REQ, sr_reply_port = port,
                         sr_session_id = AXIOM_SESSION_EMPTY k\<rparr>)
     in if \<not> ea_is_ok api ret then Some (Inl ret, dev)
     else do {
       (ret, _, reply, dev) \<leftarrow> ea_recv api dev;
       if \<not> ea_is_ok api ret then Some (Inl ret, dev)
       else case reply of
         SESSION_REPLY r \<Rightarrow>
           if sp_session_id r = AXIOM_SESSION_EMPTY k then Some (Inl (ea_ret_error api), dev)
           else do {
             (ok, ret, m, dev) \<leftarrow> exec_spawn api k node (sp_session_id r) filename argv envp data dev;
             if ok then Some (Inr (sq_data m), dev)
             else Some (Inl ret, exec_release api port node m dev)
           }
       | _ \<Rightarrow> None
     })"

text \<open>The variables of the loop over the nodes; \<open>es_ret\<close> is the value returned from inside it.\<close>

record 'd exec_state =
  es_dev :: 'd
  es_node :: u8
  es_data :: bytes
  es_counter :: int
  es_ret :: "err option"

text \<open>One iteration of the \<open>do \<dots> while\<close> loop with its condition, which increments the node number. A
  node that is skipped by \<open>continue\<close> goes to the condition too, broadcast or not.\<close>

definition exec_step ::
  "'d exec_api \<Rightarrow> spawn_consts \<Rightarrow> u8 \<Rightarrow> u32 \<Rightarrow> bytes \<Rightarrow> slot list option \<Rightarrow> slot list option
     \<Rightarrow> 'd exec_state \<Rightarrow> (ctl \<times> 'd exec_state) option" where
  "exec_step api k port flags filename argv envp s = (
     let next = (\<lambda>s. let s = s\<lparr>es_node := es_node s + 1\<rparr>
                     in Some (if int (unat (es_node s)) < ea_get_num_nodes api (es_dev s) then Next else Break, s))
     in if flags AND AXINIT_EXEC_NOSELF \<noteq> 0 \<and> es_node s = ea_get_node_id api (es_dev s) then next s
     else do {
       (r, dev) \<leftarrow> exec_node api k port (es_node s) filename argv envp (es_data s) (es_dev s);
       case r of
         Inl e \<Rightarrow> Some (Break, s\<lparr>es_dev := dev, es_ret := Some e\<rparr>)
       | Inr d \<Rightarrow>
           let s = s\<lparr>es_dev := dev, es_data := d, es_counter := es_counter s + 1\<rparr>
           in if flags AND AXINIT_EXEC_BROADCAST = 0 then Some (Break, s) else next s
     })"

text \<open>The result: the return value and the device. \<open>data\<close> is the initial content of the packet
  buffer.\<close>

definition axinit_execvpe ::
  "'d exec_api \<Rightarrow> spawn_consts \<Rightarrow> bytes \<Rightarrow> 'd \<Rightarrow> u8 \<Rightarrow> u8 \<Rightarrow> u32 \<Rightarrow> bytes \<Rightarrow> slot list option \<Rightarrow> slot list option
     \<Rightarrow> (err \<times> 'd) option" where
  "axinit_execvpe api k data dev port node flags filename argv envp = do {
     s \<leftarrow> while_ctl (\<lambda>_. True) (exec_step api k port flags filename argv envp)
       \<lparr>es_dev = dev, es_node = (if flags AND AXINIT_EXEC_BROADCAST \<noteq> 0 then 0 else node), es_data = data,
        es_counter = 0, es_ret = None\<rparr>;
     Some (case es_ret s of Some e \<Rightarrow> e | None \<Rightarrow> es_counter s, es_dev s)
   }"

section \<open>What is sent\<close>








text \<open>The spawn messages of a log.\<close>

fun spawns :: "(u8 \<times> init_msg) list \<Rightarrow> spawn_req list" where
  "spawns [] = []"
| "spawns ((_, SPAWN_REQ _ m) # r) = m # spawns r"
| "spawns (_ # r) = spawns r"

lemma spawns_append [simp]: "spawns (a @ b) = spawns a @ spawns b"
  by (induction a rule: spawns.induct) auto







section \<open>What the client leaves alone\<close>

text \<open>A predicate on the device that the messages of the client keep.\<close>

definition client_keeps :: "'d exec_api \<Rightarrow> ('d \<Rightarrow> bool) \<Rightarrow> bool" where
  "client_keeps api P \<longleftrightarrow> (\<forall>d n m. P d \<longrightarrow> P (snd (ea_send api d n m))) \<and> (\<forall>d e n m d'. ea_recv api d = Some (e, n, m, d') \<longrightarrow> P d \<longrightarrow> P d')"

lemma client_keepsD:
  assumes "client_keeps api P"
  shows "ea_send api d n m = (e, d') \<Longrightarrow> P d \<Longrightarrow> P d'" "P d \<Longrightarrow> P (snd (ea_send api d n m))"
    "ea_recv api d = Some (e, n, m, d') \<Longrightarrow> P d \<Longrightarrow> P d'"
  using assms unfolding client_keeps_def by (metis snd_conv)+

lemma exec_send_string_keeps:
  "client_keeps api P \<Longrightarrow> exec_send_string api k node s m dev = Some (e, m', dev') \<Longrightarrow> P dev \<Longrightarrow> P dev'"
  by (auto simp: exec_send_string_def bind_eq_Some_conv Let_def case_prod_beta intro: client_keepsD(2)
      split: if_splits prod.splits)

lemma exec_send_all_keeps:
  "client_keeps api P \<Longrightarrow> exec_send_all api k node l e0 m dev = Some (e, m', dev') \<Longrightarrow> P dev \<Longrightarrow> P dev'"
  by (induction api k node l e0 m dev rule: exec_send_all.induct)
     (auto simp: bind_eq_Some_conv split: if_splits dest: exec_send_string_keeps)

lemma exec_send_list_keeps:
  "client_keeps api P \<Longrightarrow> exec_send_list api k node t l e0 m dev = Some (e, m', dev') \<Longrightarrow> P dev \<Longrightarrow> P dev'"
  by (auto simp: exec_send_list_def split: option.splits dest: exec_send_all_keeps)

lemma exec_spawn_keeps:
  assumes "client_keeps api P" "exec_spawn api k node ses f a v data dev = Some (ok, e, m, dev')" "P dev"
  shows "P dev'"
proof -
  note keeps = exec_send_string_keeps [OF assms(1)] exec_send_list_keeps [OF assms(1)]
  show ?thesis using assms(2,3)
    by (auto simp: exec_spawn_def bind_eq_Some_conv Let_def split: if_splits option.splits dest!: keeps)
qed

lemma exec_node_keeps:
  assumes "client_keeps api P" "exec_node api k port node f a v data dev = Some (r, dev')" "P dev"
  shows "P dev'"
proof -
  note keeps = exec_spawn_keeps [OF assms(1)] client_keepsD [OF assms(1)]
  show ?thesis using assms(2,3)
    by (auto simp: exec_node_def exec_release_def bind_eq_Some_conv Let_def case_prod_beta split: if_splits init_msg.splits
        dest!: keeps(1,4) intro: keeps(3))
qed

lemma execvpe_keeps:
  assumes "client_keeps api P" "axinit_execvpe api k data dev port node flags f a v = Some (e, dev')" "P dev"
  shows "P dev'"
proof -
  obtain s where s: "while_ctl (\<lambda>_. True) (exec_step api k port flags f a v)
      \<lparr>es_dev = dev, es_node = (if flags AND AXINIT_EXEC_BROADCAST \<noteq> 0 then 0 else node), es_data = data, es_counter = 0, es_ret = None\<rparr> = Some s"
    "dev' = es_dev s" using assms(2) by (auto simp: axinit_execvpe_def bind_eq_Some_conv)
  have "P (es_dev s)"
  proof (rule while_ctl_partial [OF s(1), where P = "\<lambda>s. P (es_dev s)"])
    fix s1 c s2
    assume "P (es_dev s1)" "exec_step api k port flags f a v s1 = Some (c, s2)"
    moreover have "P d" if "exec_node api k port (es_node s1) f a v (es_data s1) (es_dev s1) = Some (r, d)" for r d
      using exec_node_keeps [OF assms(1) that] \<open>P (es_dev s1)\<close> by simp
    ultimately have "P (es_dev s2)"
      by (cases "exec_node api k port (es_node s1) f a v (es_data s1) (es_dev s1)")
         (auto simp: exec_step_def Let_def split: if_splits sum.split_asm)
    then show "if c = Break then P (es_dev s2) else P (es_dev s2)" by simp
  qed (use assms(3) in simp_all)
  with s(2) show ?thesis by simp
qed





end
