(* ===== verification/Run_Start.thy ===== *)
theory Run_Start
  imports Run_Options Execvpe
begin

text \<open>
  The start of a session of \<open>axiom-run\<close> (\<open>axiom-run/axiom-run.c\<close>): the environment of the processes, the spawn of
  the slaves by the master, and the message that lets them run the application.
\<close>

section \<open>The environment\<close>

text \<open>\<open>match\<close> is \<open>regexec\<close> with the compiled expression: the start and the end of the match. A null pointer in the
  result is \<open>None\<close>.\<close>

definition env_entry :: "(string \<Rightarrow> (nat \<times> nat) option) \<Rightarrow> string \<Rightarrow> string list \<times> bool \<Rightarrow> string list \<times> bool" where
  "env_entry match e s =
     (if CHR ''='' \<in> set e
      then (let name = takeWhile (\<lambda>c. c \<noteq> CHR ''='') e
            in (if match name = Some (0, length name) then fst s @ [e] else fst s,
                snd s \<or> has_prefix ''AXIOM_RUN'' e \<or> has_prefix ''AXIOM_NODES'' e))
      else s)"

definition prepare_env :: "(string \<Rightarrow> (nat \<times> nat) option) \<Rightarrow> string list \<Rightarrow> bool \<Rightarrow> bool \<Rightarrow> u64 \<Rightarrow> string option list" where
  "prepare_env match env slave noclose nodes = (
     let (es, already) = fold (env_entry match) env ([], False)
     in map Some (es @ (if slave \<and> \<not> already
         then [snprintf 64 (''AXIOM_RUN='' @ print_int (int (count_nodes nodes))),
               snprintf 64 (''AXIOM_NODES=0x'' @ print_base 16 (unat nodes))] else []))
        @ (if noclose then [] else [None]))"

text \<open>What else the environment depends on: the process number, the application number of the allocator (none when
  the request fails) and the names of its variables, which are in the headers of the allocator.\<close>

record env_vars =
  ev_match :: "string \<Rightarrow> (nat \<times> nat) option"
  ev_environ :: "string list"
  ev_pid :: int
  ev_appid :: "int option"
  ev_ALLOC_APPID :: string
  ev_ALLOC_APPMASTER :: string

definition ctz64 :: "u64 \<Rightarrow> nat option" where
  "ctz64 x = List.find (bit x) [0..<64]"

definition run_env :: "env_vars \<Rightarrow> run_conf \<Rightarrow> string option list run_result" where
  "run_env v c = (
     let env = prepare_env (ev_match v) (ev_environ v) (rc_slave c) True (rc_nodes c)
       @ (if rc_slave c \<and> rc_services c AND (BARRIER_SERVICE OR RPC_SERVICE) \<noteq> 0
          then [Some (snprintf 128 (''AXIOM_USOCK='' @ print_int (ev_pid v)))] else [])
     in if \<not> rc_slave c \<and> service_on (rc_services c) ALLOCATOR_SERVICE
        then do {
          app_master \<leftarrow> ctz64 (rc_nodes c);
          case ev_appid v of
            None \<Rightarrow> run_exit 1
          | Some i \<Rightarrow> run_ok (env @ [Some (snprintf 128 (ev_ALLOC_APPID v @ ''='' @ print_int i)),
              Some (snprintf 128 (ev_ALLOC_APPMASTER v @ ''='' @ print_int (int app_master))), None])
        }
        else run_ok (env @ [None]))"

section \<open>The start\<close>

text \<open>The start message, which tells a slave that all slaves have been spawned; only its command and magic number
  are set.\<close>

definition start_msg :: "header \<Rightarrow> int \<Rightarrow> run_msg" where
  "start_msg junk mg = \<lparr>hdr = junk\<lparr>command := CMD_START, magic := word_of_int mg\<rparr>, raw = []\<rparr>"

definition notify_barrier :: "'d run_api \<Rightarrow> header \<Rightarrow> 'd \<Rightarrow> u8 \<Rightarrow> int \<Rightarrow> int \<Rightarrow> err \<times> 'd" where
  "notify_barrier api junk dev node port mg = ra_send api dev (node, port) (start_msg junk mg)"

text \<open>The loop that waits for it. \<open>None\<close> when it never comes.\<close>

partial_function (option) wait_on_barrier :: "'d run_api \<Rightarrow> int \<Rightarrow> 'd \<Rightarrow> 'd option" where
  "wait_on_barrier api mg dev = do {
     (ret, _, m, dev) \<leftarrow> ra_recv api dev;
     if \<not> ra_is_ok api ret then wait_on_barrier api mg dev
     else if command (hdr m) \<noteq> CMD_START then wait_on_barrier api mg dev
     else if magic (hdr m) \<noteq> word_of_int mg then wait_on_barrier api mg dev
     else Some dev
   }"

text \<open>The first loop of \<open>start\<close>: the program is spawned on the nodes of the mask until one fails.
  \<open>exec node gdb\<close> is the call of \<open>axinit_execvpe\<close>, with or without the debugger.\<close>

function start_nodes :: "(u8 \<Rightarrow> bool \<Rightarrow> 'd \<Rightarrow> (err \<times> 'd) option) \<Rightarrow> (err \<Rightarrow> bool) \<Rightarrow> u8 \<Rightarrow> u64 \<Rightarrow> u64 \<Rightarrow> err \<Rightarrow> 'd \<Rightarrow> (err \<times> 'd) option" where
  "start_nodes exec is_ok node nodes gdb_nodes err dev =
     (if nodes = 0 then Some (err, dev)
      else if nodes AND 1 \<noteq> 0
      then do {
        (err, dev) \<leftarrow> exec node (gdb_nodes AND 1 \<noteq> 0) dev;
        if is_ok err then start_nodes exec is_ok (node + 1) (drop_bit 1 nodes) (drop_bit 1 gdb_nodes) err dev else Some (err, dev)
      }
      else start_nodes exec is_ok (node + 1) (drop_bit 1 nodes) (drop_bit 1 gdb_nodes) err dev)"
  by pat_completeness auto
termination
  by (relation "measure (\<lambda>(_, _, _, nodes, _). unat nodes)") (use drop_bit_less in auto)

declare start_nodes.simps [simp del]

definition c_bytes :: "string \<Rightarrow> bytes" where
  "c_bytes s = map of_char s @ [0]"

text \<open>What the start needs: both interfaces of the device, the constants of the spawn service and the contents of
  uninitialised memory (the packet of the spawn client and the header of the start message).\<close>

record 'd start_api =
  st_run :: "'d run_api"
  st_exec :: "'d exec_api"
  st_spawn :: spawn_consts
  st_data :: bytes
  st_junk :: header

definition start ::
  "'d start_api \<Rightarrow> 'd \<Rightarrow> u8 \<Rightarrow> int \<Rightarrow> u64 \<Rightarrow> bytes \<Rightarrow> slot list \<Rightarrow> slot list \<Rightarrow> u64 \<Rightarrow> int \<Rightarrow> int \<Rightarrow> (err \<times> 'd) option" where
  "start api dev master_port slave_port nodes filename argv envp gdb_nodes gdb_port mg = (
     let gdb_argv = gdb_args gdb_port (Str filename) argv (\<lambda>s. Str (c_bytes s));
         exec = (\<lambda>node gdb dev. axinit_execvpe (st_exec api) (st_spawn api) (st_data api) dev master_port node 0
           (if gdb then c_bytes ''gdbserver'' else filename) (Some (if gdb then gdb_argv else argv)) (Some envp))
     in do {
       (err, dev) \<leftarrow> start_nodes exec (ra_is_ok (st_run api)) 0 nodes gdb_nodes (ra_ret_ok (st_run api)) dev;
       Some (err, fold (\<lambda>node dev. snd (notify_barrier (st_run api) (st_junk api) dev node slave_port mg)) (mask_nodes 0 nodes) dev)
     })"

text \<open>The exit code of the program from the status of the session.\<close>

definition run_exit_code :: "u32 \<Rightarrow> nat" where
  "run_exit_code exitval =
     (if WIFEXITED exitval then WEXITSTATUS exitval
      else if WIFSIGNALED exitval then unat (WTERMSIG exitval) + 128 else 255)"

section \<open>The first synchronisation\<close>

lemma start_nodes_keeps:
  assumes "\<And>n g d e d'. exec n g d = Some (e, d') \<Longrightarrow> P d \<Longrightarrow> P d'"
    and "start_nodes exec is_ok i m g err d = Some (e, d')" "P d"
  shows "P d'"
  using assms
proof (induction exec is_ok i m g err d rule: start_nodes.induct)
  case (1 exec is_ok i m g err d)
  show ?case
  proof (cases "m = 0")
    case False
    show ?thesis
    proof (cases "m AND 1 = 0")
      case True
      then show ?thesis using "1.IH"(2) [OF False] "1.prems" False by (simp add: start_nodes.simps [of exec is_ok i m])
    next
      case odd: False
      then obtain e1 d1 where 1: "exec i (g AND 1 \<noteq> 0) d = Some (e1, d1)"
        "(if is_ok e1 then start_nodes exec is_ok (i + 1) (drop_bit 1 m) (drop_bit 1 g) e1 d1 else Some (e1, d1)) = Some (e, d')"
        using "1.prems"(2) False by (auto simp: start_nodes.simps [of exec is_ok i m] bind_eq_Some_conv)
      moreover have "P d1" using "1.prems"(1,3) 1(1) by blast
      ultimately show ?thesis using "1.IH"(1) [OF False odd, of "(e1, d1)" e1 d1] "1.prems"(1) by (cases "is_ok e1") auto
    qed
  qed (use 1 in \<open>simp add: start_nodes.simps\<close>)
qed

lemma notify_all:
  assumes "logs_run api sent"
  shows "sent (fold (\<lambda>n d. snd (notify_barrier api junk d n port mg)) ns d) = sent d @ map (\<lambda>n. ((n, port), start_msg junk mg)) ns"
  by (induction ns arbitrary: d) (simp_all add: notify_barrier_def logs_send [OF assms])

lemma wait_run:
  assumes "queues_run api inbox"
  shows "inbox d = pre @ (src, m) # rest \<Longrightarrow> command (hdr m) = CMD_START \<Longrightarrow> magic (hdr m) = word_of_int mg \<Longrightarrow>
    \<forall>x\<in>set pre. command (hdr (snd x)) \<noteq> CMD_START \<or> magic (hdr (snd x)) \<noteq> word_of_int mg \<Longrightarrow>
    \<exists>d'. wait_on_barrier api mg d = Some d' \<and> inbox d' = rest"
proof (induction pre arbitrary: d)
  case Nil
  then obtain e d' where "ra_recv api d = Some (e, src, m, d')" "ra_is_ok api e" "inbox d' = rest"
    using queues_recv [OF assms] by (metis append_Nil)
  with Nil show ?case by (simp add: wait_on_barrier.simps [of api mg d])
next
  case (Cons x pre)
  obtain e d1 where d1: "ra_recv api d = Some (e, fst x, snd x, d1)" "ra_is_ok api e" "inbox d1 = pre @ (src, m) # rest"
    using queues_recv [OF assms, of d "fst x" "snd x"] Cons.prems(1) by auto
  with Cons.IH [OF d1(3) Cons.prems(2,3)] Cons.prems(4) show ?case
    by (auto simp: wait_on_barrier.simps [of api mg d])
qed

text \<open>One message per node.\<close>

lemma filter_distinct: "distinct xs \<Longrightarrow> x \<in> set xs \<Longrightarrow> filter (\<lambda>y. y = x) xs = [x]"
  by (induction xs) (auto simp: filter_empty_conv)

lemma broadcast_filter:
  assumes "n \<in> nodes_of nodes"
  shows "filter (\<lambda>x. fst x = (of_nat n, port)) (broadcast nodes port m) = [((of_nat n, port), m)]"
proof -
  have "of_nat n \<in> set (mask_nodes 0 nodes)" using assms by (simp add: set_mask_nodes)
  then have "filter (\<lambda>y. y = of_nat n) (mask_nodes 0 nodes) = [of_nat n]"
    by (rule filter_distinct [OF distinct_mask_nodes])
  then show ?thesis by (simp add: broadcast_def filter_map o_def)
qed

text \<open>C10: The start and its first synchronisation. Whatever the result of the spawns, \<open>start\<close> sends one start message
  to the slave port of each node of the session; and the slave of a node that gets the messages sent to it, after
  any others that are not such a message, ends its wait, with the messages that follow still to be read.\<close>

theorem start_releases_slaves:
  assumes "logs_run (st_run api) sent" "\<And>l. client_keeps (st_exec api) (\<lambda>d. sent d = l)"
    "start api dev master_port slave_port nodes filename argv envp gdb_nodes gdb_port mg = Some (err, dev')"
    "queues_run sapi inbox" "n \<in> nodes_of nodes"
    "inbox d = pre @ map (\<lambda>x. (src, snd x)) (filter (\<lambda>x. fst x = (of_nat n, slave_port)) (drop (length (sent dev)) (sent dev'))) @ rest"
    "\<forall>x\<in>set pre. command (hdr (snd x)) \<noteq> CMD_START \<or> magic (hdr (snd x)) \<noteq> word_of_int mg"
  shows "sent dev' = sent dev @ broadcast nodes slave_port (start_msg (st_junk api) mg)
    \<and> (\<exists>d'. wait_on_barrier sapi mg d = Some d' \<and> inbox d' = rest)"
proof -
  let ?m = "start_msg (st_junk api) mg"
  obtain exec d1 where d1: "start_nodes exec (ra_is_ok (st_run api)) 0 nodes gdb_nodes (ra_ret_ok (st_run api)) dev = Some (err, d1)"
    "dev' = fold (\<lambda>node dev. snd (notify_barrier (st_run api) (st_junk api) dev node slave_port mg)) (mask_nodes 0 nodes) d1"
    "\<And>n g d e d'. exec n g d = Some (e, d') \<Longrightarrow> sent d = sent dev \<Longrightarrow> sent d' = sent dev"
    using assms(3) execvpe_keeps [OF assms(2)] by (fastforce simp: start_def bind_eq_Some_conv)
  have "sent d1 = sent dev" by (rule start_nodes_keeps [where P = "\<lambda>d. sent d = sent dev", OF _ d1(1)]) (use d1(3) in blast)+
  then have log: "sent dev' = sent dev @ broadcast nodes slave_port ?m"
    unfolding d1(2) using notify_all [OF assms(1)] by (simp add: broadcast_def)
  then have "inbox d = pre @ (src, ?m) # rest" using assms(6) broadcast_filter [OF assms(5)] by simp
  from wait_run [OF assms(4) this _ _ assms(7)] log show ?thesis by (simp add: start_msg_def)
qed

section \<open>What the application sees\<close>

text \<open>\<open>getenv\<close> of the C library on the environment.\<close>

fun getenv :: "string \<Rightarrow> string option list \<Rightarrow> string option" where
  "getenv name [] = None"
| "getenv name (None # es) = None"
| "getenv name (Some e # es) = (if has_prefix (name @ ''='') e then Some (drop (Suc (length name)) e) else getenv name es)"

lemma getenv_append: "\<forall>e\<in>set es. \<not> has_prefix (name @ ''='') e \<Longrightarrow> getenv name (map Some es @ r) = getenv name r"
  by (induction es) auto

lemma env_fold:
  assumes "\<forall>e\<in>set env. \<not> has_prefix ''AXIOM_RUN'' e \<and> \<not> has_prefix ''AXIOM_NODES'' e"
  shows "\<exists>es'. fold (env_entry match) env (es, False) = (es @ es', False) \<and> set es' \<subseteq> set env"
  using assms
proof (induction env arbitrary: es)
  case (Cons e env)
  let ?n = "takeWhile (\<lambda>c. c \<noteq> CHR ''='') e"
  let ?x = "if CHR ''='' \<in> set e \<and> match ?n = Some (0, length ?n) then [e] else []"
  have "env_entry match e (es, False) = (es @ ?x, False)" using Cons.prems by (auto simp: env_entry_def Let_def)
  moreover obtain es' where "fold (env_entry match) env (es @ ?x, False) = ((es @ ?x) @ es', False)" "set es' \<subseteq> set env"
    using Cons.IH [of "es @ ?x"] Cons.prems by auto
  ultimately show ?case by (auto intro!: exI [of _ "?x @ es'"])
qed auto

lemma has_prefix_trans: "has_prefix (p @ q) s \<Longrightarrow> has_prefix p s"
proof -
  assume "has_prefix (p @ q) s"
  then have "take (length p) (take (length (p @ q)) s) = take (length p) (p @ q)" by (simp add: has_prefix_def)
  then show "has_prefix p s" by (simp add: has_prefix_def)
qed

text \<open>The environment of the application tells it the nodes of the session: the library calls
  \<open>axrun_get_nodes\<close> and \<open>axrun_get_num_nodes\<close> return the mask and the number of its nodes, unless the environment of
  \<open>axiom-run\<close> already has variables of these names.\<close>

theorem application_sees_nodes:
  assumes "rc_slave c" "\<forall>e\<in>set (ev_environ v). \<not> has_prefix ''AXIOM_RUN'' e \<and> \<not> has_prefix ''AXIOM_NODES'' e"
  shows "\<exists>env. run_env v c = run_ok env \<and> axrun_get_nodes (getenv ''AXIOM_NODES'' env) = rc_nodes c
    \<and> axrun_get_num_nodes (getenv ''AXIOM_RUN'' env) = int (card (nodes_of (rc_nodes c)))"
proof -
  let ?k = "count_nodes (rc_nodes c)" and ?h = "''AXIOM_NODES=0x'' @ print_base 16 (unat (rc_nodes c))"
  let ?r = "''AXIOM_RUN='' @ print_base 10 ?k"
  obtain es where es: "fold (env_entry (ev_match v)) (ev_environ v) ([], False) = (es, False)" "set es \<subseteq> set (ev_environ v)"
    using env_fold [OF assms(2), of "ev_match v" "[]"] by auto
  have k: "?k \<le> 64"
    unfolding count_nodes_def mask_nodes_eq using length_filter_le [of "bit (rc_nodes c)" "[0..<64]"] by simp
  have len: "length (print_base 10 ?k) \<le> 2" using k by (intro print_base_length) simp_all
  have pre: "prepare_env (ev_match v) (ev_environ v) True True (rc_nodes c) = map Some (es @ [?r, ?h])"
    using es(1) len hex_length [of "rc_nodes c"] by (simp add: prepare_env_def print_int_def snprintf_def)
  obtain r where env: "run_env v c = run_ok (map Some es @ Some ?r # Some ?h # r)"
    using assms(1) pre by (simp add: run_env_def Let_def)
  have no: "\<forall>e\<in>set es. \<not> has_prefix (''AXIOM_RUN'' @ ''='') e" "\<forall>e\<in>set es. \<not> has_prefix (''AXIOM_NODES'' @ ''='') e"
    using es(2) assms(2) has_prefix_trans by blast+
  have "getenv ''AXIOM_RUN'' (map Some es @ Some ?r # Some ?h # r) = Some (print_base 10 ?k)"
    unfolding getenv_append [OF no(1)] by (simp add: has_prefix_def)
  moreover have "getenv ''AXIOM_NODES'' (map Some es @ Some ?r # Some ?h # r) = Some (''0x'' @ print_base 16 (unat (rc_nodes c)))"
    unfolding getenv_append [OF no(2)] by (simp add: has_prefix_def)
  moreover have "sint (ucast (of_nat ?k :: u64) :: u32) = int ?k" 
    using k by (simp add: unsigned_of_nat signed_of_nat signed_take_bit_eq_if_positive take_bit_nat_eq_self take_bit_int_eq_self bit_iff_odd)
  ultimately show ?thesis
    using env strtoull0_print [of "rc_nodes c"] strtoull0_dec [of ?k] count_nodes_card [of "rc_nodes c"]
    using k by (simp add: axrun_get_nodes_def axrun_get_num_nodes_def)
qed

section \<open>Instances\<close>

text \<open>A device with the logs of the spawn client and of the raw messages.\<close>

definition demo_start :: "(((u8 \<times> init_msg) list \<times> (u8 \<times> init_msg) list) \<times> ((u8 \<times> int) \<times> run_msg) list) start_api" where
  "demo_start = \<lparr>
     st_run = \<lparr>ra_is_ok = (\<lambda>e. 0 \<le> e), ra_ret_ok = 0, ra_ret_error = - 1, ra_send = (\<lambda>(x, l) n m. (0, x, l @ [(n, m)])), ra_recv = (\<lambda>_. None),
       AXIOM_CMD_ALLOC_REPLY = 0x20, ra_raw_max = 100, al2_alloc_reply = (\<lambda>m d. (True, [7], d)), al2_alloc = (\<lambda>_ p d. (False, p, d)),
       al2_get_regions = (\<lambda>_ p d. (True, p, d)), al2_alloc_shblock = (\<lambda>_ p d. (True, p, d))\<rparr>,
     st_exec = \<lparr>ea_is_ok = (\<lambda>e. 0 \<le> e), ea_ret_error = - 1, ea_get_node_id = (\<lambda>_. 0), ea_get_num_nodes = (\<lambda>_. 3),
       ea_send = (\<lambda>((l, q), r) n m. (0, (l @ [(n, m)], q), r)),
       ea_recv = (\<lambda>((l, q), r). case q of [] \<Rightarrow> None | (n, m) # q \<Rightarrow> Some (0, n, m, (l, q), r)),
       ea_getcwd = (\<lambda>_. Some [67, 0]), ea_header_size = 4, ea_max_size = 128, ea_overlay = (\<lambda>_. 0)\<rparr>,
     st_spawn = demo_spawn_consts, st_data = [0, 0],
     st_junk = \<lparr>command = 0, status = 0, barrier_id = 0, rpc_id = 0, rpc_function = 0, rpc_size = 0, magic = 0\<rparr>\<rparr>"

definition demo_slave_run :: "((u8 \<times> run_msg) list) run_api" where
  "demo_slave_run = \<lparr>ra_is_ok = (\<lambda>e. 0 \<le> e), ra_ret_ok = 0, ra_ret_error = - 1, ra_send = (\<lambda>q n m. (0, q)),
     ra_recv = (\<lambda>q. case q of [] \<Rightarrow> None | (n, m) # q \<Rightarrow> Some (0, n, m, q)),
     AXIOM_CMD_ALLOC_REPLY = 0x20, ra_raw_max = 100, al2_alloc_reply = (\<lambda>m d. (True, [7], d)), al2_alloc = (\<lambda>_ p d. (False, p, d)),
     al2_get_regions = (\<lambda>_ p d. (True, p, d)), al2_alloc_shblock = (\<lambda>_ p d. (True, p, d))\<rparr>"

lemma demo_start_ok:
  "logs_run (st_run demo_start) snd" "client_keeps (st_exec demo_start) (\<lambda>d. snd d = l)" "queues_run demo_slave_run id"
  by (auto simp: lossless_def client_keeps_def queues_run_def demo_start_def demo_slave_run_def split: prod.splits list.splits)

definition demo_replies :: "((u8 \<times> init_msg) list \<times> (u8 \<times> init_msg) list) \<times> ((u8 \<times> int) \<times> run_msg) list" where
  "demo_replies = (([], map (\<lambda>n. (n, SESSION_REPLY \<lparr>sp_command = AXIOM_CMD_SESSION_REPLY, sp_session_id = 3\<rparr>)) [1, 2]), [])"

lemma demo_start_runs:
  "\<not> Option.is_none (start demo_start demo_replies 5 6 6 [65, 0] [Str [65, 0], Null] [Null] 0 0 1234)"
  by code_simp

theorem start_releases_slaves_witness:
  "\<exists>err dev'. start demo_start demo_replies 5 6 6 [65, 0] [Str [65, 0], Null] [Null] 0 0 1234 = Some (err, dev')
    \<and> snd dev' = broadcast 6 6 (start_msg (st_junk demo_start) 1234)
    \<and> (\<exists>d'. wait_on_barrier demo_slave_run 1234 (map (\<lambda>x. (0, snd x)) (filter (\<lambda>x. fst x = (2, 6)) (snd dev'))) = Some d')"
proof -
  obtain err dev' where s: "start demo_start demo_replies 5 6 6 [65, 0] [Str [65, 0], Null] [Null] 0 0 1234 = Some (err, dev')"
    using demo_start_runs by (auto simp: Option.is_none_def)
  have n: "2 \<in> nodes_of 6" by (simp add: nodes_of_def bit_numeral_rec(1))
  have "snd demo_replies = []" by (simp add: demo_replies_def)
  then have "snd dev' = broadcast 6 6 (start_msg (st_junk demo_start) 1234)
    \<and> (\<exists>d'. wait_on_barrier demo_slave_run 1234 (map (\<lambda>x. (0, snd x)) (filter (\<lambda>x. fst x = (2, 6)) (snd dev'))) = Some d')"
    using start_releases_slaves [OF demo_start_ok(1,2) s demo_start_ok(3) n,
        of "map (\<lambda>x. (0, snd x)) (filter (\<lambda>x. fst x = (2, 6)) (snd dev'))" "[]" 0 "[]"] by auto
  with s show ?thesis by blast
qed

theorem application_sees_nodes_witness:
  "\<exists>env. run_env \<lparr>ev_match = (\<lambda>n. Some (0, length n)), ev_environ = [''PATH=/bin''], ev_pid = 7, ev_appid = None, ev_ALLOC_APPID = ''A'',
        ev_ALLOC_APPMASTER = ''M''\<rparr> (demo_conf\<lparr>rc_slave := True\<rparr>) = run_ok env
    \<and> axrun_get_nodes (getenv ''AXIOM_NODES'' env) = 6"
proof -
  have c: "rc_slave (demo_conf\<lparr>rc_slave := True\<rparr>)" "rc_nodes (demo_conf\<lparr>rc_slave := True\<rparr>) = 6" by (simp_all add: demo_conf_def)
  show ?thesis
    using application_sees_nodes [OF c(1), of "\<lparr>ev_match = (\<lambda>n. Some (0, length n)), ev_environ = [''PATH=/bin''], ev_pid = 7, ev_appid = None,
        ev_ALLOC_APPID = ''A'', ev_ALLOC_APPMASTER = ''M''\<rparr>"] c(2) by (auto simp: has_prefix_def)
qed

end
