(* ===== verification/Run_Rpc.thy ===== *)
theory Run_Rpc
  imports Run_Common
begin

text \<open>
  The remote procedure calls that the master serves (\<open>axiom-run/rpcfuncs.c\<close>).
\<close>

section \<open>The code\<close>

definition AXRUN_RPC_PING :: u32 where "AXRUN_RPC_PING = 0"
definition AXRUN_RPC_ALLOC :: u32 where "AXRUN_RPC_ALLOC = 1"
definition AXRUN_RPC_GET_REGIONS :: u32 where "AXRUN_RPC_GET_REGIONS = 2"
definition AXRUN_RPC_ALLOC_SHBLOCK :: u32 where "AXRUN_RPC_ALLOC_SHBLOCK = 3"

lemmas rpc_defs = AXRUN_RPC_PING_def AXRUN_RPC_ALLOC_def AXRUN_RPC_GET_REGIONS_def AXRUN_RPC_ALLOC_SHBLOCK_def

text \<open>The one pending reply.\<close>

record rpc_reply =
  reply_node :: u8
  reply_port :: int
  reply_hdr :: header

definition rpc_postpone_reply :: "u8 \<Rightarrow> int \<Rightarrow> header \<Rightarrow> rpc_reply \<Rightarrow> rpc_reply" where
  "rpc_postpone_reply node port h r = r\<lparr>reply_node := node, reply_port := port, reply_hdr := h\<rparr>"

definition rpc_send_reply :: "'d run_api \<Rightarrow> rpc_reply \<Rightarrow> bytes \<Rightarrow> 'd \<Rightarrow> int \<times> 'd" where
  "rpc_send_reply api r buffer dev = (
     let (ret, dev) = ra_send api dev (reply_node r, reply_port r) \<lparr>hdr = reply_hdr r, raw = buffer\<rparr>
     in (if ra_is_ok api ret then 0 else - 1, dev))"

text \<open>The reply of a served request is the message itself, with the payload that the call has left.\<close>

definition rpc_answer :: "'d run_api \<Rightarrow> int \<Rightarrow> u8 \<Rightarrow> run_msg \<Rightarrow> bool \<Rightarrow> 'd \<Rightarrow> 'd" where
  "rpc_answer api slave_port src m reply dev =
     (if reply then snd (ra_send api dev (src, slave_port) m) else dev)"

definition rpc_service ::
  "'d run_api \<Rightarrow> int \<Rightarrow> int \<Rightarrow> u8 \<Rightarrow> run_msg \<Rightarrow> rpc_reply \<Rightarrow> 'd \<Rightarrow> int \<times> rpc_reply \<times> 'd" where
  "rpc_service api master_port slave_port src m r dev =
     (if command (hdr m) = AXIOM_CMD_ALLOC_REPLY api
      then (let (ret, info, dev) = al2_alloc_reply api m dev
            in if ret then (let (ret, dev) = rpc_send_reply api r info dev in (ret, r, dev)) else (0, r, dev))
      else if rpc_function (hdr m) = AXRUN_RPC_PING then (0, r, rpc_answer api slave_port src m True dev)
      else if rpc_function (hdr m) = AXRUN_RPC_ALLOC
      then (let (reply, p, dev) = al2_alloc api master_port (raw m) dev;
                r = (if \<not> reply then rpc_postpone_reply src slave_port (hdr m) r else r)
            in (0, r, rpc_answer api slave_port src (m\<lparr>raw := p\<rparr>) reply dev))
      else if rpc_function (hdr m) = AXRUN_RPC_GET_REGIONS
      then (let (reply, p, dev) = al2_get_regions api src (raw m) dev
            in (0, r, rpc_answer api slave_port src (m\<lparr>raw := p\<rparr>) reply dev))
      else if rpc_function (hdr m) = AXRUN_RPC_ALLOC_SHBLOCK
      then (let (reply, p, dev) = al2_alloc_shblock api src (raw m) dev
            in (0, r, rpc_answer api slave_port src (m\<lparr>raw := p\<rparr>) reply dev))
      else (- 1, r, dev))"

section \<open>Postponed replies\<close>

text \<open>An allocation request that waits for the daemon.\<close>

definition alloc_waits :: "'d run_api \<Rightarrow> bool" where
  "alloc_waits api \<longleftrightarrow> (\<forall>port p d. \<not> fst (al2_alloc api port p d))"

definition alloc_request :: "'d run_api \<Rightarrow> run_msg \<Rightarrow> bool" where
  "alloc_request api m \<longleftrightarrow> command (hdr m) \<noteq> AXIOM_CMD_ALLOC_REPLY api \<and> rpc_function (hdr m) = AXRUN_RPC_ALLOC"

definition serve_rpc :: "'d run_api \<Rightarrow> int \<Rightarrow> int \<Rightarrow> u8 \<times> run_msg \<Rightarrow> rpc_reply \<times> 'd \<Rightarrow> rpc_reply \<times> 'd" where
  "serve_rpc api mp sp x s = snd (rpc_service api mp sp (fst x) (snd x) (fst s) (snd s))"

lemma serve_request:
  assumes "alloc_waits api" "alloc_request api m"
  shows "fst (serve_rpc api mp sp (src, m) s) = (fst s)\<lparr>reply_node := src, reply_port := sp, reply_hdr := hdr m\<rparr>"
proof -
  obtain p d where "al2_alloc api mp (raw m) (snd s) = (False, p, d)"
    using assms(1) unfolding alloc_waits_def by (metis (full_types) prod.collapse)
  with assms(2) show ?thesis
    by (simp add: serve_rpc_def rpc_service_def alloc_request_def rpc_postpone_reply_def rpc_answer_def rpc_defs)
qed

lemma serve_reply:
  assumes "command (hdr a) = AXIOM_CMD_ALLOC_REPLY api" "al2_alloc_reply api a (snd s) = (True, info, d1)"
    "ra_send api d1 (reply_node (fst s), reply_port (fst s)) \<lparr>hdr = reply_hdr (fst s), raw = info\<rparr> = (e, d2)"
  shows "serve_rpc api mp sp (n, a) s = (fst s, d2)"
  using assms by (simp add: serve_rpc_def rpc_service_def rpc_send_reply_def)

text \<open>The answer of the allocator goes to the node that asked last. After allocation requests that
  all wait for the daemon, the reply of the daemon is sent to the sender of the last request, with the header of
  that request and the answer as payload. With one request pending this is the node that asked; with two,
  the first node never gets its answer.\<close>

theorem rpc_reply_to_last:
  assumes "logs_run api sent" "alloc_waits api" "\<forall>x\<in>set (xs @ [(src, m)]). alloc_request api (snd x)"
    "command (hdr a) = AXIOM_CMD_ALLOC_REPLY api" "\<And>d. fst (al2_alloc_reply api a d)" "\<And>d. fst (snd (al2_alloc_reply api a d)) = info"
    "\<And>d. sent (snd (snd (al2_alloc_reply api a d))) = sent d"
  shows "\<exists>r dev. fold (serve_rpc api mp sp) (xs @ [(src, m), (n, a)]) s = (r, dev)
    \<and> sent dev = sent (snd (fold (serve_rpc api mp sp) (xs @ [(src, m)]) s)) @ [((src, sp), \<lparr>hdr = hdr m, raw = info\<rparr>)]"
proof -
  let ?s = "fold (serve_rpc api mp sp) (xs @ [(src, m)]) s"
  have r: "reply_node (fst ?s) = src" "reply_port (fst ?s) = sp" "reply_hdr (fst ?s) = hdr m"
    using serve_request [OF assms(2), of m mp sp src "fold (serve_rpc api mp sp) xs s"] assms(3) by simp_all
  obtain d1 where a: "al2_alloc_reply api a (snd ?s) = (True, info, d1)" "sent d1 = sent (snd ?s)"
    using assms(5-7) [of "snd ?s"] by (metis (full_types) prod.collapse)
  obtain e d2 where d2: "ra_send api d1 (src, sp) \<lparr>hdr = hdr m, raw = info\<rparr> = (e, d2)"
    "sent d2 = sent d1 @ [((src, sp), \<lparr>hdr = hdr m, raw = info\<rparr>)]"
    using lossless_send [OF assms(1)] by blast
  have "serve_rpc api mp sp (n, a) ?s = (fst ?s, d2)"
    by (rule serve_reply [OF assms(4) a(1), unfolded r, OF d2(1)])
  with a(2) d2(2) show ?thesis by simp
qed

definition demo_run :: "(((u8 \<times> int) \<times> run_msg) list \<times> (u8 \<times> run_msg) list) run_api" where
  "demo_run = \<lparr>ra_is_ok = (\<lambda>e. 0 \<le> e), ra_ret_ok = 0, ra_ret_error = - 1,
     ra_send = (\<lambda>(l, q) n m. (0, l @ [(n, m)], q)),
     ra_recv = (\<lambda>(l, q). case q of [] \<Rightarrow> None | (n, m) # q \<Rightarrow> Some (0, n, m, l, q)),
     AXIOM_CMD_ALLOC_REPLY = 0x20, ra_raw_max = 100,
     al2_alloc_reply = (\<lambda>m d. (True, [7], d)), al2_alloc = (\<lambda>_ p d. (False, p, d)),
     al2_get_regions = (\<lambda>_ p d. (True, p, d)), al2_alloc_shblock = (\<lambda>_ p d. (True, p, d))\<rparr>"

lemma demo_run_ok: "logs_run demo_run fst" "queues_run demo_run snd" "alloc_waits demo_run"
  by (auto simp: lossless_def queues_run_def alloc_waits_def demo_run_def split: prod.splits)

definition demo_hdr :: "u8 \<Rightarrow> header" where
  "demo_hdr c = \<lparr>command = c, status = 0, barrier_id = 0, rpc_id = 9, rpc_function = AXRUN_RPC_ALLOC, rpc_size = 0, magic = 0\<rparr>"

definition demo_reply :: rpc_reply where
  "demo_reply = \<lparr>reply_node = 0, reply_port = 0, reply_hdr = demo_hdr 0\<rparr>"

theorem rpc_reply_to_last_witness:
  "\<exists>r dev. fold (serve_rpc demo_run 5 6) [(1, \<lparr>hdr = demo_hdr CMD_RPC, raw = []\<rparr>), (2, \<lparr>hdr = demo_hdr CMD_RPC, raw = []\<rparr>),
      (0, \<lparr>hdr = demo_hdr 0x20, raw = []\<rparr>)] (demo_reply, [], []) = (r, dev)
    \<and> fst dev = [((2, 6), \<lparr>hdr = demo_hdr CMD_RPC, raw = [7]\<rparr>)]"
proof -
  let ?m = "\<lparr>hdr = demo_hdr CMD_RPC, raw = []\<rparr>"
  have "fst (snd (fold (serve_rpc demo_run 5 6) [(1, ?m), (2, ?m)] (demo_reply, [], []))) = []"
    by (simp add: serve_rpc_def rpc_service_def demo_run_def demo_hdr_def cmd_defs rpc_defs rpc_answer_def)
  then show ?thesis
    using rpc_reply_to_last [OF demo_run_ok(1,3), of "[(1, ?m)]" 2 ?m "\<lparr>hdr = demo_hdr 0x20, raw = []\<rparr>" "[7]" 5 6 0 "(demo_reply, [], [])"]
    by (auto simp: alloc_request_def demo_hdr_def demo_run_def cmd_defs)
qed

end
