(* ===== verification/Run_Master.thy ===== *)
theory Run_Master
  imports Run_Output Run_Rpc
begin

text \<open>
  The services of the master process of \<open>axiom-run\<close> (\<open>axiom-run/master.c\<close>): the thread that receives the
  messages of the slaves, the thread that forwards the standard input, the exit signal handler, and the
  function that runs them.
\<close>

section \<open>The code\<close>

record thread_info =
  ti_services :: u32
  ti_nodes :: u64
  ti_nnodes :: int
  ti_flags :: u32

text \<open>The state of the receiver thread: its parameters, its variables, the static \<open>exit_status\<close> and
  the pending reply of the remote procedure calls.\<close>

record 'd master_state =
  ms_dev :: 'd
  ms_info :: thread_info
  ms_exit_counter :: int
  ms_exit_status :: u32
  ms_infoout :: "output_info list"
  ms_infoerr :: "output_info list"
  ms_stdout :: out_file
  ms_stderr :: out_file
  ms_barrier :: "int list"
  ms_rpc :: rpc_reply

text \<open>The exit status of the session after one more exit status.\<close>

definition exit_update :: "u32 \<Rightarrow> u32 \<Rightarrow> u32 \<Rightarrow> u32" where
  "exit_update flags st exit_status = (let mode = flags AND EXIT_FLAG_MASK in
     if WIFEXITED st
     then (if WIFEXITED exit_status
           then (if mode = FIRST_EXIT_FLAG \<or> mode = FIRST_ABS_EXIT_FLAG then exit_status
                 else if mode = LAST_EXIT_FLAG then st
                 else if mode = GREATHER_EXIT_FLAG then (if WEXITSTATUS st > WEXITSTATUS exit_status then st else exit_status)
                 else if mode = LESSER_EXIT_FLAG then (if WEXITSTATUS st < WEXITSTATUS exit_status then st else exit_status)
                 else exit_status)
           else exit_status)
     else (if WIFEXITED exit_status
           then (if mode = FIRST_ABS_EXIT_FLAG then exit_status else st)
           else exit_status))"

text \<open>A \<open>CMD_EXIT\<close> message. The first one, when the exit service is on, kills the other processes; the
  message is sent back with its command changed.\<close>

definition master_exit :: "'d run_api \<Rightarrow> int \<Rightarrow> run_msg \<Rightarrow> 'd master_state \<Rightarrow> ctl \<times> 'd master_state" where
  "master_exit api slave_port m s = (let info = ms_info s;
     s = (if service_on (ti_services info) EXIT_SERVICE
          then s\<lparr>ms_exit_status := status (hdr m),
                 ms_dev := snd (my_axiom_send_raw api (ms_dev s) (ti_nodes info) slave_port \<lparr>hdr = (hdr m)\<lparr>command := CMD_KILL\<rparr>, raw = []\<rparr>),
                 ms_info := info\<lparr>ti_services := ti_services info AND NOT EXIT_SERVICE\<rparr>\<rparr>
          else s\<lparr>ms_exit_status := exit_update (ti_flags info) (status (hdr m)) (ms_exit_status s)\<rparr>);
     s = (if ti_flags info AND EXIT_FLAG_MASK = NOFAIL_EXIT_FLAG then s\<lparr>ms_exit_status := 0\<rparr> else s);
     s = s\<lparr>ms_exit_counter := ms_exit_counter s - 1\<rparr>
     in (if ms_exit_counter s = 0 then Break else Next, s))"

text \<open>A \<open>CMD_BARRIER\<close> message: the counter of a barrier starts at the number of nodes with the first
  message.\<close>

definition master_barrier :: "'d run_api \<Rightarrow> int \<Rightarrow> run_msg \<Rightarrow> 'd master_state \<Rightarrow> 'd master_state option" where
  "master_barrier api slave_port m s = (let info = ms_info s; i = barrier_id (hdr m) in
     if service_on (ti_services info) BARRIER_SERVICE
     then (if i \<le> AXRUN_MAX_BARRIER_ID
           then do {
             c \<leftarrow> aget (ms_barrier s) (unat i);
             let c = (if c = 0 then ti_nnodes info else c) - 1;
             b \<leftarrow> aset (ms_barrier s) (unat i) c;
             let s = s\<lparr>ms_barrier := b\<rparr>;
             Some (if c = 0
                   then s\<lparr>ms_dev := snd (my_axiom_send_raw api (ms_dev s) (ti_nodes info) slave_port \<lparr>hdr = hdr m, raw = []\<rparr>)\<rparr>
                   else s)
           }
           else Some s)
     else Some s)"

definition master_emit :: "bool \<Rightarrow> u8 \<Rightarrow> run_msg \<Rightarrow> 'd master_state \<Rightarrow> 'd master_state option" where
  "master_emit err node m s =
     (if service_on (ti_services (ms_info s)) REDIRECT_SERVICE
      then (if err
            then do {
              (i, f) \<leftarrow> emit node (raw m) (ms_infoerr s) (ms_stderr s) (ti_flags (ms_info s));
              Some (s\<lparr>ms_infoerr := i, ms_stderr := f\<rparr>)
            }
            else do {
              (i, f) \<leftarrow> emit node (raw m) (ms_infoout s) (ms_stdout s) (ti_flags (ms_info s));
              Some (s\<lparr>ms_infoout := i, ms_stdout := f\<rparr>)
            })
      else Some s)"

definition master_rpc :: "'d run_api \<Rightarrow> int \<Rightarrow> int \<Rightarrow> u8 \<Rightarrow> run_msg \<Rightarrow> 'd master_state \<Rightarrow> 'd master_state" where
  "master_rpc api master_port slave_port node m s =
     (if service_on (ti_services (ms_info s)) RPC_SERVICE
      then (let (_, r, dev) = rpc_service api master_port slave_port node m (ms_rpc s) (ms_dev s)
            in s\<lparr>ms_rpc := r, ms_dev := dev\<rparr>)
      else s)"

text \<open>The loop body: receive and serve one message.\<close>

definition master_msg :: "'d run_api \<Rightarrow> int \<Rightarrow> int \<Rightarrow> u8 \<Rightarrow> run_msg \<Rightarrow> 'd master_state \<Rightarrow> (ctl \<times> 'd master_state) option" where
  "master_msg api master_port slave_port node m s = (let cmd = command (hdr m) in
     if cmd = CMD_SEND_TO_STDERR then map_option (Pair Next) (master_emit True node m s)
     else if cmd = CMD_SEND_TO_STDOUT then map_option (Pair Next) (master_emit False node m s)
     else if cmd = CMD_EXIT then Some (master_exit api slave_port m s)
     else if cmd = CMD_BARRIER then map_option (Pair Next) (master_barrier api slave_port m s)
     else if cmd = CMD_RPC \<or> cmd = AXIOM_CMD_ALLOC_REPLY api
     then Some (Next, master_rpc api master_port slave_port node m s)
     else Some (Next, s))"

definition master_step :: "'d run_api \<Rightarrow> int \<Rightarrow> int \<Rightarrow> 'd master_state \<Rightarrow> (ctl \<times> 'd master_state) option" where
  "master_step api master_port slave_port s = do {
     (ret, node, m, dev) \<leftarrow> ra_recv api (ms_dev s);
     let s = s\<lparr>ms_dev := dev\<rparr>;
     if \<not> ra_is_ok api ret then Some (Next, s) else master_msg api master_port slave_port node m s
   }"

definition empty_output :: output_info where
  "empty_output = \<lparr>oi_buffer = replicate MAX_BUFFER_SIZE 0, oi_sz = 0\<rparr>"

text \<open>The thread: the initial state, the loop, and the output that is still pending. The allocation of
  the buffers and \<open>rpc_init\<close> succeed here (the program exits otherwise).\<close>

definition master_init :: "thread_info \<Rightarrow> out_file \<Rightarrow> out_file \<Rightarrow> u32 \<Rightarrow> rpc_reply \<Rightarrow> 'd \<Rightarrow> 'd master_state" where
  "master_init info fout ferr exit_status r dev = \<lparr>ms_dev = dev, ms_info = info, ms_exit_counter = ti_nnodes info,
     ms_exit_status = exit_status, ms_infoout = replicate MAX_NUM_NODES empty_output,
     ms_infoerr = replicate MAX_NUM_NODES empty_output, ms_stdout = fout, ms_stderr = ferr,
     ms_barrier = replicate (unat AXRUN_MAX_BARRIER_ID + 1) 0, ms_rpc = r\<rparr>"

definition master_receiver :: "'d run_api \<Rightarrow> int \<Rightarrow> int \<Rightarrow> 'd master_state \<Rightarrow> 'd master_state option" where
  "master_receiver api master_port slave_port s = do {
     s \<leftarrow> while_ctl (\<lambda>_. True) (master_step api master_port slave_port) s;
     (i, f) \<leftarrow> flush (ms_infoout s) MAX_NUM_NODES (ms_stdout s) (ti_flags (ms_info s));
     let s = s\<lparr>ms_infoout := i, ms_stdout := f\<rparr>;
     (i, f) \<leftarrow> flush (ms_infoerr s) MAX_NUM_NODES (ms_stderr s) (ti_flags (ms_info s));
     Some (s\<lparr>ms_infoerr := i, ms_stderr := f\<rparr>)
   }"

text \<open>The thread for the standard input. An event is what \<open>select\<close> and \<open>read\<close> report: an interrupted call,
  an error, the request to end, or data (no data at the end of the file, which does not end the
  loop).\<close>

datatype stdin_event = EV_INTR | EV_ERROR | EV_END | EV_DATA bytes

definition stdin_msg :: "header \<Rightarrow> bytes \<Rightarrow> run_msg" where
  "stdin_msg h d = \<lparr>hdr = h\<lparr>command := CMD_RECV_FROM_STDIN\<rparr>, raw = d\<rparr>"

fun master_sender :: "'d run_api \<Rightarrow> int \<Rightarrow> u64 \<Rightarrow> header \<Rightarrow> stdin_event list \<Rightarrow> 'd \<Rightarrow> 'd" where
  "master_sender api slave_port nodes h [] dev = dev"
| "master_sender api slave_port nodes h (EV_INTR # es) dev = master_sender api slave_port nodes h es dev"
| "master_sender api slave_port nodes h (EV_ERROR # es) dev = dev"
| "master_sender api slave_port nodes h (EV_END # es) dev = dev"
| "master_sender api slave_port nodes h (EV_DATA d # es) dev = master_sender api slave_port nodes h es
     (if d \<noteq> [] then snd (my_axiom_send_raw api dev nodes slave_port (stdin_msg h d)) else dev)"

text \<open>The exit signal handler; the device is the last argument, if it is open.\<close>

definition master_myexit :: "'d run_api \<Rightarrow> int \<Rightarrow> u64 \<Rightarrow> bool \<Rightarrow> header \<Rightarrow> u32 \<Rightarrow> 'd option \<Rightarrow> 'd option" where
  "master_myexit api slave_port nodes send_kill h sig dev = (case dev of
       None \<Rightarrow> None
     | Some dev \<Rightarrow> Some (if send_kill
         then snd (s_my_axiom_send_raw api dev nodes slave_port \<lparr>hdr = h\<lparr>command := CMD_KILL, status := sig AND 0x7f\<rparr>, raw = []\<rparr>)
         else dev))"

text \<open>\<open>manage_master_services\<close>: the parameters of the threads, and the exit status once the receiver has
  ended. Its two threads share the device only; this function runs the receiver.\<close>

definition manage_master_services ::
  "'d run_api \<Rightarrow> int \<Rightarrow> int \<Rightarrow> u32 \<Rightarrow> u64 \<Rightarrow> u32 \<Rightarrow> out_file \<Rightarrow> out_file \<Rightarrow> rpc_reply \<Rightarrow> 'd \<Rightarrow> (u32 \<times> 'd master_state) option" where
  "manage_master_services api master_port slave_port services nodes flags fout ferr r dev = do {
     s \<leftarrow> master_receiver api master_port slave_port
       (master_init \<lparr>ti_services = services, ti_nodes = nodes, ti_nnodes = int (count_nodes nodes), ti_flags = flags\<rparr>
         fout ferr 0 r dev);
     Some (ms_exit_status s, s)
   }"

section \<open>Exit statuses\<close>

text \<open>The exit status of a session from the statuses of its processes in the order of their messages;
  \<open>svc\<close> tells whether the exit service waits for the first one.\<close>

primrec exit_result :: "u32 \<Rightarrow> bool \<Rightarrow> u32 list \<Rightarrow> u32 \<Rightarrow> u32" where
  "exit_result flags svc [] es = es"
| "exit_result flags svc (st # sts) es = exit_result flags False sts
     (if flags AND EXIT_FLAG_MASK = NOFAIL_EXIT_FLAG then 0 else if svc then st else exit_update flags st es)"

abbreviation exit_service :: "'d master_state \<Rightarrow> bool" where
  "exit_service s \<equiv> service_on (ti_services (ms_info s)) EXIT_SERVICE"

lemma service_removed: "\<not> service_on (x AND NOT v) v"
  by (simp add: service_on_def bit_eq_iff bit_and_iff bit_not_iff) 

lemma master_exit_fields:
  assumes "master_exit api sp m s = (k, s')"
  shows "ti_flags (ms_info s') = ti_flags (ms_info s)" "ti_nodes (ms_info s') = ti_nodes (ms_info s)" "\<not> exit_service s'"
    "ms_exit_counter s' = ms_exit_counter s - 1" "k = (if ms_exit_counter s = 1 then Break else Next)"
    "ms_exit_status s' = exit_result (ti_flags (ms_info s)) (exit_service s) [status (hdr m)] (ms_exit_status s)"
    "ms_infoout s' = ms_infoout s" "ms_infoerr s' = ms_infoerr s" "ms_barrier s' = ms_barrier s"
  using assms service_removed [of "ti_services (ms_info s)" EXIT_SERVICE]
  by (auto simp: master_exit_def Let_def split: if_splits)

lemma exit_result_append:
  "exit_result fl svc (a @ b) es = exit_result fl (svc \<and> a = []) b (exit_result fl svc a es)"
  by (induction a arbitrary: svc es) auto

lemma master_exits_result:
  "ms_exit_status (fold (\<lambda>m s. snd (master_exit api sp m s)) ms s)
     = exit_result (ti_flags (ms_info s)) (exit_service s) (map (status \<circ> hdr) ms) (ms_exit_status s)"
proof (induction ms arbitrary: s)
  case (Cons m ms)
  obtain k s1 where 1: "master_exit api sp m s = (k, s1)" by fastforce
  note f = master_exit_fields [OF 1]
  from Cons.IH [of s1] f(1,3,6) 1 show ?case by simp
qed simp

lemma exit_normal_run:
  assumes "\<forall>st\<in>set sts. WIFEXITED st" "WIFEXITED es"
    and mode: "mode = fl AND EXIT_FLAG_MASK" "mode \<noteq> NOFAIL_EXIT_FLAG"
  shows "WEXITSTATUS (exit_result fl False sts es) =
      (if mode = GREATHER_EXIT_FLAG then fold max (map WEXITSTATUS sts) (WEXITSTATUS es)
       else if mode = LESSER_EXIT_FLAG then fold min (map WEXITSTATUS sts) (WEXITSTATUS es)
       else if mode = LAST_EXIT_FLAG then last (map WEXITSTATUS (es # sts))
       else WEXITSTATUS es)"
  using assms(1,2)
proof (induction sts arbitrary: es)
  case (Cons st sts)
  let ?es = "exit_update fl st es"
  have st: "WIFEXITED st" "WIFEXITED es" using Cons.prems by auto
  then have "WIFEXITED ?es" by (auto simp: exit_update_def Let_def)
  from Cons.IH [OF _ this] Cons.prems(1) have IH: "WEXITSTATUS (exit_result fl False sts ?es) =
      (if mode = GREATHER_EXIT_FLAG then fold max (map WEXITSTATUS sts) (WEXITSTATUS ?es)
       else if mode = LESSER_EXIT_FLAG then fold min (map WEXITSTATUS sts) (WEXITSTATUS ?es)
       else if mode = LAST_EXIT_FLAG then last (map WEXITSTATUS (?es # sts))
       else WEXITSTATUS ?es)" by simp
  have "WEXITSTATUS ?es =
      (if mode = GREATHER_EXIT_FLAG then max (WEXITSTATUS st) (WEXITSTATUS es)
       else if mode = LESSER_EXIT_FLAG then min (WEXITSTATUS st) (WEXITSTATUS es)
       else if mode = LAST_EXIT_FLAG then WEXITSTATUS st else WEXITSTATUS es)"
    using st mode by (auto simp: exit_update_def Let_def exit_flag_defs max_def min_def)
  with IH mode show ?case by (auto simp: exit_flag_defs)
qed simp

lemma exit_update_WIFEXITED: "WIFEXITED st \<Longrightarrow> WIFEXITED es \<Longrightarrow> WIFEXITED (exit_update fl st es)"
  by (auto simp: exit_update_def Let_def)

lemma exit_update_signal:
  assumes "fl AND EXIT_FLAG_MASK \<noteq> FIRST_ABS_EXIT_FLAG"
  shows "\<not> WIFEXITED es \<Longrightarrow> exit_update fl st es = es" "\<not> WIFEXITED st \<Longrightarrow> WIFEXITED es \<Longrightarrow> exit_update fl st es = st"
  using assms by (auto simp: exit_update_def Let_def)

lemma exit_signal_run:
  assumes "fl AND EXIT_FLAG_MASK \<noteq> NOFAIL_EXIT_FLAG" "fl AND EXIT_FLAG_MASK \<noteq> FIRST_ABS_EXIT_FLAG"
  shows "\<not> WIFEXITED es \<Longrightarrow> exit_result fl False sts es = es"
    "WIFEXITED es \<Longrightarrow> find (\<lambda>st. \<not> WIFEXITED st) sts = Some st \<Longrightarrow> exit_result fl False sts es = st"
proof -
  show stay: "\<not> WIFEXITED es \<Longrightarrow> exit_result fl False sts es = es" for sts es
    by (induction sts arbitrary: es) (use assms in \<open>simp_all add: exit_update_signal\<close>)
  show "WIFEXITED es \<Longrightarrow> find (\<lambda>st. \<not> WIFEXITED st) sts = Some st \<Longrightarrow> exit_result fl False sts es = st"
    by (induction sts arbitrary: es)
      (use assms in \<open>auto simp: exit_update_signal exit_update_WIFEXITED stay split: if_splits\<close>)
qed

text \<open>The exit statuses of processes that all exit normally, by the exit mode.\<close>

lemma exit_result_modes:
  assumes "sts \<noteq> []" "\<forall>st\<in>set sts. WIFEXITED st" "mode < 6" "fl AND EXIT_FLAG_MASK = push_bit EXIT_FLAG_SHIFT (of_nat mode)"
  defines "codes \<equiv> map WEXITSTATUS sts"
  shows "WEXITSTATUS (exit_result fl True sts es) = [Max (set codes), Min (set codes), last codes, hd codes, 0, hd codes] ! mode"
    and "WIFEXITED (exit_result fl True sts es)"
proof -
  obtain st sts' where sts: "sts = st # sts'" using assms(1) by (cases sts) auto
  have r: "exit_result fl True sts es = exit_result fl False sts' (if fl AND EXIT_FLAG_MASK = NOFAIL_EXIT_FLAG then 0 else st)"
    unfolding sts by simp
  have w: "WIFEXITED st" "\<forall>st\<in>set sts'. WIFEXITED st" using assms(2) sts by auto
  have z: "exit_result fl False sts' 0 = 0" if "fl AND EXIT_FLAG_MASK = NOFAIL_EXIT_FLAG"
    using that by (induction sts') auto
  have "mode = 0 \<or> mode = 1 \<or> mode = 2 \<or> mode = 3 \<or> mode = 4 \<or> mode = 5" using assms(3) by auto
  then show "WEXITSTATUS (exit_result fl True sts es) = [Max (set codes), Min (set codes), last codes, hd codes, 0, hd codes] ! mode"
    unfolding r codes_def using exit_normal_run [OF w(2,1) refl] z assms(4) sts
    by (elim disjE) (simp_all add: exit_flag_defs WEXITSTATUS_def Max.set_eq_fold [symmetric] Min.set_eq_fold [symmetric] o_def)
  have w0: "WIFEXITED 0" by (simp add: WIFEXITED_def WTERMSIG_def)
  then have "WIFEXITED es' \<Longrightarrow> \<forall>st\<in>set xs. WIFEXITED st \<Longrightarrow> WIFEXITED (exit_result fl False xs es')" for xs es'
    by (induction xs arbitrary: es') (auto simp: exit_update_WIFEXITED)
  with w w0 show "WIFEXITED (exit_result fl True sts es)" unfolding r by simp
qed

text \<open>C32: the exit modes 0, 1, 4 and 5. With the exit service on, and when all processes exit normally, the exit
  code of the session is the greatest of their codes in mode 0, the least in mode 1, zero in mode 4 and the first in mode 5, as
  the usage text says. (Modes 2 and 3, which it has the other way round, are in \<open>exit_result_modes\<close>.)\<close>

theorem exit_status_modes:
  assumes "service_on (ti_services (ms_info s)) EXIT_SERVICE" "ms \<noteq> []" "\<forall>m\<in>set ms. WIFEXITED (status (hdr m))"
    "mode \<in> {0, 1, 4, 5}" "ti_flags (ms_info s) AND EXIT_FLAG_MASK = push_bit EXIT_FLAG_SHIFT (of_nat mode)"
  shows "let codes = map (\<lambda>m. WEXITSTATUS (status (hdr m))) ms
    in WEXITSTATUS (ms_exit_status (fold (\<lambda>m s. snd (master_exit api sp m s)) ms s))
      = (if mode = 0 then Max (set codes) else if mode = 1 then Min (set codes) else if mode = 4 then 0 else hd codes)"
  using exit_result_modes(1) [of "map (status \<circ> hdr) ms" mode "ti_flags (ms_info s)" "ms_exit_status s"] assms unfolding master_exits_result
  by (auto simp: o_def)

text \<open>C33: signals win. In the exit modes 0 to 3, when a process has died from a signal, the exit status of the
  session is the status of the first process that died from a signal.\<close>

theorem exit_status_first_signal:
  assumes "find (\<lambda>m. \<not> WIFEXITED (status (hdr m))) ms = Some m" "WIFEXITED (ms_exit_status s)"
    "ti_flags (ms_info s) AND EXIT_FLAG_MASK \<notin> {NOFAIL_EXIT_FLAG, FIRST_ABS_EXIT_FLAG}"
  shows "ms_exit_status (fold (\<lambda>m s. snd (master_exit api sp m s)) ms s) = status (hdr m)"
proof -
  let ?fl = "ti_flags (ms_info s)"
  obtain m0 ms' where ms: "ms = m0 # ms'" using assms(1) by (cases ms) auto
  have f: "find (\<lambda>st. \<not> WIFEXITED st) (map (status \<circ> hdr) ms') = map_option (status \<circ> hdr) (find (\<lambda>m. \<not> WIFEXITED (status (hdr m))) ms')"
    by (induction ms') auto
  have fl: "?fl AND EXIT_FLAG_MASK \<noteq> NOFAIL_EXIT_FLAG" "?fl AND EXIT_FLAG_MASK \<noteq> FIRST_ABS_EXIT_FLAG"
    using assms(3) by auto
  let ?es = "if exit_service s then status (hdr m0) else exit_update ?fl (status (hdr m0)) (ms_exit_status s)"
  have r: "ms_exit_status (fold (\<lambda>m s. snd (master_exit api sp m s)) ms s) = exit_result ?fl False (map (status \<circ> hdr) ms') ?es"
    unfolding master_exits_result ms using fl by simp
  show ?thesis
  proof (cases "WIFEXITED (status (hdr m0))")
    case True
    then have "WIFEXITED ?es" "find (\<lambda>st. \<not> WIFEXITED st) (map (status \<circ> hdr) ms') = Some (status (hdr m))"
      using assms(1,2) f ms by (auto simp: exit_update_WIFEXITED)
    from exit_signal_run(2) [OF fl this] show ?thesis unfolding r .
  next
    case False
    then have "?es = status (hdr m)" using assms(1,2) ms fl by (auto simp: exit_update_signal)
    with False exit_signal_run(1) [OF fl, of "status (hdr m)"] assms(1) ms show ?thesis unfolding r by simp
  qed
qed

section \<open>Barriers\<close>

text \<open>The messages that release a barrier: those that complete a round of \<open>n\<close> messages with their
  number; \<open>c k\<close> messages with number \<open>k\<close> came before.\<close>

primrec releases :: "nat \<Rightarrow> (u32 \<Rightarrow> nat) \<Rightarrow> run_msg list \<Rightarrow> run_msg list" where
  "releases n c [] = []"
| "releases n c (m # ms) = (let k = barrier_id (hdr m); c' = c(k := Suc (c k))
     in (if c' k mod n = 0 then [m] else []) @ releases n c' ms)"

definition barrier_count :: "u32 \<Rightarrow> run_msg list \<Rightarrow> nat" where
  "barrier_count k ms = length (filter (\<lambda>m. barrier_id (hdr m) = k) ms)"

lemma barrier_count_simps [simp]:
  "barrier_count k [] = 0" "barrier_count k (m # ms) = (if barrier_id (hdr m) = k then Suc (barrier_count k ms) else barrier_count k ms)"
  "barrier_count k (a @ b) = barrier_count k a + barrier_count k b"
  by (simp_all add: barrier_count_def)

lemma Suc_div_split: "0 < n \<Longrightarrow> Suc a div n = (if Suc a mod n = 0 then Suc (a div n) else a div n)" for n :: nat
  by (simp add: div_Suc)

text \<open>Every barrier is released once per round.\<close>

lemma releases_count: "0 < n \<Longrightarrow> barrier_count k (releases n c ms) + c k div n = (c k + barrier_count k ms) div n"
proof (induction ms arbitrary: c)
  case (Cons m ms)
  let ?k = "barrier_id (hdr m)"
  define c' where "c' = c(?k := Suc (c ?k))"
  have r: "releases n c (m # ms) = (if Suc (c ?k) mod n = 0 then [m] else []) @ releases n c' ms"
    by (simp add: c'_def Let_def)
  have ck: "c' k = (if ?k = k then Suc (c k) else c k)" by (simp add: c'_def)
  from Cons.IH [OF Cons.prems, of c'] Suc_div_split [OF Cons.prems, of "c k"] show ?case unfolding r
    using ck by (cases "?k = k") (auto split: if_splits)
qed simp

text \<open>The counter of a barrier counts down from \<open>n\<close>.\<close>

definition counters_ok :: "nat \<Rightarrow> (u32 \<Rightarrow> nat) \<Rightarrow> int list \<Rightarrow> bool" where
  "counters_ok n c b \<longleftrightarrow> length b = 16 \<and> (\<forall>k \<le> AXRUN_MAX_BARRIER_ID.
     b ! unat k = (if c k mod n = 0 then 0 else int n - int (c k mod n)))"

lemma unat_barrier: "k \<le> AXRUN_MAX_BARRIER_ID \<Longrightarrow> unat k < 16"
  by (simp add: AXRUN_MAX_BARRIER_ID_def word_le_nat_alt)

lemma counter_step:
  assumes "0 < n" "v = (if c mod n = 0 then 0 else int n - int (c mod n))"
  shows "(if v = 0 then int n else v) - 1 = (if Suc c mod n = 0 then 0 else int n - int (Suc c mod n))"
proof -
  have "c mod n < n" using assms(1) by simp
  with assms(2) show ?thesis by (auto simp: mod_Suc split: if_splits)
qed

lemma counters_ok_step:
  assumes "0 < n" "counters_ok n c b" "k \<le> AXRUN_MAX_BARRIER_ID"
  shows "counters_ok n (c(k := Suc (c k))) (b[unat k := (if b ! unat k = 0 then int n else b ! unat k) - 1])"
    "((if b ! unat k = 0 then int n else b ! unat k) - 1 = 0) = (Suc (c k) mod n = 0)"
proof -
  have v: "b ! unat k = (if c k mod n = 0 then 0 else int n - int (c k mod n))"
    using assms(2,3) by (simp add: counters_ok_def)
  note st = counter_step [OF assms(1) v]
  show "((if b ! unat k = 0 then int n else b ! unat k) - 1 = 0) = (Suc (c k) mod n = 0)"
    unfolding st using mod_less_divisor [OF assms(1), of "Suc (c k)"] by auto
  show "counters_ok n (c(k := Suc (c k))) (b[unat k := (if b ! unat k = 0 then int n else b ! unat k) - 1])"
    unfolding st using assms(2,3) unat_barrier [OF assms(3)]
    by (auto simp: counters_ok_def nth_list_update word_unat_eq_iff)
qed

lemma master_barrier_step:
  assumes log: "logs_run api sent" and n: "0 < n" "ti_nnodes (ms_info s) = int n"
    and on: "service_on (ti_services (ms_info s)) BARRIER_SERVICE"
    and c: "counters_ok n c (ms_barrier s)" and k: "barrier_id (hdr m) \<le> AXRUN_MAX_BARRIER_ID"
  obtains s' where "master_barrier api sp m s = Some s'" "ms_info s' = ms_info s"
    "counters_ok n (c(barrier_id (hdr m) := Suc (c (barrier_id (hdr m))))) (ms_barrier s')"
    "sent (ms_dev s') = sent (ms_dev s)
      @ (if Suc (c (barrier_id (hdr m))) mod n = 0 then broadcast (ti_nodes (ms_info s)) sp \<lparr>hdr = hdr m, raw = []\<rparr> else [])"
proof -
  let ?k = "barrier_id (hdr m)" and ?b = "ms_barrier s"
  let ?v = "(if ?b ! unat ?k = 0 then int n else ?b ! unat ?k) - 1" and ?m = "\<lparr>hdr = hdr m, raw = []\<rparr>"
  have len: "unat ?k < length ?b" using c unat_barrier [OF k] by (simp add: counters_ok_def)
  note st = counters_ok_step [OF n(1) c k]
  obtain d where d: "my_axiom_send_raw api (ms_dev s) (ti_nodes (ms_info s)) sp ?m = (ra_ret_ok api, d)"
    "sent d = sent (ms_dev s) @ broadcast (ti_nodes (ms_info s)) sp ?m" using broadcast_log [OF log] by blast
  let ?s = "s\<lparr>ms_barrier := ?b[unat ?k := ?v], ms_dev := if ?v = 0 then d else ms_dev s\<rparr>"
  have 1: "master_barrier api sp m s = Some ?s"
    using n(2) on k len d(1) by (simp add: master_barrier_def Let_def)
  have 2: "sent (ms_dev ?s) = sent (ms_dev s) @ (if Suc (c ?k) mod n = 0 then broadcast (ti_nodes (ms_info s)) sp ?m else [])"
    unfolding st(2) [symmetric] using d(2) by simp
  show ?thesis by (rule that [OF 1 _ _ 2]) (use st(1) in simp_all)
qed

lemma master_barrier_run:
  assumes log: "logs_run api sent" and n: "0 < n" "ti_nnodes (ms_info s) = int n"
    and on: "service_on (ti_services (ms_info s)) BARRIER_SERVICE"
    and "counters_ok n c (ms_barrier s)" "\<forall>m\<in>set ms. barrier_id (hdr m) \<le> AXRUN_MAX_BARRIER_ID"
  shows "\<exists>s'. for_each (master_barrier api sp) ms s = Some s' \<and> sent (ms_dev s') = sent (ms_dev s)
    @ concat (map (\<lambda>m. broadcast (ti_nodes (ms_info s)) sp \<lparr>hdr = hdr m, raw = []\<rparr>) (releases n c ms))"
  using assms(3-)
proof (induction ms arbitrary: s c)
  case (Cons m ms)
  let ?c = "c(barrier_id (hdr m) := Suc (c (barrier_id (hdr m))))"
  have "barrier_id (hdr m) \<le> AXRUN_MAX_BARRIER_ID" using Cons.prems by simp
  from master_barrier_step [OF log n(1) Cons.prems(1,2,3) this] obtain s1 where
    1: "master_barrier api sp m s = Some s1" "ms_info s1 = ms_info s" "counters_ok n ?c (ms_barrier s1)"
    "sent (ms_dev s1) = sent (ms_dev s) @ (if Suc (c (barrier_id (hdr m))) mod n = 0
       then broadcast (ti_nodes (ms_info s)) sp \<lparr>hdr = hdr m, raw = []\<rparr> else [])" by blast
  have "ti_nnodes (ms_info s1) = int n" "service_on (ti_services (ms_info s1)) BARRIER_SERVICE"
    "\<forall>m\<in>set ms. barrier_id (hdr m) \<le> AXRUN_MAX_BARRIER_ID" using Cons.prems 1(2) by simp_all
  from Cons.IH [OF this(1,2) 1(3) this(3)] obtain s' where 2: "for_each (master_barrier api sp) ms s1 = Some s'"
    "sent (ms_dev s') = sent (ms_dev s1) @ concat (map (\<lambda>m. broadcast (ti_nodes (ms_info s)) sp \<lparr>hdr = hdr m, raw = []\<rparr>)
      (releases n ?c ms))" unfolding 1(2) by blast
  from 1(1) 2(1) have "for_each (master_barrier api sp) (m # ms) s = Some s'" by (simp only: for_each.simps bind.simps)
  moreover have "releases n c (m # ms) = (if Suc (c (barrier_id (hdr m))) mod n = 0 then [m] else []) @ releases n ?c ms"
    by (simp only: releases.simps Let_def fun_upd_same)
  ultimately show ?case using 1(4) 2(2) by simp
qed simp

text \<open>Barriers. From the start, for any sequence of barrier messages with valid numbers, the master
  sends to all the nodes exactly the messages that complete a round of one message per node, and nothing else; and
  a barrier that received \<open>q\<close> messages has been released \<open>q\<close> divided by the number of nodes times.\<close>

theorem barrier_releases:
  assumes "logs_run api sent" "ms_barrier s = replicate (unat AXRUN_MAX_BARRIER_ID + 1) 0"
    "service_on (ti_services (ms_info s)) BARRIER_SERVICE" "0 < n" "ti_nnodes (ms_info s) = int n"
    "\<forall>m\<in>set ms. barrier_id (hdr m) \<le> AXRUN_MAX_BARRIER_ID"
  shows "(\<exists>s'. for_each (master_barrier api sp) ms s = Some s' \<and> sent (ms_dev s') = sent (ms_dev s)
      @ concat (map (\<lambda>m. broadcast (ti_nodes (ms_info s)) sp \<lparr>hdr = hdr m, raw = []\<rparr>) (releases n (\<lambda>_. 0) ms)))
    \<and> barrier_count k (releases n (\<lambda>_. 0) ms) = barrier_count k ms div n"
proof -
  have "counters_ok n (\<lambda>_. 0) (ms_barrier s)"
    using assms(2,4) unat_barrier by (auto simp: counters_ok_def AXRUN_MAX_BARRIER_ID_def)
  from master_barrier_run [OF assms(1,4,5,3) this assms(6)] releases_count [OF assms(4), of k "\<lambda>_. 0" ms] show ?thesis
    by simp
qed

section \<open>The receiver ends\<close>

text \<open>\<open>emit\<close> never fails on a node below 63 and a message that fits in the buffer, whatever the stream does.\<close>

lemma emit_lines_rest: "length (fst (emit_lines e t ns p b f)) \<le> length b"
proof (induction b arbitrary: ns p f rule: measure_induct_rule [where f = length])
  case (less b)
  show ?case
  proof (cases "memchr_nl (drop (Suc p) b)")
    case None
    then show ?thesis by (subst emit_lines.simps) (simp add: Let_def)
  next
    case (Some q)
    then have "length (drop (Suc p) b) < length b"
      using drop_shorter [of 10 p b] by (auto simp: memchr_nl_def split: if_splits)
    from less.IH [OF this] this have "length (fst (emit_lines e t True q (drop (Suc p) b) f')) \<le> length b" for f'
      by (meson le_trans less_imp_le_nat)
    with Some show ?thesis by (subst emit_lines.simps) (simp add: Let_def)
  qed
qed

lemma emit_total:
  assumes ok: "infos_ok infos" and node: "unat node < 63" and b: "length buffer \<le> MAX_BUFFER_SIZE"
  shows "\<exists>i f'. emit node buffer infos f flags = Some (i, f') \<and> infos_ok i"
proof -
  let ?v = "infos ! unat node" and ?e = "flags AND IDENT_FLAG \<noteq> 0"
  let ?t = "ident_tag (flags AND ALTERNATE_IDENT_FLAG \<noteq> 0) node"
  have v: "aget infos (unat node) = Some ?v" "info_ok ?v" and n: "unat node \<le> MAX_NUM_NODES"
    and set: "aset infos (unat node) w = Some (infos[unat node := w])" for w
    using ok node infos_okD by (auto simp: infos_ok_def MAX_NUM_NODES_def)
  show ?thesis
  proof (cases "if ?e then memchr_nl buffer else memrchr_nl buffer")
    case None
    let ?ov = "oi_sz ?v + length buffer > MAX_BUFFER_SIZE \<and> oi_sz ?v > 0"
    let ?v1 = "if ?ov then ?v\<lparr>oi_sz := 0\<rparr> else ?v"
    have v1: "info_ok ?v1" "oi_sz ?v1 + length buffer \<le> MAX_BUFFER_SIZE" using v(2) b by (auto simp: info_ok_def)
    have "emit node buffer infos f flags = Some (infos[unat node :=
        ?v1\<lparr>oi_buffer := splice (oi_buffer ?v1) (oi_sz ?v1) buffer, oi_sz := oi_sz ?v1 + length buffer\<rparr>],
        if ?ov then write_out (pending ?v) f else f)"
      using None v n set v1 by (auto simp: emit_def Let_def)
    with infos_ok_update [OF ok pending_add(1) [OF v1]] show ?thesis by blast
  next
    case (Some p)
    obtain v1 f1 ns where 1: "emit_pending ?e ?t ?v f = (v1, f1, ns)" using prod_cases3 by blast
    then have v1: "info_ok v1" "pending v1 = []" using v(2) by (auto simp: emit_pending_def info_ok_def split: if_splits)
    obtain r f2 where 2: "emit_lines ?e ?t ns p buffer f1 = (r, f2)" by fastforce
    with emit_lines_rest [of ?e ?t ns p buffer f1] b have "length r \<le> MAX_BUFFER_SIZE" by simp
    from store_rest_run [OF v1 this] obtain v2 where 3: "store_rest r v1 = Some v2" "info_ok v2" by blast
    have "emit node buffer infos f flags = Some (infos[unat node := v2], f2)"
      using Some v n set 1 2 3(1) by (simp add: emit_def Let_def)
    with infos_ok_update [OF ok 3(2)] show ?thesis by blast
  qed
qed

lemma flush_total:
  assumes "infos_ok infos"
  shows "\<exists>i f'. flush infos MAX_NUM_NODES f flags = Some (i, f') \<and> infos_ok i"
proof -
  have "\<exists>s'. for_each (flush_node flags) xs s = Some s' \<and> infos_ok (fst s')"
    if "infos_ok (fst s)" "set xs \<subseteq> {..<63}" for xs s
    using that
  proof (induction xs arbitrary: s)
    case (Cons x xs)
    obtain i f where s: "s = (i, f)" by fastforce
    have x: "x < length i" "info_ok (i ! x)" using Cons.prems s infos_okD by (auto simp: infos_ok_def MAX_NUM_NODES_def)
    then have "info_ok ((i ! x)\<lparr>oi_sz := 0\<rparr>)" by (simp add: info_ok_def)
    then have "\<exists>s1. flush_node flags x s = Some s1 \<and> infos_ok (fst s1)"
      using x Cons.prems(1) s infos_ok_update by (auto simp: flush_node_def Let_def)
    then show ?case using Cons.IH Cons.prems(2) by fastforce
  qed simp
  moreover have "set [0..<MAX_NUM_NODES] \<subseteq> {..<63}" by (auto simp: MAX_NUM_NODES_def)
  ultimately show ?thesis using assms unfolding flush_def by (metis fst_conv prod.collapse)
qed

definition master_ok :: "'d master_state \<Rightarrow> bool" where
  "master_ok s \<longleftrightarrow> infos_ok (ms_infoout s) \<and> infos_ok (ms_infoerr s) \<and> length (ms_barrier s) = 16"

text \<open>The allocator calls do not receive.\<close>

definition al2_keeps :: "'d run_api \<Rightarrow> ('d \<Rightarrow> (u8 \<times> run_msg) list) \<Rightarrow> bool" where
  "al2_keeps api inbox \<longleftrightarrow> (\<forall>m d. inbox (snd (snd (al2_alloc_reply api m d))) = inbox d)
     \<and> (\<forall>p b d. inbox (snd (snd (al2_alloc api p b d))) = inbox d)
     \<and> (\<forall>n b d. inbox (snd (snd (al2_get_regions api n b d))) = inbox d)
     \<and> (\<forall>n b d. inbox (snd (snd (al2_alloc_shblock api n b d))) = inbox d)"

lemma broadcast_inbox: "queues_run api inbox \<Longrightarrow> inbox (snd (my_axiom_send_raw api d nodes p m)) = inbox d"
  using broadcast_keeps [of "\<lambda>d'. inbox d' = inbox d" api d nodes p m] queues_send by metis

lemma rpc_inbox:
  assumes q: "queues_run api inbox" and a: "al2_keeps api inbox"
  shows "inbox (snd (snd (rpc_service api mp sp src m r dev))) = inbox dev"
proof -
  have snd: "inbox (snd (ra_send api d x y)) = inbox d" for d x y by (rule queues_send [OF q])
  have ans: "inbox (rpc_answer api sp src x b d) = inbox d" for x b d by (simp add: rpc_answer_def snd)
  have rep: "inbox d' = inbox d" if "rpc_send_reply api r b d = (x, d')" for b d x d'
    using that snd by (auto simp: rpc_send_reply_def split: prod.splits) (metis snd_conv)
  have r1: "inbox d = inbox dev" if "al2_alloc_reply api m dev = (x, y, d)" for x y d
    using that a unfolding al2_keeps_def by (metis snd_conv)
  have r2: "inbox d = inbox dev" if "al2_alloc api mp (raw m) dev = (x, y, d)" for x y d
    using that a unfolding al2_keeps_def by (metis snd_conv)
  have r3: "inbox d = inbox dev" if "al2_get_regions api src (raw m) dev = (x, y, d)" for x y d
    using that a unfolding al2_keeps_def by (metis snd_conv)
  have r4: "inbox d = inbox dev" if "al2_alloc_shblock api src (raw m) dev = (x, y, d)" for x y d
    using that a unfolding al2_keeps_def by (metis snd_conv)
  show ?thesis unfolding rpc_service_def
    by (auto simp: ans Let_def dest!: r1 r2 r3 r4 rep split: prod.splits)
qed

text \<open>The exit messages of a sequence of messages, and the messages that the receiver can serve.\<close>

definition exits :: "(u8 \<times> run_msg) list \<Rightarrow> u32 list" where
  "exits ms = map (status \<circ> hdr \<circ> snd) (filter (\<lambda>x. command (hdr (snd x)) = CMD_EXIT) ms)"

definition msg_fits :: "u8 \<times> run_msg \<Rightarrow> bool" where
  "msg_fits x \<longleftrightarrow> command (hdr (snd x)) \<in> {CMD_SEND_TO_STDOUT, CMD_SEND_TO_STDERR} \<longrightarrow>
     unat (fst x) < 63 \<and> length (raw (snd x)) \<le> MAX_BUFFER_SIZE"

text \<open>A message that is not an exit leaves the exit variables alone.\<close>

lemma master_msg_other:
  assumes q: "queues_run api inbox" and a: "al2_keeps api inbox" and ok: "master_ok s" and m: "msg_fits (node, m)"
    and c: "command (hdr m) \<noteq> CMD_EXIT"
  shows "\<exists>s'. master_msg api mp sp node m s = Some (Next, s') \<and> master_ok s' \<and> inbox (ms_dev s') = inbox (ms_dev s)
    \<and> ms_info s' = ms_info s \<and> ms_exit_counter s' = ms_exit_counter s \<and> ms_exit_status s' = ms_exit_status s"
proof -
  have b: "\<exists>s'. master_barrier api sp m s = Some s' \<and> master_ok s' \<and> inbox (ms_dev s') = inbox (ms_dev s)
    \<and> ms_info s' = ms_info s \<and> ms_exit_counter s' = ms_exit_counter s \<and> ms_exit_status s' = ms_exit_status s"
    using ok unat_barrier [of "barrier_id (hdr m)"] broadcast_inbox [OF q]
    by (auto simp: master_barrier_def master_ok_def Let_def)
  have e: "\<exists>s'. master_emit err node m s = Some s' \<and> master_ok s' \<and> inbox (ms_dev s') = inbox (ms_dev s)
    \<and> ms_info s' = ms_info s \<and> ms_exit_counter s' = ms_exit_counter s \<and> ms_exit_status s' = ms_exit_status s"
    if "command (hdr m) \<in> {CMD_SEND_TO_STDOUT, CMD_SEND_TO_STDERR}" for err
    using ok m that emit_total [of "ms_infoout s" node "raw m" "ms_stdout s" "ti_flags (ms_info s)"]
      emit_total [of "ms_infoerr s" node "raw m" "ms_stderr s" "ti_flags (ms_info s)"]
    by (auto simp: master_emit_def master_ok_def msg_fits_def)
  have r: "master_ok (master_rpc api mp sp node m s) \<and> inbox (ms_dev (master_rpc api mp sp node m s)) = inbox (ms_dev s)
    \<and> ms_info (master_rpc api mp sp node m s) = ms_info s
    \<and> ms_exit_counter (master_rpc api mp sp node m s) = ms_exit_counter s \<and> ms_exit_status (master_rpc api mp sp node m s) = ms_exit_status s"
    using ok rpc_inbox [OF q a, of mp sp node m "ms_rpc s" "ms_dev s"]
    by (auto simp: master_rpc_def master_ok_def split: prod.splits)
  from b e [of True] e [of False] r c ok show ?thesis by (auto simp: master_msg_def Let_def)
qed

lemma exits_simps [simp]:
  "exits [] = []" "exits (x # xs) = (if command (hdr (snd x)) = CMD_EXIT then [status (hdr (snd x))] else []) @ exits xs"
  by (simp_all add: exits_def)

lemma receiver_loop:
  assumes q: "queues_run api inbox" and a: "al2_keeps api inbox"
    and "master_ok s" "\<forall>x\<in>set ms. msg_fits x" "inbox (ms_dev s) = ms @ rest"
    "ms_exit_counter s = int (length (exits ms))" "ms \<noteq> []" "command (hdr (snd (last ms))) = CMD_EXIT"
  shows "\<exists>s'. while_ctl (\<lambda>_. True) (master_step api mp sp) s = Some s' \<and> master_ok s' \<and> inbox (ms_dev s') = rest
    \<and> ms_exit_status s' = exit_result (ti_flags (ms_info s)) (exit_service s) (exits ms) (ms_exit_status s)"
  using assms(3-)
proof (induction ms arbitrary: s)
  case (Cons x ms)
  obtain node m where x: "x = (node, m)" by fastforce
  from queues_recv [OF q, of "ms_dev s" node m "ms @ rest"] Cons.prems(3) x obtain e d where
    d: "ra_recv api (ms_dev s) = Some (e, node, m, d)" "ra_is_ok api e" "inbox d = ms @ rest" by auto
  let ?s = "s\<lparr>ms_dev := d\<rparr>"
  have st: "master_step api mp sp s = master_msg api mp sp node m ?s" using d by (simp add: master_step_def)
  have ok: "master_ok ?s" using Cons.prems(1) by (simp add: master_ok_def)
  show ?case
  proof (cases "command (hdr m) = CMD_EXIT")
    case False
    from master_msg_other [OF q a ok _ this, of node mp sp] Cons.prems(2) x obtain s1 where
      1: "master_step api mp sp s = Some (Next, s1)" "master_ok s1" "inbox (ms_dev s1) = ms @ rest" "ms_info s1 = ms_info s"
        "ms_exit_counter s1 = ms_exit_counter s" "ms_exit_status s1 = ms_exit_status s" using st d(3) by auto
    from False Cons.prems(5,6) x have ne: "ms \<noteq> []" "command (hdr (snd (last ms))) = CMD_EXIT" by (auto split: if_splits)
    from Cons.IH [OF 1(2) _ 1(3) _ ne] Cons.prems(2,4) 1(4-6) False x show ?thesis
      unfolding loop_Next [of "master_step api mp sp", OF 1(1)] by auto
  next
    case True
    obtain k s1 where k: "master_exit api sp m ?s = (k, s1)" by fastforce
    note f = master_exit_fields [OF k]
    have 1: "master_step api mp sp s = Some (k, s1)" using st True k by (simp add: master_msg_def Let_def cmd_defs)
    have in1: "inbox (ms_dev s1) = ms @ rest" using k d(3) broadcast_inbox [OF q] by (auto simp: master_exit_def Let_def split: if_splits)
    have ok1: "master_ok s1" using ok f(7-9) by (simp add: master_ok_def)
    have c1: "ms_exit_counter s1 = int (length (exits ms))" using Cons.prems(4) f(4) True x by simp
    show ?thesis
    proof (cases "exits ms = []")
      case nil: True
      then have "ms = []" using Cons.prems(6) by (cases ms rule: rev_cases) (auto simp: exits_def split: if_splits)
      moreover have "k = Break" using nil Cons.prems(4) f(5) True x by simp
      ultimately show ?thesis using while_ctl_Break [of "\<lambda>_. True" s "master_step api mp sp" s1] 1 ok1 in1 f(6) True x
        by (intro exI [of _ s1]) simp
    next
      case False
      then have "k = Next" and ne: "ms \<noteq> []" "command (hdr (snd (last ms))) = CMD_EXIT"
        using Cons.prems(4,6) f(5) True x by (auto split: if_splits)
      from Cons.IH [OF ok1 _ in1 c1 ne] Cons.prems(2) f(1,3,6) True x show ?thesis
        unfolding loop_Next [of "master_step api mp sp", OF 1 [unfolded \<open>k = Next\<close>]] by auto
    qed
  qed
qed simp

text \<open>The master ends. When the messages of the slaves contain one exit message for each node of the
  session, the receiver takes exactly the messages up to the last exit, ends, and returns the exit status that
  follows from the exit messages in their order, whatever the other messages are and whatever the terminal
  does.\<close>

theorem manage_master_services_returns:
  assumes "queues_run api inbox" "al2_keeps api inbox" "inbox dev = ms @ rest" "\<forall>x\<in>set ms. msg_fits x"
    "ms \<noteq> []" "command (hdr (snd (last ms))) = CMD_EXIT" "length (exits ms) = count_nodes nodes"
  shows "\<exists>s. manage_master_services api mp sp services nodes flags fout ferr r dev
      = Some (exit_result flags (service_on services EXIT_SERVICE) (exits ms) 0, s) \<and> inbox (ms_dev s) = rest"
proof -
  let ?info = "\<lparr>ti_services = services, ti_nodes = nodes, ti_nnodes = int (count_nodes nodes), ti_flags = flags\<rparr>"
  let ?s = "master_init ?info fout ferr 0 r dev"
  have ok: "master_ok ?s" by (auto simp: master_ok_def master_init_def infos_ok_def info_ok_def empty_output_def AXRUN_MAX_BARRIER_ID_def)
  from receiver_loop [OF assms(1,2) ok assms(4), of rest mp sp] assms(3,5-7) obtain s1 where
    1: "while_ctl (\<lambda>_. True) (master_step api mp sp) ?s = Some s1" "master_ok s1" "inbox (ms_dev s1) = rest"
      "ms_exit_status s1 = exit_result flags (service_on services EXIT_SERVICE) (exits ms) 0"
    by (auto simp: master_init_def)
  from flush_total [of "ms_infoout s1" "ms_stdout s1" "ti_flags (ms_info s1)"]
    flush_total [of "ms_infoerr s1" "ms_stderr s1" "ti_flags (ms_info s1)"] 1(2) obtain i f i' f' where
    "flush (ms_infoout s1) MAX_NUM_NODES (ms_stdout s1) (ti_flags (ms_info s1)) = Some (i, f)"
    "flush (ms_infoerr s1) MAX_NUM_NODES (ms_stderr s1) (ti_flags (ms_info s1)) = Some (i', f')"
    by (auto simp: master_ok_def)
  with 1 show ?thesis by (simp add: manage_master_services_def master_receiver_def)
qed

section \<open>Instances\<close>

text \<open>A session of the nodes 1 and 2 with exit and barrier services, and its messages.\<close>

definition demo_session :: "(((u8 \<times> int) \<times> run_msg) list \<times> (u8 \<times> run_msg) list) master_state" where
  "demo_session = master_init \<lparr>ti_services = EXIT_SERVICE OR BARRIER_SERVICE, ti_nodes = 6, ti_nnodes = 2, ti_flags = 0\<rparr>
     \<lparr>of_data = [], of_room = []\<rparr> \<lparr>of_data = [], of_room = []\<rparr> 0 demo_reply ([], [])"

definition demo_exit :: "u32 \<Rightarrow> run_msg" where
  "demo_exit st = \<lparr>hdr = (demo_hdr CMD_EXIT)\<lparr>status := st\<rparr>, raw = []\<rparr>"

definition demo_barrier :: "u32 \<Rightarrow> run_msg" where
  "demo_barrier i = \<lparr>hdr = (demo_hdr CMD_BARRIER)\<lparr>barrier_id := i\<rparr>, raw = []\<rparr>"

lemma demo_session_simps:
  "ti_services (ms_info demo_session) = 3" "ti_flags (ms_info demo_session) = 0" "ti_nnodes (ms_info demo_session) = 2"
  "ti_nodes (ms_info demo_session) = 6" "ms_exit_status demo_session = 0" "ms_dev demo_session = ([], [])"
  "ms_barrier demo_session = replicate (unat AXRUN_MAX_BARRIER_ID + 1) 0"
  "status (hdr (demo_exit st)) = st" "command (hdr (demo_exit st)) = CMD_EXIT" "barrier_id (hdr (demo_barrier i)) = i"
  by (simp_all add: demo_session_def master_init_def service_defs demo_exit_def demo_barrier_def demo_hdr_def)

lemma demo_al2_keeps: "al2_keeps demo_run snd"
  by (simp add: al2_keeps_def demo_run_def)

theorem exit_status_modes_witness:
  "WEXITSTATUS (ms_exit_status (fold (\<lambda>m s. snd (master_exit demo_run 6 m s)) [demo_exit 0x300, demo_exit 0x500] demo_session)) = 5"
  using exit_status_modes [of demo_session "[demo_exit 0x300, demo_exit 0x500]" 0 demo_run 6]
  by (simp add: demo_session_simps service_on_def service_defs WIFEXITED_def WTERMSIG_def WEXITSTATUS_def)

theorem exit_status_first_signal_witness:
  "ms_exit_status (fold (\<lambda>m s. snd (master_exit demo_run 6 m s)) [demo_exit 0x300, demo_exit 9, demo_exit 15] demo_session) = 9"
  using exit_status_first_signal [of "[demo_exit 0x300, demo_exit 9, demo_exit 15]" "demo_exit 9" demo_session demo_run 6]
  by (simp add: demo_session_simps WIFEXITED_def WTERMSIG_def exit_flag_defs)

theorem barrier_releases_witness:
  "(\<exists>s'. for_each (master_barrier demo_run 6) [demo_barrier 1, demo_barrier 2, demo_barrier 1] demo_session = Some s'
     \<and> fst (ms_dev s') = broadcast 6 6 (demo_barrier 1))
   \<and> barrier_count 1 (releases 2 (\<lambda>_. 0) [demo_barrier 1, demo_barrier 2, demo_barrier 1]) = 1"
proof -
  have "releases 2 (\<lambda>_. 0) [demo_barrier 1, demo_barrier 2, demo_barrier 1] = [demo_barrier 1]"
    by (simp add: demo_session_simps Let_def)
  moreover have "\<lparr>hdr = hdr (demo_barrier 1), raw = []\<rparr> = demo_barrier 1" by (simp add: demo_barrier_def)
  ultimately show ?thesis
    using barrier_releases [OF demo_run_ok(1), of demo_session 2 "[demo_barrier 1, demo_barrier 2, demo_barrier 1]" 6 1]
    by (simp add: demo_session_simps service_on_def service_defs AXRUN_MAX_BARRIER_ID_def)
qed

theorem manage_master_services_returns_witness:
  "\<exists>s. manage_master_services demo_run 5 6 EXIT_SERVICE 6 0 \<lparr>of_data = [], of_room = []\<rparr> \<lparr>of_data = [], of_room = []\<rparr> demo_reply
      ([], [(1, demo_exit 0x300), (2, demo_exit 0x500), (1, demo_barrier 1)])
    = Some (0x500, s) \<and> snd (ms_dev s) = [(1, demo_barrier 1)]"
proof -
  let ?ms = "[(1, demo_exit 0x300), (2, demo_exit 0x500)]"
  have "count_nodes 6 = 2" by (simp add: count_nodes_def mask_nodes.simps)
  moreover have "exits ?ms = [0x300, 0x500]" by (simp add: demo_session_simps)
  moreover have "exit_result 0 True [0x300, 0x500] 0 = 0x500"
    by (simp add: exit_flag_defs exit_update_def WIFEXITED_def WTERMSIG_def WEXITSTATUS_def)
  moreover have "\<forall>x\<in>set ?ms. msg_fits x" by (simp add: msg_fits_def demo_session_simps cmd_defs)
  ultimately show ?thesis
    using manage_master_services_returns [OF demo_run_ok(2) demo_al2_keeps, of "([], ?ms @ [(1, demo_barrier 1)])" ?ms
        "[(1, demo_barrier 1)]" 6 5 6 EXIT_SERVICE 0]
    by (simp add: demo_session_simps service_on_def service_defs)
qed

end
