(* ===== verification/Run_System.thy ===== *)
theory Run_System
  imports Run_Master Run_Slave
begin

text \<open>
  The processes of an \<open>axiom-run\<close> session together: applications that synchronise with \<open>axrun_sync\<close>, the
  slaves that forward their requests, and the master that counts them. The processes run interleaved; the
  messages between two of them arrive in the order they were sent.
\<close>

section \<open>The session\<close>

text \<open>An application: the barriers it has passed, and whether it runs, waits in \<open>axrun_sync\<close>, or has got an
  error from it.\<close>

datatype app_mode = AP_RUN | AP_WAIT | AP_FAILED

record app =
  ap_done :: nat
  ap_mode :: app_mode

text \<open>The session: the master and the messages on the way to it; for every node the NIC and the state of its
  slave, the messages on the way to it, and its application.\<close>

record 'd bar_sys =
  sy_master :: "'d master_state"
  sy_mq :: "(u8 \<times> run_msg) list"
  sy_dev :: "u8 \<Rightarrow> 'd"
  sy_nq :: "u8 \<Rightarrow> run_msg list"
  sy_slave :: "u8 \<Rightarrow> slave_state"
  sy_app :: "u8 \<Rightarrow> app"

text \<open>What does not change: the NIC and the log of what it has sent, the ports, the node and the port of the
  master, the header of the requests, the barriers that every application goes through, and the parameters of
  the slaves.\<close>

record 'd bar_conf =
  bc_api :: "'d run_api"
  bc_sent :: "'d \<Rightarrow> ((u8 \<times> int) \<times> run_msg) list"
  bc_mport :: int
  bc_sport :: int
  bc_mnode :: "u8 \<times> int"
  bc_hdr :: header
  bc_prog :: "u32 list"
  bc_info :: "u8 \<Rightarrow> slave_info"

definition new_msgs :: "'d bar_conf \<Rightarrow> 'd \<Rightarrow> 'd \<Rightarrow> ((u8 \<times> int) \<times> run_msg) list" where
  "new_msgs cf d d' = drop (length (bc_sent cf d)) (bc_sent cf d')"

definition os_for :: "slave_info \<Rightarrow> (nat \<times> run_msg) option \<Rightarrow> lib_os" where
  "os_for info r = \<lparr>os_usock = Some (print_int (si_mypid info)), os_socket = True, os_bind = True,
     os_send = int HEADER_SIZE, os_recv = r\<rparr>"

text \<open>The call of \<open>axrun_sync\<close>: the request, and the end of the call when a datagram arrives at its socket. A
  datagram for another path is lost.\<close>

definition app_request :: "'d bar_conf \<Rightarrow> slave_info \<Rightarrow> nat \<Rightarrow> run_msg list" where
  "app_request cf info k = map snd (lr_sent (axrun_sync (os_for info None) (bc_hdr cf) (bc_prog cf ! k)))"

definition app_datagram :: "'d bar_conf \<Rightarrow> slave_info \<Rightarrow> string \<times> nat \<times> run_msg \<Rightarrow> app \<Rightarrow> app" where
  "app_datagram cf info d a = (let b = bc_prog cf ! ap_done a in
     if ap_mode a = AP_WAIT \<and> fst d = BARRIER_CHILD_NAME (atoi (print_int (si_mypid info))) b
     then (if lr_ret (axrun_sync (os_for info (Some (snd d))) (bc_hdr cf) b) = 0
           then \<lparr>ap_done = Suc (ap_done a), ap_mode = AP_RUN\<rparr> else a\<lparr>ap_mode := AP_FAILED\<rparr>)
     else a)"

abbreviation sys_nodes :: "'d bar_sys \<Rightarrow> u8 list" where
  "sys_nodes s \<equiv> mask_nodes 0 (ti_nodes (ms_info (sy_master s)))"

definition sys_enter :: "'d bar_conf \<Rightarrow> u8 \<Rightarrow> 'd bar_sys \<Rightarrow> 'd bar_sys" where
  "sys_enter cf n s = (let a = sy_app s n; dev = sy_dev s n;
     dev' = slave_forwards (bc_api cf) (bc_info cf n) (bc_mnode cf)
       (map SK_MSG (app_request cf (bc_info cf n) (ap_done a))) dev
     in s\<lparr>sy_dev := (sy_dev s)(n := dev'), sy_mq := sy_mq s @ map (\<lambda>x. (n, snd x)) (new_msgs cf dev dev'),
          sy_app := (sy_app s)(n := a\<lparr>ap_mode := AP_WAIT\<rparr>)\<rparr>)"

definition sys_served :: "'d bar_conf \<Rightarrow> 'd master_state \<Rightarrow> 'd bar_sys \<Rightarrow> 'd bar_sys" where
  "sys_served cf ms s = s\<lparr>sy_master := ms, sy_mq := tl (sy_mq s),
     sy_nq := \<lambda>n. sy_nq s n @ map snd (filter (\<lambda>x. fst (fst x) = n) (new_msgs cf (ms_dev (sy_master s)) (ms_dev ms)))\<rparr>"

definition sys_deliver :: "'d bar_conf \<Rightarrow> u8 \<Rightarrow> 'd bar_sys \<Rightarrow> 'd bar_sys" where
  "sys_deliver cf n s = (let info = bc_info cf n; sl = sy_slave s n; sl' = slave_msg info 1 None (hd (sy_nq s n)) sl
     in s\<lparr>sy_slave := (sy_slave s)(n := sl'), sy_nq := (sy_nq s)(n := tl (sy_nq s n)),
          sy_app := (sy_app s)(n := fold (app_datagram cf info) (drop (length (ss_datagrams sl)) (ss_datagrams sl')) (sy_app s n))\<rparr>)"

text \<open>A message to a slave is only taken by its receiver thread, which \<open>manage_slave_services\<close> starts for the
  services redirect, exit and kill.\<close>

inductive sys_step :: "'d bar_conf \<Rightarrow> 'd bar_sys \<Rightarrow> 'd bar_sys \<Rightarrow> bool" for cf where
  enter: "n \<in> set (sys_nodes s) \<Longrightarrow> ap_mode (sy_app s n) = AP_RUN \<Longrightarrow> ap_done (sy_app s n) < length (bc_prog cf)
    \<Longrightarrow> sys_step cf s (sys_enter cf n s)"
| serve: "sy_mq s = (n, m) # q \<Longrightarrow> master_msg (bc_api cf) (bc_mport cf) (bc_sport cf) n m (sy_master s) = Some (k, ms)
    \<Longrightarrow> sys_step cf s (sys_served cf ms s)"
| deliver: "sy_nq s n \<noteq> [] \<Longrightarrow> TH_RECV \<in> set (slave_threads (si_services (bc_info cf n)))
    \<Longrightarrow> sys_step cf s (sys_deliver cf n s)"

inductive_cases sys_stepE: "sys_step cf s s'"

definition sys_init :: "'d bar_conf \<Rightarrow> u64 \<Rightarrow> 'd bar_sys \<Rightarrow> bool" where
  "sys_init cf nodes s \<longleftrightarrow> ti_nodes (ms_info (sy_master s)) = nodes
     \<and> ti_nnodes (ms_info (sy_master s)) = int (count_nodes nodes)
     \<and> service_on (ti_services (ms_info (sy_master s))) BARRIER_SERVICE
     \<and> ms_barrier (sy_master s) = replicate (unat AXRUN_MAX_BARRIER_ID + 1) 0
     \<and> sy_mq s = [] \<and> (\<forall>n. sy_nq s n = [] \<and> sy_app s n = \<lparr>ap_done = 0, ap_mode = AP_RUN\<rparr>)"

text \<open>What the session relies on: a network that loses nothing, barrier numbers in range, and the barrier
  service on every node.\<close>

definition conf_ok :: "'d bar_conf \<Rightarrow> bool" where
  "conf_ok cf \<longleftrightarrow> logs_run (bc_api cf) (bc_sent cf) \<and> (\<forall>b\<in>set (bc_prog cf). b \<le> AXRUN_MAX_BARRIER_ID)
     \<and> (\<forall>n. service_on (si_services (bc_info cf n)) BARRIER_SERVICE)"

inductive sys_reach :: "'d bar_conf \<Rightarrow> u64 \<Rightarrow> 'd bar_sys \<Rightarrow> bool" for cf nodes where
  init: "sys_init cf nodes s \<Longrightarrow> sys_reach cf nodes s"
| step: "sys_reach cf nodes s \<Longrightarrow> sys_step cf s s' \<Longrightarrow> sys_reach cf nodes s'"

section \<open>The invariant\<close>

lemma atoi_print_int [simp]: "atoi (print_int i) = i"
proof (cases "i < 0")
  case True
  have "read_digits 10 0 (print_base 10 n) = (n, [])" "starts_digit 10 (print_base 10 n)" for n
    using read_print [of 10 "[]" n] starts_digit_print [of 10 n "[]"] by (simp_all add: starts_digit_def)
  with True show ?thesis by (simp add: print_int_def atoi_def scan_d_def is_space_def)
next
  case False
  then show ?thesis using scan_print [of "[]" "nat i"] by (simp add: print_int_def atoi_def starts_digit_def)
qed

lemma new_msgs_append: "bc_sent cf d' = bc_sent cf d @ l \<Longrightarrow> new_msgs cf d d' = l"
  by (simp add: new_msgs_def)

lemma app_request_eq:
  assumes "bc_prog cf ! k \<le> AXRUN_MAX_BARRIER_ID"
  shows "app_request cf info k = [sync_request (bc_hdr cf) (bc_prog cf ! k)]"
  using assms by (simp add: app_request_def axrun_sync_def os_for_def Let_def not_less)

text \<open>The one byte that the slave forwards is the command; the number of the barrier is still in the header of
  the request.\<close>

lemma axrun_sync_reply:
  assumes "b \<le> AXRUN_MAX_BARRIER_ID" "command (hdr r) = CMD_BARRIER"
  shows "lr_ret (axrun_sync (os_for info (Some (Suc 0, r))) h b) = 0"
  using assms by (simp add: axrun_sync_def os_for_def Let_def not_less recv_header_def sync_request_def)

text \<open>The state of the session in round \<open>R\<close>: the requests of the nodes \<open>L\<close> are on the way to the master, those
  of the nodes \<open>C\<close> have been counted; the others still run or have not got the release of the last round.\<close>

definition node_ok :: "'d bar_conf \<Rightarrow> nat \<Rightarrow> u8 set \<Rightarrow> 'd bar_sys \<Rightarrow> u8 \<Rightarrow> bool" where
  "node_ok cf R W s n \<longleftrightarrow>
     (if n \<in> W then sy_app s n = \<lparr>ap_done = R, ap_mode = AP_WAIT\<rparr> \<and> sy_nq s n = []
      else sy_app s n = \<lparr>ap_done = R, ap_mode = AP_RUN\<rparr> \<and> sy_nq s n = []
        \<or> (\<exists>r. R = Suc r \<and> sy_app s n = \<lparr>ap_done = r, ap_mode = AP_WAIT\<rparr> \<and> sy_nq s n = [sync_request (bc_hdr cf) (bc_prog cf ! r)]))"

lemma node_ok_cong:
  "sy_app s' n = sy_app s n \<Longrightarrow> sy_nq s' n = sy_nq s n \<Longrightarrow> n \<in> W' \<longleftrightarrow> n \<in> W \<Longrightarrow> node_ok cf R W' s' n = node_ok cf R W s n"
  by (simp add: node_ok_def)

definition round_counters :: "'d bar_conf \<Rightarrow> nat \<Rightarrow> nat \<Rightarrow> u32 \<Rightarrow> nat" where
  "round_counters cf R c = (\<lambda>k. if R < length (bc_prog cf) \<and> k = bc_prog cf ! R then c else 0)"

definition nodes_ok :: "'d bar_conf \<Rightarrow> u64 \<Rightarrow> nat \<Rightarrow> u8 set \<Rightarrow> 'd bar_sys \<Rightarrow> bool" where
  "nodes_ok cf nodes R W s \<longleftrightarrow> (\<forall>n. if n \<in> set (mask_nodes 0 nodes) then node_ok cf R W s n else sy_nq s n = [])"

text \<open>A step of one node.\<close>

lemma nodes_ok_update:
  assumes "nodes_ok cf nodes R W s" "n \<in> set (mask_nodes 0 nodes)" "node_ok cf R W' s' n"
    "\<And>x. x \<noteq> n \<Longrightarrow> sy_app s' x = sy_app s x \<and> sy_nq s' x = sy_nq s x \<and> (x \<in> W' \<longleftrightarrow> x \<in> W)"
  shows "nodes_ok cf nodes R W' s'"
  unfolding nodes_ok_def
proof
  fix x
  show "if x \<in> set (mask_nodes 0 nodes) then node_ok cf R W' s' x else sy_nq s' x = []"
    using assms node_ok_cong [of s' x s W' W cf R] by (cases "x = n") (auto simp: nodes_ok_def)
qed

definition sys_ok :: "'d bar_conf \<Rightarrow> u64 \<Rightarrow> nat \<Rightarrow> u8 list \<Rightarrow> u8 set \<Rightarrow> 'd bar_sys \<Rightarrow> bool" where
  "sys_ok cf nodes R L C s \<longleftrightarrow> ti_nodes (ms_info (sy_master s)) = nodes
     \<and> ti_nnodes (ms_info (sy_master s)) = int (count_nodes nodes)
     \<and> service_on (ti_services (ms_info (sy_master s))) BARRIER_SERVICE
     \<and> counters_ok (count_nodes nodes) (round_counters cf R (card C)) (ms_barrier (sy_master s))
     \<and> sy_mq s = map (\<lambda>n. (n, sync_request (bc_hdr cf) (bc_prog cf ! R))) L
     \<and> distinct L \<and> C \<inter> set L = {} \<and> C \<union> set L \<subseteq> set (mask_nodes 0 nodes) \<and> card C < count_nodes nodes
     \<and> R \<le> length (bc_prog cf) \<and> (C \<union> set L \<noteq> {} \<longrightarrow> R < length (bc_prog cf))
     \<and> nodes_ok cf nodes R (C \<union> set L) s"

lemma count_nodes_pos: "nodes \<noteq> 0 \<Longrightarrow> 0 < count_nodes nodes"
  by (auto simp: count_nodes_card card_gt_0_iff finite_nodes_of nodes_of_def bit_eq_iff)

lemma sys_init_ok:
  assumes "sys_init cf nodes s" "nodes \<noteq> 0"
  shows "sys_ok cf nodes 0 [] {} s"
proof -
  have "0 < count_nodes nodes" using assms(2) by (simp add: count_nodes_pos)
  with assms(1) show ?thesis
    using unat_barrier by (auto simp: sys_ok_def sys_init_def nodes_ok_def node_ok_def counters_ok_def round_counters_def AXRUN_MAX_BARRIER_ID_def)
qed

lemma sys_ok_enter:
  assumes "conf_ok cf" "sys_ok cf nodes R L C s" "n \<in> set (mask_nodes 0 nodes)" "ap_mode (sy_app s n) = AP_RUN"
    "ap_done (sy_app s n) < length (bc_prog cf)"
  shows "sys_ok cf nodes R (L @ [n]) C (sys_enter cf n s)"
proof -
  let ?m = "sync_request (bc_hdr cf) (bc_prog cf ! R)"
  have n: "node_ok cf R (C \<union> set L) s n" using assms(2,3) by (simp add: sys_ok_def nodes_ok_def)
  with assms(4) have a: "n \<notin> C \<union> set L" "sy_app s n = \<lparr>ap_done = R, ap_mode = AP_RUN\<rparr>" "sy_nq s n = []"
    by (auto simp: node_ok_def split: if_splits)
  with assms(5) have R: "R < length (bc_prog cf)" by simp
  with assms(1) have b: "bc_prog cf ! R \<le> AXRUN_MAX_BARRIER_ID" by (simp add: conf_ok_def)
  have log: "logs_run (bc_api cf) (bc_sent cf)" using assms(1) by (simp add: conf_ok_def)
  obtain e d where d: "ra_send (bc_api cf) (sy_dev s n) (bc_mnode cf) ?m = (e, d)" 
    "bc_sent cf d = bc_sent cf (sy_dev s n) @ [(bc_mnode cf, ?m)]" using lossless_send [OF log] by blast
  have "?m\<lparr>raw := take (ra_raw_max (bc_api cf)) (raw ?m)\<rparr> = ?m" by (simp add: sync_request_def)
  then have fwd: "slave_forwards (bc_api cf) (bc_info cf n) (bc_mnode cf) [SK_MSG ?m] (sy_dev s n) = d"
    using d(1) assms(1) by (simp add: slave_forwards_on conf_ok_def)
  have e: "sys_enter cf n s = s\<lparr>sy_dev := (sy_dev s)(n := d), sy_mq := sy_mq s @ [(n, ?m)],
      sy_app := (sy_app s)(n := \<lparr>ap_done = R, ap_mode = AP_WAIT\<rparr>)\<rparr>"
    using a(2) fwd by (simp add: sys_enter_def Let_def app_request_eq [OF b] new_msgs_append [OF d(2)])
  let ?s = "sys_enter cf n s"
  have "nodes_ok cf nodes R (C \<union> set (L @ [n])) ?s"
    by (rule nodes_ok_update [where s = s and n = n and W = "C \<union> set L"]) (use assms(2,3) a in \<open>auto simp: e node_ok_def sys_ok_def\<close>)
  moreover have "sy_master ?s = sy_master s" "sy_mq ?s = sy_mq s @ [(n, ?m)]" by (simp_all add: e)
  ultimately show ?thesis using assms(2,3) a R by (simp add: sys_ok_def)
qed

lemma sys_ok_deliver:
  assumes "conf_ok cf" "sys_ok cf nodes R L C s" "sy_nq s n \<noteq> []"
  shows "sys_ok cf nodes R L C (sys_deliver cf n s)" "\<exists>r. sy_app s n = \<lparr>ap_done = r, ap_mode = AP_WAIT\<rparr>
    \<and> sy_app (sys_deliver cf n s) n = \<lparr>ap_done = Suc r, ap_mode = AP_RUN\<rparr> \<and> n \<in> set (mask_nodes 0 nodes) \<and> r < length (bc_prog cf)"
proof -
  have nn: "n \<in> set (mask_nodes 0 nodes)" using assms(2,3) by (auto simp: sys_ok_def nodes_ok_def split: if_splits)
  then have "node_ok cf R (C \<union> set L) s n" using assms(2) by (simp add: sys_ok_def nodes_ok_def)
  with assms(3) obtain r where r: "n \<notin> C \<union> set L" "R = Suc r" "sy_app s n = \<lparr>ap_done = r, ap_mode = AP_WAIT\<rparr>"
      "sy_nq s n = [sync_request (bc_hdr cf) (bc_prog cf ! r)]" by (auto simp: node_ok_def split: if_splits)
  have rl: "r < length (bc_prog cf)" using assms(2) r(2) by (simp add: sys_ok_def)
  with assms(1) have b: "bc_prog cf ! r \<le> AXRUN_MAX_BARRIER_ID" by (simp add: conf_ok_def)
  have sv: "service_on (si_services (bc_info cf n)) BARRIER_SERVICE" using assms(1) by (simp add: conf_ok_def)
  let ?m = "sync_request (bc_hdr cf) (bc_prog cf ! r)"
  have c: "command (hdr ?m) = CMD_BARRIER" "barrier_id (hdr ?m) = bc_prog cf ! r" by (simp_all add: sync_request_def)
  have sl: "slave_msg (bc_info cf n) (Suc 0) None ?m sl = sl\<lparr>ss_datagrams := ss_datagrams sl @
      [(BARRIER_CHILD_NAME (si_mypid (bc_info cf n)) (bc_prog cf ! r), Suc 0, ?m)]\<rparr>" for sl
    using sv c by (simp add: slave_msg_def Let_def cmd_defs)
  have "app_datagram cf (bc_info cf n) (BARRIER_CHILD_NAME (si_mypid (bc_info cf n)) (bc_prog cf ! r), Suc 0, ?m) (sy_app s n)
      = \<lparr>ap_done = Suc r, ap_mode = AP_RUN\<rparr>"
    using axrun_sync_reply [OF b c(1)] r(3) by (simp add: app_datagram_def)
  then have e: "sys_deliver cf n s = s\<lparr>sy_slave := (sy_slave s)(n := (sy_slave s n)\<lparr>ss_datagrams := ss_datagrams (sy_slave s n) @
      [(BARRIER_CHILD_NAME (si_mypid (bc_info cf n)) (bc_prog cf ! r), Suc 0, ?m)]\<rparr>), sy_nq := (sy_nq s)(n := []),
      sy_app := (sy_app s)(n := \<lparr>ap_done = Suc r, ap_mode = AP_RUN\<rparr>)\<rparr>"
    using r(4) by (simp add: sys_deliver_def Let_def sl)
  show "sys_ok cf nodes R L C (sys_deliver cf n s)" 
  proof -
    let ?s = "sys_deliver cf n s"
    have "nodes_ok cf nodes R (C \<union> set L) ?s"
      by (rule nodes_ok_update [where s = s and n = n and W = "C \<union> set L"]) (use assms(2) nn r in \<open>auto simp: e node_ok_def sys_ok_def\<close>)
    moreover have "sy_master ?s = sy_master s" "sy_mq ?s = sy_mq s" by (simp_all add: e)
    ultimately show ?thesis using assms(2) by (simp add: sys_ok_def)
  qed
  show "\<exists>r. sy_app s n = \<lparr>ap_done = r, ap_mode = AP_WAIT\<rparr>
    \<and> sy_app (sys_deliver cf n s) n = \<lparr>ap_done = Suc r, ap_mode = AP_RUN\<rparr> \<and> n \<in> set (mask_nodes 0 nodes) \<and> r < length (bc_prog cf)"
    unfolding e using r rl nn by simp
qed

lemma broadcast_to:
  assumes "n \<in> set (mask_nodes 0 nodes)"
  shows "map snd (filter (\<lambda>x. fst (fst x) = n) (broadcast nodes port m)) = [m]"
proof -
  have "filter (\<lambda>y. y = n) ns = (if n \<in> set ns then [n] else [])" if "distinct ns" for ns
    using that by (induction ns) auto
  from this [OF distinct_mask_nodes] assms have "filter (\<lambda>y. y = n) (mask_nodes 0 nodes) = [n]" by simp
  then show ?thesis by (simp add: broadcast_def filter_map o_def)
qed

lemma broadcast_not_to: "n \<notin> set (mask_nodes 0 nodes) \<Longrightarrow> filter (\<lambda>x. fst (fst x) = n) (broadcast nodes port m) = []"
  by (auto simp: broadcast_def filter_empty_conv)

text \<open>The master counts a request, and sends the release to all nodes when the round is complete.\<close>

lemma serve_master:
  assumes "conf_ok cf" "sys_ok cf nodes R (n # L) C s"
  defines "m \<equiv> sync_request (bc_hdr cf) (bc_prog cf ! R)" and "cnt \<equiv> count_nodes nodes"
  obtains ms where "master_msg (bc_api cf) (bc_mport cf) (bc_sport cf) n m (sy_master s) = Some (Next, ms)" "ms_info ms = ms_info (sy_master s)"
    "counters_ok cnt ((round_counters cf R (card C))(bc_prog cf ! R := Suc (card C))) (ms_barrier ms)"
    "sy_nq (sys_served cf ms s) = (\<lambda>x. sy_nq s x @ map snd (filter (\<lambda>y. fst (fst y) = x)
       (if Suc (card C) mod cnt = 0 then broadcast nodes (bc_sport cf) m else [])))"
proof -
  have ok: "ti_nodes (ms_info (sy_master s)) = nodes" "ti_nnodes (ms_info (sy_master s)) = int cnt"
    "service_on (ti_services (ms_info (sy_master s))) BARRIER_SERVICE"
    "counters_ok cnt (round_counters cf R (card C)) (ms_barrier (sy_master s))" "card C < cnt" "R < length (bc_prog cf)"
    using assms(2) by (auto simp: sys_ok_def cnt_def)
  have log: "logs_run (bc_api cf) (bc_sent cf)" using assms(1) by (simp add: conf_ok_def)
  have m: "command (hdr m) = CMD_BARRIER" "barrier_id (hdr m) = bc_prog cf ! R" "\<lparr>hdr = hdr m, raw = []\<rparr> = m"
    by (simp_all add: sync_request_def m_def)
  have k: "barrier_id (hdr m) \<le> AXRUN_MAX_BARRIER_ID" using assms(1) ok(6) m(2) by (simp add: conf_ok_def)
  have c: "round_counters cf R (card C) (barrier_id (hdr m)) = card C" using ok(6) m(2) by (simp add: round_counters_def)
  have "0 < cnt" using ok(5) by simp
  from master_barrier_step [OF log this ok(2-4) k, unfolded c m(3)] obtain ms where
    1: "master_barrier (bc_api cf) (bc_sport cf) m (sy_master s) = Some ms" "ms_info ms = ms_info (sy_master s)"
      "counters_ok cnt ((round_counters cf R (card C))(barrier_id (hdr m) := Suc (card C))) (ms_barrier ms)"
      "bc_sent cf (ms_dev ms) = bc_sent cf (ms_dev (sy_master s)) @
         (if Suc (card C) mod cnt = 0 then broadcast nodes (bc_sport cf) m else [])" using ok(1) by metis
  have "master_msg (bc_api cf) (bc_mport cf) (bc_sport cf) n m (sy_master s) = Some (Next, ms)"
    using 1(1) m(1) by (simp add: master_msg_def cmd_defs)
  moreover have "sy_nq (sys_served cf ms s) = (\<lambda>x. sy_nq s x @ map snd (filter (\<lambda>y. fst (fst y) = x)
       (if Suc (card C) mod cnt = 0 then broadcast nodes (bc_sport cf) m else [])))"
    using new_msgs_append [OF 1(4)] by (simp add: sys_served_def)
  ultimately show ?thesis using that [of ms] 1(2,3) m(2) by simp
qed

text \<open>When all nodes wait, the release starts the next round on each of them.\<close>

lemma nodes_released:
  assumes "nodes_ok cf nodes R (set (mask_nodes 0 nodes)) s" "sy_app s' = sy_app s"
    and "sy_nq s' = (\<lambda>x. sy_nq s x @ map snd (filter (\<lambda>y. fst (fst y) = x) (broadcast nodes (bc_sport cf) (sync_request (bc_hdr cf) (bc_prog cf ! R)))))"
  shows "nodes_ok cf nodes (Suc R) {} s'"
  unfolding nodes_ok_def
proof
  fix x
  show "if x \<in> set (mask_nodes 0 nodes) then node_ok cf (Suc R) {} s' x else sy_nq s' x = []"
  proof (cases "x \<in> set (mask_nodes 0 nodes)")
    case True
    then have "node_ok cf R (set (mask_nodes 0 nodes)) s x" using assms(1) by (simp add: nodes_ok_def)
    with True have "sy_app s x = \<lparr>ap_done = R, ap_mode = AP_WAIT\<rparr>" "sy_nq s x = []" by (simp_all add: node_ok_def)
    with True show ?thesis by (simp add: assms(2,3) node_ok_def broadcast_to)
  next
    case False
    then show ?thesis using assms(1) by (simp add: assms(2,3) nodes_ok_def broadcast_not_to)
  qed
qed

text \<open>The request that completes the round releases all nodes.\<close>

lemma sys_ok_serve:
  assumes "conf_ok cf" "sys_ok cf nodes R (n # L) C s"
  obtains ms R' L' C' where "master_msg (bc_api cf) (bc_mport cf) (bc_sport cf) n (sync_request (bc_hdr cf) (bc_prog cf ! R)) (sy_master s) = Some (Next, ms)"
    "sys_ok cf nodes R' L' C' (sys_served cf ms s)"
proof -
  let ?m = "sync_request (bc_hdr cf) (bc_prog cf ! R)" and ?N = "set (mask_nodes 0 nodes)" and ?cnt = "count_nodes nodes"
  have ok: "distinct (n # L)" "C \<inter> set (n # L) = {}" "C \<union> set (n # L) \<subseteq> ?N" "card C < ?cnt" "R < length (bc_prog cf)"
    "nodes_ok cf nodes R (C \<union> set (n # L)) s" "sy_mq s = map (\<lambda>n. (n, ?m)) (n # L)"
    using assms(2) by (auto simp: sys_ok_def)
  obtain ms where ms: "master_msg (bc_api cf) (bc_mport cf) (bc_sport cf) n ?m (sy_master s) = Some (Next, ms)" "ms_info ms = ms_info (sy_master s)"
    "counters_ok ?cnt ((round_counters cf R (card C))(bc_prog cf ! R := Suc (card C))) (ms_barrier ms)"
    "sy_nq (sys_served cf ms s) = (\<lambda>x. sy_nq s x @ map snd (filter (\<lambda>y. fst (fst y) = x)
       (if Suc (card C) mod ?cnt = 0 then broadcast nodes (bc_sport cf) ?m else [])))"
    using serve_master [OF assms] by blast
  let ?s = "sys_served cf ms s"
  have f: "sy_master ?s = ms" "sy_mq ?s = map (\<lambda>n. (n, ?m)) L" "sy_app ?s = sy_app s" using ok(7) by (simp_all add: sys_served_def)
  have fin: "finite C" "finite ?N" "card ?N = ?cnt" using ok(3) finite_subset
    by (auto simp: count_nodes_def distinct_card distinct_mask_nodes)
  have cC: "card (insert n C) = Suc (card C)" using fin(1) ok(2) by simp
  show ?thesis
  proof (cases "Suc (card C) = ?cnt")
    case False
    then have lt: "Suc (card C) < ?cnt" using ok(4) by simp
    have "round_counters cf R (card (insert n C)) = (round_counters cf R (card C))(bc_prog cf ! R := Suc (card C))"
      using ok(5) cC by (auto simp: round_counters_def fun_eq_iff)
    moreover have "nodes_ok cf nodes R (insert n C \<union> set L) ?s"
    proof (rule nodes_ok_update [OF ok(6)])
      show n: "n \<in> ?N" using ok(3) by simp
      then have "node_ok cf R (C \<union> set (n # L)) s n" using ok(6) by (simp add: nodes_ok_def)
      then show "node_ok cf R (insert n C \<union> set L) ?s n" using f ms(4) lt by (simp add: node_ok_def)
    qed (use f ms(4) lt in auto)
    ultimately have "sys_ok cf nodes R L (insert n C) ?s" using assms(2) ok ms f lt cC by (simp add: sys_ok_def)
    from that [OF ms(1) this] show ?thesis .
  next
    case True
    then have all: "insert n C = ?N" using cC ok(3) fin by (intro card_subset_eq) auto
    then have L: "L = []" using ok(1-3) by (cases L) auto
    have "counters_ok ?cnt (round_counters cf (Suc R) (card {})) (ms_barrier ms)"
      using ms(3) True ok(4) by (auto simp: counters_ok_def round_counters_def)
    moreover have "C \<union> set (n # L) = ?N" using all L by simp
    then have "nodes_ok cf nodes (Suc R) {} ?s" using ok(6) f(3) ms(4) True by (intro nodes_released) simp_all
    ultimately have "sys_ok cf nodes (Suc R) [] {} ?s" using assms(2) ok ms f L by (simp add: sys_ok_def)
    from that [OF ms(1) this] show ?thesis .
  qed
qed

section \<open>Barriers across the processes\<close>

text \<open>The steps that are left.\<close>

definition sys_measure :: "'d bar_conf \<Rightarrow> u64 \<Rightarrow> 'd bar_sys \<Rightarrow> nat" where
  "sys_measure cf nodes s = length (sy_mq s)
     + (\<Sum>n\<in>set (mask_nodes 0 nodes). 4 * (length (bc_prog cf) - ap_done (sy_app s n)) + (if ap_mode (sy_app s n) = AP_WAIT then 0 else 2))"

lemma sum_update_less:
  fixes f g :: "'a \<Rightarrow> nat"
  assumes "finite A" "a \<in> A" "\<And>x. x \<noteq> a \<Longrightarrow> f x = g x" "f a + k \<le> g a"
  shows "sum f A + k \<le> sum g A"
proof -
  have "sum f (A - {a}) = sum g (A - {a})" using assms(3) by (intro sum.cong) auto
  with assms(1,2,4) show ?thesis by (simp add: sum.remove [of A a])
qed

lemma sys_step_ok:
  assumes "conf_ok cf" "sys_ok cf nodes R L C s" "sys_step cf s s'"
  shows "(\<exists>R L C. sys_ok cf nodes R L C s') \<and> sys_measure cf nodes s' < sys_measure cf nodes s"
  using assms(3)
proof (cases rule: sys_step.cases)
  case (enter n)
  then have n: "n \<in> set (mask_nodes 0 nodes)" using assms(2) by (simp add: sys_ok_def)
  note ok = sys_ok_enter [OF assms(1,2) n enter(3,4)]
  let ?f = "\<lambda>s n. 4 * (length (bc_prog cf) - ap_done (sy_app s n)) + (if ap_mode (sy_app s n) = AP_WAIT then 0 else 2 :: nat)"
  have "sum (?f s') (set (mask_nodes 0 nodes)) + 2 \<le> sum (?f s) (set (mask_nodes 0 nodes))"
    using n enter by (intro sum_update_less [where a = n]) (auto simp: sys_enter_def Let_def)
  moreover have "length (sy_mq s') = Suc (length (sy_mq s))"
    using ok assms(2) enter(1) by (simp add: sys_ok_def)
  ultimately show ?thesis using ok enter(1) by (auto simp: sys_measure_def)
next
  case (serve n m q k ms)
  then obtain L' where L: "L = n # L'" "m = sync_request (bc_hdr cf) (bc_prog cf ! R)"
    using assms(2) by (cases L) (auto simp: sys_ok_def)
  from sys_ok_serve [OF assms(1) assms(2) [unfolded L(1)]] serve(3) L(2) have "\<exists>R L C. sys_ok cf nodes R L C s'"
    unfolding serve(1) by (metis option.inject prod.inject)
  moreover have "sy_app s' = sy_app s" "length (sy_mq s') < length (sy_mq s)" using serve(1,2) by (simp_all add: sys_served_def)
  ultimately show ?thesis by (simp add: sys_measure_def)
next
  case (deliver n)
  from sys_ok_deliver(2) [OF assms(1,2) deliver(2)] obtain r where r: "sy_app s n = \<lparr>ap_done = r, ap_mode = AP_WAIT\<rparr>"
    "sy_app s' n = \<lparr>ap_done = Suc r, ap_mode = AP_RUN\<rparr>" "n \<in> set (mask_nodes 0 nodes)" "r < length (bc_prog cf)"
    unfolding deliver(1) by blast
  let ?f = "\<lambda>s n. 4 * (length (bc_prog cf) - ap_done (sy_app s n)) + (if ap_mode (sy_app s n) = AP_WAIT then 0 else 2 :: nat)"
  have "sum (?f s') (set (mask_nodes 0 nodes)) + 2 \<le> sum (?f s) (set (mask_nodes 0 nodes))"
    using r deliver(1) by (intro sum_update_less [where a = n]) (auto simp: sys_deliver_def Let_def)
  moreover have "sy_mq s' = sy_mq s" using deliver(1) by (simp add: sys_deliver_def Let_def)
  ultimately show ?thesis using sys_ok_deliver(1) [OF assms(1,2) deliver(2)] deliver(1) by (auto simp: sys_measure_def)
qed

lemma sys_reach_ok:
  assumes "sys_reach cf nodes s" "conf_ok cf" "nodes \<noteq> 0"
  shows "\<exists>R L C. sys_ok cf nodes R L C s"
  using assms(1) by (induction) (use assms(2,3) sys_init_ok sys_step_ok in blast)+

lemma sys_stuck:
  assumes "conf_ok cf" "sys_ok cf nodes R L C s" "\<nexists>s'. sys_step cf s s'" "n \<in> set (mask_nodes 0 nodes)"
    "\<forall>n\<in>set (mask_nodes 0 nodes). TH_RECV \<in> set (slave_threads (si_services (bc_info cf n)))"
  shows "sy_app s n = \<lparr>ap_done = length (bc_prog cf), ap_mode = AP_RUN\<rparr>"
proof -
  have L: "L = []"
  proof (rule ccontr)
    assume "L \<noteq> []"
    then obtain x L' where x: "L = x # L'" by (cases L) auto
    then have "\<exists>q. sy_mq s = (x, sync_request (bc_hdr cf) (bc_prog cf ! R)) # q" using assms(2) by (simp add: sys_ok_def)
    with sys_ok_serve [OF assms(1) assms(2) [unfolded x]] assms(3) sys_step.serve show False by metis
  qed
  have nq: "sy_nq s x = []" if "x \<in> set (mask_nodes 0 nodes)" for x
    using that assms(3,5) sys_step.deliver by metis
  have ok: "node_ok cf R C s x" if "x \<in> set (mask_nodes 0 nodes)" for x using that assms(2) L by (simp add: sys_ok_def nodes_ok_def)
  have nN: "ti_nodes (ms_info (sy_master s)) = nodes" using assms(2) by (simp add: sys_ok_def)
  have run: "sy_app s x = \<lparr>ap_done = R, ap_mode = AP_RUN\<rparr> \<and> R = length (bc_prog cf)"
    if x: "x \<in> set (mask_nodes 0 nodes)" "x \<notin> C" for x
  proof -
    have a: "sy_app s x = \<lparr>ap_done = R, ap_mode = AP_RUN\<rparr>" using ok [OF x(1)] x(2) nq [OF x(1)] by (simp add: node_ok_def)
    then have "\<not> R < length (bc_prog cf)" using assms(3) sys_step.enter [of x s cf] x(1) nN by auto
    with a assms(2) show ?thesis by (simp add: sys_ok_def)
  qed
  have "card C < card (set (mask_nodes 0 nodes))"
    using assms(2) by (simp add: sys_ok_def count_nodes_def distinct_card distinct_mask_nodes)
  then have "\<not> set (mask_nodes 0 nodes) \<subseteq> C" using assms(2) card_mono [of C "set (mask_nodes 0 nodes)"]
    by (auto simp: sys_ok_def dest: finite_subset)
  then obtain x where "x \<in> set (mask_nodes 0 nodes)" "x \<notin> C" by blast
  then have "R = length (bc_prog cf)" using run by blast
  then have "C = {}" using assms(2) by (auto simp: sys_ok_def)
  with run [OF assms(4)] show ?thesis by simp
qed

text \<open>C8: barriers hold. However the processes of a session are interleaved, no application leaves a
  barrier that another one has not entered: of two applications one has passed at most one barrier more than the
  other, and then the other one waits in that barrier. \<open>axrun_sync\<close> never fails.\<close>

theorem barrier_safety:
  assumes "sys_reach cf nodes s" "conf_ok cf" "nodes \<noteq> 0" "x \<in> set (mask_nodes 0 nodes)" "y \<in> set (mask_nodes 0 nodes)"
  shows "ap_done (sy_app s y) \<le> Suc (ap_done (sy_app s x)) \<and> ap_mode (sy_app s x) \<noteq> AP_FAILED
    \<and> (ap_done (sy_app s x) < ap_done (sy_app s y) \<longrightarrow> ap_mode (sy_app s x) = AP_WAIT)"
proof -
  obtain R L C where "sys_ok cf nodes R L C s" using sys_reach_ok [OF assms(1-3)] by blast
  then have "node_ok cf R (C \<union> set L) s x" "node_ok cf R (C \<union> set L) s y" using assms(4,5) by (simp_all add: sys_ok_def nodes_ok_def)
  then show ?thesis by (auto simp: node_ok_def split: if_splits)
qed

text \<open>C9: barriers are passed. When every slave runs its receiver thread, which needs one of the services
  redirect, exit and kill besides the barrier service (with the barrier service alone nobody takes the
  release and the applications wait forever), every run of a session ends, and it ends with all applications
  past all their barriers: there is no infinite run, and in a state where nothing can happen every
  application has passed its last barrier.\<close>

theorem barrier_completes:
  assumes "conf_ok cf" "nodes \<noteq> 0"
    "\<forall>n\<in>set (mask_nodes 0 nodes). TH_RECV \<in> set (slave_threads (si_services (bc_info cf n)))"
  shows "wf {(s', s). sys_reach cf nodes s \<and> sys_step cf s s'}
    \<and> (\<forall>s. sys_reach cf nodes s \<and> (\<nexists>s'. sys_step cf s s')
        \<longrightarrow> (\<forall>n\<in>set (mask_nodes 0 nodes). sy_app s n = \<lparr>ap_done = length (bc_prog cf), ap_mode = AP_RUN\<rparr>))"
proof
  have "{(s', s). sys_reach cf nodes s \<and> sys_step cf s s'} \<subseteq> measure (sys_measure cf nodes)"
    using sys_reach_ok [OF _ assms(1,2)] sys_step_ok [OF assms(1)] by fastforce
  then show "wf {(s', s). sys_reach cf nodes s \<and> sys_step cf s s'}" by (rule wf_subset [OF wf_measure])
  show "\<forall>s. sys_reach cf nodes s \<and> (\<nexists>s'. sys_step cf s s')
      \<longrightarrow> (\<forall>n\<in>set (mask_nodes 0 nodes). sy_app s n = \<lparr>ap_done = length (bc_prog cf), ap_mode = AP_RUN\<rparr>)"
    using sys_reach_ok [OF _ assms(1,2)] sys_stuck [OF assms(1) _ _ _ assms(3)] by blast
qed

section \<open>Remote procedure calls across the processes\<close>


section \<open>Instances\<close>

text \<open>The nodes 1 and 2 pass barrier 3 twice.\<close>

definition demo_slave_info :: slave_info where
  "demo_slave_info = \<lparr>si_services = BARRIER_SERVICE OR RPC_SERVICE OR EXIT_SERVICE, si_pid = 101, si_termmode = 15, si_mypid = 100\<rparr>"

definition demo_bar_conf :: "(((u8 \<times> int) \<times> run_msg) list \<times> (u8 \<times> run_msg) list) bar_conf" where
  "demo_bar_conf = \<lparr>bc_api = demo_run, bc_sent = fst, bc_mport = 5, bc_sport = 6, bc_mnode = (1, 5), bc_hdr = demo_hdr 0,
     bc_prog = [3, 3], bc_info = \<lambda>_. demo_slave_info\<rparr>"

definition demo_slave_state :: slave_state where
  "demo_slave_state = \<lparr>ss_pipe = [], ss_writes = [], ss_signals = [], my_sigterm = False, ss_datagrams = []\<rparr>"

definition demo_bar_sys :: "(((u8 \<times> int) \<times> run_msg) list \<times> (u8 \<times> run_msg) list) bar_sys" where
  "demo_bar_sys = \<lparr>sy_master = demo_session, sy_mq = [], sy_dev = \<lambda>_. ([], []), sy_nq = \<lambda>_. [],
     sy_slave = \<lambda>_. demo_slave_state, sy_app = \<lambda>_. \<lparr>ap_done = 0, ap_mode = AP_RUN\<rparr>\<rparr>"

lemma demo_conf_ok: "conf_ok demo_bar_conf"
  by (simp add: conf_ok_def demo_bar_conf_def demo_run_ok demo_slave_info_def AXRUN_MAX_BARRIER_ID_def service_on_def service_defs)

lemma mask_nodes_6: "mask_nodes 0 6 = [1, 2]"
  by (simp add: mask_nodes.simps)

lemma demo_sys_init: "sys_init demo_bar_conf 6 demo_bar_sys"
  by (simp add: sys_init_def demo_bar_sys_def demo_session_simps count_nodes_def mask_nodes_6 service_on_def service_defs)

theorem barrier_safety_witness:
  "let s = sys_enter demo_bar_conf 1 demo_bar_sys
   in sy_mq s = [(1, sync_request (demo_hdr 0) 3)] \<and> ap_mode (sy_app s 1) = AP_WAIT \<and> ap_done (sy_app s 2) \<le> Suc (ap_done (sy_app s 1))"
proof -
  let ?s = "sys_enter demo_bar_conf 1 demo_bar_sys"
  have 1: "1 \<in> set (sys_nodes demo_bar_sys)" by (simp add: demo_bar_sys_def demo_session_simps mask_nodes_6)
  have "sys_step demo_bar_conf demo_bar_sys ?s"
    by (rule sys_step.enter [OF 1]) (simp_all add: demo_bar_sys_def demo_bar_conf_def)
  with demo_sys_init have "sys_reach demo_bar_conf 6 ?s" by (blast intro: sys_reach.intros)
  from barrier_safety [OF this demo_conf_ok, of 1 2] have "ap_done (sy_app ?s 2) \<le> Suc (ap_done (sy_app ?s 1))"
    by (simp add: mask_nodes_6)
  moreover have "sy_mq ?s = [(1, sync_request (demo_hdr 0) 3)]" "ap_mode (sy_app ?s 1) = AP_WAIT"
    using app_request_eq [of demo_bar_conf 0 demo_slave_info] slave_forwards_on [of demo_slave_info demo_run]
      demo_conf_ok [unfolded conf_ok_def]
    by (simp_all add: sys_enter_def sync_request_def demo_bar_sys_def demo_bar_conf_def Let_def AXRUN_MAX_BARRIER_ID_def demo_run_def new_msgs_def)
  ultimately show ?thesis by (simp add: Let_def)
qed

lemma demo_threads: "TH_RECV \<in> set (slave_threads (si_services demo_slave_info))"
  by (simp add: slave_threads_def demo_slave_info_def service_on_def service_defs)

theorem barrier_completes_witness:
  "sys_reach demo_bar_conf 6 demo_bar_sys \<and> wf {(s', s). sys_reach demo_bar_conf 6 s \<and> sys_step demo_bar_conf s s'}"
  using barrier_completes [OF demo_conf_ok, of 6] demo_sys_init demo_threads
  by (simp add: sys_reach.init demo_bar_conf_def)


theorem slave_output_complete_witness:
  "\<exists>dev'. slave_finish demo_run (1, 5) (demo_hdr 0) REDIRECT_SERVICE 15 False [WT_INTR, WT_STATUS 0x300] [DV_READ (DR_DATA [67]) DR_NONE, DV_STOP]
      (send_thread demo_run (1, 5) (demo_hdr 0) CMD_SEND_TO_STDERR [RD_END]
        (send_thread demo_run (1, 5) (demo_hdr 0) CMD_SEND_TO_STDOUT [RD_DATA [65], RD_INTR, RD_DATA [66], RD_END] ([], []))) = Some (0x300, dev')
    \<and> stream_bytes CMD_SEND_TO_STDOUT (fst dev') = [65, 66, 67]"
proof -
  let ?d = "send_thread demo_run (1, 5) (demo_hdr 0) CMD_SEND_TO_STDERR [RD_END]
        (send_thread demo_run (1, 5) (demo_hdr 0) CMD_SEND_TO_STDOUT [RD_DATA [65], RD_INTR, RD_DATA [66], RD_END] ([], []))"
  let ?f = "slave_finish demo_run (1, 5) (demo_hdr 0) REDIRECT_SERVICE 15 False [WT_INTR, WT_STATUS 0x300] [DV_READ (DR_DATA [67]) DR_NONE, DV_STOP] ?d"
  obtain dev' where d: "?f = Some (0x300, dev')" by (simp add: slave_finish_def Let_def slave_exit_status_def)
  have "service_on REDIRECT_SERVICE REDIRECT_SERVICE" by (simp add: service_on_def service_defs)
  from slave_output_complete [OF demo_run_ok(1) this d] d show ?thesis by (simp add: drain_bytes_def)
qed

theorem slave_kill_status_witness:
  "map_option fst (slave_finish demo_run (1, 5) (demo_hdr 0) (si_services demo_slave_info) 15
     (my_sigterm (slave_msg demo_slave_info 1 None \<lparr>hdr = demo_hdr CMD_KILL, raw = []\<rparr> demo_slave_state)) [WT_INTR, WT_STATUS 15] [] ([], [])) = Some 0"
  using slave_kill_status [of "\<lparr>hdr = demo_hdr CMD_KILL, raw = []\<rparr>" demo_slave_info _ 1 None demo_slave_state demo_run "(1, 5)" "demo_hdr 0" 1 15 "[]" "[]" "([], [])", OF _ _ refl]
  by (simp add: demo_hdr_def demo_slave_info_def service_on_def service_defs WIFSIGNALED_def WTERMSIG_def)

theorem axrun_sync_bind_failure_witness:
  "let os = (os_for demo_slave_info None)\<lparr>os_bind := False\<rparr> in lr_ret (axrun_sync os (demo_hdr 0) 3) = - 1
    \<and> fst (last (ss_datagrams (slave_msg demo_slave_info 1 None (sync_request (demo_hdr 0) 3) demo_slave_state)))
      \<in> set (lr_unlinked (axrun_sync os (demo_hdr 0) 3))"
  unfolding Let_def
  by (rule axrun_sync_bind_failure [where v = "print_int 100"])
    (simp_all add: AXRUN_MAX_BARRIER_ID_def os_for_def demo_slave_info_def sync_request_def service_on_def service_defs)

end
