(* ===== verification/Ethtap.thy ===== *)
theory Ethtap
  imports Nic_Api C_Strings Getopt
begin

text \<open>
  The virtual Ethernet device \<open>axiom-ethtap\<close> (\<open>axiom-ethtap/axiom-ethtap.c\<close>): a thread sends the frames of the tap
  interface to the nodes, another writes the frames that arrive to the interface, and the program starts a number of such pairs. The calls of the NIC and
  of the operating system are inputs.
\<close>

section \<open>The code\<close>

definition MAC :: bytes where "MAC = [0x42, 0xD9, 0xAF, 0x86, 0x0B, 0x34]"
definition BROADCAST :: bytes where "BROADCAST = [0xff, 0xff, 0xff, 0xff, 0xff, 0xff]"
definition PORT :: int where "PORT = 2"

abbreviation (input) "ETH_ALEN \<equiv> 6 :: nat"

record 'd eth_api =
  et_is_ok :: "err \<Rightarrow> bool"
  et_send :: "'d \<Rightarrow> u8 \<times> int \<Rightarrow> bytes \<Rightarrow> err \<times> 'd"
  et_recv :: "'d \<Rightarrow> (err \<times> u8 \<times> bytes \<times> 'd) option"

text \<open>One iteration of the sender, with what the read returns (nothing when it returns no positive number). The buffer keeps
  what earlier frames have left after a shorter one. Send errors are only logged.\<close>

definition eth_send_frame :: "'d eth_api \<Rightarrow> int \<Rightarrow> int \<Rightarrow> nat \<Rightarrow> bytes \<Rightarrow> 'd \<Rightarrow> 'd" where
  "eth_send_frame api num_nodes my_node sz buf dev =
     (if take (ETH_ALEN - 1) buf = take (ETH_ALEN - 1) MAC
      then snd (et_send api dev (buf ! (ETH_ALEN - 1), PORT) (take sz buf))
      else if take ETH_ALEN buf = BROADCAST
      then fold (\<lambda>no dev. if no = my_node then dev else snd (et_send api dev (word_of_int no, PORT) (take sz buf))) [1..num_nodes] dev
      else dev)"

fun eth_sender :: "'d eth_api \<Rightarrow> int \<Rightarrow> int \<Rightarrow> bytes option list \<Rightarrow> bytes \<times> 'd \<Rightarrow> bytes \<times> 'd" where
  "eth_sender api num_nodes my_node [] s = s"
| "eth_sender api num_nodes my_node (None # es) s = eth_sender api num_nodes my_node es s"
| "eth_sender api num_nodes my_node (Some f # es) s = (
     let buf = f @ drop (length f) (fst s)
     in eth_sender api num_nodes my_node es (buf, eth_send_frame api num_nodes my_node (length f) buf (snd s)))"

text \<open>The receiver, for a number of iterations: the frames that are written to the interface. It stops where the receive
  blocks.\<close>

fun eth_receiver :: "'d eth_api \<Rightarrow> bytes \<Rightarrow> nat \<Rightarrow> 'd \<times> bytes list \<Rightarrow> 'd \<times> bytes list" where
  "eth_receiver api mymac 0 s = s"
| "eth_receiver api mymac (Suc k) s = (case et_recv api (fst s) of
       None \<Rightarrow> s
     | Some (ret, _, data, dev) \<Rightarrow> eth_receiver api mymac k (dev,
         if et_is_ok api ret \<and> length data \<ge> 12 \<and> (take ETH_ALEN data = mymac \<or> take ETH_ALEN data = BROADCAST)
         then snd s @ [data] else snd s))"

text \<open>The allocation of the interface: the result and the address, which is set before the last call. The inputs are the
  file descriptor of \<open>/dev/net/tun\<close> and whether the two \<open>ioctl\<close> calls succeed.\<close>

definition ethtap_alloc :: "int \<Rightarrow> bool \<Rightarrow> bool \<Rightarrow> int \<Rightarrow> bytes \<Rightarrow> int \<times> bytes" where
  "ethtap_alloc fd setiff sethwaddr mac mymac =
     (if fd < 0 then (- 1, mymac)
      else if \<not> setiff then (- 1, mymac)
      else (let mymac = MAC[ETH_ALEN - 1 := word_of_int mac] in (if sethwaddr then fd else - 1, mymac)))"

record tap =
  tap_port :: int
  tap_num_nodes :: int
  tap_my_node :: int
  tap_fd :: int
  tap_mac :: bytes

text \<open>\<open>None\<close> is the exit of the program. The result has the port that is bound, from which the receiver takes its messages.\<close>

definition ethtap_prepare :: "bool \<Rightarrow> (int \<Rightarrow> bool) \<Rightarrow> int \<Rightarrow> int \<Rightarrow> u8 \<Rightarrow> int \<Rightarrow> bool \<Rightarrow> bool \<Rightarrow> tap option" where
  "ethtap_prepare open_ok bind_ok axiom_port num_nodes node_id fd setiff sethwaddr =
     (if \<not> open_ok then None
      else if \<not> bind_ok axiom_port then None
      else (let (h, mac) = ethtap_alloc fd setiff sethwaddr (int (unat node_id)) (replicate ETH_ALEN 0)
            in if h \<le> 0 then None else Some \<lparr>tap_port = axiom_port, tap_num_nodes = num_nodes, tap_my_node = int (unat node_id), tap_fd = h, tap_mac = mac\<rparr>))"

text \<open>The options of the program.\<close>

record eth_conf =
  ec_foreground :: bool
  ec_port :: int
  ec_num_threads :: int
  ec_debug :: bool

definition eth_conf0 :: eth_conf where
  "eth_conf0 = \<lparr>ec_foreground = False, ec_port = PORT, ec_num_threads = 1, ec_debug = False\<rparr>"

definition MAX_THREADS :: nat where "MAX_THREADS = 64"

definition eth_optspec :: "char optspec" where
  "eth_optspec = \<lparr>os_char = id, os_short = map (\<lambda>c. (c, no_argument)) ''hfdV'' @ map (\<lambda>c. (c, required_argument)) ''pn'',
     os_long = [(''foreground'', no_argument, CHR ''f''), (''port'', required_argument, CHR ''p''), (''num_threads'', required_argument, CHR ''n''),
       (''help'', no_argument, CHR ''h''), (''debug'', no_argument, CHR ''d''), (''version'', no_argument, CHR ''V'')]\<rparr>"

definition eth_option :: "char \<Rightarrow> string option \<Rightarrow> eth_conf \<Rightarrow> int + eth_conf" where
  "eth_option opt arg c = (let a = (case arg of None \<Rightarrow> [] | Some a \<Rightarrow> a) in
     if opt = CHR ''f'' then Inr (c\<lparr>ec_foreground := True\<rparr>)
     else if opt = CHR ''p'' then Inr (c\<lparr>ec_port := atoi a\<rparr>)
     else if opt = CHR ''n'' then Inr (c\<lparr>ec_num_threads := atoi a\<rparr>)
     else if opt = CHR ''d'' then Inr (c\<lparr>ec_debug := True\<rparr>)
     else if opt = CHR ''V'' then Inl 0
     else if opt = CHR ''h'' then Inl 0
     else Inl 1)"

text \<open>The threads: a receiver and a sender each, in arrays of \<open>MAX_THREADS\<close>; an index past them is undefined. \<open>create i\<close> says whether the
  two calls for \<open>i\<close> succeed. The result is an exit code or the number of pairs.\<close>

function eth_threads :: "(nat \<Rightarrow> bool \<times> bool) \<Rightarrow> int \<Rightarrow> nat \<Rightarrow> (int + nat) option" where
  "eth_threads create num i =
     (if int i < num
      then (if i \<ge> MAX_THREADS then None
            else if \<not> fst (create i) then Some (Inl 1)
            else if \<not> snd (create i) then Some (Inl 1)
            else eth_threads create num (Suc i))
      else Some (Inr i))"
  by pat_completeness auto
termination
  by (relation "measure (\<lambda>(_, num, i). nat (num - int i))") auto

declare eth_threads.simps [simp del]

text \<open>What the system answers.\<close>

record eth_env =
  en_pid :: int
  en_open :: bool
  en_bind :: "int \<Rightarrow> bool"
  en_num_nodes :: int
  en_node_id :: u8
  en_tun :: int
  en_setiff :: bool
  en_sethwaddr :: bool
  en_create :: "nat \<Rightarrow> bool \<times> bool"

definition ethtap_main :: "eth_env \<Rightarrow> string list \<Rightarrow> (int + tap \<times> nat) option" where
  "ethtap_main e argv = (case parse_options eth_optspec eth_option eth_conf0 [] argv [] of
       Inl n \<Rightarrow> Some (Inl n)
     | Inr (c, _) \<Rightarrow>
         if \<not> ec_foreground c \<and> en_pid e \<noteq> 0 then Some (Inl 0)
         else (case ethtap_prepare (en_open e) (en_bind e) (ec_port c) (en_num_nodes e) (en_node_id e) (en_tun e) (en_setiff e) (en_sethwaddr e) of
             None \<Rightarrow> Some (Inl 1)
           | Some t \<Rightarrow> map_option (map_sum id (Pair t)) (eth_threads (en_create e) (ec_num_threads c) 0)))"

lemma eth_threads_run:
  assumes "\<And>i. i < MAX_THREADS \<Longrightarrow> create i = (True, True)"
  shows "i \<le> n \<Longrightarrow> i \<le> MAX_THREADS \<Longrightarrow> eth_threads create (int n) i = (if n \<le> MAX_THREADS then Some (Inr n) else None)"
proof (induction "n - i" arbitrary: i)
  case 0
  then show ?case by (simp add: eth_threads.simps)
next
  case (Suc x)
  then show ?case using assms [of i] by (cases "i = MAX_THREADS") (auto simp: eth_threads.simps [of create "int n" i] eth_threads.simps [of create "int n" MAX_THREADS])
qed

section \<open>A switched Ethernet\<close>

text \<open>The address of a node.\<close>

definition eth_mac :: "nat \<Rightarrow> bytes" where
  "eth_mac n = take 5 MAC @ [of_nat n]"

lemma prepare_tap: "ethtap_prepare op bi p num_nodes node_id fd si sh = Some t \<Longrightarrow> tap_mac t = eth_mac (unat node_id)
    \<and> tap_num_nodes t = num_nodes \<and> tap_my_node t = int (unat node_id)"
  by (auto simp: ethtap_prepare_def ethtap_alloc_def eth_mac_def MAC_def Let_def split: if_splits)

lemma map_sum_Inr: "map_sum f g z = Inr x \<longleftrightarrow> (\<exists>y. z = Inr y \<and> x = g y)"
  by (cases z) auto

lemma main_tap: "ethtap_main e argv = Some (Inr (t, k)) \<Longrightarrow> tap_mac t = eth_mac (unat (en_node_id e))
    \<and> tap_num_nodes t = en_num_nodes e \<and> tap_my_node t = int (unat (en_node_id e))"
  by (auto simp: ethtap_main_def map_sum_Inr dest!: prepare_tap split: sum.splits if_splits option.splits)

text \<open>Where a frame is sent.\<close>

definition eth_route :: "nat \<Rightarrow> nat \<Rightarrow> bytes \<Rightarrow> u8 list" where
  "eth_route num me f =
     (if take 5 f = take 5 MAC then [f ! 5]
      else if take 6 f = BROADCAST then map of_nat (filter (\<lambda>n. n \<noteq> me) [1..<Suc num]) else [])"

lemma take_buf: "k \<le> length f \<Longrightarrow> take k (f @ r) = take k f" "k < length f \<Longrightarrow> (f @ r) ! k = f ! k"
  by (simp_all add: nth_append)

lemma upto_int: "[1..int n] = map int [1..<Suc n]"
  by (induction n) (simp_all add: upto_rec2)

lemma fold_skip:
  assumes "lossless ok send sent"
  shows "sent (fold (\<lambda>no dev. if no = me then dev else snd (send dev (word_of_int no, p) m)) (map int ns) dev)
    = sent dev @ map (\<lambda>n. ((of_nat n, p), m)) (filter (\<lambda>n. int n \<noteq> me) ns)"
proof (induction ns arbitrary: dev)
  case (Cons n ns)
  have "sent (snd (send dev (word_of_int (int n), p) m)) = sent dev @ [((of_nat n, p), m)]"
    using assms unfolding lossless_def by simp
  with Cons show ?case by simp
qed simp

lemma send_frame_log:
  assumes "lossless (et_is_ok api) (et_send api) sent" "12 \<le> length f"
  shows "sent (eth_send_frame api (int num) (int me) (length f) (f @ r) dev) = sent dev @ map (\<lambda>n. ((n, PORT), f)) (eth_route num me f)"
proof -
  have "sent (snd (et_send api dev (f ! 5, PORT) f)) = sent dev @ [((f ! 5, PORT), f)]"
    using assms(1) unfolding lossless_def by simp
  moreover have "take (length f) (f @ r) = f" by simp
  ultimately show ?thesis unfolding eth_send_frame_def
    using assms(2) fold_skip [OF assms(1), of "int me" PORT f "[1..<Suc num]" dev]
    by (simp add: eth_route_def take_buf upto_int o_def del: upt_Suc cong: if_cong)
qed

lemma sender_log:
  assumes "lossless (et_is_ok api) (et_send api) sent"
  shows "\<forall>f. Some f \<in> set es \<longrightarrow> 12 \<le> length f \<Longrightarrow>
    sent (snd (eth_sender api (int num) (int me) es s)) = sent (snd s)
      @ concat (map (\<lambda>f. map (\<lambda>n. ((n, PORT), f)) (eth_route num me f)) (map the (filter (\<lambda>e. e \<noteq> None) es)))"
proof (induction es arbitrary: s)
  case (Cons e es)
  show ?case
  proof (cases e)
    case None
    with Cons show ?thesis by simp
  next
    case (Some f)
    with Cons.prems have "12 \<le> length f" by simp
    from send_frame_log [OF assms this, of num me "drop (length f) (fst s)" "snd s"] Cons Some show ?thesis by (simp add: Let_def)
  qed
qed simp

text \<open>What a node gets.\<close>

lemma route_here:
  assumes "1 \<le> n" "n \<le> num" "num < 256"
  shows "filter (\<lambda>d. d = of_nat n) (eth_route num me f) =
    (if take 5 f = take 5 MAC \<and> f ! 5 = of_nat n \<or> take 6 f = BROADCAST \<and> n \<noteq> me then [of_nat n] else [])"
proof -
  have "filter (\<lambda>d. d = (of_nat n :: u8)) (map of_nat ks) = (if n \<in> set ks then [of_nat n] else [])"
    if "distinct ks" "set ks \<subseteq> {1..num}" for ks using that assms
    by (induction ks) (auto simp: of_nat_eq_u8_iff filter_empty_conv)
  note this [of "filter (\<lambda>k. k \<noteq> me) [1..<Suc num]"]
  moreover have "set (filter (\<lambda>k. k \<noteq> me) [1..<Suc num]) \<subseteq> {1..num}" by auto
  moreover have "n \<in> set (filter (\<lambda>k. k \<noteq> me) [1..<Suc num]) \<longleftrightarrow> n \<noteq> me" using assms by auto
  moreover have "take 5 f = take 5 MAC \<Longrightarrow> take 6 f \<noteq> BROADCAST"
  proof
    assume "take 5 f = take 5 MAC" "take 6 f = BROADCAST"
    then have "take 5 (take 6 f) = take 5 BROADCAST" by simp
    then have "take 5 BROADCAST = take 5 MAC" using \<open>take 5 f = take 5 MAC\<close> by simp
    then show False by (simp add: BROADCAST_def MAC_def)
  qed
  moreover have "distinct (filter (\<lambda>k. k \<noteq> me) [1..<Suc num])" by simp
  ultimately show ?thesis unfolding eth_route_def by (cases "n = me") (simp_all del: upt_Suc filter_map map_map)
qed

text \<open>A queue of messages that the receive takes in order.\<close>

definition eth_queue :: "'d eth_api \<Rightarrow> ('d \<Rightarrow> (u8 \<times> bytes) list) \<Rightarrow> bool" where
  "eth_queue api inbox \<longleftrightarrow>
     (\<forall>d src m ms. inbox d = (src, m) # ms \<longrightarrow> (\<exists>e d'. et_recv api d = Some (e, src, m, d') \<and> et_is_ok api e \<and> inbox d' = ms))"

lemma receiver_writes:
  assumes "eth_queue api inbox"
  shows "inbox (fst s) = q \<Longrightarrow> snd (eth_receiver api mymac (length q) s)
    = snd s @ filter (\<lambda>f. length f \<ge> 12 \<and> (take 6 f = mymac \<or> take 6 f = BROADCAST)) (map snd q)"
proof (induction q arbitrary: s)
  case (Cons x q)
  obtain e d' where "et_recv api (fst s) = Some (e, fst x, snd x, d')" "et_is_ok api e" "inbox d' = q"
    using assms Cons.prems unfolding eth_queue_def by (metis prod.collapse)
  with Cons.IH show ?case by simp
qed simp

text \<open>The messages for one node and port, from a log.\<close>

definition eth_inbox :: "u8 \<Rightarrow> nat \<Rightarrow> int \<Rightarrow> ((u8 \<times> int) \<times> bytes) list \<Rightarrow> (u8 \<times> bytes) list" where
  "eth_inbox src n port log = map (\<lambda>x. (src, snd x)) (filter (\<lambda>x. fst x = (of_nat n, port)) log)"

lemma mac_bytes: "12 \<le> length f \<Longrightarrow> take 6 f = eth_mac n \<longleftrightarrow> take 5 f = take 5 MAC \<and> f ! 5 = of_nat n"
proof -
  assume "12 \<le> length f"
  then have "take 6 f = take 5 f @ [f ! 5]" using take_Suc_conv_app_nth [of 5 f] by simp
  then show ?thesis by (simp add: eth_mac_def)
qed

lemma inbox_frames:
  assumes "1 \<le> n" "n \<le> num" "num < 256" "\<forall>f\<in>set fs. 12 \<le> length f"
  shows "map snd (eth_inbox src n PORT (concat (map (\<lambda>f. map (\<lambda>k. ((k, PORT), f)) (eth_route num me f)) fs)))
    = filter (\<lambda>f. take 6 f = eth_mac n \<or> take 6 f = BROADCAST \<and> n \<noteq> me) fs"
  using assms(4)
proof (induction fs)
  case (Cons f fs)
  have "map snd (eth_inbox src n PORT (map (\<lambda>k. ((k, PORT), f)) (eth_route num me f)))
      = map (\<lambda>_. f) (filter (\<lambda>d. d = of_nat n) (eth_route num me f))"
    by (simp add: eth_inbox_def filter_map o_def)
  also have "\<dots> = (if take 6 f = eth_mac n \<or> take 6 f = BROADCAST \<and> n \<noteq> me then [f] else [])"
    using Cons.prems by (subst route_here [OF assms(1-3)]) (simp add: mac_bytes)
  finally show ?case using Cons by (simp add: eth_inbox_def)
qed (simp add: eth_inbox_def)

text \<open>C15: The programs of the nodes together are a switched Ethernet. When the programs of the nodes \<open>me\<close> and \<open>n\<close> have started with one pair of threads each
  (\<open>-n 1\<close>, the default), node \<open>n\<close> has bound the port 2 (the default: the frames are sent to this port whatever \<open>-p\<close> says, so
  that with another port a node gets nothing), node \<open>me\<close> reads a sequence of frames of at least twelve bytes from its interface and the NIC delivers
  what is sent to the bound port of node \<open>n\<close>, then node \<open>n\<close> writes to its interface exactly the frames addressed to it and the broadcast
  frames of other nodes, unchanged and in order.\<close>

theorem ethtap_switch:
  assumes "lossless (et_is_ok api) (et_send api) sent" "eth_queue api' inbox"
    "1 \<le> n" "n \<le> num" "num < 256" "\<forall>f. Some f \<in> set es \<longrightarrow> 12 \<le> length f" "me < 256"
    "ethtap_main e' argv' = Some (Inr (t', 1))" "en_node_id e' = of_nat me" "en_num_nodes e' = int num"
    "ethtap_main e argv = Some (Inr (t, 1))" "en_node_id e = of_nat n" "tap_port t = PORT"
    "inbox d = eth_inbox src n (tap_port t)
      (drop (length (sent (snd s))) (sent (snd (eth_sender api (tap_num_nodes t') (tap_my_node t') es s))))"
  shows "snd (eth_receiver api' (tap_mac t) (length (inbox d)) (d, []))
    = filter (\<lambda>f. take 6 f = eth_mac n \<or> take 6 f = BROADCAST \<and> n \<noteq> me) (map the (filter (\<lambda>e. e \<noteq> None) es))"
proof -
  let ?fs = "map the (filter (\<lambda>e. e \<noteq> None) es)"
  have len: "\<forall>f\<in>set ?fs. 12 \<le> length f" using assms(6) by auto
  have "tap_mac t = eth_mac n" using main_tap [OF assms(11)] assms(3-5,12) by simp
  moreover have "tap_num_nodes t' = int num" "tap_my_node t' = int me" using main_tap [OF assms(8)] assms(7,9,10) by simp_all
  moreover have "map snd (inbox d) = filter (\<lambda>f. take 6 f = eth_mac n \<or> take 6 f = BROADCAST \<and> n \<noteq> me) ?fs"
    unfolding assms(13,14) calculation sender_log [OF assms(1,6)] using inbox_frames [OF assms(3-5) len] by simp
  moreover have "filter (\<lambda>f. length f \<ge> 12 \<and> (take 6 f = eth_mac n \<or> take 6 f = BROADCAST))
      (filter (\<lambda>f. take 6 f = eth_mac n \<or> take 6 f = BROADCAST \<and> n \<noteq> me) fs)
      = filter (\<lambda>f. take 6 f = eth_mac n \<or> take 6 f = BROADCAST \<and> n \<noteq> me) fs" if "\<forall>f\<in>set fs. 12 \<le> length f" for fs
    using that by (induction fs) auto
  note this [OF len]
  ultimately show ?thesis using receiver_writes [OF assms(2), of "(d, [])" "inbox d" "tap_mac t"] by simp
qed

section \<open>Instances\<close>

definition demo_eth :: "(((u8 \<times> int) \<times> bytes) list \<times> (u8 \<times> bytes) list) eth_api" where
  "demo_eth = \<lparr>et_is_ok = (\<lambda>e. 0 \<le> e), et_send = (\<lambda>(l, q) n m. (0, l @ [(n, m)], q)),
     et_recv = (\<lambda>(l, q). case q of [] \<Rightarrow> None | (n, m) # q \<Rightarrow> Some (0, n, m, l, q))\<rparr>"

lemma demo_eth_ok: "lossless (et_is_ok demo_eth) (et_send demo_eth) fst" "eth_queue demo_eth snd"
  by (auto simp: lossless_def eth_queue_def demo_eth_def split: prod.splits)

definition demo_frames :: "bytes list" where
  "demo_frames = [eth_mac 2 @ replicate 8 1, BROADCAST @ replicate 8 2, eth_mac 3 @ replicate 8 3]"

definition demo_eth_env :: "u8 \<Rightarrow> eth_env" where
  "demo_eth_env n = \<lparr>en_pid = 0, en_open = True, en_bind = (\<lambda>p. p = 2), en_num_nodes = 3, en_node_id = n, en_tun = 5, en_setiff = True,
     en_sethwaddr = True, en_create = (\<lambda>_. (True, True))\<rparr>"

definition demo_tap :: "nat \<Rightarrow> tap" where
  "demo_tap n = \<lparr>tap_port = 2, tap_num_nodes = 3, tap_my_node = int n, tap_fd = 5, tap_mac = eth_mac n\<rparr>"

lemma demo_eth_main:
  "ethtap_main (demo_eth_env 2) [''-n'', ''1'', ''--port=2''] = Some (Inr (demo_tap 2, 1))"
  "ethtap_main (demo_eth_env 1) [''-f''] = Some (Inr (demo_tap 1, 1))"
  by code_simp+

theorem ethtap_switch_witness:
  "ethtap_main (demo_eth_env 2) [''-n'', ''1'', ''--port=2''] = Some (Inr (demo_tap 2, 1)) \<and>
    (let q = eth_inbox 1 2 2 (fst (snd (eth_sender demo_eth 3 1 (None # map Some demo_frames) (replicate 20 0, [], []))))
     in snd (eth_receiver demo_eth (eth_mac 2) (length q) (([], q), [])) = [eth_mac 2 @ replicate 8 1, BROADCAST @ replicate 8 2])"
proof -
  let ?es = "None # map Some demo_frames"
  let ?q = "eth_inbox 1 2 2 (fst (snd (eth_sender demo_eth 3 1 ?es (replicate 20 0, [], []))))"
  have len: "\<forall>f. Some f \<in> set ?es \<longrightarrow> 12 \<le> length f" by (auto simp: demo_frames_def eth_mac_def MAC_def BROADCAST_def)
  have "map the (filter (\<lambda>e. e \<noteq> None) ?es) = demo_frames" by (simp add: demo_frames_def)
  moreover have "filter (\<lambda>f. take 6 f = eth_mac 2 \<or> take 6 f = BROADCAST \<and> 2 \<noteq> (1 :: nat)) demo_frames
      = [eth_mac 2 @ replicate 8 1, BROADCAST @ replicate 8 2]"
    by (simp add: demo_frames_def eth_mac_def MAC_def BROADCAST_def take_Cons')
  moreover have e: "en_node_id (demo_eth_env k) = k" "en_num_nodes (demo_eth_env k) = int 3" "tap_port (demo_tap j) = PORT" "tap_port (demo_tap j) = 2"
    "tap_num_nodes (demo_tap j) = 3" "tap_my_node (demo_tap j) = int j" "tap_mac (demo_tap j) = eth_mac j" for k j
    by (simp_all add: demo_eth_env_def demo_tap_def PORT_def)
  ultimately have "snd (eth_receiver demo_eth (eth_mac 2) (length ?q) (([], ?q), [])) = [eth_mac 2 @ replicate 8 1, BROADCAST @ replicate 8 2]"
    using ethtap_switch [OF demo_eth_ok _ _ _ len _ demo_eth_main(2) _ e(2) demo_eth_main(1), where d = "([], ?q)" and src = 1
        and s = "(replicate 20 0, [], [])" and me = 1 and n = 2] by simp
  with demo_eth_main(1) show ?thesis by (simp add: Let_def)
qed

end
