(* ===== verification/Send_Recv.thy ===== *)
theory Send_Recv
  imports Getopt C_Strings Nic_Api
begin

text \<open>
  The programs \<open>axiom-send\<close> (\<open>axiom-send/axiom-send.c\<close>) and \<open>axiom-recv\<close> (\<open>axiom-recv/axiom-recv.c\<close>), which send a message given
  on the command line and print the messages that arrive. Both can pass the payload as one buffer or as a
  number of parts (\<open>struct iovec\<close>). The calls of the NIC are inputs.
\<close>

section \<open>Parts of a buffer\<close>

text \<open>A part: its offset in the payload buffer and its length.\<close>

type_synonym iovec = "nat \<times> nat"

text \<open>The loop that fills the array, and the length of the last part.\<close>

function iov_loop :: "nat \<Rightarrow> nat \<Rightarrow> nat \<Rightarrow> nat \<Rightarrow> nat \<Rightarrow> iovec list \<Rightarrow> iovec list option" where
  "iov_loop cnt sz new_size i offset iov =
     (if i < cnt \<and> offset < sz
      then do { iov \<leftarrow> aset iov i (offset, new_size); iov_loop cnt sz new_size (Suc i) (offset + new_size) iov }
      else Some iov)"
  by pat_completeness auto
termination
  by (relation "measure (\<lambda>(cnt, _, _, i, _). cnt - i)") auto

declare iov_loop.simps [simp del]

definition iov_split :: "nat \<Rightarrow> nat \<Rightarrow> iovec list \<Rightarrow> iovec list option" where
  "iov_split sz cnt iov = (let new_size = sz div cnt in do {
     iov \<leftarrow> iov_loop cnt sz new_size 0 0 iov;
     v \<leftarrow> aget iov (cnt - 1);
     aset iov (cnt - 1) (fst v, sz - new_size * (cnt - 1))
   })"

text \<open>What the calls with parts do with them: the bytes that are sent, and the buffer after a message has been stored.\<close>

definition gather :: "bytes \<Rightarrow> iovec list \<Rightarrow> bytes" where
  "gather buf iov = concat (map (\<lambda>(a, l). take l (drop a buf)) iov)"

fun scatter :: "iovec list \<Rightarrow> bytes \<Rightarrow> bytes \<Rightarrow> bytes" where
  "scatter [] data buf = buf"
| "scatter ((a, l) # iov) data buf = scatter iov (drop l data) (splice buf a (take l data))"

section \<open>Sending\<close>

text \<open>\<open>AXNP_RAW\<close>, \<open>AXNP_LONG\<close> and both.\<close>

datatype msg_type = MT_RAW | MT_LONG | MT_ANY

record send_consts =
  PAYLOAD_SIZE :: nat
  AXIOM_RAW_PAYLOAD_MAX_SIZE :: nat
  AXIOM_LONG_PAYLOAD_MAX_SIZE :: nat
  AXIOM_PORT_MAX :: nat
  AXIOM_NODES_MAX :: nat

definition AXIOM_SEND_MAX_IOVEC :: nat where "AXIOM_SEND_MAX_IOVEC = 16"

text \<open>The destination of a message: node (or interface) and port. The flag of a raw message says that it goes to the
  neighbour.\<close>

record 'd snd_api =
  sd_is_ok :: "err \<Rightarrow> bool"
  sd_notreach :: err
  sd_open :: "'d \<Rightarrow> 'd option"
  sd_any :: "'d \<Rightarrow> u8 \<times> u8 \<Rightarrow> bytes \<Rightarrow> err \<times> 'd"
  sd_raw :: "'d \<Rightarrow> u8 \<times> u8 \<Rightarrow> bool \<Rightarrow> bytes \<Rightarrow> err \<times> 'd"
  sd_long :: "'d \<Rightarrow> u8 \<times> u8 \<Rightarrow> bytes \<Rightarrow> err \<times> 'd"
  sd_iov_any :: "'d \<Rightarrow> u8 \<times> u8 \<Rightarrow> nat \<Rightarrow> bytes \<Rightarrow> iovec list \<Rightarrow> err \<times> 'd"
  sd_iov_raw :: "'d \<Rightarrow> u8 \<times> u8 \<Rightarrow> bool \<Rightarrow> nat \<Rightarrow> bytes \<Rightarrow> iovec list \<Rightarrow> err \<times> 'd"
  sd_iov_long :: "'d \<Rightarrow> u8 \<times> u8 \<Rightarrow> nat \<Rightarrow> bytes \<Rightarrow> iovec list \<Rightarrow> err \<times> 'd"

definition axsnd_send :: "'d snd_api \<Rightarrow> 'd \<Rightarrow> msg_type \<Rightarrow> u8 \<times> u8 \<Rightarrow> bool \<Rightarrow> nat \<Rightarrow> bytes \<Rightarrow> err \<times> 'd" where
  "axsnd_send api dev np dst neigh sz payload = (case np of
       MT_ANY \<Rightarrow> sd_any api dev dst (take sz payload)
     | MT_RAW \<Rightarrow> sd_raw api dev dst neigh (take sz payload)
     | MT_LONG \<Rightarrow> sd_long api dev dst (take sz payload))"

definition axsnd_send_iov :: "'d snd_api \<Rightarrow> 'd \<Rightarrow> msg_type \<Rightarrow> u8 \<times> u8 \<Rightarrow> bool \<Rightarrow> nat \<Rightarrow> bytes \<Rightarrow> iovec list \<Rightarrow> err \<times> 'd" where
  "axsnd_send_iov api dev np dst neigh sz payload iov = (case np of
       MT_ANY \<Rightarrow> sd_iov_any api dev dst sz payload iov
     | MT_RAW \<Rightarrow> sd_iov_raw api dev dst neigh sz payload iov
     | MT_LONG \<Rightarrow> sd_iov_long api dev dst sz payload iov)"

text \<open>The options. The waiting time is not kept; \<open>fl\<close> says whether \<open>sscanf\<close> reads a number with \<open>%f\<close>.\<close>

record send_opts =
  so_port :: "u8 option"
  so_type :: msg_type
  so_dst :: "u8 option"
  so_neighbour :: bool
  so_repeat :: int
  so_count :: int
  so_iovcnt :: int
  so_verbose :: bool

definition send_opts0 :: send_opts where
  "send_opts0 = \<lparr>so_port = None, so_type = MT_ANY, so_dst = None, so_neighbour = False, so_repeat = 0, so_count = 1, so_iovcnt = 0, so_verbose = False\<rparr>"

definition send_optspec :: "char optspec" where
  "send_optspec = \<lparr>os_char = id, os_short = map (\<lambda>c. (c, no_argument)) ''hnvV'' @ map (\<lambda>c. (c, required_argument)) ''tpdrcsi'',
     os_long = [(''dest'', required_argument, CHR ''d''), (''type'', required_argument, CHR ''t''), (''repeat'', required_argument, CHR ''r''),
       (''port'', required_argument, CHR ''p''), (''count'', required_argument, CHR ''c''), (''sleep'', required_argument, CHR ''s''),
       (''iovec'', required_argument, CHR ''i''), (''neighbour'', no_argument, CHR ''n''), (''version'', no_argument, CHR ''V''),
       (''help'', no_argument, CHR ''h'')]\<rparr>"

definition decode_type :: "string \<Rightarrow> msg_type option" where
  "decode_type a = do {
     s \<leftarrow> scan_s a;
     if has_prefix ''long'' s then Some MT_LONG else if has_prefix ''raw'' s then Some MT_RAW
     else if has_prefix ''any'' s then Some MT_ANY else None
   }"

definition send_option :: "(string \<Rightarrow> bool) \<Rightarrow> char \<Rightarrow> string option \<Rightarrow> send_opts \<Rightarrow> int + send_opts" where
  "send_option fl opt arg c = (let a = (case arg of None \<Rightarrow> [] | Some a \<Rightarrow> a) in
     if opt = CHR ''p'' then set_opt (scan_u8 a) (\<lambda>v. c\<lparr>so_port := Some v\<rparr>)
     else if opt = CHR ''t'' then set_opt (decode_type a) (\<lambda>v. c\<lparr>so_type := v\<rparr>)
     else if opt = CHR ''d'' then set_opt (scan_u8 a) (\<lambda>v. c\<lparr>so_dst := Some v\<rparr>)
     else if opt = CHR ''n'' then Inr (c\<lparr>so_neighbour := True\<rparr>)
     else if opt = CHR ''r'' then set_opt (scan_int a) (\<lambda>v. c\<lparr>so_repeat := v\<rparr>)
     else if opt = CHR ''c'' then set_opt (scan_int a) (\<lambda>v. c\<lparr>so_count := v\<rparr>)
     else if opt = CHR ''s'' then (if fl a then Inr c else Inl (- 1))
     else if opt = CHR ''i'' then set_opt (scan_int a) (\<lambda>v. c\<lparr>so_iovcnt := v\<rparr>)
     else if opt = CHR ''v'' then Inr (c\<lparr>so_verbose := True\<rparr>)
     else if opt = CHR ''V'' then Inl 0
     else Inl (- 1))"

text \<open>The payload: the part of the buffer that has been written. The number of a byte is taken modulo 256.\<close>

fun read_payload :: "nat \<Rightarrow> string list \<Rightarrow> bytes \<Rightarrow> bytes option" where
  "read_payload lim [] p = Some p"
| "read_payload lim (a # args) p =
     (if length p < lim then do { b \<leftarrow> scan_u8 a; read_payload lim args (p @ [b]) } else Some p)"

fun repeat_payload :: "nat \<Rightarrow> nat \<Rightarrow> bytes \<Rightarrow> bytes \<Rightarrow> bytes" where
  "repeat_payload lim 0 orig p = p"
| "repeat_payload lim (Suc k) orig p =
     (if length p + length orig \<le> lim then repeat_payload lim k orig (p @ orig) else p)"

definition send_limit :: "send_consts \<Rightarrow> msg_type \<Rightarrow> nat \<Rightarrow> nat" where
  "send_limit k np sz = (let lim = (if np = MT_RAW then AXIOM_RAW_PAYLOAD_MAX_SIZE k else AXIOM_LONG_PAYLOAD_MAX_SIZE k)
     in if sz > lim then lim else sz)"

text \<open>The loop over the messages; a node that is not reachable does not stop it.\<close>

fun send_loop :: "'d snd_api \<Rightarrow> ('d \<Rightarrow> err \<times> 'd) \<Rightarrow> nat \<Rightarrow> 'd \<Rightarrow> 'd" where
  "send_loop api send 0 dev = dev"
| "send_loop api send (Suc k) dev = (let (ret, dev) = send dev
     in if \<not> sd_is_ok api ret \<and> ret \<noteq> sd_notreach api then dev else send_loop api send k dev)"

text \<open>The program; \<open>None\<close> is an exit with a message. \<open>junk\<close> is the array of parts before it is filled.\<close>

definition axiom_send_run :: "'d snd_api \<Rightarrow> send_consts \<Rightarrow> send_opts \<Rightarrow> string list \<Rightarrow> iovec list \<Rightarrow> 'd \<Rightarrow> 'd option" where
  "axiom_send_run api k op args junk dev = (
     let port = (case so_port op of None \<Rightarrow> 1 | Some p \<Rightarrow> p) in
     if so_port op \<noteq> None \<and> unat port > AXIOM_PORT_MAX k then None
     else if so_neighbour op \<and> so_type op \<noteq> MT_RAW then None
     else case so_dst op of None \<Rightarrow> None | Some dst \<Rightarrow>
       if unat dst > AXIOM_NODES_MAX k then None
       else if so_iovcnt op < 0 \<or> so_iovcnt op > int AXIOM_SEND_MAX_IOVEC then None
       else do {
         p \<leftarrow> read_payload (PAYLOAD_SIZE k) args [];
         if p = [] then None
         else do {
           let p = (if so_repeat op \<noteq> 0 then repeat_payload (PAYLOAD_SIZE k) (nat (so_repeat op - 1)) p p else p);
           dev \<leftarrow> sd_open api dev;
           let sz = send_limit k (so_type op) (length p);
           let cnt = (if sz < nat (so_iovcnt op) then 0 else nat (so_iovcnt op));
           if cnt > 0
           then do {
             iov \<leftarrow> iov_split sz cnt junk;
             Some (send_loop api (\<lambda>dev. axsnd_send_iov api dev (so_type op) (dst, port) (so_neighbour op) sz p (take cnt iov)) (nat (so_count op)) dev)
           }
           else Some (send_loop api (\<lambda>dev. axsnd_send api dev (so_type op) (dst, port) (so_neighbour op) sz p) (nat (so_count op)) dev)
         }
       })"

definition axiom_send_main :: "'d snd_api \<Rightarrow> send_consts \<Rightarrow> (string \<Rightarrow> bool) \<Rightarrow> string list \<Rightarrow> iovec list \<Rightarrow> 'd \<Rightarrow> 'd option" where
  "axiom_send_main api k fl argv junk dev = (case parse_options send_optspec (send_option fl) send_opts0 [] argv [] of
       Inl _ \<Rightarrow> None
     | Inr (op, args) \<Rightarrow> axiom_send_run api k op args junk dev)"

section \<open>Receiving\<close>

datatype wire_type = AXIOM_TYPE_RAW_DATA | AXIOM_TYPE_RAW_NEIGHBOUR | AXIOM_TYPE_LONG_DATA

definition AXIOM_RECV_MAX_IOVEC :: nat where "AXIOM_RECV_MAX_IOVEC = 16"

text \<open>A receive gets the space there is and the buffer; it returns the source node and port, the type, the size of the
  message and the buffer. It does not return when it blocks.\<close>

type_synonym 'd received = "(err \<times> (u8 \<times> u8) \<times> wire_type \<times> nat \<times> bytes \<times> 'd) option"

record 'd rcv_api =
  rv_is_ok :: "err \<Rightarrow> bool"
  rv_notavail :: err
  rv_open :: "bool \<Rightarrow> bool \<Rightarrow> 'd \<Rightarrow> 'd option"
  rv_bind :: "'d \<Rightarrow> u8 \<Rightarrow> err \<times> 'd"
  rv_any :: "'d \<Rightarrow> nat \<Rightarrow> bytes \<Rightarrow> 'd received"
  rv_raw :: "'d \<Rightarrow> nat \<Rightarrow> bytes \<Rightarrow> 'd received"
  rv_long :: "'d \<Rightarrow> nat \<Rightarrow> bytes \<Rightarrow> 'd received"
  rv_iov_any :: "'d \<Rightarrow> nat \<Rightarrow> iovec list \<Rightarrow> bytes \<Rightarrow> 'd received"
  rv_iov_raw :: "'d \<Rightarrow> nat \<Rightarrow> iovec list \<Rightarrow> bytes \<Rightarrow> 'd received"
  rv_iov_long :: "'d \<Rightarrow> nat \<Rightarrow> iovec list \<Rightarrow> bytes \<Rightarrow> 'd received"

definition set_long :: "'d received \<Rightarrow> 'd received" where
  "set_long r = map_option (\<lambda>(e, src, _, x). (e, src, AXIOM_TYPE_LONG_DATA, x)) r"

definition axrcv_recv :: "'d rcv_api \<Rightarrow> send_consts \<Rightarrow> msg_type \<Rightarrow> 'd \<Rightarrow> nat \<Rightarrow> bytes \<Rightarrow> 'd received" where
  "axrcv_recv api k np dev sz buf = (case np of
       MT_ANY \<Rightarrow> rv_any api dev sz buf
     | MT_RAW \<Rightarrow> rv_raw api dev (if sz > AXIOM_RAW_PAYLOAD_MAX_SIZE k then AXIOM_RAW_PAYLOAD_MAX_SIZE k else sz) buf
     | MT_LONG \<Rightarrow> set_long (rv_long api dev sz buf))"

definition axrcv_recv_iov :: "'d rcv_api \<Rightarrow> send_consts \<Rightarrow> msg_type \<Rightarrow> 'd \<Rightarrow> nat \<Rightarrow> iovec list \<Rightarrow> bytes \<Rightarrow> 'd received" where
  "axrcv_recv_iov api k np dev sz iov buf = (case np of
       MT_ANY \<Rightarrow> rv_iov_any api dev sz iov buf
     | MT_RAW \<Rightarrow> rv_iov_raw api dev (if sz > AXIOM_RAW_PAYLOAD_MAX_SIZE k then AXIOM_RAW_PAYLOAD_MAX_SIZE k else sz) iov buf
     | MT_LONG \<Rightarrow> set_long (rv_iov_long api dev sz iov buf))"

text \<open>A message that arrives: source node and port, type, and the bytes of the payload.\<close>

type_synonym recv_line = "(u8 \<times> u8) \<times> wire_type \<times> bytes"

text \<open>What is printed for a message: the source, the text of its type, the size, and with \<open>-v\<close> the bytes. The text is not set for a
  message of a neighbour: the line has the contents of an array that is not initialised.\<close>

type_synonym recv_print = "(u8 \<times> u8) \<times> string \<times> nat \<times> bytes option"

definition type_str :: "wire_type \<Rightarrow> string option" where
  "type_str ty = (case ty of AXIOM_TYPE_RAW_DATA \<Rightarrow> Some ''RAW'' | AXIOM_TYPE_LONG_DATA \<Rightarrow> Some ''LONG'' | AXIOM_TYPE_RAW_NEIGHBOUR \<Rightarrow> None)"

definition recv_msg_print :: "bool \<Rightarrow> u8 \<times> u8 \<Rightarrow> wire_type \<Rightarrow> nat \<Rightarrow> bytes \<Rightarrow> recv_print option" where
  "recv_msg_print verbose src ty sz buf =
     map_option (\<lambda>t. (src, t, sz, if verbose then Some (take sz buf) else None)) (type_str ty)"

text \<open>The loop, for a number of iterations. A receive that finds nothing goes on with the condition of the loop. \<open>None\<close> is the print of
  the array that is not initialised.\<close>

fun recv_loop ::
  "'d rcv_api \<Rightarrow> ('d \<Rightarrow> bytes \<Rightarrow> 'd received) \<Rightarrow> bool \<Rightarrow> bool \<Rightarrow> nat \<Rightarrow> bytes \<times> 'd \<times> recv_print list \<Rightarrow> (bytes \<times> 'd \<times> recv_print list) option" where
  "recv_loop api recv verbose once 0 s = Some s"
| "recv_loop api recv verbose once (Suc n) (buf, dev, out) = (case recv dev buf of
       None \<Rightarrow> Some (buf, dev, out)
     | Some (ret, src, ty, sz, buf, dev) \<Rightarrow>
         if \<not> rv_is_ok api ret
         then (if ret = rv_notavail api \<and> \<not> once then recv_loop api recv verbose once n (buf, dev, out) else Some (buf, dev, out))
         else do {
           l \<leftarrow> recv_msg_print verbose src ty sz buf;
           if once then Some (buf, dev, out @ [l]) else recv_loop api recv verbose once n (buf, dev, out @ [l])
         })"

record recv_opts =
  ro_port :: u8
  ro_type :: msg_type
  ro_once :: bool
  ro_noblock :: bool
  ro_flush :: bool
  ro_iovcnt :: int
  ro_max_payload :: int
  ro_verbose :: bool

definition recv_opts0 :: "send_consts \<Rightarrow> recv_opts" where
  "recv_opts0 k = \<lparr>ro_port = 1, ro_type = MT_ANY, ro_once = False, ro_noblock = False, ro_flush = False, ro_iovcnt = 0,
     ro_max_payload = int (PAYLOAD_SIZE k), ro_verbose = False\<rparr>"

definition recv_optspec :: "char optspec" where
  "recv_optspec = \<lparr>os_char = id, os_short = map (\<lambda>c. (c, no_argument)) ''honfvV'' @ map (\<lambda>c. (c, required_argument)) ''pstmi'',
     os_long = [(''port'', required_argument, CHR ''p''), (''type'', required_argument, CHR ''t''), (''once'', no_argument, CHR ''o''),
       (''sleep'', required_argument, CHR ''s''), (''noblocking'', no_argument, CHR ''n''), (''flush'', no_argument, CHR ''f''),
       (''iovec'', required_argument, CHR ''i''), (''maxpayload'', required_argument, CHR ''m''), (''verbose'', no_argument, CHR ''v''),
       (''version'', no_argument, CHR ''V''), (''help'', no_argument, CHR ''h'')]\<rparr>"

definition recv_option :: "(string \<Rightarrow> bool) \<Rightarrow> char \<Rightarrow> string option \<Rightarrow> recv_opts \<Rightarrow> int + recv_opts" where
  "recv_option fl opt arg c = (let a = (case arg of None \<Rightarrow> [] | Some a \<Rightarrow> a) in
     if opt = CHR ''o'' then Inr (c\<lparr>ro_once := True\<rparr>)
     else if opt = CHR ''t'' then set_opt (decode_type a) (\<lambda>v. c\<lparr>ro_type := v\<rparr>)
     else if opt = CHR ''p'' then set_opt (scan_u8 a) (\<lambda>v. c\<lparr>ro_port := v\<rparr>)
     else if opt = CHR ''n'' then Inr (c\<lparr>ro_noblock := True\<rparr>)
     else if opt = CHR ''f'' then Inr (c\<lparr>ro_flush := True\<rparr>)
     else if opt = CHR ''s'' then (if fl a then Inr c else Inl (- 1))
     else if opt = CHR ''i'' then set_opt (scan_int a) (\<lambda>v. c\<lparr>ro_iovcnt := v\<rparr>)
     else if opt = CHR ''m'' then set_opt (scan_int a) (\<lambda>v. c\<lparr>ro_max_payload := v\<rparr>)
     else if opt = CHR ''v'' then Inr (c\<lparr>ro_verbose := True\<rparr>)
     else if opt = CHR ''V'' then Inl 0
     else Inl (- 1))"

text \<open>The program; \<open>None\<close> is an exit with a message, or the print of an array that is not initialised. The check of the port accepts every \<open>uint8_t\<close>.\<close>

definition axiom_recv_run :: "'d rcv_api \<Rightarrow> send_consts \<Rightarrow> recv_opts \<Rightarrow> iovec list \<Rightarrow> nat \<Rightarrow> bytes \<Rightarrow> 'd \<Rightarrow> (bytes \<times> 'd \<times> recv_print list) option" where
  "axiom_recv_run api k op junk n buf dev = (case rv_open api (\<not> ro_flush op) (ro_noblock op) dev of None \<Rightarrow> None | Some dev \<Rightarrow>
     if ro_iovcnt op < 0 \<or> ro_iovcnt op > int AXIOM_RECV_MAX_IOVEC then None
     else (let (e, dev) = rv_bind api dev (ro_port op) in
       if e \<noteq> uint (ro_port op) then None
       else (let cnt = (if ro_max_payload op < ro_iovcnt op then 0 else nat (ro_iovcnt op));
                 sz = unat (word_of_int (ro_max_payload op) :: u64)
             in if cnt > 0
                then do {
                  iov \<leftarrow> iov_split (nat (ro_max_payload op)) cnt junk;
                  recv_loop api (\<lambda>dev buf. axrcv_recv_iov api k (ro_type op) dev sz (take cnt iov) buf) (ro_verbose op) (ro_once op) n (buf, dev, [])
                }
                else recv_loop api (\<lambda>dev buf. axrcv_recv api k (ro_type op) dev sz buf) (ro_verbose op) (ro_once op) n (buf, dev, []))))"

definition axiom_recv_main ::
  "'d rcv_api \<Rightarrow> send_consts \<Rightarrow> (string \<Rightarrow> bool) \<Rightarrow> string list \<Rightarrow> iovec list \<Rightarrow> nat \<Rightarrow> bytes \<Rightarrow> 'd \<Rightarrow> (bytes \<times> 'd \<times> recv_print list) option" where
  "axiom_recv_main api k fl argv junk n buf dev = (case parse_options recv_optspec (recv_option fl) (recv_opts0 k) [] argv [] of
       Inl _ \<Rightarrow> None
     | Inr (op, _) \<Rightarrow> axiom_recv_run api k op junk n buf dev)"

section \<open>The parts cover the buffer\<close>

fun contiguous :: "nat \<Rightarrow> iovec list \<Rightarrow> bool" where
  "contiguous a [] = True"
| "contiguous a ((b, l) # iov) \<longleftrightarrow> b = a \<and> contiguous (a + l) iov"

definition iov_size :: "iovec list \<Rightarrow> nat" where
  "iov_size iov = sum_list (map snd iov)"

lemma gather_contiguous: "contiguous a iov \<Longrightarrow> gather buf iov = take (iov_size iov) (drop a buf)"
  by (induction a iov rule: contiguous.induct) (auto simp: gather_def iov_size_def take_add add.commute)

lemma splice_splice:
  assumes "a + length x \<le> length buf" "y \<noteq> [] \<longrightarrow> length x = l"
  shows "splice (splice buf a x) (a + l) y = splice buf a (x @ y)"
proof (cases "y = []")
  case False
  with assms show ?thesis by (simp add: splice_def ac_simps)
qed simp

lemma scatter_Nil [simp]: "scatter iov [] buf = buf"
  by (induction iov arbitrary: buf) auto

lemma scatter_contiguous:
  "contiguous a iov \<Longrightarrow> length data \<le> iov_size iov \<Longrightarrow> a + length data \<le> length buf \<Longrightarrow> scatter iov data buf = splice buf a data"
proof (induction a iov arbitrary: data buf rule: contiguous.induct)
  case (2 a b l iov)
  have "length (splice buf a (take l data)) = length buf" using "2.prems"(3) by (intro length_splice) auto
  moreover have "a + l + length (drop l data) \<le> length buf \<or> drop l data = []" using "2.prems"(3) by auto
  ultimately have "scatter iov (drop l data) (splice buf a (take l data)) = splice (splice buf a (take l data)) (a + l) (drop l data)"
    using "2.IH" [of "drop l data" "splice buf a (take l data)"] "2.prems"
    by (cases "drop l data = []") (auto simp: iov_size_def)
  also have "\<dots> = splice buf a data"
    using splice_splice [of a "take l data" buf "drop l data" l] "2.prems"(3) by (auto simp: min_def)
  finally show ?case using "2.prems"(1) by simp
qed (simp add: iov_size_def)

lemma iov_loop_run:
  assumes "cnt * n \<le> sz" "0 < n" "cnt \<le> length iov"
  shows "i \<le> cnt \<Longrightarrow> take i iov = map (\<lambda>j. (j * n, n)) [0..<i] \<Longrightarrow>
    \<exists>iov'. iov_loop cnt sz n i (i * n) iov = Some iov' \<and> length iov' = length iov \<and> take cnt iov' = map (\<lambda>j. (j * n, n)) [0..<cnt]"
  using assms(3)
proof (induction "cnt - i" arbitrary: i iov)
  case 0
  then show ?case by (simp add: iov_loop.simps)
next
  case (Suc x)
  then have i: "i < cnt" "i < length iov" by simp_all
  have "i * n < cnt * n" using i(1) assms(2) by simp
  then have g: "i * n < sz" using assms(1) by linarith
  let ?iov = "iov[i := (i * n, n)]"
  have "take (Suc i) ?iov = map (\<lambda>j. (j * n, n)) [0..<Suc i]"
    using Suc.prems(2) i by (simp add: take_Suc_conv_app_nth)
  from Suc.hyps(1) [of "Suc i" ?iov] this Suc.hyps(2) Suc.prems(3) i g show ?case
    by (simp add: iov_loop.simps [of cnt sz n i] add.commute)
qed

lemma contiguous_map: "contiguous (a * n) (map (\<lambda>j. (j * n, n)) [a..<b] @ iov) \<longleftrightarrow> contiguous (max a b * n) iov"
proof (induction "b - a" arbitrary: a)
  case (Suc x)
  then have "[a..<b] = a # [Suc a..<b]" "Suc a \<le> b" by (simp_all add: upt_conv_Cons)
  with Suc.hyps(1) [of "Suc a"] Suc.hyps(2) show ?case by (simp add: add.commute max_def)
qed (simp add: max_def)

text \<open>The parts follow each other and their lengths add up to the size.\<close>

lemma iov_split_run:
  assumes "0 < cnt" "cnt \<le> sz" "cnt \<le> length iov"
  shows "\<exists>iov'. iov_split sz cnt iov = Some iov' \<and> contiguous 0 (take cnt iov') \<and> iov_size (take cnt iov') = sz"
proof -
  let ?n = "sz div cnt"
  have n: "0 < ?n" "cnt * ?n \<le> sz" using assms by (simp_all add: div_greater_zero_iff)
  obtain iov' where iov': "iov_loop cnt sz ?n 0 0 iov = Some iov'" "length iov' = length iov"
    "take cnt iov' = map (\<lambda>j. (j * ?n, ?n)) [0..<cnt]"
    using iov_loop_run [OF n(2,1) assms(3), of 0] by auto
  obtain c where c: "cnt = Suc c" using assms(1) by (cases cnt) auto
  have nth: "iov' ! c = (c * ?n, ?n)"
    using iov'(3) assms(3) iov'(2) by (metis (no_types, lifting) c add_0 diff_zero length_upt lessI nth_map nth_take nth_upt)
  let ?r = "iov'[c := (c * ?n, sz - ?n * c)]"
  have "take cnt ?r = map (\<lambda>j. (j * ?n, ?n)) [0..<c] @ [(c * ?n, sz - ?n * c)]"
    using iov'(2,3) assms(3) by (simp add: c take_Suc_conv_app_nth)
  moreover have "c * ?n \<le> sz" using n(2) by (simp add: c)
  then have "iov_size (map (\<lambda>j. (j * ?n, ?n)) [0..<c] @ [(c * ?n, sz - ?n * c)]) = sz"
    by (simp add: iov_size_def o_def sum_list_triv mult.commute)
  moreover have "iov_split sz cnt iov = Some ?r"
    using iov' nth assms(3) by (simp add: iov_split_def c Let_def)
  ultimately show ?thesis using contiguous_map [of 0 ?n c "[(c * ?n, sz - ?n * c)]"] by simp
qed

section \<open>What is sent is what is printed\<close>

text \<open>A NIC that sends: the log has for every message its type, the flag of the neighbour, the destination and the bytes. The calls with
  parts send the bytes of the parts.\<close>

definition snd_ok :: "'d snd_api \<Rightarrow> ('d \<Rightarrow> ((msg_type \<times> bool) \<times> (u8 \<times> u8) \<times> bytes) list) \<Rightarrow> bool" where
  "snd_ok api sent \<longleftrightarrow>
     (\<forall>d. \<exists>d'. sd_open api d = Some d' \<and> sent d' = sent d) \<and>
     (\<forall>d dst m. sd_is_ok api (fst (sd_any api d dst m)) \<and> sent (snd (sd_any api d dst m)) = sent d @ [((MT_ANY, False), dst, m)])
   \<and> (\<forall>d dst b m. sd_is_ok api (fst (sd_raw api d dst b m)) \<and> sent (snd (sd_raw api d dst b m)) = sent d @ [((MT_RAW, b), dst, m)])
   \<and> (\<forall>d dst m. sd_is_ok api (fst (sd_long api d dst m)) \<and> sent (snd (sd_long api d dst m)) = sent d @ [((MT_LONG, False), dst, m)])
   \<and> (\<forall>d dst buf iov. sd_iov_any api d dst (iov_size iov) buf iov = sd_any api d dst (gather buf iov))
   \<and> (\<forall>d dst b buf iov. sd_iov_raw api d dst b (iov_size iov) buf iov = sd_raw api d dst b (gather buf iov))
   \<and> (\<forall>d dst buf iov. sd_iov_long api d dst (iov_size iov) buf iov = sd_long api d dst (gather buf iov))"

text \<open>A NIC that receives: a device opened without flush keeps the messages, a bind gives the port, and a message that fits is stored in the buffer or in the parts. A receive of one type
  is only stated for messages of this type.\<close>

definition takes_type :: "msg_type \<Rightarrow> wire_type \<Rightarrow> bool" where
  "takes_type np ty \<longleftrightarrow> (np = MT_RAW \<longrightarrow> ty \<noteq> AXIOM_TYPE_LONG_DATA) \<and> (np = MT_LONG \<longrightarrow> ty = AXIOM_TYPE_LONG_DATA)"

definition delivers :: "'d rcv_api \<Rightarrow> ('d \<Rightarrow> recv_line list) \<Rightarrow> 'd received \<Rightarrow> recv_line \<Rightarrow> bytes \<Rightarrow> recv_line list \<Rightarrow> bool" where
  "delivers api inbox r x buf ms \<longleftrightarrow> (case x of (src, ty, m) \<Rightarrow>
     \<exists>e d. rv_is_ok api e \<and> inbox d = ms \<and> r = Some (e, src, ty, length m, buf, d))"

definition rcv_ok :: "'d rcv_api \<Rightarrow> ('d \<Rightarrow> recv_line list) \<Rightarrow> bool" where
  "rcv_ok api inbox \<longleftrightarrow>
     (\<forall>d b. \<exists>d'. rv_open api True b d = Some d' \<and> inbox d' = inbox d) \<and>
     (\<forall>d p. fst (rv_bind api d p) = uint p \<and> inbox (snd (rv_bind api d p)) = inbox d)
   \<and> (\<forall>d src ty m ms n buf. inbox d = (src, ty, m) # ms \<longrightarrow> length m \<le> n \<longrightarrow>
        delivers api inbox (rv_any api d n buf) (src, ty, m) (splice buf 0 m) ms
      \<and> (ty \<noteq> AXIOM_TYPE_LONG_DATA \<longrightarrow> delivers api inbox (rv_raw api d n buf) (src, ty, m) (splice buf 0 m) ms)
      \<and> (ty = AXIOM_TYPE_LONG_DATA \<longrightarrow> delivers api inbox (rv_long api d n buf) (src, ty, m) (splice buf 0 m) ms)
      \<and> (\<forall>iov. delivers api inbox (rv_iov_any api d n iov buf) (src, ty, m) (scatter iov m buf) ms
         \<and> (ty \<noteq> AXIOM_TYPE_LONG_DATA \<longrightarrow> delivers api inbox (rv_iov_raw api d n iov buf) (src, ty, m) (scatter iov m buf) ms)
         \<and> (ty = AXIOM_TYPE_LONG_DATA \<longrightarrow> delivers api inbox (rv_iov_long api d n iov buf) (src, ty, m) (scatter iov m buf) ms)))"

lemma axsnd_send_ok:
  assumes "snd_ok api sent" "b \<longrightarrow> np = MT_RAW"
  shows "sd_is_ok api (fst (axsnd_send api d np dst b n p)) \<and> sent (snd (axsnd_send api d np dst b n p)) = sent d @ [((np, b), dst, take n p)]"
  using assms unfolding snd_ok_def axsnd_send_def by (cases np; cases dst; simp)

lemma axsnd_send_iov_eq:
  assumes "snd_ok api sent" "contiguous 0 iov" "iov_size iov = n"
  shows "axsnd_send_iov api d np dst b n p iov = axsnd_send api d np dst b n p"
  using assms(1) gather_contiguous [OF assms(2), of p] unfolding snd_ok_def axsnd_send_iov_def axsnd_send_def assms(3) [symmetric]
  by (cases np; cases dst; simp)

lemma send_loop_log:
  assumes "\<And>d. sd_is_ok api (fst (send d)) \<and> sent (snd (send d)) = sent d @ [x]"
  shows "sent (send_loop api send n d) = sent d @ replicate n x"
proof (induction n arbitrary: d)
  case (Suc n)
  obtain e d' where "send d = (e, d')" by fastforce
  with Suc [of d'] assms [of d] show ?case by simp
qed simp

text \<open>The payload of the messages.\<close>

definition send_payload :: "send_consts \<Rightarrow> send_opts \<Rightarrow> bytes \<Rightarrow> bytes" where
  "send_payload k op bs = (
     let p = (if so_repeat op \<noteq> 0 then repeat_payload (PAYLOAD_SIZE k) (nat (so_repeat op - 1)) bs bs else bs)
     in take (send_limit k (so_type op) (length p)) p)"

lemma read_payload_print:
  "length p + length bs \<le> lim \<Longrightarrow> read_payload lim (map (\<lambda>b. print_base 10 (unat b)) bs) p = Some (p @ bs)"
proof (induction bs arbitrary: p)
  case (Cons b bs)
  then show ?case by simp
qed simp

lemma send_limit_le: "send_limit k np n \<le> n"
  by (simp add: send_limit_def Let_def)

text \<open>A command line with all the values.\<close>

definition type_name :: "msg_type \<Rightarrow> string" where
  "type_name t = (case t of MT_RAW \<Rightarrow> ''raw'' | MT_LONG \<Rightarrow> ''long'' | MT_ANY \<Rightarrow> ''any'')"

definition send_cmdline :: "send_opts \<Rightarrow> u8 \<Rightarrow> u8 \<Rightarrow> bytes \<Rightarrow> string list" where
  "send_cmdline op dst port bs =
     [''-d'', byte_arg dst, ''-p'', byte_arg port, ''-t'', type_name (so_type op), ''-r'', int_arg (so_repeat op), ''-c'', int_arg (so_count op),
      ''-i'', int_arg (so_iovcnt op)] @ (if so_neighbour op then [''-n''] else []) @ (if so_verbose op then [''-v''] else []) @ map byte_arg bs"

definition recv_cmdline :: "recv_opts \<Rightarrow> string list" where
  "recv_cmdline op =
     [''-p'', byte_arg (ro_port op), ''-t'', type_name (ro_type op), ''-i'', int_arg (ro_iovcnt op), ''-m'', int_arg (ro_max_payload op)]
     @ (if ro_once op then [''-o''] else []) @ (if ro_noblock op then [''-n''] else []) @ (if ro_flush op then [''-f''] else [])
     @ (if ro_verbose op then [''-v''] else [])"

lemma decode_type_name [simp]: "decode_type (type_name t) = Some t"
  by (cases t) (simp_all add: decode_type_def type_name_def scan_s_def is_space_def has_prefix_def)

lemma send_cmdline_read:
  assumes "0 \<le> so_repeat op" "so_repeat op < 2 ^ 31" "0 \<le> so_count op" "so_count op < 2 ^ 31" "0 \<le> so_iovcnt op" "so_iovcnt op < 2 ^ 31"
    and "so_dst op = Some dst" "so_port op = Some port"
  shows "parse_options send_optspec (send_option fl) send_opts0 [] (send_cmdline op dst port bs) [] = Inr (op, map byte_arg bs)"
proof -
  let ?P = "\<lambda>c args. parse_options send_optspec (send_option fl) c [] args []"
  have v: "?P c ([CHR ''-'', o1] # a # args) = ?P c' args"
    if "o1 \<in> set ''tpdrcsi''" "send_option fl o1 (Some a) c = Inr c'" for o1 a c c' args
    by (rule parse_value) (use that in \<open>auto simp: send_optspec_def\<close>)
  have n: "?P c ((if b then [''-n''] else []) @ args) = ?P (if b then c\<lparr>so_neighbour := True\<rparr> else c) args" for c b args
    by (rule parse_flag_if) (simp_all add: send_optspec_def send_option_def)
  have vb: "?P c ((if b then [''-v''] else []) @ args) = ?P (if b then c\<lparr>so_verbose := True\<rparr> else c) args" for c b args
    by (rule parse_flag_if) (simp_all add: send_optspec_def send_option_def)
  have e: "?P c (map byte_arg bs) = Inr (c, map byte_arg bs)" for c
    using parse_operands [of "map byte_arg bs" send_optspec "send_option fl" c "[]" "[]"] by simp
  show ?thesis unfolding send_cmdline_def append_Cons append_Nil
    using assms by (cases op) (simp add: v send_option_def set_opt_def n vb e send_opts0_def)
qed

lemma recv_cmdline_read:
  assumes "0 \<le> ro_iovcnt op" "ro_iovcnt op < 2 ^ 31" "0 \<le> ro_max_payload op" "ro_max_payload op < 2 ^ 31"
  shows "parse_options recv_optspec (recv_option fl) (recv_opts0 k) [] (recv_cmdline op) [] = Inr (op, [])"
proof -
  let ?P = "\<lambda>c args. parse_options recv_optspec (recv_option fl) c [] args []"
  have v: "?P c ([CHR ''-'', o1] # a # args) = ?P c' args"
    if "o1 \<in> set ''pstmi''" "recv_option fl o1 (Some a) c = Inr c'" for o1 a c c' args
    by (rule parse_value) (use that in \<open>auto simp: recv_optspec_def\<close>)
  have f: "?P c ((if b then [[CHR ''-'', o1]] else []) @ args) = ?P (if b then g c else c) args"
    if "o1 \<in> set ''onfv''" "recv_option fl o1 None c = Inr (g c)" for c b args o1 g
    by (rule parse_flag_if) (use that in \<open>auto simp: recv_optspec_def\<close>)
  note flags = f [of "CHR ''o''" _ "ro_once_update (\<lambda>_. True)"] f [of "CHR ''n''" _ "ro_noblock_update (\<lambda>_. True)"]
    f [of "CHR ''f''" _ "ro_flush_update (\<lambda>_. True)"] f [of "CHR ''v''" _ "ro_verbose_update (\<lambda>_. True)" _ "[]", unfolded append_Nil2]
  show ?thesis unfolding recv_cmdline_def append_Cons append_Nil
    using assms by (cases op) (simp add: v recv_option_def set_opt_def flags recv_opts0_def)
qed

definition send_opts_ok :: "send_consts \<Rightarrow> send_opts \<Rightarrow> u8 \<Rightarrow> u8 \<Rightarrow> bytes \<Rightarrow> bool" where
  "send_opts_ok k op dst port bs \<longleftrightarrow> so_dst op = Some dst \<and> unat dst \<le> AXIOM_NODES_MAX k \<and> so_port op = Some port \<and> unat port \<le> AXIOM_PORT_MAX k
     \<and> (so_neighbour op \<longrightarrow> so_type op = MT_RAW) \<and> 0 \<le> so_iovcnt op \<and> so_iovcnt op \<le> int AXIOM_SEND_MAX_IOVEC
     \<and> 0 \<le> so_repeat op \<and> so_repeat op < 2 ^ 31 \<and> 0 \<le> so_count op \<and> so_count op < 2 ^ 31 \<and> bs \<noteq> [] \<and> length bs \<le> PAYLOAD_SIZE k"

lemma send_run_log:
  assumes "snd_ok api sent" "send_opts_ok k op dst port bs" "length junk = AXIOM_SEND_MAX_IOVEC"
  shows "\<exists>dev'. axiom_send_run api k op (map byte_arg bs) junk dev = Some dev'
    \<and> sent dev' = sent dev @ replicate (nat (so_count op)) ((so_type op, so_neighbour op), (dst, port), send_payload k op bs)"
proof -
  let ?p = "if so_repeat op \<noteq> 0 then repeat_payload (PAYLOAD_SIZE k) (nat (so_repeat op - 1)) bs bs else bs"
  let ?n = "send_limit k (so_type op) (length ?p)" and ?c = "nat (so_iovcnt op)"
  let ?send = "\<lambda>d. axsnd_send api d (so_type op) (dst, port) (so_neighbour op) ?n ?p"
  note ok = assms(2) [unfolded send_opts_ok_def]
  have read: "read_payload (PAYLOAD_SIZE k) (map byte_arg bs) [] = Some bs" using ok read_payload_print [of "[]" bs] by (simp add: byte_arg_def [abs_def])
  have "sd_is_ok api (fst (?send d)) \<and> sent (snd (?send d)) = sent d @ [((so_type op, so_neighbour op), (dst, port), send_payload k op bs)]" for d
    using axsnd_send_ok [OF assms(1)] ok by (simp add: send_payload_def Let_def)
  from send_loop_log [of api ?send sent, OF this]
  have log: "sent (send_loop api ?send (nat (so_count op)) d)
    = sent d @ replicate (nat (so_count op)) ((so_type op, so_neighbour op), (dst, port), send_payload k op bs)" for d .
  obtain d where d: "sd_open api dev = Some d" "sent d = sent dev" using assms(1) [unfolded snd_ok_def, THEN conjunct1] by blast
  have pre: "\<not> (so_port op \<noteq> None \<and> unat port > AXIOM_PORT_MAX k)" "\<not> (so_neighbour op \<and> so_type op \<noteq> MT_RAW)"
    "\<not> unat dst > AXIOM_NODES_MAX k" "\<not> (so_iovcnt op < 0 \<or> so_iovcnt op > int AXIOM_SEND_MAX_IOVEC)" using ok by auto
  show ?thesis
  proof (cases "0 < ?c \<and> ?c \<le> ?n")
    case True
    have "?c \<le> length junk" using ok assms(3) by linarith
    then obtain iov where iov: "iov_split ?n ?c junk = Some iov" "contiguous 0 (take ?c iov)" "iov_size (take ?c iov) = ?n"
      using iov_split_run [OF conjunct1 [OF True] conjunct2 [OF True]] by blast
    then have "axiom_send_run api k op (map byte_arg bs) junk dev = Some (send_loop api ?send (nat (so_count op)) d)"
      using True read pre ok by (simp add: axiom_send_run_def d(1) Let_def axsnd_send_iov_eq [OF assms(1) iov(2,3)])
    with log d(2) show ?thesis by simp
  next
    case False
    then have "axiom_send_run api k op (map byte_arg bs) junk dev = Some (send_loop api ?send (nat (so_count op)) d)"
      using read pre ok by (auto simp: axiom_send_run_def d(1) Let_def)
    with log d(2) show ?thesis by simp
  qed
qed

lemma set_long_delivers:
  "delivers api inbox r (src, AXIOM_TYPE_LONG_DATA, m) buf ms \<Longrightarrow> delivers api inbox (set_long r) (src, AXIOM_TYPE_LONG_DATA, m) buf ms"
  by (cases src) (auto simp: delivers_def set_long_def)

lemma axrcv_recv_delivers:
  assumes "rcv_ok api inbox" "takes_type np ty" "inbox d = (src, ty, m) # ms" "length m \<le> n" "np = MT_RAW \<longrightarrow> length m \<le> AXIOM_RAW_PAYLOAD_MAX_SIZE k"
  shows "delivers api inbox (axrcv_recv api k np d n buf) (src, ty, m) (splice buf 0 m) ms"
    and "delivers api inbox (axrcv_recv_iov api k np d n iov buf) (src, ty, m) (scatter iov m buf) ms"
proof -
  have ok: "length m \<le> n' \<Longrightarrow> delivers api inbox (rv_any api d n' buf) (src, ty, m) (splice buf 0 m) ms"
    "length m \<le> n' \<Longrightarrow> ty \<noteq> AXIOM_TYPE_LONG_DATA \<Longrightarrow> delivers api inbox (rv_raw api d n' buf) (src, ty, m) (splice buf 0 m) ms"
    "length m \<le> n' \<Longrightarrow> ty = AXIOM_TYPE_LONG_DATA \<Longrightarrow> delivers api inbox (rv_long api d n' buf) (src, ty, m) (splice buf 0 m) ms"
    "length m \<le> n' \<Longrightarrow> delivers api inbox (rv_iov_any api d n' iov buf) (src, ty, m) (scatter iov m buf) ms"
    "length m \<le> n' \<Longrightarrow> ty \<noteq> AXIOM_TYPE_LONG_DATA \<Longrightarrow> delivers api inbox (rv_iov_raw api d n' iov buf) (src, ty, m) (scatter iov m buf) ms"
    "length m \<le> n' \<Longrightarrow> ty = AXIOM_TYPE_LONG_DATA \<Longrightarrow> delivers api inbox (rv_iov_long api d n' iov buf) (src, ty, m) (scatter iov m buf) ms" for n'
    using assms(1,3) unfolding rcv_ok_def by blast+
  let ?max = "AXIOM_RAW_PAYLOAD_MAX_SIZE k"
  from assms(2,4,5) ok(1-3) [of n] ok(2) [of ?max]
  show "delivers api inbox (axrcv_recv api k np d n buf) (src, ty, m) (splice buf 0 m) ms"
    by (cases np) (auto simp: axrcv_recv_def takes_type_def intro: set_long_delivers)
  from assms(2,4,5) ok(4-6) [of n] ok(5) [of ?max]
  show "delivers api inbox (axrcv_recv_iov api k np d n iov buf) (src, ty, m) (scatter iov m buf) ms"
    by (cases np) (auto simp: axrcv_recv_iov_def takes_type_def intro: set_long_delivers)
qed

lemma take_splice_0 [simp]: "take (length m) (splice buf 0 m) = m"
  by (simp add: splice_def)

text \<open>The loop prints the messages that arrive, when every receive stores its message at the start of the buffer.\<close>

definition line_of :: "bool \<Rightarrow> recv_line \<Rightarrow> recv_print" where
  "line_of verbose x = (case x of (src, ty, m) \<Rightarrow> (src, the (type_str ty), length m, if verbose then Some m else None))"

lemma recv_msg_print_line:
  "ty \<noteq> AXIOM_TYPE_RAW_NEIGHBOUR \<Longrightarrow> recv_msg_print v src ty (length m) (splice buf 0 m) = Some (line_of v (src, ty, m))"
  by (cases ty) (simp_all add: recv_msg_print_def type_str_def line_of_def)

lemma recv_loop_prints:
  assumes "\<And>d buf x ms. inbox d = x # ms \<Longrightarrow> x \<in> X \<Longrightarrow> length buf = L \<Longrightarrow>
      delivers api inbox (recv d buf) x (splice buf 0 (snd (snd x))) ms \<and> length (snd (snd x)) \<le> L"
    and "\<And>x. x \<in> X \<Longrightarrow> fst (snd x) \<noteq> AXIOM_TYPE_RAW_NEIGHBOUR"
  shows "inbox d = xs \<Longrightarrow> set xs \<subseteq> X \<Longrightarrow> length buf = L \<Longrightarrow>
    \<exists>buf' d'. recv_loop api recv v False (length xs) (buf, d, out) = Some (buf', d', out @ map (line_of v) xs) \<and> inbox d' = []"
proof (induction xs arbitrary: d buf out)
  case (Cons x xs)
  obtain src ty m where x: "x = (src, ty, m)" by (cases x) auto
  from assms(1) [OF Cons.prems(1) _ Cons.prems(3)] Cons.prems(2) obtain e d' where
    r: "rv_is_ok api e" "inbox d' = xs" "recv d buf = Some (e, src, ty, length m, splice buf 0 m, d')" and l: "length m \<le> L"
    by (auto simp: x delivers_def)
  have "length (splice buf 0 m) = L" using l Cons.prems(3) by (simp add: length_splice)
  moreover have "ty \<noteq> AXIOM_TYPE_RAW_NEIGHBOUR" using assms(2) [of x] Cons.prems(2) by (simp add: x)
  ultimately show ?case
    using Cons.IH [OF r(2), of "splice buf 0 m" "out @ [line_of v x]"] Cons.prems(2) r(1,3) by (simp add: x recv_msg_print_line)
qed simp

definition recv_opts_ok :: "send_consts \<Rightarrow> recv_opts \<Rightarrow> wire_type \<Rightarrow> nat \<Rightarrow> nat \<Rightarrow> bool" where
  "recv_opts_ok k op ty n room \<longleftrightarrow> ty \<noteq> AXIOM_TYPE_RAW_NEIGHBOUR \<and> \<not> ro_once op \<and> \<not> ro_flush op \<and> 0 \<le> ro_iovcnt op \<and> ro_iovcnt op \<le> int AXIOM_RECV_MAX_IOVEC
     \<and> int n \<le> ro_max_payload op \<and> ro_max_payload op \<le> int room \<and> ro_max_payload op < 2 ^ 31
     \<and> takes_type (ro_type op) ty \<and> (ro_type op = MT_RAW \<longrightarrow> n \<le> AXIOM_RAW_PAYLOAD_MAX_SIZE k)"

lemma recv_run_prints:
  assumes ok: "rcv_ok api inbox" "recv_opts_ok k op ty n (length buf)" "length junk = AXIOM_RECV_MAX_IOVEC"
    and xs: "inbox dev = xs" "\<And>x. x \<in> set xs \<Longrightarrow> fst (snd x) = ty \<and> length (snd (snd x)) \<le> n"
  shows "\<exists>buf' dev'. axiom_recv_run api k op junk (length xs) buf dev = Some (buf', dev', map (line_of (ro_verbose op)) xs) \<and> inbox dev' = []"
proof -
  have nf: "(\<not> ro_flush op) = True" using ok(2) by (simp add: recv_opts_ok_def)
  obtain d0 where d0: "rv_open api True (ro_noblock op) dev = Some d0" "inbox d0 = xs" using ok(1) [unfolded rcv_ok_def, THEN conjunct1] xs(1) by blast
  obtain e d where bind: "rv_bind api d0 (ro_port op) = (e, d)" by fastforce
  then have d: "e = uint (ro_port op)" "inbox d = xs" using ok(1) d0(2) unfolding rcv_ok_def by (metis fst_conv, metis snd_conv)
  note op = ok(2) [unfolded recv_opts_ok_def]
  let ?n = "nat (ro_max_payload op)" and ?c = "nat (ro_iovcnt op)" and ?X = "{x. fst (snd x) = ty \<and> length (snd (snd x)) \<le> n}"
  have sz: "unat (word_of_int (ro_max_payload op) :: u64) = ?n" "n \<le> ?n" "?n \<le> length buf"
    using op by (auto simp: unat_eq_nat_uint uint_word_of_int mod_pos_pos_trivial)
  have pre: "\<not> (ro_iovcnt op < 0 \<or> ro_iovcnt op > int AXIOM_RECV_MAX_IOVEC)" "\<not> ro_once op" using op by auto
  have X: "set xs \<subseteq> ?X" using xs(2) by auto
  have nb: "\<And>x. x \<in> ?X \<Longrightarrow> fst (snd x) \<noteq> AXIOM_TYPE_RAW_NEIGHBOUR" using op by auto
  have plain: "delivers api inbox (axrcv_recv api k (ro_type op) d ?n b) x (splice b 0 (snd (snd x))) ms \<and> length (snd (snd x)) \<le> length buf"
    if "inbox d = x # ms" "x \<in> ?X" "length b = length buf" for d b x ms
    using axrcv_recv_delivers(1) [OF ok(1), of "ro_type op" ty d "fst x" "snd (snd x)" ms ?n k b] that op sz(2,3) by (cases x) auto
  show ?thesis
  proof (cases "0 < ?c \<and> ro_iovcnt op \<le> ro_max_payload op")
    case True
    have c: "0 < ?c" "?c \<le> ?n" "?c \<le> length junk" using True op ok(3) by auto
    then obtain iov where iov: "iov_split ?n ?c junk = Some iov" "contiguous 0 (take ?c iov)" "iov_size (take ?c iov) = ?n"
      using iov_split_run by blast
    have parts: "delivers api inbox (axrcv_recv_iov api k (ro_type op) d ?n (take ?c iov) b) x (splice b 0 (snd (snd x))) ms
        \<and> length (snd (snd x)) \<le> length buf"
      if "inbox d = x # ms" "x \<in> ?X" "length b = length buf" for d b x ms
    proof -
      note x' = that
      obtain src m where x: "x = (src, ty, m)" using x'(2) by (cases x) auto
      have m: "length m \<le> n" "length m \<le> ?n" "length m \<le> length b" using x'(2,3) sz(2,3) by (simp_all add: x)
      have "scatter (take ?c iov) m b = splice b 0 m" using scatter_contiguous [OF iov(2), of m b] m iov(3) by simp
      with axrcv_recv_delivers(2) [OF ok(1) _ x'(1) [unfolded x] m(2), of "ro_type op" k "take ?c iov" b] op m x'(3)
      show ?thesis by (auto simp: x)
    qed
    let ?recv = "\<lambda>d b. axrcv_recv_iov api k (ro_type op) d ?n (take ?c iov) b"
    have "axiom_recv_run api k op junk (length xs) buf dev = recv_loop api ?recv (ro_verbose op) False (length xs) (buf, d, [])"
    proof -
      have cnt: "(if ro_max_payload op < ro_iovcnt op then 0 else ?c) = ?c" using True by simp
      show ?thesis
        by (simp only: axiom_recv_run_def nf d0(1) option.case bind d(1) Let_def sz(1) pre cnt c(1) iov(1) prod.case if_False if_True bind.simps not_True_eq_False simp_thms)
    qed
    moreover obtain buf' dev' where "recv_loop api ?recv (ro_verbose op) False (length xs) (buf, d, []) = Some (buf', dev', map (line_of (ro_verbose op)) xs)" "inbox dev' = []"
      using recv_loop_prints [of inbox ?X "length buf" api ?recv, OF parts nb d(2) X refl, of "ro_verbose op" "[]"] unfolding append_Nil by blast
    ultimately show ?thesis by metis
  next
    case False
    let ?recv = "\<lambda>d b. axrcv_recv api k (ro_type op) d ?n b"
    have "axiom_recv_run api k op junk (length xs) buf dev = recv_loop api ?recv (ro_verbose op) False (length xs) (buf, d, [])"
      using False pre by (auto simp: axiom_recv_run_def nf d0(1) option.case bind d(1) Let_def sz(1))
    moreover obtain buf' dev' where "recv_loop api ?recv (ro_verbose op) False (length xs) (buf, d, []) = Some (buf', dev', map (line_of (ro_verbose op)) xs)" "inbox dev' = []"
      using recv_loop_prints [of inbox ?X "length buf" api ?recv, OF plain nb d(2) X refl, of "ro_verbose op" "[]"] unfolding append_Nil by blast
    ultimately show ?thesis by metis
  qed
qed

text \<open>C14: What \<open>axiom-send\<close> sends is what \<open>axiom-recv\<close> prints. The bytes given on the command line, repeated as asked and cut to the
  largest payload of the message type, go out in each of the messages that are asked for, to the node and port given, and the receiver prints
  one line for each of these messages, with its source, its type and its size, and with the option \<open>-v\<close> its bytes (without \<open>-v\<close> they are not printed), for
  every number of parts either side uses for its buffer. The messages are not sent to a neighbour: for those the receiver prints an array that is not
  initialised.\<close>

theorem send_recv_roundtrip:
  assumes "snd_ok api sent" "rcv_ok rapi inbox" "send_opts_ok k op dst port bs"
    and "recv_opts_ok k rop ty (length (send_payload k op bs)) (length buf)"
    and "length junk = AXIOM_SEND_MAX_IOVEC" "length rjunk = AXIOM_RECV_MAX_IOVEC" "sent dev = []" "\<not> so_neighbour op"
  shows "\<exists>dev'. axiom_send_main api k fl (send_cmdline op dst port bs) junk dev = Some dev'
    \<and> sent dev' = replicate (nat (so_count op)) ((so_type op, False), (dst, port), send_payload k op bs)
    \<and> (\<forall>rdev. inbox rdev = map (\<lambda>(_, (_, p), m). ((src, p), ty, m)) (sent dev') \<longrightarrow>
        (\<exists>buf' rdev'. axiom_recv_main rapi k rfl (recv_cmdline rop) rjunk (nat (so_count op)) buf rdev
           = Some (buf', rdev', replicate (nat (so_count op)) ((src, port), the (type_str ty), length (send_payload k op bs),
               if ro_verbose rop then Some (send_payload k op bs) else None)) \<and> inbox rdev' = []))"
proof -
  let ?n = "nat (so_count op)" and ?m = "send_payload k op bs"
  have sc: "parse_options send_optspec (send_option fl) send_opts0 [] (send_cmdline op dst port bs) [] = Inr (op, map byte_arg bs)"
    by (rule send_cmdline_read) (use assms(3) in \<open>auto simp: send_opts_ok_def AXIOM_SEND_MAX_IOVEC_def\<close>)
  have rc: "parse_options recv_optspec (recv_option rfl) (recv_opts0 k) [] (recv_cmdline rop) [] = Inr (rop, [])"
    by (rule recv_cmdline_read) (use assms(4) in \<open>auto simp: recv_opts_ok_def AXIOM_RECV_MAX_IOVEC_def\<close>)
  obtain dev' where s: "axiom_send_main api k fl (send_cmdline op dst port bs) junk dev = Some dev'"
    "sent dev' = replicate ?n ((so_type op, False), (dst, port), ?m)"
    using send_run_log [OF assms(1,3,5), of dev] assms(7,8) by (auto simp: axiom_send_main_def sc)
  have "\<exists>buf' rdev'. axiom_recv_main rapi k rfl (recv_cmdline rop) rjunk ?n buf rdev = Some (buf', rdev', replicate ?n ((src, port), the (type_str ty), length ?m, if ro_verbose rop then Some ?m else None)) \<and> inbox rdev' = []"
    if "inbox rdev = map (\<lambda>(_, (_, p), m). ((src, p), ty, m)) (sent dev')" for rdev
    using recv_run_prints [OF assms(2,4,6), of rdev "replicate ?n ((src, port), ty, ?m)"] that s(2)
    by (simp add: axiom_recv_main_def rc line_of_def split: if_splits)
  with s show ?thesis by blast
qed

text \<open>A NIC whose state is the list of the messages.\<close>

definition demo_snd :: "((msg_type \<times> bool) \<times> (u8 \<times> u8) \<times> bytes) list snd_api" where
  "demo_snd = \<lparr>sd_is_ok = (\<lambda>e. 0 \<le> e), sd_notreach = - 2, sd_open = Some,
     sd_any = (\<lambda>d dst m. (0, d @ [((MT_ANY, False), dst, m)])), sd_raw = (\<lambda>d dst b m. (0, d @ [((MT_RAW, b), dst, m)])),
     sd_long = (\<lambda>d dst m. (0, d @ [((MT_LONG, False), dst, m)])),
     sd_iov_any = (\<lambda>d dst _ buf iov. (0, d @ [((MT_ANY, False), dst, gather buf iov)])),
     sd_iov_raw = (\<lambda>d dst b _ buf iov. (0, d @ [((MT_RAW, b), dst, gather buf iov)])),
     sd_iov_long = (\<lambda>d dst _ buf iov. (0, d @ [((MT_LONG, False), dst, gather buf iov)]))\<rparr>"

definition demo_rcv :: "recv_line list rcv_api" where
  "demo_rcv = (let get = (\<lambda>d store. case d of [] \<Rightarrow> None | (src, ty, m) # ms \<Rightarrow> Some (0, src, ty, length m, store m, ms)) in
     \<lparr>rv_is_ok = (\<lambda>e. 0 \<le> e), rv_notavail = - 3, rv_open = (\<lambda>_ _. Some), rv_bind = (\<lambda>d p. (uint p, d)),
      rv_any = (\<lambda>d _ buf. get d (splice buf 0)), rv_raw = (\<lambda>d _ buf. get d (splice buf 0)), rv_long = (\<lambda>d _ buf. get d (splice buf 0)),
      rv_iov_any = (\<lambda>d _ iov buf. get d (\<lambda>m. scatter iov m buf)), rv_iov_raw = (\<lambda>d _ iov buf. get d (\<lambda>m. scatter iov m buf)),
      rv_iov_long = (\<lambda>d _ iov buf. get d (\<lambda>m. scatter iov m buf))\<rparr>)"

definition demo_send_consts :: send_consts where
  "demo_send_consts = \<lparr>PAYLOAD_SIZE = 8, AXIOM_RAW_PAYLOAD_MAX_SIZE = 4, AXIOM_LONG_PAYLOAD_MAX_SIZE = 8, AXIOM_PORT_MAX = 7, AXIOM_NODES_MAX = 254\<rparr>"

definition demo_send_opts :: send_opts where
  "demo_send_opts = \<lparr>so_port = Some 3, so_type = MT_LONG, so_dst = Some 5, so_neighbour = False, so_repeat = 3, so_count = 2, so_iovcnt = 3,
     so_verbose = False\<rparr>"

definition demo_recv_opts :: recv_opts where
  "demo_recv_opts = \<lparr>ro_port = 3, ro_type = MT_LONG, ro_once = False, ro_noblock = True, ro_flush = False, ro_iovcnt = 4, ro_max_payload = 8, ro_verbose = True\<rparr>"

lemma demo_snd_ok: "snd_ok demo_snd id"
  by (simp add: snd_ok_def demo_snd_def)

lemma demo_rcv_ok: "rcv_ok demo_rcv id"
  by (simp add: rcv_ok_def demo_rcv_def delivers_def)

lemma demo_send_payload: "send_payload demo_send_consts demo_send_opts [17, 255] = [17, 255, 17, 255, 17, 255]"
  by code_simp

lemma demo_send_opts_ok: "send_opts_ok demo_send_consts demo_send_opts 5 3 [17, 255]"
  by code_simp

theorem send_recv_roundtrip_witness:
  "\<exists>dev'. axiom_send_main demo_snd demo_send_consts (\<lambda>_. True) [''-d'', ''5'', ''-p'', ''3'', ''-t'', ''long'', ''-r'', ''3'', ''-c'', ''2'', ''-i'', ''3'', ''17'', ''255''] (replicate 16 (0, 0)) [] = Some dev'
    \<and> (\<exists>buf' rdev'. axiom_recv_main demo_rcv demo_send_consts (\<lambda>_. True) [''-p'', ''3'', ''-t'', ''long'', ''-i'', ''4'', ''-m'', ''8'', ''-n'', ''-v''] (replicate 16 (0, 0)) 2 (replicate 8 0)
          (map (\<lambda>(_, (_, p), m). ((2, p), AXIOM_TYPE_LONG_DATA, m)) dev')
        = Some (buf', rdev', replicate 2 ((2, 3), ''LONG'', 6, Some [17, 255, 17, 255, 17, 255])) \<and> rdev' = [])"
proof -
  have "recv_opts_ok demo_send_consts demo_recv_opts AXIOM_TYPE_LONG_DATA (length (send_payload demo_send_consts demo_send_opts [17, 255]))
      (length (replicate 8 (0::u8)))"
    by (simp add: demo_send_payload recv_opts_ok_def demo_recv_opts_def AXIOM_RECV_MAX_IOVEC_def takes_type_def)
  note opts = this
  have l: "the (type_str AXIOM_TYPE_LONG_DATA) = ''LONG''" "length [17, 255, 17, 255, 17, 255 :: u8] = 6" "ro_verbose demo_recv_opts = True"
    "(so_neighbour demo_send_opts) = False"
    by (simp_all add: type_str_def demo_recv_opts_def demo_send_opts_def)
  have cmd: "send_cmdline demo_send_opts 5 3 [17, 255]
      = [''-d'', ''5'', ''-p'', ''3'', ''-t'', ''long'', ''-r'', ''3'', ''-c'', ''2'', ''-i'', ''3'', ''17'', ''255'']"
    "recv_cmdline demo_recv_opts = [''-p'', ''3'', ''-t'', ''long'', ''-i'', ''4'', ''-m'', ''8'', ''-n'', ''-v'']" by code_simp+
  from send_recv_roundtrip [OF demo_snd_ok demo_rcv_ok demo_send_opts_ok opts, of "replicate 16 (0, 0)" "replicate 16 (0, 0)" "[]" "\<lambda>_. True" 2 "\<lambda>_. True"]
  have "\<exists>dev'. axiom_send_main demo_snd demo_send_consts (\<lambda>_. True) [''-d'', ''5'', ''-p'', ''3'', ''-t'', ''long'', ''-r'', ''3'', ''-c'', ''2'', ''-i'', ''3'', ''17'', ''255''] (replicate 16 (0, 0)) [] = Some dev' \<and>
    (\<forall>rdev. rdev = map (\<lambda>(_, (_, p), m). ((2, p), AXIOM_TYPE_LONG_DATA, m)) dev' \<longrightarrow>
      (\<exists>buf' rdev'. axiom_recv_main demo_rcv demo_send_consts (\<lambda>_. True) [''-p'', ''3'', ''-t'', ''long'', ''-i'', ''4'', ''-m'', ''8'', ''-n'', ''-v''] (replicate 16 (0, 0)) (nat (so_count demo_send_opts)) (replicate 8 0) rdev
        = Some (buf', rdev', replicate (nat (so_count demo_send_opts)) ((2, 3), ''LONG'', 6, Some [17, 255, 17, 255, 17, 255])) \<and> rdev' = []))"
    unfolding demo_send_payload cmd id_apply l if_True by (simp only: not_False_eq_True AXIOM_SEND_MAX_IOVEC_def AXIOM_RECV_MAX_IOVEC_def length_replicate) blast
  moreover have "nat (so_count demo_send_opts) = 2" by (simp add: demo_send_opts_def)
  ultimately show ?thesis by metis
qed

end
