(* ===== verification/Rdma_App.thy ===== *)
theory Rdma_App
  imports Getopt C_Strings Run_Nodes Nic_Api
begin

text \<open>
  The program \<open>axiom-rdma\<close> (\<open>axiom-rdma/axiom-rdma.c\<close>), which is started on two nodes by \<open>axiom-run\<close> and reads or writes the memory of
  the other node. The memories of the nodes are an explicit store. The transfers of the NIC, the allocator
  and the barriers are inputs.
\<close>

section \<open>Memory\<close>

text \<open>The byte at an address of a node, where the programs have memory. An access to other addresses is undefined.\<close>

type_synonym store = "u8 \<Rightarrow> nat \<Rightarrow> u8 option"

definition mapped :: "store \<Rightarrow> u8 \<Rightarrow> nat \<Rightarrow> nat \<Rightarrow> bool" where
  "mapped st n a len \<longleftrightarrow> list_all (\<lambda>i. st n (a + i) \<noteq> None) [0..<len]"

definition mem_get :: "store \<Rightarrow> u8 \<Rightarrow> nat \<Rightarrow> nat \<Rightarrow> bytes" where
  "mem_get st n a len = map (\<lambda>i. the (st n (a + i))) [0..<len]"

definition mem_put :: "store \<Rightarrow> u8 \<Rightarrow> nat \<Rightarrow> bytes \<Rightarrow> store" where
  "mem_put st n a bs = st(n := \<lambda>x. if a \<le> x \<and> x < a + length bs then Some (bs ! (x - a)) else st n x)"

definition mem_load :: "store \<Rightarrow> u8 \<Rightarrow> nat \<Rightarrow> nat \<Rightarrow> bytes option" where
  "mem_load st n a len = (if mapped st n a len then Some (mem_get st n a len) else None)"

definition mem_save :: "store \<Rightarrow> u8 \<Rightarrow> nat \<Rightarrow> bytes \<Rightarrow> store option" where
  "mem_save st n a bs = (if mapped st n a (length bs) then Some (mem_put st n a bs) else None)"

lemma mapped_iff: "mapped st n a len \<longleftrightarrow> (\<forall>i<len. st n (a + i) \<noteq> None)"
  by (auto simp: mapped_def list_all_iff)

lemma mapped_put [simp]: "mapped st m b len \<Longrightarrow> mapped (mem_put st n a bs) m b len"
  by (auto simp: mapped_iff mem_put_def)

lemma length_mem_get [simp]: "length (mem_get st n a len) = len"
  by (simp add: mem_get_def)

lemma mem_get_put_same [simp]: "length bs = len \<Longrightarrow> mem_get (mem_put st n a bs) n a len = bs"
  by (auto simp: mem_get_def mem_put_def intro: nth_equalityI)

lemma mem_get_put_other [simp]: "n \<noteq> m \<Longrightarrow> mem_get (mem_put st n a bs) m b len = mem_get st m b len"
  by (simp add: mem_get_def mem_put_def)

lemma mem_access [simp]:
  "mapped st n a len \<Longrightarrow> mem_load st n a len = Some (mem_get st n a len)"
  "mapped st n a (length bs) \<Longrightarrow> mem_save st n a bs = Some (mem_put st n a bs)"
  by (simp_all add: mem_load_def mem_save_def)

lemma mapped_part:
  "(\<forall>x\<in>{a..<a + k}. st n x \<noteq> None) \<Longrightarrow> off + len \<le> k \<Longrightarrow> mapped st n (a + off) len"
  by (simp add: mapped_iff add.assoc)

section \<open>The code\<close>

text \<open>The constants of the NIC and the calls for the transfers: the memory, the local and the remote node, the size, the source and the
  destination address.\<close>

record rdma_api =
  rm_is_ok :: "err \<Rightarrow> bool"
  rm_read_sync :: "store \<Rightarrow> u8 \<Rightarrow> u8 \<Rightarrow> nat \<Rightarrow> nat \<Rightarrow> nat \<Rightarrow> err \<times> store"
  rm_write_sync :: "store \<Rightarrow> u8 \<Rightarrow> u8 \<Rightarrow> nat \<Rightarrow> nat \<Rightarrow> nat \<Rightarrow> err \<times> store"
  rm_null_node :: u8
  AXIOM_RDMA_PAYLOAD_MAX_SIZE :: nat

abbreviation (input) "RDMA_READ \<equiv> CHR ''r''"
abbreviation (input) "RDMA_WRITE \<equiv> CHR ''w''"
abbreviation (input) "LOCAL_DUMP \<equiv> CHR ''d''"
abbreviation (input) "LOCAL_STORE \<equiv> CHR ''s''"

text \<open>The mode is \<open>None\<close> as long as it is -1. The last field is the global variable \<open>verbose\<close>.\<close>

record axrdma_status =
  rs_mode :: "char option"
  rs_port :: u8
  rs_local_id :: u8
  rs_master_id :: u8
  rs_slave_id :: u8
  rs_payload_size :: u32
  rs_master_offset :: u32
  rs_slave_offset :: u32
  rs_rdma_start :: nat
  rs_payload :: bytes
  rs_verbose :: bool

definition rd_get_scale :: "char \<Rightarrow> nat" where
  "rd_get_scale c = (if c = CHR ''b'' \<or> c = CHR ''B'' then 0 else if c = CHR ''k'' \<or> c = CHR ''K'' then 10
     else if c = CHR ''m'' \<or> c = CHR ''M'' then 20 else if c = CHR ''G'' \<or> c = CHR ''g'' then 30 else 0)"

definition axrdma_read :: "rdma_api \<Rightarrow> axrdma_status \<Rightarrow> store \<Rightarrow> int \<times> store" where
  "axrdma_read api s st =
     (if rs_slave_id s = rm_null_node api then (- 1, st)
      else if rs_payload_size s = 0 \<or> unat (rs_payload_size s) > AXIOM_RDMA_PAYLOAD_MAX_SIZE api then (- 1, st)
      else (let (ret, st) = rm_read_sync api st (rs_local_id s) (rs_slave_id s) (unat (rs_payload_size s))
                 (rs_rdma_start s + unat (rs_slave_offset s)) (rs_rdma_start s + unat (rs_master_offset s))
            in if \<not> rm_is_ok api ret then (- 1, st) else (0, st)))"

definition axrdma_write :: "rdma_api \<Rightarrow> axrdma_status \<Rightarrow> store \<Rightarrow> int \<times> store" where
  "axrdma_write api s st =
     (if rs_slave_id s = rm_null_node api then (- 1, st)
      else if rs_payload_size s = 0 \<or> unat (rs_payload_size s) > AXIOM_RDMA_PAYLOAD_MAX_SIZE api then (- 1, st)
      else (let (ret, st) = rm_write_sync api st (rs_local_id s) (rs_slave_id s) (unat (rs_payload_size s))
                 (rs_rdma_start s + unat (rs_master_offset s)) (rs_rdma_start s + unat (rs_slave_offset s))
            in if \<not> rm_is_ok api ret then (- 1, st) else (0, st)))"

definition rd_offset :: "axrdma_status \<Rightarrow> u32" where
  "rd_offset s = (if rs_local_id s = rs_master_id s then rs_master_offset s else rs_slave_offset s)"

text \<open>The lines of a dump: the offset and up to 16 bytes.\<close>

type_synonym dump = "(u32 \<times> bytes) list"

definition dump_byte :: "'w::len word \<Rightarrow> bytes \<Rightarrow> nat \<Rightarrow> ('w word \<times> bytes) list \<Rightarrow> ('w word \<times> bytes) list" where
  "dump_byte offset bs i d = (
     let d = (if i mod 16 = 0 then d @ [(offset + of_nat i, [])] else d)
     in butlast d @ [(fst (last d), snd (last d) @ [bs ! i])])"

text \<open>\<open>None\<close> is an access outside the memory of the program.\<close>

definition axrdma_dump :: "axrdma_status \<Rightarrow> store \<Rightarrow> (int \<times> dump) option" where
  "axrdma_dump s st =
     (if rs_payload_size s = 0 then Some (- 1, [])
      else do {
        bs \<leftarrow> mem_load st (rs_local_id s) (rs_rdma_start s + unat (rd_offset s)) (unat (rs_payload_size s));
        Some (0, fold (dump_byte (rd_offset s) bs) [0..<unat (rs_payload_size s)] [])
      })"

definition axrdma_store :: "axrdma_status \<Rightarrow> store \<Rightarrow> store option" where
  "axrdma_store s st = mem_save st (rs_local_id s) (rs_rdma_start s + unat (rd_offset s)) (take (unat (rs_payload_size s)) (rs_payload s))"

text \<open>The options. \<open>sscanf\<close> with a number and a character leaves both when the argument is empty, and the character when it ends after the
  number.\<close>

definition scan_scaled :: "string \<Rightarrow> u32 \<Rightarrow> u32 option" where
  "scan_scaled a old = (if dropWhile is_space a = [] then Some old
     else case scan_d a of
       None \<Rightarrow> None
     | Some (_, rest) \<Rightarrow> map_option (push_bit (rd_get_scale (case rest of [] \<Rightarrow> CHR ''b'' | c # _ \<Rightarrow> c))) (scan_u32 a))"

definition axrdma_status0 :: "rdma_api \<Rightarrow> bytes \<Rightarrow> axrdma_status" where
  "axrdma_status0 api junk = \<lparr>rs_mode = None, rs_port = 1, rs_local_id = 0, rs_master_id = rm_null_node api, rs_slave_id = rm_null_node api,
     rs_payload_size = 0, rs_master_offset = 0, rs_slave_offset = 0, rs_rdma_start = 0, rs_payload = junk, rs_verbose = False\<rparr>"

definition rdma_optspec :: "char optspec" where
  "rdma_optspec = \<lparr>os_char = id, os_short = map (\<lambda>c. (c, no_argument)) ''fvVh'' @ map (\<lambda>c. (c, required_argument)) ''mnNoOsp'',
     os_long = [(''mode'', required_argument, CHR ''m''), (''sid'', required_argument, CHR ''n''), (''mid'', required_argument, CHR ''N''),
       (''soff'', required_argument, CHR ''o''), (''moff'', required_argument, CHR ''O''), (''size'', required_argument, CHR ''s''),
       (''port'', required_argument, CHR ''p''), (''verbose'', no_argument, CHR ''v''), (''version'', no_argument, CHR ''V''),
       (''help'', no_argument, CHR ''h'')]\<rparr>"

definition rdma_option :: "char \<Rightarrow> string option \<Rightarrow> axrdma_status \<Rightarrow> int + axrdma_status" where
  "rdma_option opt arg c = (let a = (case arg of None \<Rightarrow> [] | Some a \<Rightarrow> a) in
     if opt = CHR ''m'' then (case a of [] \<Rightarrow> Inl (- 1) | x # _ \<Rightarrow> Inr (c\<lparr>rs_mode := Some x\<rparr>))
     else if opt = CHR ''n'' then set_opt (scan_u8 a) (\<lambda>v. c\<lparr>rs_slave_id := v\<rparr>)
     else if opt = CHR ''N'' then set_opt (scan_u8 a) (\<lambda>v. c\<lparr>rs_master_id := v\<rparr>)
     else if opt = CHR ''o'' then set_opt (scan_scaled a (rs_slave_offset c)) (\<lambda>v. c\<lparr>rs_slave_offset := v\<rparr>)
     else if opt = CHR ''O'' then set_opt (scan_scaled a (rs_master_offset c)) (\<lambda>v. c\<lparr>rs_master_offset := v\<rparr>)
     else if opt = CHR ''s'' then set_opt (scan_scaled a (rs_payload_size c)) (\<lambda>v. c\<lparr>rs_payload_size := v\<rparr>)
     else if opt = CHR ''p'' then (case scan_u8 a of None \<Rightarrow> Inl (- 1) | Some v \<Rightarrow> if v > 7 then Inl (- 1) else Inr (c\<lparr>rs_port := v\<rparr>))
     else if opt = CHR ''v'' then Inr (c\<lparr>rs_verbose := True\<rparr>)
     else if opt = CHR ''V'' then Inl 0
     else Inl (- 1))"

text \<open>The payload. \<open>None\<close> is undefined behaviour, \<open>Inl\<close> an exit. More bytes than the size make the difference of the two
  numbers wrap around: the last copy then leaves the buffer.\<close>

fun rd_bytes :: "nat \<Rightarrow> string list \<Rightarrow> nat \<Rightarrow> bytes \<Rightarrow> (nat \<times> bytes) option" where
  "rd_bytes lim [] i p = Some (i, p)"
| "rd_bytes lim (a # args) i p =
     (if i < lim then do { b \<leftarrow> scan_u8 a; rd_bytes lim args (Suc i) (p[i := b]) } else Some (i, p))"

function rd_repeat :: "nat \<Rightarrow> nat \<Rightarrow> nat \<Rightarrow> bytes \<Rightarrow> nat \<times> bytes" where
  "rd_repeat sz orig rd p =
     (if 0 < orig \<and> rd + orig \<le> sz then rd_repeat sz orig (rd + orig) (splice p rd (take orig p)) else (rd, p))"
  by pat_completeness auto
termination
  by (relation "measure (\<lambda>(sz, _, rd, _). sz - rd)") auto

declare rd_repeat.simps [simp del]

definition rd_fill :: "nat \<Rightarrow> nat \<Rightarrow> string list \<Rightarrow> bytes \<Rightarrow> (int + bytes) option" where
  "rd_fill lim sz args p =
     (if sz = 0 \<or> sz > lim then Some (Inl (- 1))
      else case rd_bytes lim args 0 p of
        None \<Rightarrow> Some (Inl (- 1))
      | Some (n, p) \<Rightarrow>
          if n = 0 then Some (Inl (- 1))
          else (let (rd, p) = rd_repeat sz n n p
                in if rd > sz then None else Some (Inr (if sz - rd > 0 then splice p rd (take (sz - rd) p) else p))))"

definition rd_payload :: "rdma_api \<Rightarrow> axrdma_status \<Rightarrow> string list \<Rightarrow> (int + axrdma_status) option" where
  "rd_payload api s args = map_option (map_sum id (\<lambda>p. s\<lparr>rs_payload := p\<rparr>))
     (rd_fill (AXIOM_RDMA_PAYLOAD_MAX_SIZE api) (unat (rs_payload_size s)) args (rs_payload s))"

text \<open>The nodes: the two of the session, unless they are given. Shifts by 64 or more are undefined, as is the result for an empty mask.\<close>

definition ctzll :: "u64 \<Rightarrow> nat option" where
  "ctzll m = List.find (bit m) [0..<64]"

definition clzll :: "u64 \<Rightarrow> nat option" where
  "clzll m = map_option (\<lambda>i. 63 - i) (List.find (bit m) (rev [0..<64]))"

definition rd_nodes :: "rdma_api \<Rightarrow> u64 \<Rightarrow> axrdma_status \<Rightarrow> (int + axrdma_status) option" where
  "rd_nodes api nodes s = do {
     node_t \<leftarrow> ctzll nodes;
     z \<leftarrow> clzll nodes;
     let node_l = 63 - z;
     let s = (if rs_master_id s = rm_null_node api
        then s\<lparr>rs_master_id := if unat (rs_slave_id s) = node_t then of_nat node_l else of_nat node_t\<rparr> else s);
     let s = (if rs_slave_id s = rm_null_node api
        then s\<lparr>rs_slave_id := if unat (rs_master_id s) = node_l then of_nat node_t else of_nat node_l\<rparr> else s);
     if unat (rs_master_id s) \<ge> 64 \<or> unat (rs_slave_id s) \<ge> 64 then None
     else if nodes \<noteq> push_bit (unat (rs_master_id s)) 1 OR push_bit (unat (rs_slave_id s)) 1 then Some (Inl (- 1))
     else Some (Inr s)
   }"

text \<open>What the system answers on a node: whether the device opens, the node, the values of the environment, the result of the allocator,
  the address it gives, the barrier, and the RDMA zone.\<close>

record rdma_env =
  re_open :: bool
  re_node :: u8
  re_num_nodes :: int
  re_mask :: u64
  re_alloc_init :: "nat \<Rightarrow> int"
  re_malloc :: "nat \<Rightarrow> nat option"
  re_sync :: int
  re_mmap :: "(nat \<times> nat) option"

text \<open>The sums are computed on 32 bits.\<close>

definition rd_alloc :: "rdma_env \<Rightarrow> axrdma_status \<Rightarrow> int + axrdma_status" where
  "rd_alloc e s =
     (if rs_mode s = Some RDMA_READ \<or> rs_mode s = Some RDMA_WRITE
      then (let max_size = unat (rs_payload_size s + (if rs_master_offset s > rs_slave_offset s then rs_master_offset s else rs_slave_offset s))
            in if re_alloc_init e max_size \<noteq> 0 then Inl 0
               else case re_malloc e max_size of
                 None \<Rightarrow> Inl 0
               | Some a \<Rightarrow> if re_sync e < 0 then Inl 0 else Inr (s\<lparr>rs_rdma_start := a\<rparr>))
      else case re_mmap e of
        None \<Rightarrow> Inl 0
      | Some (a, rdma_size) \<Rightarrow>
          if unat (rs_payload_size s + rs_master_offset s) > rdma_size then Inl 0
          else Inr (s\<lparr>rs_rdma_start := a, rs_slave_id := - 1\<rparr>))"

text \<open>The program up to the switch.\<close>

definition axrdma_start :: "rdma_api \<Rightarrow> rdma_env \<Rightarrow> string list \<Rightarrow> bytes \<Rightarrow> (int + axrdma_status) option" where
  "axrdma_start api e argv junk = (case parse_options rdma_optspec rdma_option (axrdma_status0 api junk) [] argv [] of
       Inl n \<Rightarrow> Some (Inl n)
     | Inr (s, args) \<Rightarrow>
         (case (if rs_mode s \<in> {Some LOCAL_STORE, Some RDMA_READ, Some RDMA_WRITE} then rd_payload api s args else Some (Inr s)) of
             None \<Rightarrow> None
           | Some (Inl n) \<Rightarrow> Some (Inl n)
           | Some (Inr s) \<Rightarrow>
               if \<not> re_open e then Some (Inl (- 1))
               else if re_num_nodes e \<noteq> 2 then Some (Inl (- 1))
               else (case rd_nodes api (re_mask e) (s\<lparr>rs_local_id := re_node e\<rparr>) of
                   None \<Rightarrow> None
                 | Some (Inl n) \<Rightarrow> Some (Inl n)
                 | Some (Inr s) \<Rightarrow> Some (rd_alloc e s))))"

text \<open>The switch, in two parts: up to the barrier, with the result of the write, and after it, with the dump that is printed. The local modes
  have no barrier.\<close>

definition axrdma_before :: "rdma_api \<Rightarrow> axrdma_status \<Rightarrow> store \<Rightarrow> (int \<times> store) option" where
  "axrdma_before api s st =
     (if rs_mode s = Some RDMA_READ
      then (if rs_local_id s = rs_slave_id s then map_option (Pair 0) (axrdma_store s st) else Some (0, st))
      else if rs_mode s = Some RDMA_WRITE
      then (if rs_local_id s = rs_master_id s then map_option (axrdma_write api s) (axrdma_store s st) else Some (0, st))
      else Some (0, st))"

definition axrdma_show :: "axrdma_status \<Rightarrow> store \<Rightarrow> (dump \<times> store) option" where
  "axrdma_show s st = (if rs_verbose s then map_option (\<lambda>r. (snd r, st)) (axrdma_dump s st) else Some ([], st))"

definition axrdma_after :: "rdma_api \<Rightarrow> int \<Rightarrow> int \<Rightarrow> axrdma_status \<Rightarrow> store \<Rightarrow> (dump \<times> store) option" where
  "axrdma_after api sync write_ret s st =
     (if rs_mode s = Some RDMA_READ
      then (if sync < 0 then Some ([], st)
            else (let (ret, st) = (if rs_local_id s = rs_master_id s then axrdma_read api s st else (0, st))
                  in if ret \<noteq> 0 then Some ([], st) else axrdma_show s st))
      else if rs_mode s = Some RDMA_WRITE then (if sync < 0 \<or> write_ret \<noteq> 0 then Some ([], st) else axrdma_show s st)
      else if rs_mode s = Some LOCAL_DUMP then map_option (\<lambda>r. (snd r, st)) (axrdma_dump s st)
      else if rs_mode s = Some LOCAL_STORE then Option.bind (axrdma_store s st) (axrdma_show s)
      else Some ([], st))"

text \<open>The programs of a session: all of them up to the barrier, in one order, and then all of them from there on, in another. The results are
  the dumps, by node.\<close>

definition axrdma_session :: "rdma_api \<Rightarrow> axrdma_status list \<Rightarrow> axrdma_status list \<Rightarrow> store \<Rightarrow> ((u8 \<Rightarrow> dump) \<times> store) option" where
  "axrdma_session api order1 order2 st = do {
     (wr, st) \<leftarrow> for_each (\<lambda>s (wr, st). map_option (\<lambda>(r, st). (wr(rs_local_id s := r), st)) (axrdma_before api s st)) order1 (\<lambda>_. 0, st);
     for_each (\<lambda>s (out, st). map_option (\<lambda>(d, st). (out(rs_local_id s := d), st)) (axrdma_after api 0 (wr (rs_local_id s)) s st)) order2 (\<lambda>_. [], st)
   }"

section \<open>The payload\<close>

text \<open>The bytes of the command line, again and again.\<close>

definition pattern :: "bytes \<Rightarrow> nat \<Rightarrow> bytes" where
  "pattern bs n = map (\<lambda>i. bs ! (i mod length bs)) [0..<n]"

lemma length_pattern [simp]: "length (pattern bs n) = n"
  by (simp add: pattern_def)

lemma pattern_length [simp]: "pattern bs (length bs) = bs"
  by (rule nth_equalityI) (simp_all add: pattern_def)

lemma take_pattern [simp]: "m \<le> n \<Longrightarrow> take m (pattern bs n) = pattern bs m"
  by (simp add: pattern_def take_map)

lemma pattern_add:
  assumes "length bs dvd n" "m \<le> length bs"
  shows "pattern bs (n + m) = pattern bs n @ take m bs"
proof (rule nth_equalityI)
  fix i assume "i < length (pattern bs (n + m))"
  then have i: "i < n + m" by simp
  show "pattern bs (n + m) ! i = (pattern bs n @ take m bs) ! i"
  proof (cases "i < n")
    case False
    then have "i mod length bs = (i - n) mod length bs" using assms(1) by (metis le_add_diff_inverse dvd_imp_mod_0 mod_add_left_eq add_0 not_less)
    also have "\<dots> = i - n" using i False assms(2) by simp
    finally show ?thesis using i False by (simp add: pattern_def nth_append)
  qed (use i in \<open>simp add: pattern_def nth_append\<close>)
qed (use assms(2) in simp)

lemma rd_bytes_read:
  "i + length bs \<le> length p \<Longrightarrow> length p = lim \<Longrightarrow> rd_bytes lim (map byte_arg bs) i p = Some (i + length bs, splice p i bs)"
  by (induction bs arbitrary: i p) (simp_all add: splice_Cons)

lemma take_splice: "a \<le> length p \<Longrightarrow> take (a + length x) (splice p a x) = take a p @ x"
  by (simp add: splice_def)

lemma rd_repeat_pattern:
  assumes "bs \<noteq> []" "sz \<le> n"
  shows "length bs dvd rd \<Longrightarrow> length bs \<le> rd \<Longrightarrow> rd \<le> sz \<Longrightarrow> length p = n \<Longrightarrow> take rd p = pattern bs rd \<Longrightarrow>
    \<exists>rd' p'. rd_repeat sz (length bs) rd p = (rd', p') \<and> length bs dvd rd' \<and> length bs \<le> rd' \<and> rd' \<le> sz \<and> sz - rd' < length bs
      \<and> length p' = n \<and> take rd' p' = pattern bs rd'"
proof (induction "sz - rd" arbitrary: rd p rule: less_induct)
  case less
  have bs: "take (length bs) p = bs" using less.prems(2,5) by (metis take_pattern pattern_length take_take min.absorb1)
  show ?case
  proof (cases "rd + length bs \<le> sz")
    case True
    have "take (rd + length bs) (splice p rd bs) = pattern bs (rd + length bs)"
      using less.prems(1,3-5) assms(2) pattern_add [of bs rd "length bs"] by (simp add: take_splice)
    moreover have "length (splice p rd bs) = n" using True less.prems(4) assms(2) by (simp add: length_splice)
    moreover have l: "0 < length bs" using assms(1) by simp
    moreover have "sz - (rd + length bs) < sz - rd" using l True by linarith
    ultimately show ?thesis using less.hyps [of "rd + length bs" "splice p rd bs"] True less.prems(1)
      by (subst rd_repeat.simps) (simp add: bs)
  next
    case False
    with less.prems show ?thesis by (simp add: rd_repeat.simps [of sz] linorder_not_le less_diff_conv2)
  qed
qed

lemma rd_fill_pattern:
  assumes "bs \<noteq> []" "length bs \<le> sz" "sz \<le> length junk"
  shows "\<exists>p. rd_fill (length junk) sz (map byte_arg bs) junk = Some (Inr p) \<and> take sz p = pattern bs sz"
proof -
  have sz: "0 < length bs" "0 < sz" using assms(1,2) by (simp, cases bs) auto
  let ?p = "splice junk 0 bs"
  have len: "length ?p = length junk" using assms(2,3) by (simp add: length_splice)
  have "rd_bytes (length junk) (map byte_arg bs) 0 junk = Some (length bs, ?p)" using rd_bytes_read [of 0 bs junk] assms(2,3) by simp
  moreover obtain rd p where p: "rd_repeat sz (length bs) (length bs) ?p = (rd, p)" "length bs dvd rd" "length bs \<le> rd" "rd \<le> sz"
    "sz - rd < length bs" "length p = length junk" "take rd p = pattern bs rd"
    using rd_repeat_pattern [OF assms(1,3), of "length bs" ?p] assms(2) len by (auto simp: splice_def)
  ultimately have fill: "rd_fill (length junk) sz (map byte_arg bs) junk = Some (Inr (if sz - rd > 0 then splice p rd (take (sz - rd) p) else p))"
    using sz assms(3) by (simp add: rd_fill_def)
  have "take (length bs) p = bs" using p(3,7) by (metis take_pattern pattern_length take_take min.absorb1)
  then have tk: "take (sz - rd) p = take (sz - rd) bs" using p(5) by (metis take_take min.absorb1 less_imp_le)
  have "take sz (splice p rd (take (sz - rd) p)) = take rd p @ take (sz - rd) p"
    using take_splice [of rd p "take (sz - rd) p"] p(4,6) assms(3) by simp
  also have "\<dots> = pattern bs sz" unfolding p(7) tk using pattern_add [OF p(2), of "sz - rd"] p(4,5) by simp
  finally have "take sz (if sz - rd > 0 then splice p rd (take (sz - rd) p) else p) = pattern bs sz" using p(4,7) by auto
  with fill show ?thesis by blast
qed

lemma rd_payload_pattern:
  assumes "bs \<noteq> []" "length bs \<le> unat (rs_payload_size s)" "unat (rs_payload_size s) \<le> AXIOM_RDMA_PAYLOAD_MAX_SIZE api"
    and "length (rs_payload s) = AXIOM_RDMA_PAYLOAD_MAX_SIZE api"
  shows "\<exists>p. rd_payload api s (map byte_arg bs) = Some (Inr (s\<lparr>rs_payload := p\<rparr>)) \<and> take (unat (rs_payload_size s)) p = pattern bs (unat (rs_payload_size s))"
  using rd_fill_pattern [OF assms(1,2), of "rs_payload s"] assms(3,4) by (auto simp: rd_payload_def)

section \<open>The nodes\<close>

lemma bit_two: "a < 64 \<Longrightarrow> b < 64 \<Longrightarrow> bit (push_bit a 1 OR push_bit b 1 :: u64) i \<longleftrightarrow> i = a \<or> i = b"
  by (auto simp: bit_or_iff bit_push_bit_iff bit_1_iff)

lemma two_nodes:
  assumes "a < b" "b < 64"
  shows "ctzll (push_bit a 1 OR push_bit b 1) = Some a" "clzll (push_bit a 1 OR push_bit b 1) = Some (63 - b)"
proof -
  let ?m = "push_bit a 1 OR push_bit b 1 :: u64"
  have m: "bit ?m i \<longleftrightarrow> i = a \<or> i = b" for i using bit_two assms by simp
  show "ctzll ?m = Some a" unfolding ctzll_def find_Some_iff using assms m by (intro exI [of _ a]) auto
  have "List.find (bit ?m) (rev [0..<64]) = Some b"
    unfolding find_Some_iff using assms m by (intro exI [of _ "63 - b"]) (auto simp: rev_nth)
  then show "clzll ?m = Some (63 - b)" by (simp add: clzll_def)
qed

lemma node_not_null: "a < 64 \<Longrightarrow> 64 \<le> unat (null :: u8) \<Longrightarrow> null \<noteq> of_nat a"
  by (auto simp: unat_of_nat)

lemma rd_nodes_pair:
  assumes "a < b" "b < 64" "64 \<le> unat (rm_null_node api)"
    and "if rs_master_id s = rm_null_node api then rs_slave_id s = rm_null_node api \<and> m = of_nat a \<and> sl = of_nat b
      else rs_master_id s = m \<and> rs_slave_id s = sl \<and> (m, sl) \<in> {(of_nat a, of_nat b), (of_nat b, of_nat a)}"
  shows "rd_nodes api (push_bit a 1 OR push_bit b 1) s = Some (Inr (s\<lparr>rs_master_id := m, rs_slave_id := sl\<rparr>))"
proof -
  have u: "unat (of_nat a :: u8) = a" "unat (of_nat b :: u8) = b" using assms(1,2) by (simp_all add: unat_of_nat)
  moreover have "rm_null_node api \<noteq> of_nat a" "rm_null_node api \<noteq> of_nat b" using assms(1-3) by (auto dest: node_not_null)
  ultimately show ?thesis using assms u unfolding rd_nodes_def two_nodes [OF assms(1,2)]
    by (cases s) (auto simp: Let_def or.commute split: if_splits)
qed

section \<open>What a session transfers\<close>

text \<open>Transfers that copy the bytes, when both sides have memory there.\<close>

definition rdma_ok :: "rdma_api \<Rightarrow> bool" where
  "rdma_ok api \<longleftrightarrow>
     (\<forall>st l r n src dst. mapped st r src n \<longrightarrow> mapped st l dst n \<longrightarrow> rm_is_ok api (fst (rm_read_sync api st l r n src dst))
        \<and> snd (rm_read_sync api st l r n src dst) = mem_put st l dst (mem_get st r src n))
   \<and> (\<forall>st l r n src dst. mapped st l src n \<longrightarrow> mapped st r dst n \<longrightarrow> rm_is_ok api (fst (rm_write_sync api st l r n src dst))
        \<and> snd (rm_write_sync api st l r n src dst) = mem_put st r dst (mem_get st l src n))
   \<and> 64 \<le> unat (rm_null_node api)"

text \<open>A command line, with or without the two nodes.\<close>

definition u32_arg :: "u32 \<Rightarrow> string" where
  "u32_arg n = print_base 10 (unat n)"

definition rdma_cmdline :: "char \<Rightarrow> (u8 \<times> u8) option \<Rightarrow> u32 \<Rightarrow> u32 \<Rightarrow> u32 \<Rightarrow> bytes \<Rightarrow> string list" where
  "rdma_cmdline mode ids sz moff soff bs =
     [''-m'', [mode], ''-s'', u32_arg sz, ''-O'', u32_arg moff, ''-o'', u32_arg soff, ''-v'']
     @ (case ids of None \<Rightarrow> [] | Some (m, sl) \<Rightarrow> [''-N'', byte_arg m, ''-n'', byte_arg sl]) @ map byte_arg bs"

lemma scan_scaled_print [simp]: "scan_scaled (u32_arg n) old = Some n"
proof -
  obtain d s where "print_base 10 (unat n) = digit_char d # s" "d < 10" using print_base_hd [of 10 "unat n"] by auto
  then have "dropWhile is_space (print_base 10 (unat n)) \<noteq> []" using digit_not_space [of d] by simp
  moreover have "scan_u32 (print_base 10 (unat n)) = Some n"
  proof -
    have "unat n < 2 ^ LENGTH(32)" by (rule unsigned_less)
    then have "unat n < 2 ^ 64" by simp
    from scan_u32_print [OF this] show ?thesis by simp
  qed
  ultimately show ?thesis by (auto simp: scan_scaled_def u32_arg_def scan_d_print rd_get_scale_def)
qed

definition rd_opts :: "rdma_api \<Rightarrow> bytes \<Rightarrow> char \<Rightarrow> (u8 \<times> u8) option \<Rightarrow> u32 \<Rightarrow> u32 \<Rightarrow> u32 \<Rightarrow> axrdma_status" where
  "rd_opts api junk mode ids sz moff soff = (let (m, sl) = (case ids of None \<Rightarrow> (rm_null_node api, rm_null_node api) | Some x \<Rightarrow> x) in
     \<lparr>rs_mode = Some mode, rs_port = 1, rs_local_id = 0, rs_master_id = m, rs_slave_id = sl, rs_payload_size = sz, rs_master_offset = moff,
      rs_slave_offset = soff, rs_rdma_start = 0, rs_payload = junk, rs_verbose = True\<rparr>)"

lemma rdma_cmdline_read:
  "parse_options rdma_optspec rdma_option (axrdma_status0 api junk) [] (rdma_cmdline mode ids sz moff soff bs) []
    = Inr (rd_opts api junk mode ids sz moff soff, map byte_arg bs)"
proof -
  let ?P = "\<lambda>c args. parse_options rdma_optspec rdma_option c [] args []"
  have v: "?P c ([CHR ''-'', o1] # a # args) = ?P c' args"
    if "o1 \<in> set ''mnNoOsp''" "rdma_option o1 (Some a) c = Inr c'" for o1 a c c' args
    by (rule parse_value) (use that in \<open>auto simp: rdma_optspec_def\<close>)
  have vb: "?P c (''-v'' # args) = ?P (c\<lparr>rs_verbose := True\<rparr>) args" for c args
    by (rule parse_flag) (simp_all add: rdma_optspec_def rdma_option_def)
  have e: "?P c (map byte_arg bs) = Inr (c, map byte_arg bs)" for c
    using parse_operands [of "map byte_arg bs" rdma_optspec rdma_option c "[]" "[]"] by simp
  show ?thesis unfolding rdma_cmdline_def append_Cons append_Nil
    by (cases ids) (auto simp: v rdma_option_def set_opt_def vb e rd_opts_def axrdma_status0_def)
qed

text \<open>A node of a session of the nodes \<open>a\<close> and \<open>b\<close> where everything succeeds; \<open>addr\<close> is the address of the allocator.\<close>

definition rd_env_ok :: "rdma_env \<Rightarrow> nat \<Rightarrow> nat \<Rightarrow> nat \<Rightarrow> nat \<Rightarrow> bool" where
  "rd_env_ok e a b n addr \<longleftrightarrow> re_open e \<and> re_num_nodes e = 2 \<and> re_mask e = push_bit a 1 OR push_bit b 1 \<and> re_alloc_init e n = 0
     \<and> re_malloc e n = Some addr \<and> 0 \<le> re_sync e"

definition rd_status :: "u8 \<Rightarrow> u8 \<times> u8 \<Rightarrow> char \<Rightarrow> u32 \<Rightarrow> u32 \<Rightarrow> u32 \<Rightarrow> nat \<Rightarrow> bytes \<Rightarrow> axrdma_status" where
  "rd_status n ids mode sz moff soff addr p =
     \<lparr>rs_mode = Some mode, rs_port = 1, rs_local_id = n, rs_master_id = fst ids, rs_slave_id = snd ids, rs_payload_size = sz, rs_master_offset = moff,
      rs_slave_offset = soff, rs_rdma_start = addr, rs_payload = p, rs_verbose = True\<rparr>"

definition rd_ids :: "nat \<Rightarrow> nat \<Rightarrow> (u8 \<times> u8) option \<Rightarrow> u8 \<times> u8" where
  "rd_ids a b ids = (case ids of None \<Rightarrow> (of_nat a, of_nat b) | Some x \<Rightarrow> x)"

lemma rd_alloc_size: "(if y < x then x else y) = max x (y :: u32)"
  by (auto simp: max_def)

lemma axrdma_start_ok:
  assumes "rdma_ok api" "mode = RDMA_READ \<or> mode = RDMA_WRITE" "a < b" "b < 64"
    and "ids = None \<or> ids = Some (of_nat a, of_nat b) \<or> ids = Some (of_nat b, of_nat a)"
    and "bs \<noteq> []" "length bs \<le> unat sz" "unat sz \<le> AXIOM_RDMA_PAYLOAD_MAX_SIZE api" "length junk = AXIOM_RDMA_PAYLOAD_MAX_SIZE api"
    and "rd_env_ok e a b (unat (sz + max moff soff)) addr"
  shows "\<exists>p. axrdma_start api e (rdma_cmdline mode ids sz moff soff bs) junk = Some (Inr (rd_status (re_node e) (rd_ids a b ids) mode sz moff soff addr p))
    \<and> take (unat sz) p = pattern bs (unat sz)"
proof -
  let ?s = "rd_opts api junk mode ids sz moff soff"
  have s: "rs_payload_size ?s = sz" "rs_payload ?s = junk" "rs_mode ?s = Some mode" by (simp_all add: rd_opts_def split: prod.split)
  obtain p where p: "rd_payload api ?s (map byte_arg bs) = Some (Inr (?s\<lparr>rs_payload := p\<rparr>))" "take (unat sz) p = pattern bs (unat sz)"
    using rd_payload_pattern [of bs ?s api] assms(6-9) s by auto
  let ?t = "?s\<lparr>rs_payload := p, rs_local_id := re_node e\<rparr>" and ?m = "fst (rd_ids a b ids)" and ?l = "snd (rd_ids a b ids)"
  have null: "64 \<le> unat (rm_null_node api)" using assms(1) unfolding rdma_ok_def by blast
  then have "rm_null_node api \<noteq> of_nat a" "rm_null_node api \<noteq> of_nat b" using assms(3,4) by (auto dest: node_not_null)
  then have "rd_nodes api (push_bit a 1 OR push_bit b 1) ?t = Some (Inr (?t\<lparr>rs_master_id := ?m, rs_slave_id := ?l\<rparr>))"
    using assms(5) by (intro rd_nodes_pair [OF assms(3,4) null]) (auto simp: rd_opts_def rd_ids_def)
  moreover have "?t\<lparr>rs_master_id := ?m, rs_slave_id := ?l\<rparr> = rd_status (re_node e) (rd_ids a b ids) mode sz moff soff 0 p"
    by (cases ids) (auto simp: rd_opts_def rd_status_def rd_ids_def)
  moreover have "rd_alloc e (rd_status (re_node e) (rd_ids a b ids) mode sz moff soff 0 p)
      = Inr (rd_status (re_node e) (rd_ids a b ids) mode sz moff soff addr p)"
    using assms(2,10) by (simp add: rd_alloc_def rd_env_ok_def rd_status_def Let_def rd_alloc_size cong: if_cong)
  ultimately have "axrdma_start api e (rdma_cmdline mode ids sz moff soff bs) junk
      = Some (Inr (rd_status (re_node e) (rd_ids a b ids) mode sz moff soff addr p))"
    using assms(2,10) p(1) s(3) unfolding axrdma_start_def rdma_cmdline_read rd_env_ok_def by auto
  with p(2) show ?thesis by blast
qed

text \<open>The dump shows the bytes.\<close>

definition dumped :: "('w::len word \<times> bytes) list \<Rightarrow> bytes" where
  "dumped d = concat (map snd d)"

lemma dump_fold: "n \<le> length bs \<Longrightarrow> dumped (fold (dump_byte off bs) [0..<n] []) = take n bs \<and> (0 < n \<longrightarrow> fold (dump_byte off bs) [0..<n] [] \<noteq> [])"
proof (induction n)
  case (Suc n)
  let ?d = "fold (dump_byte off bs) [0..<n] []"
  have "dumped (dump_byte off bs n ?d) = dumped ?d @ [bs ! n]"
  proof (cases "n mod 16 = 0")
    case False
    then have "?d \<noteq> []" using Suc by (cases n) auto
    then have "dumped ?d = dumped (butlast ?d @ [last ?d])" by simp
    also have "\<dots> = dumped (butlast ?d) @ snd (last ?d)" by (simp only: dumped_def) simp
    finally show ?thesis using False by (simp add: dump_byte_def dumped_def Let_def)
  qed (simp add: dump_byte_def dumped_def)
  moreover have "dump_byte off bs n d \<noteq> []" for d by (simp add: dump_byte_def Let_def)
  ultimately show ?case using Suc by (simp add: take_Suc_conv_app_nth)
qed (simp add: dumped_def)

lemma dump_shows:
  assumes "rs_payload_size s \<noteq> 0" "mapped st (rs_local_id s) (rs_rdma_start s + unat (rd_offset s)) (unat (rs_payload_size s))" "rs_verbose s"
  shows "\<exists>d. axrdma_show s st = Some (d, st)
    \<and> dumped d = mem_get st (rs_local_id s) (rs_rdma_start s + unat (rd_offset s)) (unat (rs_payload_size s))"
  using dump_fold [of "unat (rs_payload_size s)" "mem_get st (rs_local_id s) (rs_rdma_start s + unat (rd_offset s)) (unat (rs_payload_size s))" "rd_offset s"]
    assms by (simp add: axrdma_show_def axrdma_dump_def)

text \<open>C16: On two nodes started with the same command line, \<open>axiom-rdma\<close> transfers its payload. With the modes read and write and the option \<open>-v\<close>, when the
  allocator of each node gives memory of the size it is asked for, the size and the larger offset together are below \<open>2 ^ 32\<close> (their sum is computed on 32
  bits; with a larger one the allocated memory is too small and the program leaves it), whatever the order in which the two programs run
  between the barriers: no access is outside the allocated memory, and the bytes of the command line, repeated up to the size, are at the end in the
  memory of the master at the master offset and in the memory of the slave at the slave offset, and both
  nodes print them.\<close>

theorem rdma_session_transfers:
  assumes "rdma_ok api" "mode = RDMA_READ \<or> mode = RDMA_WRITE" "a < b" "b < 64"
    and "ids = None \<or> ids = Some (of_nat a, of_nat b) \<or> ids = Some (of_nat b, of_nat a)"
    and "bs \<noteq> []" "length bs \<le> unat sz" "unat sz \<le> AXIOM_RDMA_PAYLOAD_MAX_SIZE api"
    and "length junk = AXIOM_RDMA_PAYLOAD_MAX_SIZE api" "length junk' = AXIOM_RDMA_PAYLOAD_MAX_SIZE api"
    and "rd_env_ok e a b (unat (sz + max moff soff)) addr" "rd_env_ok e' a b (unat (sz + max moff soff)) addr"
    and "(re_node e, re_node e') = rd_ids a b ids"
    and "unat sz + unat (max moff soff) < 2 ^ 32"
    and "\<forall>x\<in>{addr..<addr + unat (sz + max moff soff)}. st (re_node e) x \<noteq> None \<and> st (re_node e') x \<noteq> None"
  shows "\<exists>s s'. axrdma_start api e (rdma_cmdline mode ids sz moff soff bs) junk = Some (Inr s)
    \<and> axrdma_start api e' (rdma_cmdline mode ids sz moff soff bs) junk' = Some (Inr s')
    \<and> (\<forall>o1\<in>{[s, s'], [s', s]}. \<forall>o2\<in>{[s, s'], [s', s]}. \<exists>out st'. axrdma_session api o1 o2 st = Some (out, st')
      \<and> mem_load st' (re_node e) (addr + unat moff) (unat sz) = Some (pattern bs (unat sz))
      \<and> mem_load st' (re_node e') (addr + unat soff) (unat sz) = Some (pattern bs (unat sz))
      \<and> dumped (out (re_node e)) = pattern bs (unat sz) \<and> dumped (out (re_node e')) = pattern bs (unat sz))"
proof -
  let ?m = "re_node e" and ?l = "re_node e'" and ?b = "pattern bs (unat sz)"
  let ?s = "\<lambda>n p. rd_status n (?m, ?l) mode sz moff soff addr p"
  obtain p where p: "axrdma_start api e (rdma_cmdline mode ids sz moff soff bs) junk = Some (Inr (?s ?m p))" "take (unat sz) p = ?b"
    using axrdma_start_ok [OF assms(1-9,11)] assms(13) by auto
  obtain p' where p': "axrdma_start api e' (rdma_cmdline mode ids sz moff soff bs) junk' = Some (Inr (?s ?l p'))" "take (unat sz) p' = ?b"
    using axrdma_start_ok [OF assms(1-8,10,12)] assms(13) by auto
  have "rm_null_node api \<noteq> of_nat a" "rm_null_node api \<noteq> of_nat b" "(of_nat a :: u8) \<noteq> of_nat b"
    using assms(1,3,4) unfolding rdma_ok_def by (auto dest: node_not_null simp: of_nat_eq_u8_iff)
  then have "?m \<noteq> ?l \<and> ?l \<noteq> rm_null_node api" using assms(5,13) unfolding rd_ids_def by auto
  then have ne: "?m \<noteq> ?l" "?l \<noteq> ?m" "?l \<noteq> rm_null_node api" by auto
  have sz: "sz \<noteq> 0" using assms(6,7) by (cases bs) auto
  have "unat (sz + max moff soff) = unat sz + unat (max moff soff)" using assms(14) by (simp add: unat_word_ariths)
  moreover have "unat moff \<le> unat (max moff soff)" "unat soff \<le> unat (max moff soff)" by (simp_all add: word_le_nat_alt [symmetric])
  ultimately have mem: "mapped st ?m (addr + unat moff) (unat sz)" "mapped st ?l (addr + unat soff) (unat sz)"
    using assms(15) by (auto intro!: mapped_part [where k = "unat (sz + max moff soff)"])
  have sel: "rs_mode (?s n q) = Some mode" "rs_local_id (?s n q) = n" "rs_master_id (?s n q) = ?m" "rs_slave_id (?s n q) = ?l"
    "rs_payload_size (?s n q) = sz" "rs_rdma_start (?s n q) = addr" "rs_payload (?s n q) = q" "rs_verbose (?s n q) = True"
    "rs_master_offset (?s n q) = moff" "rs_slave_offset (?s n q) = soff"
    "rd_offset (?s n q) = (if n = ?m then moff else soff)" for n q by (simp_all add: rd_status_def rd_offset_def)
  have rd: "axrdma_read api (?s ?m q) st1 = (0, mem_put st1 ?m (addr + unat moff) (mem_get st1 ?l (addr + unat soff) (unat sz)))"
    if "mapped st1 ?m (addr + unat moff) (unat sz)" "mapped st1 ?l (addr + unat soff) (unat sz)" for q st1
    using assms(1,8) sz ne(3) that unfolding axrdma_read_def rdma_ok_def by (auto simp: sel split: prod.split) (metis fst_conv, metis snd_conv)
  have wr: "axrdma_write api (?s ?m q) st1 = (0, mem_put st1 ?l (addr + unat soff) (mem_get st1 ?m (addr + unat moff) (unat sz)))"
    if "mapped st1 ?m (addr + unat moff) (unat sz)" "mapped st1 ?l (addr + unat soff) (unat sz)" for q st1
    using assms(1,8) sz ne(3) that unfolding axrdma_write_def rdma_ok_def by (auto simp: sel split: prod.split) (metis fst_conv, metis snd_conv)
  have stm: "axrdma_store (?s ?m p) st1 = Some (mem_put st1 ?m (addr + unat moff) ?b)"
    if "mapped st1 ?m (addr + unat moff) (unat sz)" for st1 using that p(2) by (simp add: axrdma_store_def sel)
  have stl: "axrdma_store (?s ?l p') st1 = Some (mem_put st1 ?l (addr + unat soff) ?b)"
    if "mapped st1 ?l (addr + unat soff) (unat sz)" for st1 using that p'(2) ne by (simp add: axrdma_store_def sel)
  define dm where "dm st1 q = fst (the (axrdma_show (?s ?m q) st1))" for st1 q
  define dl where "dl st1 q = fst (the (axrdma_show (?s ?l q) st1))" for st1 q
  have shm: "axrdma_show (?s ?m q) st1 = Some (dm st1 q, st1)" "dumped (dm st1 q) = mem_get st1 ?m (addr + unat moff) (unat sz)"
    if "mapped st1 ?m (addr + unat moff) (unat sz)" for q st1
    using dump_shows [of "?s ?m q" st1] sz that by (auto simp: sel dm_def)
  have shl: "axrdma_show (?s ?l q) st1 = Some (dl st1 q, st1)" "dumped (dl st1 q) = mem_get st1 ?l (addr + unat soff) (unat sz)"
    if "mapped st1 ?l (addr + unat soff) (unat sz)" for q st1
    using dump_shows [of "?s ?l q" st1] sz that ne by (auto simp: sel dl_def)
  define r where "r \<longleftrightarrow> mode = RDMA_READ"
  have bm: "axrdma_before api (?s ?m p) st1 = (if r then Some (0, st1) else map_option (axrdma_write api (?s ?m p)) (axrdma_store (?s ?m p) st1))"
    and bl: "axrdma_before api (?s ?l p') st1 = (if r then map_option (Pair 0) (axrdma_store (?s ?l p') st1) else Some (0, st1))"
    and al: "axrdma_after api 0 0 (?s ?l p') st1 = axrdma_show (?s ?l p') st1" for st1
    using assms(2) ne unfolding axrdma_before_def axrdma_after_def sel r_def by auto
  have am: "axrdma_after api 0 0 (?s ?m p) st1 = axrdma_show (?s ?m p) (if r then snd (axrdma_read api (?s ?m p) st1) else st1)"
    if "mapped st1 ?m (addr + unat moff) (unat sz)" "mapped st1 ?l (addr + unat soff) (unat sz)" for st1
    using assms(2) ne rd [OF that, of p] unfolding axrdma_after_def sel r_def by auto
  have "\<exists>out st'. axrdma_session api o1 o2 st = Some (out, st') \<and> mem_load st' ?m (addr + unat moff) (unat sz) = Some ?b
      \<and> mem_load st' ?l (addr + unat soff) (unat sz) = Some ?b \<and> dumped (out ?m) = ?b \<and> dumped (out ?l) = ?b"
    if "o1 = [?s ?m p, ?s ?l p'] \<or> o1 = [?s ?l p', ?s ?m p]" "o2 = [?s ?m p, ?s ?l p'] \<or> o2 = [?s ?l p', ?s ?m p]" for o1 o2
    using that ne mem unfolding axrdma_session_def
    by (elim disjE; cases r) (simp_all add: bm bl am al sel stm stl rd wr shm shl Let_def)
  with p(1) p'(1) show ?thesis by blast
qed

section \<open>Instances\<close>

definition demo_rdma :: rdma_api where
  "demo_rdma = \<lparr>rm_is_ok = (\<lambda>e. 0 \<le> e), rm_read_sync = (\<lambda>st l r n src dst. (0, mem_put st l dst (mem_get st r src n))),
     rm_write_sync = (\<lambda>st l r n src dst. (0, mem_put st r dst (mem_get st l src n))), rm_null_node = 255, AXIOM_RDMA_PAYLOAD_MAX_SIZE = 8\<rparr>"

lemma demo_rdma_ok: "rdma_ok demo_rdma"
  by (simp add: rdma_ok_def demo_rdma_def)

definition demo_rdma_env :: "u8 \<Rightarrow> rdma_env" where
  "demo_rdma_env n = \<lparr>re_open = True, re_node = n, re_num_nodes = 2, re_mask = 10, re_alloc_init = (\<lambda>_. 0), re_malloc = (\<lambda>_. Some 4096), re_sync = 0,
     re_mmap = None\<rparr>"

theorem rdma_session_transfers_witness:
  "\<exists>s s'. axrdma_start demo_rdma (demo_rdma_env 1) [''-m'', ''r'', ''-s'', ''5'', ''-O'', ''0'', ''-o'', ''16'', ''-v'', ''7'', ''9''] (replicate 8 0) = Some (Inr s)
    \<and> axrdma_start demo_rdma (demo_rdma_env 3) [''-m'', ''r'', ''-s'', ''5'', ''-O'', ''0'', ''-o'', ''16'', ''-v'', ''7'', ''9''] (replicate 8 1) = Some (Inr s')
    \<and> (\<exists>out st'. axrdma_session demo_rdma [s, s'] [s', s] (\<lambda>_ _. Some 0) = Some (out, st')
      \<and> mem_load st' 1 4096 5 = Some [7, 9, 7, 9, 7] \<and> dumped (out 1) = [7, 9, 7, 9, 7])"
proof -
  have cmd: "rdma_cmdline CHR ''r'' None 5 0 16 [7, 9] = [''-m'', ''r'', ''-s'', ''5'', ''-O'', ''0'', ''-o'', ''16'', ''-v'', ''7'', ''9'']"
    "pattern [7, 9 :: u8] 5 = [7, 9, 7, 9, 7]" by code_simp+
  have env: "rd_env_ok (demo_rdma_env n) 1 3 (unat (5 + max 0 (16 :: u32))) 4096" for n by (simp add: rd_env_ok_def demo_rdma_env_def)
  have ids: "(re_node (demo_rdma_env 1), re_node (demo_rdma_env 3)) = rd_ids 1 3 None" by (simp add: rd_ids_def demo_rdma_env_def)
  have n: "re_node (demo_rdma_env k) = k" "unat (5 :: u32) = 5" "AXIOM_RDMA_PAYLOAD_MAX_SIZE demo_rdma = 8" for k
    by (simp_all add: demo_rdma_env_def demo_rdma_def)
  from rdma_session_transfers [OF demo_rdma_ok _ _ _ _ _ _ _ _ _ env env ids, of "CHR ''r''" "[7, 9]" "replicate 8 0" "replicate 8 1" "\<lambda>_ _. Some 0"]
  show ?thesis unfolding cmd n by simp fastforce
qed

end
