(* ===== verification/Tool_Options.thy ===== *)
theory Tool_Options
  imports Getopt Netperf Ping Traceroute Init_Daemon Sched
begin

text \<open>
  The command lines of \<open>axiom-traceroute\<close>, \<open>axiom-ping\<close>, \<open>axiom-netperf\<close> and of the daemon \<open>axiom-init\<close>: the options, the checks that follow, and what
  the programs then start. Whether a device opens and binds, and the contents of the files, are inputs.
\<close>

section \<open>axiom-traceroute\<close>

definition tr_optspec :: "char optspec" where
  "tr_optspec = \<lparr>os_char = id, os_short = map (\<lambda>c. (c, no_argument)) ''vhV'' @ [(CHR ''d'', required_argument)],
     os_long = [(''dest'', required_argument, CHR ''d''), (''verbose'', no_argument, CHR ''v''), (''version'', no_argument, CHR ''V''),
       (''help'', no_argument, CHR ''h'')]\<rparr>"

text \<open>The destination, when it has been given.\<close>

definition tr_option :: "char \<Rightarrow> string option \<Rightarrow> u8 option \<Rightarrow> int + u8 option" where
  "tr_option opt arg c = (let a = (case arg of None \<Rightarrow> [] | Some a \<Rightarrow> a) in
     if opt = CHR ''d'' then set_opt (scan_u8 a) Some
     else if opt = CHR ''v'' then Inr c
     else if opt = CHR ''V'' then Inl 0
     else Inl (- 1))"

definition traceroute_main :: "'d trace_api \<Rightarrow> string list \<Rightarrow> 'd \<Rightarrow> (int + trace_end \<times> (u8 \<times> u8) list) option" where
  "traceroute_main api argv dev = (case parse_options tr_optspec tr_option None [] argv [] of
       Inl n \<Rightarrow> Some (Inl n)
     | Inr (None, _) \<Rightarrow> Some (Inl (- 1))
     | Inr (Some dest_node, _) \<Rightarrow> map_option Inr (traceroute api dest_node dev))"

section \<open>axiom-ping\<close>

text \<open>The waiting time is not kept; \<open>fl\<close> says whether \<open>sscanf\<close> reads a number with \<open>%lf\<close>.\<close>

record ping_opts =
  pg_dst :: "u8 option"
  pg_num_ping :: u32
  pg_num_ping_set :: bool

definition ping_opts0 :: ping_opts where
  "ping_opts0 = \<lparr>pg_dst = None, pg_num_ping = 1, pg_num_ping_set = False\<rparr>"

definition ping_optspec :: "char optspec" where
  "ping_optspec = \<lparr>os_char = id, os_short = map (\<lambda>c. (c, no_argument)) ''vhV'' @ map (\<lambda>c. (c, required_argument)) ''dic'',
     os_long = [(''dest'', required_argument, CHR ''d''), (''interval'', required_argument, CHR ''i''), (''count'', required_argument, CHR ''c''),
       (''verbose'', no_argument, CHR ''v''), (''version'', no_argument, CHR ''V''), (''help'', no_argument, CHR ''h'')]\<rparr>"

definition ping_option :: "(string \<Rightarrow> bool) \<Rightarrow> char \<Rightarrow> string option \<Rightarrow> ping_opts \<Rightarrow> int + ping_opts" where
  "ping_option fl opt arg c = (let a = (case arg of None \<Rightarrow> [] | Some a \<Rightarrow> a) in
     if opt = CHR ''d'' then set_opt (scan_u8 a) (\<lambda>v. c\<lparr>pg_dst := Some v\<rparr>)
     else if opt = CHR ''i'' then (if fl a then Inr c else Inl (- 1))
     else if opt = CHR ''c'' then set_opt (scan_u32 a) (\<lambda>v. c\<lparr>pg_num_ping := v, pg_num_ping_set := True\<rparr>)
     else if opt = CHR ''v'' then Inr c
     else if opt = CHR ''V'' then Inl 0
     else Inl (- 1))"

text \<open>The states with which the sender thread and the receive loop start. The number of messages is an \<open>unsigned int\<close> for the loop and an
  \<open>int\<close> for the thread. An error of \<open>bind\<close> or of the creation of the thread is an exit with code 0.\<close>

definition ping_main ::
  "(string \<Rightarrow> bool) \<Rightarrow> bool \<Rightarrow> bool \<Rightarrow> bool \<Rightarrow> string list \<Rightarrow> 'd \<Rightarrow> int + u8 \<times> bool \<times> 'd ping_sender \<times> 'd ping_receiver" where
  "ping_main fl open_ok bind_ok thread_ok argv dev = (case parse_options ping_optspec (ping_option fl) ping_opts0 [] argv [] of
       Inl n \<Rightarrow> Inl n
     | Inr (op, _) \<Rightarrow> (case pg_dst op of
           None \<Rightarrow> Inl (- 1)
         | Some dst_id \<Rightarrow>
             if unat dst_id > 254 then Inl (- 1)
             else if \<not> open_ok then Inl (- 1)
             else if \<not> bind_ok then Inl 0
             else if \<not> thread_ok then Inl 0
             else Inr (dst_id, pg_num_ping_set op,
               \<lparr>ps_dev = dev, ps_num_ping = sint (pg_num_ping op), ps_seq_num = 0, ps_sent_packets = 0\<rparr>, ping_start dev (pg_num_ping op))))"

section \<open>axiom-netperf\<close>

record np_opts =
  no_server_id :: u8
  no_server_port :: u8
  no_client_port :: u8
  no_type :: np_type
  no_rdma_sync :: bool
  no_payload_size :: u64
  no_num_threads :: u32
  no_data_length :: u32
  no_data_scale :: nat

definition AXIOM_NETPERF_DEF_PORT :: u8 where "AXIOM_NETPERF_DEF_PORT = 3"
definition AXIOM_NETPERF_DEF_DATA_SCALE :: nat where "AXIOM_NETPERF_DEF_DATA_SCALE = 10"
definition AXNP_MAX_THREADS :: u32 where "AXNP_MAX_THREADS = 64"

text \<open>The initialiser of the state sets the fields it does not name to zero.\<close>

definition np_client0 :: np_client where
  "np_client0 = \<lparr>nc_payload_size = 0, nc_total_packets = 0, nc_total_bytes = 0, nc_sent_bytes = 0, nc_sent_raw_bytes = 0,
     nc_rdma_size = 0, nc_magic = 0\<rparr>"

definition np_opts0 :: "u8 \<Rightarrow> np_opts" where
  "np_opts0 null = \<lparr>no_server_id = null, no_server_port = AXIOM_NETPERF_DEF_PORT, no_client_port = AXIOM_NETPERF_DEF_PORT, no_type = AXNP_LONG,
     no_rdma_sync = False, no_payload_size = 0, no_num_threads = 1, no_data_length = AXIOM_NETPERF_DEF_DATA_LENGTH,
     no_data_scale = AXIOM_NETPERF_DEF_DATA_SCALE\<rparr>"

definition np_optspec :: "char optspec" where
  "np_optspec = \<lparr>os_char = id, os_short = map (\<lambda>c. (c, no_argument)) ''svhV'' @ map (\<lambda>c. (c, required_argument)) ''dlLpPtn'',
     os_long = [(''type'', required_argument, CHR ''t''), (''dest'', required_argument, CHR ''d''), (''sport'', required_argument, CHR ''p''),
       (''cport'', required_argument, CHR ''P''), (''length'', required_argument, CHR ''l''), (''payload'', required_argument, CHR ''L''),
       (''num_threads'', required_argument, CHR ''n''), (''server'', no_argument, CHR ''s''), (''verbose'', no_argument, CHR ''v''),
       (''version'', no_argument, CHR ''V''), (''help'', no_argument, CHR ''h'')]\<rparr>"

definition np_decode_type :: "string \<Rightarrow> (np_type \<times> bool option) option" where
  "np_decode_type a = do {
     s \<leftarrow> scan_s a;
     if has_prefix ''rdma'' s then Some (AXNP_RDMA, Some False) else if has_prefix ''srdm'' s then Some (AXNP_RDMA, Some True)
     else if has_prefix ''long'' s then Some (AXNP_LONG, None) else if has_prefix ''raw'' s then Some (AXNP_RAW, None) else None
   }"

text \<open>A second empty \<open>-l\<close> keeps the length of the first.\<close>

definition np_length :: "string \<Rightarrow> np_opts \<Rightarrow> int + np_opts" where
  "np_length a c = set_opt (length_option a) (\<lambda>(n, k).
     if dropWhile is_space a = [] then c\<lparr>no_data_scale := k\<rparr> else c\<lparr>no_data_length := n, no_data_scale := k\<rparr>)"

definition np_option :: "char \<Rightarrow> string option \<Rightarrow> np_opts \<Rightarrow> int + np_opts" where
  "np_option opt arg c = (let a = (case arg of None \<Rightarrow> [] | Some a \<Rightarrow> a) in
     if opt = CHR ''d'' then set_opt (scan_u8 a) (\<lambda>v. c\<lparr>no_server_id := v\<rparr>)
     else if opt = CHR ''p'' then set_opt (scan_u8 a) (\<lambda>v. c\<lparr>no_server_port := v\<rparr>)
     else if opt = CHR ''P'' then set_opt (scan_u8 a) (\<lambda>v. c\<lparr>no_client_port := v\<rparr>)
     else if opt = CHR ''t''
     then set_opt (np_decode_type a) (\<lambda>(t, b). case b of None \<Rightarrow> c\<lparr>no_type := t\<rparr> | Some x \<Rightarrow> c\<lparr>no_type := t, no_rdma_sync := x\<rparr>)
     else if opt = CHR ''l'' then np_length a c
     else if opt = CHR ''L'' then set_opt (scan_ulong a) (\<lambda>v. c\<lparr>no_payload_size := v\<rparr>)
     else if opt = CHR ''n'' then set_opt (scan_u32 a) (\<lambda>v. c\<lparr>no_num_threads := v\<rparr>)
     else if opt = CHR ''s'' then Inr (c\<lparr>no_type := AXNP_NONE\<rparr>)
     else if opt = CHR ''v'' then Inr c
     else if opt = CHR ''V'' then Inl 0
     else Inl (- 1))"

text \<open>What the program starts: the number of server threads, or of client threads with the state they share and the flag of the
  synchronous transfers.\<close>

datatype np_start = NP_SERVERS u32 | NP_CLIENTS u32 np_status bool

definition netperf_main :: "u8 \<Rightarrow> bool \<Rightarrow> (u8 \<Rightarrow> err) \<Rightarrow> string list \<Rightarrow> int + np_start" where
  "netperf_main null open_ok bound argv = (case parse_options np_optspec np_option (np_opts0 null) [] argv [] of
       Inl n \<Rightarrow> Inl n
     | Inr (op, _) \<Rightarrow>
         if \<not> open_ok then Inl (- 1)
         else if no_num_threads op > AXNP_MAX_THREADS then Inl (- 1)
         else if no_type op = AXNP_NONE
         then (if bound (no_server_port op) \<noteq> uint (no_server_port op) then Inl 0 else Inr (NP_SERVERS (no_num_threads op)))
         else if bound (no_client_port op) \<noteq> uint (no_client_port op) then Inl 0
         else if no_server_id op = null then Inl 0
         else Inr (NP_CLIENTS (no_num_threads op)
           \<lparr>ns_state = AXN_STATE_NULL, ns_type = no_type op, ns_server_id = no_server_id op, ns_client_port = no_client_port op,
            ns_server_port = no_server_port op, ns_client = np_client0\<lparr>nc_payload_size := no_payload_size op,
              nc_total_bytes := np_total (no_data_length op) (no_data_scale op)\<rparr>\<rparr> (no_rdma_sync op)))"

section \<open>axiom-init\<close>

record boot_opts =
  bo_master :: bool
  bo_node_id :: "u8 option"
  bo_routing :: "string option"
  bo_save :: "string option"
  bo_sched :: sched_state

definition boot_opts0 :: boot_opts where
  "boot_opts0 = \<lparr>bo_master = False, bo_node_id = None, bo_routing = None, bo_save = None, bo_sched = sched_default\<rparr>"

definition boot_optspec :: "char optspec" where
  "boot_optspec = \<lparr>os_char = id, os_short = map (\<lambda>c. (c, no_argument)) ''hvmV'' @ map (\<lambda>c. (c, required_argument)) ''nrsS'',
     os_long = [(''master'', no_argument, CHR ''m''), (''nodeid'', required_argument, CHR ''n''), (''routing'', required_argument, CHR ''r''),
       (''save'', required_argument, CHR ''s''), (''sched'', optional_argument, CHR ''S''), (''verbose'', no_argument, CHR ''v''),
       (''version'', no_argument, CHR ''V''), (''help'', no_argument, CHR ''h'')]\<rparr>"

text \<open>A bad scheduling option ends the program in the function that prints the message.\<close>

definition boot_option :: "char \<Rightarrow> string option \<Rightarrow> boot_opts \<Rightarrow> int + boot_opts" where
  "boot_option opt arg c = (let a = (case arg of None \<Rightarrow> [] | Some a \<Rightarrow> a) in
     if opt = CHR ''S'' then (case sch_decodeopt arg (bo_sched c) of (r, sch) \<Rightarrow> if r \<noteq> 0 then Inl (- 1) else Inr (c\<lparr>bo_sched := sch\<rparr>))
     else if opt = CHR ''m'' then Inr (c\<lparr>bo_master := True\<rparr>)
     else if opt = CHR ''n'' then set_opt (scan_u8 a) (\<lambda>v. c\<lparr>bo_node_id := Some v\<rparr>)
     else if opt = CHR ''r'' then Inr (c\<lparr>bo_routing := Some (take 1022 a)\<rparr>)
     else if opt = CHR ''s'' then Inr (c\<lparr>bo_save := Some (take 1022 a)\<rparr>)
     else if opt = CHR ''v'' then Inr c
     else if opt = CHR ''V'' then Inl 0
     else Inl (- 1))"

text \<open>The files of the system: their lines, and whether they can be written. The table is saved to the file that it is loaded from, whose name is
  \<open>junk\<close> when it is not given. The first component of the result is false when the daemon ends.\<close>

record boot_env =
  be_setattr :: "sched_attr \<Rightarrow> int"
  be_open :: bool
  be_bind :: bool
  be_file :: "string \<Rightarrow> string list option"
  be_writable :: "string \<Rightarrow> bool"
  be_junk :: string
  be_ctz0 :: nat

definition init_boot :: "('d, 'a) init_api \<Rightarrow> boot_env \<Rightarrow> string list \<Rightarrow> ('d, 'a) daemon \<Rightarrow> (int + bool \<times> init_opts \<times> ('d, 'a) daemon) option" where
  "init_boot api e argv d = (case parse_options boot_optspec boot_option boot_opts0 [] argv [] of
       Inl n \<Rightarrow> Some (Inl n)
     | Inr (op, _) \<Rightarrow>
         if sch_setsched (be_setattr e) (bo_sched op) \<noteq> 0 then Some (Inl (- 1))
         else if \<not> be_open e then Some (Inl (- 1))
         else if \<not> be_bind e then Some (Inl (- 1))
         else (let o1 = \<lparr>io_master = bo_master op, io_node_id = bo_node_id op, io_routing = map_option (be_file e) (bo_routing op),
                   io_save = bo_save op \<noteq> None,
                   io_open_ok = be_writable e (case bo_routing op of None \<Rightarrow> be_junk e | Some f \<Rightarrow> f), io_ctz0 = be_ctz0 e\<rparr>
               in map_option (\<lambda>(r, d). Inr (r, o1, d)) (init_start api o1 d)))"

section \<open>What the command lines start\<close>

text \<open>A destination is all that \<open>axiom-traceroute\<close> needs; \<open>axiom-ping\<close> also takes the number of messages, which reaches both its threads when it is
  below \<open>2 ^ 31\<close>.\<close>

lemma traceroute_main_run: "traceroute_main api [''-d'', byte_arg dest] dev = map_option Inr (traceroute api dest dev)"
proof -
  have "parse_options tr_optspec tr_option None [] [''-d'', byte_arg dest] [] = parse_options tr_optspec tr_option (Some dest) [] [] []"
    by (rule byte.parse_arg) (simp_all add: tr_optspec_def tr_option_def)
  then show ?thesis by (simp add: traceroute_main_def)
qed

lemma ping_main_run:
  assumes "c < 2 ^ 31" "unat dst \<le> 254"
  shows "ping_main fl True True True [''-d'', byte_arg dst, ''-c'', int_arg (int c)] dev
    = Inr (dst, True, \<lparr>ps_dev = dev, ps_num_ping = int c, ps_seq_num = 0, ps_sent_packets = 0\<rparr>, ping_start dev (of_nat c))"
proof -
  let ?P = "\<lambda>c args. parse_options ping_optspec (ping_option fl) c [] args []"
  have d: "?P ping_opts0 [''-d'', byte_arg dst, ''-c'', int_arg (int c)] = ?P (ping_opts0\<lparr>pg_dst := Some dst\<rparr>) [''-c'', int_arg (int c)]"
    by (rule byte.parse_arg) (simp_all add: ping_optspec_def ping_option_def)
  have u: "scan_u32 (int_arg (int c)) = Some (of_nat c)"
    using assms(1) by (simp add: int_arg_def scan_u32_print)
  have n: "?P o1 [''-c'', int_arg (int c)] = ?P (o1\<lparr>pg_num_ping := of_nat c, pg_num_ping_set := True\<rparr>) []" for o1
    by (rule parse_value) (simp_all add: ping_optspec_def ping_option_def set_opt_def u)
  have "sint (of_nat c :: u32) = int c" using assms(1) by (simp add: signed_of_nat signed_take_bit_int_eq_self)
  then show ?thesis using assms(2) unfolding ping_main_def d n by (simp add: ping_opts0_def)
qed

text \<open>The types of transfer, as they are written on the command line.\<close>

definition np_type_name :: "np_type \<Rightarrow> bool \<Rightarrow> string" where
  "np_type_name t sync = (case t of AXNP_RAW \<Rightarrow> ''raw'' | AXNP_RDMA \<Rightarrow> if sync then ''srdma'' else ''rdma'' | _ \<Rightarrow> ''long'')"

lemma np_type_read:
  "t \<noteq> AXNP_NONE \<Longrightarrow> np_decode_type (np_type_name t sync) = Some (t, if t = AXNP_RDMA then Some sync else None)"
  by (cases t; cases sync) (simp_all add: np_decode_type_def np_type_name_def scan_s_def is_space_def has_prefix_def)

text \<open>The client threads of a command line, with the length of the transfer as it is computed, on 32 bits: \<open>4G\<close> is a transfer
  of no bytes.\<close>

lemma netperf_main_run:
  assumes "dst \<noteq> null" "t \<noteq> AXNP_NONE" "k < 2 ^ 32" "digit_val 10 u = None" "n \<le> 64" "\<And>p. bound p = uint p"
  shows "\<exists>s sync'. netperf_main null True bound
      [''-d'', byte_arg dst, ''-t'', np_type_name t sync, ''-n'', int_arg (int n), ''-l'', print_base 10 k @ [u]] = Inr (NP_CLIENTS (of_nat n) s sync')
    \<and> (t = AXNP_RDMA \<longrightarrow> sync' = sync) \<and> ns_state s = AXN_STATE_NULL \<and> ns_type s = t \<and> ns_server_id s = dst
    \<and> unat (nc_total_bytes (ns_client s)) = k * 2 ^ get_scale u mod 2 ^ 32"
proof -
  let ?P = "\<lambda>c args. parse_options np_optspec np_option c [] args []" and ?l = "print_base 10 k @ [u]"
  note len = length_option_unit [OF assms(3,4)]
  have v: "?P c ([CHR ''-'', o1] # a # args) = ?P c' args" if "o1 \<in> set ''dlLpPtn''" "np_option o1 (Some a) c = Inr c'" for o1 a c c' args
    by (rule parse_value) (use that in \<open>auto simp: np_optspec_def\<close>)
  have th: "scan_u32 (int_arg (int n)) = Some (of_nat n)" using assms(5) by (simp add: int_arg_def scan_u32_print)
  obtain d x xs where h: "print_base 10 k = x # xs" "d < 10" "x = digit_char d" using print_base_hd [of 10 k] by auto
  then have sp: "dropWhile is_space ?l \<noteq> []" using digit_not_space [of d] by simp
  let ?c = "(np_opts0 null)\<lparr>no_server_id := dst, no_type := t, no_rdma_sync := (t = AXNP_RDMA \<and> sync), no_num_threads := of_nat n,
     no_data_length := of_nat k, no_data_scale := get_scale u\<rparr>"
  have "?P (np_opts0 null) [''-d'', byte_arg dst, ''-t'', np_type_name t sync, ''-n'', int_arg (int n), ''-l'', ?l] = Inr (?c, [])"
    using assms(2) len(1) sp
    by (auto simp: v np_option_def set_opt_def np_type_read th np_length_def np_opts0_def)
  moreover have "\<not> (of_nat n :: u32) > AXNP_MAX_THREADS" using assms(5) by (simp add: AXNP_MAX_THREADS_def word_less_nat_alt unat_of_nat)
  ultimately show ?thesis using assms(1,2,6) len(2) by (simp add: netperf_main_def np_opts0_def)
qed

text \<open>C40: \<open>axiom-netperf\<close> starts the clients that its command line asks for. With a destination, a type, a number of threads of at most 64 and a
  length with one of the units \<open>B\<close>, \<open>K\<close>, \<open>M\<close> and \<open>G\<close>, it starts that many client threads of the type, for the
  destination, and the number of bytes of the transfer is the number times the unit, when this product is below \<open>2 ^ 32\<close>.\<close>

theorem netperf_main_clients:
  assumes "dst \<noteq> null" "t \<noteq> AXNP_NONE" "u \<in> set ''BKMG''" "k * 2 ^ get_scale u < 2 ^ 32" "n \<le> 64" "\<And>p. bound p = uint p"
  shows "\<exists>s sync'. netperf_main null True bound
      [''-d'', byte_arg dst, ''-t'', np_type_name t sync, ''-n'', int_arg (int n), ''-l'', print_base 10 k @ [u]] = Inr (NP_CLIENTS (of_nat n) s sync')
    \<and> (t = AXNP_RDMA \<longrightarrow> sync' = sync) \<and> ns_state s = AXN_STATE_NULL \<and> ns_type s = t \<and> ns_server_id s = dst
    \<and> unat (nc_total_bytes (ns_client s)) = k * 2 ^ get_scale u"
proof -
  have "k * 1 \<le> k * 2 ^ get_scale u" by (intro mult_le_mono2) simp
  then have "k < 2 ^ 32" using assms(4) by linarith
  moreover have "digit_val 10 u = None" using assms(3) by (auto simp: digit_val_def)
  ultimately show ?thesis using netperf_main_run [OF assms(1,2) _ _ assms(5,6), of k u sync] assms(4) by simp
qed

theorem netperf_main_clients_witness:
  "\<exists>s sync'. netperf_main 255 True uint [''-d'', ''2'', ''-t'', ''srdma'', ''-n'', ''4'', ''-l'', ''3G''] = Inr (NP_CLIENTS 4 s sync')
    \<and> sync' \<and> ns_server_id s = 2 \<and> unat (nc_total_bytes (ns_client s)) = 3221225472"
proof -
  have cmd: "[''-d'', byte_arg 2, ''-t'', np_type_name AXNP_RDMA True, ''-n'', int_arg (int 4), ''-l'', print_base 10 3 @ ''G'']
      = [''-d'', ''2'', ''-t'', ''srdma'', ''-n'', ''4'', ''-l'', ''3G'']" by code_simp
  show ?thesis
    using netperf_main_clients [of 2 255 AXNP_RDMA "CHR ''G''" 3 4 uint True] unfolding cmd
    by (auto simp: get_scale_def)
qed

end
