(* ===== verification/Rdma_Dbg.thy ===== *)
theory Rdma_Dbg
  imports Rdma_App
begin

text \<open>
  The program \<open>axiom-rdma-dbg\<close> (\<open>axiom-rdma-dbg/axiom-rdma-dbg.c\<close>), which works on the RDMA zones of the nodes, one operation per run. The
  store has the bytes of the zone of every node by their offset; the transfers of the NIC are inputs.
\<close>

section \<open>The code\<close>

record dbg_status =
  db_mode :: "char option"
  db_port :: u8
  db_local_id :: u8
  db_remote_id :: u8
  db_payload_size :: u32
  db_local_offset :: u64
  db_remote_offset :: u64
  db_payload :: bytes
  db_verbose :: bool

definition dbg_get_scale :: "char \<Rightarrow> nat" where
  "dbg_get_scale c = (if c = CHR ''b'' \<or> c = CHR ''B'' then 0 else if c = CHR ''k'' \<or> c = CHR ''K'' then 10
     else if c = CHR ''m'' \<or> c = CHR ''M'' then 20 else if c = CHR ''G'' \<or> c = CHR ''g'' then 30 else 0)"

text \<open>Errors of the transfers are only printed.\<close>

definition dbg_read :: "rdma_api \<Rightarrow> dbg_status \<Rightarrow> store \<Rightarrow> store" where
  "dbg_read api s st =
     (if db_remote_id s = rm_null_node api then st
      else if db_payload_size s = 0 \<or> unat (db_payload_size s) > AXIOM_RDMA_PAYLOAD_MAX_SIZE api then st
      else snd (rm_read_sync api st (db_local_id s) (db_remote_id s) (unat (db_payload_size s)) (unat (db_remote_offset s)) (unat (db_local_offset s))))"

definition dbg_write :: "rdma_api \<Rightarrow> dbg_status \<Rightarrow> store \<Rightarrow> store" where
  "dbg_write api s st =
     (if db_remote_id s = rm_null_node api then st
      else if db_payload_size s = 0 \<or> unat (db_payload_size s) > AXIOM_RDMA_PAYLOAD_MAX_SIZE api then st
      else snd (rm_write_sync api st (db_local_id s) (db_remote_id s) (unat (db_payload_size s)) (unat (db_local_offset s)) (unat (db_remote_offset s))))"

text \<open>\<open>None\<close> is an access outside the zone.\<close>

definition dbg_dump :: "dbg_status \<Rightarrow> store \<Rightarrow> (u64 \<times> bytes) list option" where
  "dbg_dump s st =
     (if db_payload_size s = 0 then Some []
      else do {
        bs \<leftarrow> mem_load st (db_local_id s) (unat (db_local_offset s)) (unat (db_payload_size s));
        Some (fold (dump_byte (db_local_offset s) bs) [0..<unat (db_payload_size s)] [])
      })"

definition dbg_store :: "dbg_status \<Rightarrow> store \<Rightarrow> ((u64 \<times> bytes) list \<times> store) option" where
  "dbg_store s st = do {
     st \<leftarrow> mem_save st (db_local_id s) (unat (db_local_offset s)) (take (unat (db_payload_size s)) (db_payload s));
     d \<leftarrow> (if db_verbose s then dbg_dump s st else Some []);
     Some (d, st)
   }"

definition dbg_status0 :: "rdma_api \<Rightarrow> bytes \<Rightarrow> dbg_status" where
  "dbg_status0 api junk = \<lparr>db_mode = None, db_port = 1, db_local_id = 0, db_remote_id = rm_null_node api, db_payload_size = 0,
     db_local_offset = 0, db_remote_offset = 0, db_payload = junk, db_verbose = False\<rparr>"

definition dbg_optspec :: "char optspec" where
  "dbg_optspec = \<lparr>os_char = id, os_short = map (\<lambda>c. (c, no_argument)) ''fvVh'' @ map (\<lambda>c. (c, required_argument)) ''mnoOsp'',
     os_long = [(''mode'', required_argument, CHR ''m''), (''node'', required_argument, CHR ''n''), (''loffset'', required_argument, CHR ''o''),
       (''roffset'', required_argument, CHR ''O''), (''size'', required_argument, CHR ''s''), (''port'', required_argument, CHR ''p''),
       (''verbose'', no_argument, CHR ''v''), (''version'', no_argument, CHR ''V''), (''help'', no_argument, CHR ''h'')]\<rparr>"

text \<open>The scale of the unit is applied to the size, not to the offsets. An empty argument leaves the value.\<close>

definition dbg_offset :: "string \<Rightarrow> u64 \<Rightarrow> u64 option" where
  "dbg_offset a old = (if dropWhile is_space a = [] then Some old else scan_ulong a)"

definition dbg_size :: "string \<Rightarrow> u32 \<Rightarrow> u32 option" where
  "dbg_size a old = (if dropWhile is_space a = [] then Some old
     else case scan_d a of
       None \<Rightarrow> None
     | Some (_, rest) \<Rightarrow> map_option (push_bit (dbg_get_scale (case rest of [] \<Rightarrow> CHR ''b'' | c # _ \<Rightarrow> c))) (scan_u32 a))"

definition dbg_option :: "char \<Rightarrow> string option \<Rightarrow> dbg_status \<Rightarrow> int + dbg_status" where
  "dbg_option opt arg c = (let a = (case arg of None \<Rightarrow> [] | Some a \<Rightarrow> a) in
     if opt = CHR ''m'' then (case a of [] \<Rightarrow> Inl (- 1) | x # _ \<Rightarrow> Inr (c\<lparr>db_mode := Some x\<rparr>))
     else if opt = CHR ''n'' then set_opt (scan_u8 a) (\<lambda>v. c\<lparr>db_remote_id := v\<rparr>)
     else if opt = CHR ''o'' then set_opt (dbg_offset a (db_local_offset c)) (\<lambda>v. c\<lparr>db_local_offset := v\<rparr>)
     else if opt = CHR ''O'' then set_opt (dbg_offset a (db_remote_offset c)) (\<lambda>v. c\<lparr>db_remote_offset := v\<rparr>)
     else if opt = CHR ''s'' then set_opt (dbg_size a (db_payload_size c)) (\<lambda>v. c\<lparr>db_payload_size := v\<rparr>)
     else if opt = CHR ''p'' then (case scan_u8 a of None \<Rightarrow> Inl (- 1) | Some v \<Rightarrow> if v > 7 then Inl (- 1) else Inr (c\<lparr>db_port := v\<rparr>))
     else if opt = CHR ''v'' then Inr (c\<lparr>db_verbose := True\<rparr>)
     else if opt = CHR ''V'' then Inl 0
     else Inl (- 1))"

text \<open>The switch over the modes.\<close>

definition dbg_run :: "rdma_api \<Rightarrow> dbg_status \<Rightarrow> store \<Rightarrow> ((u64 \<times> bytes) list \<times> store) option" where
  "dbg_run api s st =
     (if db_mode s = Some RDMA_READ then Some ([], dbg_read api s st)
      else if db_mode s = Some RDMA_WRITE then Some ([], dbg_write api s st)
      else if db_mode s = Some LOCAL_DUMP then map_option (\<lambda>d. (d, st)) (dbg_dump s st)
      else if db_mode s = Some LOCAL_STORE then dbg_store s st
      else Some ([], st))"

text \<open>The program on a node, with the size of its zone; the sum of the check is computed on 64 bits and may wrap around. \<open>None\<close> is undefined behaviour, \<open>Inl\<close> an exit.\<close>

definition dbg_main :: "rdma_api \<Rightarrow> bool \<Rightarrow> u8 \<Rightarrow> u64 option \<Rightarrow> string list \<Rightarrow> bytes \<Rightarrow> store \<Rightarrow> (int + (u64 \<times> bytes) list \<times> store) option" where
  "dbg_main api open_ok node zone argv junk st = (case parse_options dbg_optspec dbg_option (dbg_status0 api junk) [] argv [] of
       Inl n \<Rightarrow> Some (Inl n)
     | Inr (s, args) \<Rightarrow>
         (case (if db_mode s = Some LOCAL_STORE
                then map_option (map_sum id (\<lambda>p. s\<lparr>db_payload := p\<rparr>))
                  (rd_fill (AXIOM_RDMA_PAYLOAD_MAX_SIZE api) (unat (db_payload_size s)) args (db_payload s))
                else Some (Inr s)) of
             None \<Rightarrow> None
           | Some (Inl n) \<Rightarrow> Some (Inl n)
           | Some (Inr s) \<Rightarrow>
               if \<not> open_ok then Some (Inl (- 1))
               else (case zone of
                   None \<Rightarrow> Some (Inl 0)
                 | Some rdma_size \<Rightarrow>
                     if ucast (db_payload_size s) + db_local_offset s > rdma_size then Some (Inl 0)
                     else map_option Inr (dbg_run api (s\<lparr>db_local_id := node\<rparr>) st))))"

section \<open>Store, transfer, dump\<close>

text \<open>A command line with all the values.\<close>

definition u64_arg :: "u64 \<Rightarrow> string" where
  "u64_arg n = print_base 10 (unat n)"

definition dbg_cmdline :: "char \<Rightarrow> u8 \<Rightarrow> u64 \<Rightarrow> u64 \<Rightarrow> u32 \<Rightarrow> bytes \<Rightarrow> string list" where
  "dbg_cmdline mode node loff roff sz bs =
     [''-m'', [mode], ''-n'', byte_arg node, ''-o'', u64_arg loff, ''-O'', u64_arg roff, ''-s'', u32_arg sz] @ map byte_arg bs"

lemma print_not_space: "dropWhile is_space (print_base 10 n) \<noteq> []"
proof -
  obtain d s where "print_base 10 n = digit_char d # s" "d < 10" using print_base_hd [of 10 n] by auto
  then show ?thesis using digit_not_space [of d] by simp
qed

lemma dbg_args_read [simp]: "dbg_offset (u64_arg n) old = Some n" "dbg_size (u32_arg m) old' = Some m"
proof -
  have "unat n < 2 ^ LENGTH(64)" "unat m < 2 ^ LENGTH(32)" by (rule unsigned_less)+
  then have "unat n < 2 ^ 64" "unat m < 2 ^ 64" by simp_all
  moreover have "int (unat n) < 2 ^ 64" using uint_lt2p [of n] by simp
  ultimately show "dbg_offset (u64_arg n) old = Some n" "dbg_size (u32_arg m) old' = Some m"
    using print_not_space [of "unat n"] print_not_space [of "unat m"] scan_u32_print [of "unat m"]
    by (auto simp: dbg_offset_def u64_arg_def scan_ulong_def dbg_size_def u32_arg_def scan_d_print dbg_get_scale_def)
qed

definition dbg_opts :: "bytes \<Rightarrow> char \<Rightarrow> u8 \<Rightarrow> u64 \<Rightarrow> u64 \<Rightarrow> u32 \<Rightarrow> dbg_status" where
  "dbg_opts junk mode node loff roff sz = \<lparr>db_mode = Some mode, db_port = 1, db_local_id = 0, db_remote_id = node, db_payload_size = sz,
     db_local_offset = loff, db_remote_offset = roff, db_payload = junk, db_verbose = False\<rparr>"

lemma dbg_cmdline_read:
  "parse_options dbg_optspec dbg_option (dbg_status0 api junk) [] (dbg_cmdline mode node loff roff sz bs) []
    = Inr (dbg_opts junk mode node loff roff sz, map byte_arg bs)"
proof -
  let ?P = "\<lambda>c args. parse_options dbg_optspec dbg_option c [] args []"
  have v: "?P c ([CHR ''-'', o1] # a # args) = ?P c' args"
    if "o1 \<in> set ''mnoOsp''" "dbg_option o1 (Some a) c = Inr c'" for o1 a c c' args
    by (rule parse_value) (use that in \<open>auto simp: dbg_optspec_def\<close>)
  have e: "?P c (map byte_arg bs) = Inr (c, map byte_arg bs)" for c
    using parse_operands [of "map byte_arg bs" dbg_optspec dbg_option c "[]" "[]"] by simp
  show ?thesis unfolding dbg_cmdline_def append_Cons append_Nil
    by (simp add: v dbg_option_def set_opt_def e dbg_opts_def dbg_status0_def)
qed

lemma dbg_dump_shows:
  assumes "db_payload_size s \<noteq> 0" "mapped st (db_local_id s) (unat (db_local_offset s)) (unat (db_payload_size s))"
  shows "\<exists>d. dbg_dump s st = Some d \<and> dumped d = mem_get st (db_local_id s) (unat (db_local_offset s)) (unat (db_payload_size s))"
  using dump_fold [of "unat (db_payload_size s)" "mem_get st (db_local_id s) (unat (db_local_offset s)) (unat (db_payload_size s))" "db_local_offset s"]
    assms by (simp add: dbg_dump_def)

text \<open>The check of the zone, for an offset and a size that do not wrap around.\<close>

lemma zone_check:
  fixes sz :: u32 and off zone :: u64
  assumes "unat sz + unat off \<le> unat zone"
  shows "ucast sz + off \<le> zone"
proof -
  have "unat zone < 2 ^ LENGTH(64)" by (rule unsigned_less)
  then have "unat sz + unat off < 18446744073709551616" using le_less_trans [OF assms] by simp
  moreover have "unat (ucast sz :: u64) = unat sz" by transfer (simp add: take_bit_take_bit)
  ultimately have "unat (ucast sz + off) = unat sz + unat off" by (simp add: unat_word_ariths)
  then show ?thesis using assms by (simp add: word_le_nat_alt)
qed

lemma dbg_main_run:
  assumes "mode \<noteq> LOCAL_STORE" "unat sz + unat loff \<le> unat zone"
  shows "dbg_main api True node (Some zone) (dbg_cmdline mode r loff roff sz bs) junk st
    = map_option Inr (dbg_run api ((dbg_opts junk mode r loff roff sz)\<lparr>db_local_id := node\<rparr>) st)"
  using assms(1) zone_check [OF assms(2)] unfolding dbg_main_def dbg_cmdline_read by (auto simp: dbg_opts_def)

lemma dbg_main_store:
  assumes "unat sz + unat loff \<le> unat zone" "bs \<noteq> []" "length bs \<le> unat sz" "unat sz \<le> AXIOM_RDMA_PAYLOAD_MAX_SIZE api"
    and "length junk = AXIOM_RDMA_PAYLOAD_MAX_SIZE api" "mapped st node (unat loff) (unat sz)"
  shows "dbg_main api True node (Some zone) (dbg_cmdline LOCAL_STORE r loff roff sz bs) junk st
    = Some (Inr ([], mem_put st node (unat loff) (pattern bs (unat sz))))"
proof -
  obtain p where "rd_fill (AXIOM_RDMA_PAYLOAD_MAX_SIZE api) (unat sz) (map byte_arg bs) junk = Some (Inr p)" "take (unat sz) p = pattern bs (unat sz)"
    using rd_fill_pattern [OF assms(2,3), of junk] assms(4,5) by auto
  with zone_check [OF assms(1)] assms(6) show ?thesis
    unfolding dbg_main_def dbg_cmdline_read by (auto simp: dbg_opts_def dbg_run_def dbg_store_def)
qed

text \<open>C17: The debug program moves bytes between the RDMA zones. When node \<open>a\<close> stores bytes in its zone, and then either \<open>a\<close> writes them to node
  \<open>b\<close> or \<open>b\<close> reads them from \<open>a\<close>, a dump on \<open>b\<close> at the offset of the transfer prints the bytes of the command
  line, repeated up to the size. The bytes are inside the zones of the two nodes: the offset and the size together, which the program adds on 64 bits, are not larger
  than the zone and do not wrap around.\<close>

theorem dbg_store_transfer_dump:
  assumes "rdma_ok api" "a \<noteq> b" "a \<noteq> rm_null_node api" "b \<noteq> rm_null_node api"
    and "bs \<noteq> []" "length bs \<le> unat sz" "unat sz \<le> AXIOM_RDMA_PAYLOAD_MAX_SIZE api" "length junk = AXIOM_RDMA_PAYLOAD_MAX_SIZE api"
    and "unat sz + unat loff \<le> unat za" "unat sz + unat roff \<le> unat zb"
    and "\<forall>x<unat za. st a x \<noteq> None" "\<forall>x<unat zb. st b x \<noteq> None"
  shows "\<exists>st1 st2 d. dbg_main api True a (Some za) (dbg_cmdline LOCAL_STORE b loff roff sz bs) junk st = Some (Inr ([], st1))
    \<and> (if write then dbg_main api True a (Some za) (dbg_cmdline RDMA_WRITE b loff roff sz []) junk' st1
       else dbg_main api True b (Some zb) (dbg_cmdline RDMA_READ a roff loff sz []) junk' st1) = Some (Inr ([], st2))
    \<and> dbg_main api True b (Some zb) (dbg_cmdline LOCAL_DUMP a roff loff sz []) junk'' st2 = Some (Inr (d, st2))
    \<and> dumped d = pattern bs (unat sz) \<and> mem_load st2 a (unat loff) (unat sz) = Some (pattern bs (unat sz))"
proof -
  let ?b = "pattern bs (unat sz)" and ?n = "unat sz"
  have sz: "sz \<noteq> 0" using assms(5,6) by (cases bs) auto
  have mem: "mapped st a (unat loff) ?n" "mapped st b (unat roff) ?n" using assms(9-12) by (auto simp: mapped_iff)
  let ?st1 = "mem_put st a (unat loff) ?b"
  let ?st2 = "mem_put ?st1 b (unat roff) ?b"
  have wr: "dbg_run api ((dbg_opts junk' RDMA_WRITE b loff roff sz)\<lparr>db_local_id := a\<rparr>) ?st1 = Some ([], ?st2)"
    using assms(1,4,7) sz mem unfolding rdma_ok_def by (simp add: dbg_run_def dbg_write_def dbg_opts_def)
  have rd: "dbg_run api ((dbg_opts junk' RDMA_READ a roff loff sz)\<lparr>db_local_id := b\<rparr>) ?st1 = Some ([], ?st2)"
    using assms(1,3,7) sz mem unfolding rdma_ok_def by (simp add: dbg_run_def dbg_read_def dbg_opts_def)
  let ?s = "(dbg_opts junk'' LOCAL_DUMP a roff loff sz)\<lparr>db_local_id := b\<rparr>"
  obtain d where d: "dbg_dump ?s ?st2 = Some d" "dumped d = ?b" using dbg_dump_shows [of ?s ?st2] sz mem by (auto simp: dbg_opts_def)
  then have "dbg_run api ?s ?st2 = Some (d, ?st2)" by (simp add: dbg_run_def dbg_opts_def)
  moreover have "mem_load ?st2 a (unat loff) ?n = Some ?b" using assms(2) mem by simp
  ultimately show ?thesis
    using d(2) dbg_main_store [OF assms(9,5-8) mem(1)] dbg_main_run [OF _ assms(9)] dbg_main_run [OF _ assms(10)] wr rd by simp
qed

section \<open>Instances\<close>

theorem dbg_store_transfer_dump_witness:
  "\<exists>st1 st2 d. dbg_main demo_rdma True 1 (Some 100) [''-m'', ''s'', ''-n'', ''3'', ''-o'', ''10'', ''-O'', ''20'', ''-s'', ''5'', ''7'', ''9''] (replicate 8 0) (\<lambda>_ _. Some 0)
      = Some (Inr ([], st1))
    \<and> dbg_main demo_rdma True 3 (Some 100) [''-m'', ''r'', ''-n'', ''1'', ''-o'', ''20'', ''-O'', ''10'', ''-s'', ''5''] (replicate 8 0) st1 = Some (Inr ([], st2))
    \<and> dbg_main demo_rdma True 3 (Some 100) [''-m'', ''d'', ''-n'', ''1'', ''-o'', ''20'', ''-O'', ''10'', ''-s'', ''5''] (replicate 8 0) st2 = Some (Inr (d, st2))
    \<and> dumped d = [7, 9, 7, 9, 7]"
proof -
  have cmd: "dbg_cmdline CHR ''s'' 3 10 20 5 [7, 9] = [''-m'', ''s'', ''-n'', ''3'', ''-o'', ''10'', ''-O'', ''20'', ''-s'', ''5'', ''7'', ''9'']"
    "dbg_cmdline CHR ''r'' 1 20 10 5 [] = [''-m'', ''r'', ''-n'', ''1'', ''-o'', ''20'', ''-O'', ''10'', ''-s'', ''5'']"
    "dbg_cmdline CHR ''d'' 1 20 10 5 [] = [''-m'', ''d'', ''-n'', ''1'', ''-o'', ''20'', ''-O'', ''10'', ''-s'', ''5'']"
    "pattern [7, 9 :: u8] 5 = [7, 9, 7, 9, 7]" by code_simp+
  have n: "unat (5 :: u32) = 5" "AXIOM_RDMA_PAYLOAD_MAX_SIZE demo_rdma = 8" "rm_null_node demo_rdma = 255" by (simp_all add: demo_rdma_def)
  from dbg_store_transfer_dump [OF demo_rdma_ok, of 1 3 "[7, 9]" 5 "replicate 8 0" 10 100 20 100 "\<lambda>_ _. Some 0" False "replicate 8 0" "replicate 8 0"]
  show ?thesis unfolding cmd n by (simp del: replicate.simps) blast
qed

end
