(* ===== verification/Nic_Info.thy ===== *)
theory Nic_Info
  imports Getopt Demo_Nic
begin

text \<open>
  The programs \<open>axiom-info\<close> (\<open>axiom-info/axiom-info.c\<close>) and \<open>axiom-whoami\<close> (\<open>axiom-whoami/axiom-whoami.c\<close>), which print what the NIC tells about itself. A printed
  item is a value of a datatype; the texts of the items are given for the options that scripts use.
\<close>

section \<open>The code\<close>

abbreviation (input) "PRINT_NODEID \<equiv> 0x0001 :: u16"
abbreviation (input) "PRINT_IFNUMBER \<equiv> 0x0002 :: u16"
abbreviation (input) "PRINT_IFINFO \<equiv> 0x0004 :: u16"
abbreviation (input) "PRINT_ROUTING \<equiv> 0x0008 :: u16"
abbreviation (input) "PRINT_ROUTING_ALL \<equiv> 0x0010 :: u16"
abbreviation (input) "PRINT_STATUS \<equiv> 0x0020 :: u16"
abbreviation (input) "PRINT_CONTROL \<equiv> 0x0040 :: u16"
abbreviation (input) "PRINT_NUMNODES \<equiv> 0x0080 :: u16"
abbreviation (input) "PRINT_STATS \<equiv> 0x0100 :: u16"
abbreviation (input) "PRINT_DEBUG \<equiv> 0x8000 :: u16"
abbreviation (input) "PRINT_ALL \<equiv> 0xFFFF :: u16"

definition PRINT_DEF :: u16 where
  "PRINT_DEF = PRINT_ALL AND NOT PRINT_ROUTING_ALL AND NOT PRINT_DEBUG"

text \<open>The statistics of the NIC, by channel.\<close>

record chan_stats =
  cs_pkt :: u64
  cs_bytes :: u64
  cs_wait :: u64
  cs_poll :: u64
  cs_poll_avail :: u64
  cs_err :: u64

record axiom_stats =
  st_irq :: u64
  st_irq_raw_tx :: u64
  st_irq_raw_rx :: u64
  st_irq_rdma_tx :: u64
  st_irq_rdma_rx :: u64
  st_raw_tx :: chan_stats
  st_raw_rx :: chan_stats
  st_long_tx :: chan_stats
  st_long_rx :: chan_stats
  st_rdma_tx :: chan_stats
  st_rdma_rx :: chan_stats
  st_retries_rdma :: u64
  st_discarded_rdma :: u64

text \<open>What is printed. A line of the statistics: the channel and its counters, with the bytes per packet after the bytes.\<close>

type_synonym stats_row = "string \<times> u64 \<times> u64 \<times> u64 \<times> u64 \<times> u64 \<times> u64 \<times> u64"

datatype info_item =
    INFO_NODEID u8
  | INFO_IFNUMBER u8
  | INFO_IFINFO u8 u8 bool bool bool
  | INFO_NUMNODES int
  | INFO_ROUTING bool "(nat \<times> bool list) list"
  | INFO_STATS u64 "u64 list" u64 "stats_row list" u64 u64
  | INFO_STATUS u32
  | INFO_CONTROL u32
  | INFO_DEBUG u32

record 'd info_api =
  ii_nic :: "'d nic_api"
  ii_num_nodes :: "'d \<Rightarrow> int"
  ii_statistics :: "'d \<Rightarrow> err \<times> axiom_stats"
  ii_ni_status :: "'d \<Rightarrow> u32"
  ii_ni_control :: "'d \<Rightarrow> u32"
  AXIOMREG_IFINFO_CONNECTED :: u8
  AXIOMREG_IFINFO_TX :: u8
  AXIOMREG_IFINFO_RX :: u8
  AXIOM_DEBUG_FLAG_ALL :: u32

definition print_nodeid :: "'d info_api \<Rightarrow> 'd \<Rightarrow> info_item list" where
  "print_nodeid api dev = [INFO_NODEID (axiom_get_node_id (ii_nic api) dev)]"

text \<open>The program does not initialise the variables that the calls set; the model takes 0 for what a failing call leaves there. The error messages are not part of the items.\<close>

definition print_ifnumber :: "'d info_api \<Rightarrow> 'd \<Rightarrow> info_item list" where
  "print_ifnumber api dev = [INFO_IFNUMBER (snd (axiom_get_if_number (ii_nic api) dev 0))]"

definition print_ifinfo :: "'d info_api \<Rightarrow> 'd \<Rightarrow> u8 \<Rightarrow> info_item" where
  "print_ifinfo api dev if_id = (let f = snd (axiom_get_if_info (ii_nic api) dev if_id 0) in
     INFO_IFINFO if_id f (f AND AXIOMREG_IFINFO_CONNECTED api \<noteq> 0) (f AND AXIOMREG_IFINFO_TX api \<noteq> 0) (f AND AXIOMREG_IFINFO_RX api \<noteq> 0))"

definition print_ifinfo_all :: "'d info_api \<Rightarrow> 'd \<Rightarrow> info_item list" where
  "print_ifinfo_all api dev = map (\<lambda>i. print_ifinfo api dev (of_nat i)) [0..<unat (snd (axiom_get_if_number (ii_nic api) dev 0))]"

definition print_num_nodes :: "'d info_api \<Rightarrow> 'd \<Rightarrow> info_item list" where
  "print_num_nodes api dev = [INFO_NUMNODES (ii_num_nodes api dev)]"

text \<open>The state of the loop: the mask variable, which keeps its value, and the rows. \<open>None\<close> is an access out of the registers.\<close>

definition routing_row :: "'d info_api \<Rightarrow> 'd \<Rightarrow> bool \<Rightarrow> nat \<Rightarrow> u8 \<times> (nat \<times> bool list) list \<Rightarrow> (ctl \<times> u8 \<times> (nat \<times> bool list) list) option" where
  "routing_row api dev all_nodes i s = do {
     (err, mask) \<leftarrow> axiom_get_routing (ii_nic api) dev (of_nat i) (fst s);
     Some (if err \<noteq> 0 then (Break, mask, snd s)
       else if \<not> all_nodes \<and> mask = 0 then (Next, mask, snd s)
       else (Next, mask, snd s @ [(i, map (\<lambda>j. mask AND push_bit j 1 \<noteq> 0) [0..<AXIOM_INTERFACES_NUM (ii_nic api)])]))
   }"

definition info_routing_table :: "'d info_api \<Rightarrow> 'd \<Rightarrow> bool \<Rightarrow> info_item list option" where
  "info_routing_table api dev all_nodes =
     map_option (\<lambda>s. [INFO_ROUTING all_nodes (snd s)]) (for_ctl (routing_row api dev all_nodes) [0..<AXIOM_NODES_NUM (ii_nic api)] (0, []))"

definition stats_row :: "string \<Rightarrow> chan_stats \<Rightarrow> stats_row" where
  "stats_row name c = (name, cs_pkt c, cs_bytes c, if cs_pkt c \<noteq> 0 then cs_bytes c div cs_pkt c else 0, cs_wait c, cs_poll c, cs_poll_avail c, cs_err c)"

text \<open>The total leaves out two of the channels.\<close>

definition print_ni_statistics :: "'d info_api \<Rightarrow> 'd \<Rightarrow> info_item list" where
  "print_ni_statistics api dev = (let (ret, st) = ii_statistics api dev in
     if \<not> AXIOM_RET_IS_OK (ii_nic api) ret then []
     else [INFO_STATS (st_irq st) [st_irq_raw_tx st, st_irq_raw_rx st, st_irq_rdma_tx st, st_irq_rdma_rx st]
       (cs_pkt (st_raw_tx st) + cs_pkt (st_raw_rx st) + cs_pkt (st_rdma_tx st) + cs_pkt (st_long_rx st))
       [stats_row ''RAW-TX'' (st_raw_tx st), stats_row ''RAW-RX'' (st_raw_rx st), stats_row ''LONG-TX'' (st_long_tx st),
        stats_row ''LONG-RX'' (st_long_rx st), stats_row ''RDMA'' (st_rdma_tx st), stats_row ''RDMA-ACK'' (st_rdma_rx st)]
       (st_retries_rdma st) (st_discarded_rdma st)])"

definition print_ni_status :: "'d info_api \<Rightarrow> 'd \<Rightarrow> info_item list" where
  "print_ni_status api dev = [INFO_STATUS (ii_ni_status api dev)]"

definition print_ni_control :: "'d info_api \<Rightarrow> 'd \<Rightarrow> info_item list" where
  "print_ni_control api dev = [INFO_CONTROL (ii_ni_control api dev)]"

text \<open>The options.\<close>

record info_opts =
  in_bitmap :: u16
  in_debug_flags :: u32
  in_quiet :: bool

definition info_opts0 :: info_opts where
  "info_opts0 = \<lparr>in_bitmap = 0, in_debug_flags = 0, in_quiet = False\<rparr>"

definition info_optspec :: "char optspec" where
  "info_optspec = \<lparr>os_char = id, os_short = map (\<lambda>c. (c, no_argument)) ''anqifrRNsScDhV'' @ [(CHR ''d'', required_argument)],
     os_long = [(''all'', no_argument, CHR ''a''), (''nodeid'', no_argument, CHR ''n''), (''ifnumber'', no_argument, CHR ''i''),
       (''ifinfo'', no_argument, CHR ''f''), (''numnodes'', no_argument, CHR ''N''), (''routing'', no_argument, CHR ''r''),
       (''routing-all'', no_argument, CHR ''R''), (''status'', no_argument, CHR ''s''), (''statistics'', no_argument, CHR ''S''),
       (''control'', no_argument, CHR ''c''), (''debug'', required_argument, CHR ''d''), (''debug-all'', no_argument, CHR ''D''),
       (''quiet'', no_argument, CHR ''q''), (''version'', no_argument, CHR ''V''), (''help'', no_argument, CHR ''h'')]\<rparr>"

text \<open>\<open>%x\<close> of \<open>sscanf\<close> on 32 bits.\<close>

definition scan_x32 :: "string \<Rightarrow> u32 option" where
  "scan_x32 s = (let s = dropWhile is_space s;
       (neg, s) = (case s of c # r \<Rightarrow> if c = CHR ''-'' then (True, r) else if c = CHR ''+'' then (False, r) else (False, s)
                   | [] \<Rightarrow> (False, s));
       s = (if (has_prefix ''0x'' s \<or> has_prefix ''0X'' s) \<and> starts_digit 16 (drop 2 s) then drop 2 s else s)
     in if starts_digit 16 s
        then (let n = ucast (clamp_u64 (fst (read_digits 16 0 s))) in Some (if neg then - n else n))
        else None)"

definition info_flag :: "char \<Rightarrow> u16 option" where
  "info_flag c =
     (if c = CHR ''a'' then Some (PRINT_ALL AND NOT PRINT_DEBUG) else if c = CHR ''n'' then Some PRINT_NODEID
      else if c = CHR ''i'' then Some PRINT_IFNUMBER else if c = CHR ''f'' then Some PRINT_IFINFO
      else if c = CHR ''N'' then Some PRINT_NUMNODES else if c = CHR ''r'' then Some PRINT_ROUTING
      else if c = CHR ''R'' then Some (PRINT_ROUTING OR PRINT_ROUTING_ALL) else if c = CHR ''s'' then Some PRINT_STATUS
      else if c = CHR ''S'' then Some PRINT_STATS else if c = CHR ''c'' then Some PRINT_CONTROL else None)"

definition info_option :: "u32 \<Rightarrow> char \<Rightarrow> string option \<Rightarrow> info_opts \<Rightarrow> int + info_opts" where
  "info_option flag_all opt arg c = (case info_flag opt of
       Some f \<Rightarrow> Inr (c\<lparr>in_bitmap := in_bitmap c OR f\<rparr>)
     | None \<Rightarrow>
         if opt = CHR ''d''
         then set_opt (scan_x32 (case arg of None \<Rightarrow> [] | Some a \<Rightarrow> a)) (\<lambda>v. c\<lparr>in_bitmap := in_bitmap c OR PRINT_DEBUG, in_debug_flags := v\<rparr>)
         else if opt = CHR ''D'' then Inr (c\<lparr>in_bitmap := in_bitmap c OR PRINT_DEBUG, in_debug_flags := flag_all\<rparr>)
         else if opt = CHR ''q'' then Inr (c\<lparr>in_quiet := True\<rparr>)
         else if opt = CHR ''V'' then Inl 0
         else Inl (- 1))"

text \<open>The program; the items in the order in which they are printed, or the exit.\<close>

definition info_print :: "'d info_api \<Rightarrow> 'd \<Rightarrow> info_opts \<Rightarrow> info_item list option" where
  "info_print api dev op = (
     let b = (if in_bitmap op = 0 then PRINT_DEF else in_bitmap op);
         out = (if b AND PRINT_NODEID \<noteq> 0 then print_nodeid api dev else []);
         out = (if b AND PRINT_IFNUMBER \<noteq> 0 then out @ print_ifnumber api dev else out);
         out = (if b AND PRINT_IFINFO \<noteq> 0 then out @ print_ifinfo_all api dev else out);
         out = (if b AND PRINT_NUMNODES \<noteq> 0 then out @ print_num_nodes api dev else out)
     in do {
       rt \<leftarrow> if b AND PRINT_ROUTING \<noteq> 0 then info_routing_table api dev (b AND PRINT_ROUTING_ALL \<noteq> 0) else Some [];
       let out = out @ rt;
       let out = (if b AND PRINT_STATS \<noteq> 0 then out @ print_ni_statistics api dev else out);
       let out = (if b AND PRINT_STATUS \<noteq> 0 then out @ print_ni_status api dev else out);
       let out = (if b AND PRINT_CONTROL \<noteq> 0 then out @ print_ni_control api dev else out);
       Some (if b AND PRINT_DEBUG \<noteq> 0 then out @ [INFO_DEBUG (in_debug_flags op)] else out)
     })"

definition axiom_info :: "'d info_api \<Rightarrow> bool \<Rightarrow> string list \<Rightarrow> 'd \<Rightarrow> (int + bool \<times> info_item list) option" where
  "axiom_info api open_ok argv dev = (case parse_options info_optspec (info_option (AXIOM_DEBUG_FLAG_ALL api)) info_opts0 [] argv [] of
       Inl n \<Rightarrow> Some (Inl n)
     | Inr (op, _) \<Rightarrow> if \<not> open_ok then Some (Inl (- 1)) else map_option (\<lambda>out. Inr (in_quiet op, out)) (info_print api dev op))"

text \<open>The texts of the items that a script can ask for, with \<open>-q\<close> and without.\<close>

definition info_text :: "bool \<Rightarrow> info_item \<Rightarrow> string option" where
  "info_text quiet item = (let tab = [CHR 0x09]; nl = [CHR 0x0A] in case item of
       INFO_NODEID n \<Rightarrow> Some (if quiet then print_base 10 (unat n) @ nl else tab @ ''node id = '' @ print_base 10 (unat n) @ nl @ nl)
     | INFO_IFNUMBER n \<Rightarrow> Some (if quiet then print_base 10 (unat n) @ nl else tab @ ''number of interfaces = '' @ print_base 10 (unat n) @ nl @ nl)
     | INFO_NUMNODES n \<Rightarrow> Some (if quiet then print_int n @ nl else tab @ ''number of nodes = '' @ print_int n @ nl @ nl)
     | _ \<Rightarrow> None)"

definition axiom_whoami :: "'d info_api \<Rightarrow> bool \<Rightarrow> 'd \<Rightarrow> int + string" where
  "axiom_whoami api open_ok dev = (if \<not> open_ok then Inl (- 1)
     else Inr (''I'' @ [CHR 0x27] @ ''m node '' @ print_base 10 (unat (axiom_get_node_id (ii_nic api) dev)) @ [CHR 0x0A]))"

section \<open>What is shown\<close>

text \<open>The bits of the bitmap.\<close>

lemma and_flag: "k < 16 \<Longrightarrow> (b :: u16) AND 2 ^ k \<noteq> 0 \<longleftrightarrow> bit b k"
  by (simp add: and_exp_eq_0_iff_not_bit)

definition info_bitmap :: "char list \<Rightarrow> u16 \<Rightarrow> u16" where
  "info_bitmap os b = fold (\<lambda>c b. b OR the (info_flag c)) os b"

lemma info_bitmap_bit: "bit (info_bitmap os b) k \<longleftrightarrow> bit b k \<or> (\<exists>c\<in>set os. bit (the (info_flag c)) k)"
  unfolding info_bitmap_def by (induction os arbitrary: b) (auto simp: bit_or_iff)

text \<open>The options that ask for an item: its own, the one for all of them, or none at all.\<close>

definition info_asks :: "char list \<Rightarrow> char list \<Rightarrow> bool" where
  "info_asks os cs \<longleftrightarrow> os = [] \<or> (\<exists>c\<in>set cs. c \<in> set os) \<or> CHR ''a'' \<in> set os"

abbreviation info_flags :: "char list" where "info_flags \<equiv> ''anifNrRsSc''"

lemma flag_not_zero: "c \<in> set info_flags \<Longrightarrow> the (info_flag c) \<noteq> 0"
  by (auto simp: info_flag_def)

definition info_effective :: "char list \<Rightarrow> u16" where
  "info_effective os = (if info_bitmap os 0 = 0 then PRINT_DEF else info_bitmap os 0)"

lemma info_effective_bit:
  assumes "set os \<subseteq> set info_flags"
  shows "bit (info_effective os) k \<longleftrightarrow> (if os = [] then bit PRINT_DEF k else \<exists>c\<in>set os. bit (the (info_flag c)) k)"
proof (cases "os = []")
  case False
  then obtain c where c: "c \<in> set os" by (cases os) auto
  with assms have "the (info_flag c) \<noteq> 0" using flag_not_zero by blast
  then obtain k where "bit (the (info_flag c)) k" by (auto simp: bit_eq_iff)
  with c have "bit (info_bitmap os 0) k" by (auto simp: info_bitmap_bit)
  then have "info_bitmap os 0 \<noteq> 0" by auto
  with False show ?thesis by (simp add: info_effective_def info_bitmap_bit)
qed (simp add: info_effective_def info_bitmap_def)

lemma bex_subset_cong: "A \<subseteq> B \<Longrightarrow> \<forall>c\<in>B. P c \<longleftrightarrow> Q c \<Longrightarrow> (\<exists>c\<in>A. P c) \<longleftrightarrow> (\<exists>c\<in>A. Q c)"
  by blast

lemma info_effective_asks:
  assumes "set os \<subseteq> set info_flags" "bit PRINT_DEF k" "\<forall>c\<in>set info_flags. bit (the (info_flag c)) k \<longleftrightarrow> c \<in> set cs \<or> c = CHR ''a''"
  shows "bit (info_effective os) k \<longleftrightarrow> info_asks os cs"
proof -
  have "(\<exists>c\<in>set os. bit (the (info_flag c)) k) \<longleftrightarrow> (\<exists>c\<in>set os. c \<in> set cs \<or> c = CHR ''a'')" by (rule bex_subset_cong [OF assms(1,3)])
  then show ?thesis using assms(2) unfolding info_effective_bit [OF assms(1)] info_asks_def by auto
qed

lemma info_effective_bits:
  assumes "set os \<subseteq> set info_flags"
  shows "info_effective os AND PRINT_NODEID \<noteq> 0 \<longleftrightarrow> info_asks os ''n''" "info_effective os AND PRINT_IFNUMBER \<noteq> 0 \<longleftrightarrow> info_asks os ''i''"
    "info_effective os AND PRINT_IFINFO \<noteq> 0 \<longleftrightarrow> info_asks os ''f''" "info_effective os AND PRINT_ROUTING \<noteq> 0 \<longleftrightarrow> info_asks os ''rR''"
    "info_effective os AND PRINT_STATUS \<noteq> 0 \<longleftrightarrow> info_asks os ''s''" "info_effective os AND PRINT_CONTROL \<noteq> 0 \<longleftrightarrow> info_asks os ''c''"
    "info_effective os AND PRINT_NUMNODES \<noteq> 0 \<longleftrightarrow> info_asks os ''N''" "info_effective os AND PRINT_STATS \<noteq> 0 \<longleftrightarrow> info_asks os ''S''"
proof -
  note asks = info_effective_asks [OF assms]
  show "info_effective os AND PRINT_NODEID \<noteq> 0 \<longleftrightarrow> info_asks os ''n''" using and_flag [of 0 "info_effective os"] asks [of 0 "''n''"]
    by (simp add: PRINT_DEF_def info_flag_def)
  show "info_effective os AND PRINT_IFNUMBER \<noteq> 0 \<longleftrightarrow> info_asks os ''i''" using and_flag [of 1 "info_effective os"] asks [of 1 "''i''"]
    by (simp add: PRINT_DEF_def info_flag_def)
  show "info_effective os AND PRINT_IFINFO \<noteq> 0 \<longleftrightarrow> info_asks os ''f''" using and_flag [of 2 "info_effective os"] asks [of 2 "''f''"]
    by (simp add: PRINT_DEF_def info_flag_def)
  show "info_effective os AND PRINT_ROUTING \<noteq> 0 \<longleftrightarrow> info_asks os ''rR''" using and_flag [of 3 "info_effective os"] asks [of 3 "''rR''"]
    by (simp add: PRINT_DEF_def info_flag_def)
  show "info_effective os AND PRINT_STATUS \<noteq> 0 \<longleftrightarrow> info_asks os ''s''" using and_flag [of 5 "info_effective os"] asks [of 5 "''s''"]
    by (simp add: PRINT_DEF_def info_flag_def)
  show "info_effective os AND PRINT_CONTROL \<noteq> 0 \<longleftrightarrow> info_asks os ''c''" using and_flag [of 6 "info_effective os"] asks [of 6 "''c''"]
    by (simp add: PRINT_DEF_def info_flag_def)
  show "info_effective os AND PRINT_NUMNODES \<noteq> 0 \<longleftrightarrow> info_asks os ''N''" using and_flag [of 7 "info_effective os"] asks [of 7 "''N''"]
    by (simp add: PRINT_DEF_def info_flag_def)
  show "info_effective os AND PRINT_STATS \<noteq> 0 \<longleftrightarrow> info_asks os ''S''" using and_flag [of 8 "info_effective os"] asks [of 8 "''S''"]
    by (simp add: PRINT_DEF_def info_flag_def)
qed

lemma info_effective_others:
  assumes "set os \<subseteq> set info_flags"
  shows "info_effective os AND PRINT_ROUTING_ALL \<noteq> 0 \<longleftrightarrow> CHR ''R'' \<in> set os \<or> CHR ''a'' \<in> set os" "info_effective os AND PRINT_DEBUG = 0"
proof -
  have "\<forall>c\<in>set info_flags. bit (the (info_flag c)) 4 \<longleftrightarrow> c = CHR ''R'' \<or> c = CHR ''a''" "\<forall>c\<in>set info_flags. bit (the (info_flag c)) 15 \<longleftrightarrow> False"
    by (simp_all add: info_flag_def)
  from this [THEN bex_subset_cong [OF assms]]
  have "(\<exists>c\<in>set os. bit (the (info_flag c)) 4) \<longleftrightarrow> CHR ''R'' \<in> set os \<or> CHR ''a'' \<in> set os" "\<not> (\<exists>c\<in>set os. bit (the (info_flag c)) 15)" by auto
  then show "info_effective os AND PRINT_ROUTING_ALL \<noteq> 0 \<longleftrightarrow> CHR ''R'' \<in> set os \<or> CHR ''a'' \<in> set os" "info_effective os AND PRINT_DEBUG = 0"
    using and_flag [of 4 "info_effective os"] and_flag [of 15 "info_effective os"] info_effective_bit [OF assms, of 4] info_effective_bit [OF assms, of 15]
    by (auto simp: PRINT_DEF_def split: if_splits)
qed

text \<open>The command line: the options one by one.\<close>

lemma info_parse:
  assumes "set os \<subseteq> set info_flags"
  shows "parse_options info_optspec (info_option fa) c [] (map (\<lambda>o1. [CHR ''-'', o1]) os @ (if q then [''-q''] else [])) []
    = Inr (c\<lparr>in_bitmap := info_bitmap os (in_bitmap c), in_quiet := q \<or> in_quiet c\<rparr>, [])"
  using assms
proof (induction os arbitrary: c)
  case Nil
  have "parse_options info_optspec (info_option fa) c [] [''-q''] [] = parse_options info_optspec (info_option fa) (c\<lparr>in_quiet := True\<rparr>) [] [] []"
    by (rule parse_flag) (simp_all add: info_optspec_def info_option_def info_flag_def)
  then show ?case by (cases c) (simp add: info_bitmap_def)
next
  case (Cons o1 os)
  let ?c = "c\<lparr>in_bitmap := in_bitmap c OR the (info_flag o1)\<rparr>" and ?r = "map (\<lambda>o1. [CHR ''-'', o1]) os @ (if q then [''-q''] else [])"
  have "o1 \<in> set info_flags" using Cons.prems by auto
  then have "parse_options info_optspec (info_option fa) c [] ([CHR ''-'', o1] # ?r) [] = parse_options info_optspec (info_option fa) ?c [] ?r []"
    by (intro parse_flag) (auto simp: info_optspec_def info_option_def info_flag_def)
  with Cons.IH [of ?c] Cons.prems show ?case by (simp add: info_bitmap_def)
qed

text \<open>The rows of the routing table.\<close>

definition routing_rows :: "'c axiom_consts_scheme \<Rightarrow> 'a sim_node_scheme \<Rightarrow> bool \<Rightarrow> nat list \<Rightarrow> (nat \<times> bool list) list" where
  "routing_rows c dev all is =
     map (\<lambda>i. (i, map (bit (routing_reg c dev i)) [0..<AXIOM_INTERFACES_NUM c])) (filter (\<lambda>i. all \<or> routing_reg c dev i \<noteq> 0) is)"

lemma routing_rows_loop:
  assumes "sim_registers (ii_nic api)" "sim_ok (ii_nic api) dev" "AXIOM_RET_OK (ii_nic api) = 0"
  shows "\<forall>i\<in>set is. i < AXIOM_NODES_NUM (ii_nic api) \<Longrightarrow>
    \<exists>m'. for_ctl (routing_row api dev all) is (m, rows) = Some (m', rows @ routing_rows (ii_nic api) dev all is)"
proof (induction "is" arbitrary: m rows)
  case (Cons i "is")
  let ?k = "ii_nic api"
  have i: "i < AXIOM_NODES_NUM ?k" "unat (of_nat i :: u8) = i" using Cons.prems assms(1) by (simp_all add: sim_registers_def)
  have "axiom_get_routing ?k dev (of_nat i) m = Some (0, routing_reg ?k dev i)"
    using sim_get_routing_row [OF assms(2), of "of_nat i"] i assms(1,3) by (simp add: routing_reg_def sim_registers_def)
  moreover have "(x AND push_bit j 1 \<noteq> 0) = bit x j" for x :: u8 and j
    by (auto simp: push_bit_of_1 and_exp_eq_0_iff_not_bit)
  ultimately have "routing_row api dev all i (m, rows) = Some (Next, routing_reg ?k dev i, rows @ routing_rows ?k dev all [i])"
    by (simp add: routing_row_def routing_rows_def)
  moreover have "routing_rows ?k dev all (i # is) = routing_rows ?k dev all [i] @ routing_rows ?k dev all is" by (simp add: routing_rows_def)
  ultimately show ?case using Cons.IH [of "routing_reg ?k dev i" "rows @ routing_rows ?k dev all [i]"] Cons.prems by simp
qed (simp add: routing_rows_def)

text \<open>What the program prints for its options. With none of them it prints the items of \<open>-a\<close>, but of the routing table only the rows of the nodes
  with a route.\<close>

lemma axiom_info_prints:
  assumes "sim_registers (ii_nic api)" "sim_ok (ii_nic api) dev" "AXIOM_RET_OK (ii_nic api) = 0" "set os \<subseteq> set info_flags"
  shows "axiom_info api True (map (\<lambda>o1. [CHR ''-'', o1]) os @ (if q then [''-q''] else [])) dev = Some (Inr (q,
      (if info_asks os ''n'' then print_nodeid api dev else []) @ (if info_asks os ''i'' then print_ifnumber api dev else [])
    @ (if info_asks os ''f'' then print_ifinfo_all api dev else []) @ (if info_asks os ''N'' then print_num_nodes api dev else [])
    @ (if info_asks os ''rR''
       then (let all = (CHR ''R'' \<in> set os \<or> CHR ''a'' \<in> set os)
             in [INFO_ROUTING all (routing_rows (ii_nic api) dev all [0..<AXIOM_NODES_NUM (ii_nic api)])]) else [])
    @ (if info_asks os ''S'' then print_ni_statistics api dev else []) @ (if info_asks os ''s'' then print_ni_status api dev else [])
    @ (if info_asks os ''c'' then print_ni_control api dev else [])))"
proof -
  let ?all = "CHR ''R'' \<in> set os \<or> CHR ''a'' \<in> set os"
  have rt: "info_routing_table api dev ?all = Some [INFO_ROUTING ?all (routing_rows (ii_nic api) dev ?all [0..<AXIOM_NODES_NUM (ii_nic api)])]"
    using routing_rows_loop [OF assms(1-3), of "[0..<AXIOM_NODES_NUM (ii_nic api)]" ?all 0 "[]"] unfolding info_routing_table_def by auto
  let ?op = "info_opts0\<lparr>in_bitmap := info_bitmap os 0, in_quiet := q\<rparr>"
  have p: "parse_options info_optspec (info_option (AXIOM_DEBUG_FLAG_ALL api)) info_opts0 [] (map (\<lambda>o1. [CHR ''-'', o1]) os @ (if q then [''-q''] else [])) []
      = Inr (?op, [])" using info_parse [OF assms(4), of _ info_opts0 q] by (simp add: info_opts0_def)
  have b: "(if in_bitmap ?op = 0 then PRINT_DEF else in_bitmap ?op) = info_effective os" by (simp add: info_effective_def)
  have "info_print api dev ?op = Some ((if info_asks os ''n'' then print_nodeid api dev else []) @ (if info_asks os ''i'' then print_ifnumber api dev else [])
    @ (if info_asks os ''f'' then print_ifinfo_all api dev else []) @ (if info_asks os ''N'' then print_num_nodes api dev else [])
    @ (if info_asks os ''rR'' then [INFO_ROUTING ?all (routing_rows (ii_nic api) dev ?all [0..<AXIOM_NODES_NUM (ii_nic api)])] else [])
    @ (if info_asks os ''S'' then print_ni_statistics api dev else []) @ (if info_asks os ''s'' then print_ni_status api dev else [])
    @ (if info_asks os ''c'' then print_ni_control api dev else []))"
    unfolding info_print_def Let_def b info_effective_bits [OF assms(4)] info_effective_others [OF assms(4)] rt
    by (cases "info_asks os ''rR''") simp_all
  with p show ?thesis unfolding axiom_info_def Let_def by (simp add: info_opts0_def)
qed

text \<open>C19: \<open>axiom-info\<close> shows what it is asked for. With at least one of its options that need no argument, in any order and number, it prints the items
  asked for by their own option or by \<open>-a\<close>, in a fixed order; the routing table has a row for
  every node with a route (with \<open>-R\<close> and \<open>-a\<close> for every node), and the row has the interfaces of the routing register of
  the node.\<close>

theorem info_shows:
  assumes "sim_registers (ii_nic api)" "sim_ok (ii_nic api) dev" "AXIOM_RET_OK (ii_nic api) = 0" "set os \<subseteq> set info_flags" "os \<noteq> []"
  shows "axiom_info api True (map (\<lambda>o1. [CHR ''-'', o1]) os @ (if q then [''-q''] else [])) dev = Some (Inr (q,
      (if CHR ''n'' \<in> set os \<or> CHR ''a'' \<in> set os then print_nodeid api dev else []) @ (if CHR ''i'' \<in> set os \<or> CHR ''a'' \<in> set os then print_ifnumber api dev else [])
    @ (if CHR ''f'' \<in> set os \<or> CHR ''a'' \<in> set os then print_ifinfo_all api dev else []) @ (if CHR ''N'' \<in> set os \<or> CHR ''a'' \<in> set os then print_num_nodes api dev else [])
    @ (if CHR ''r'' \<in> set os \<or> CHR ''R'' \<in> set os \<or> CHR ''a'' \<in> set os
       then (let all = (CHR ''R'' \<in> set os \<or> CHR ''a'' \<in> set os)
             in [INFO_ROUTING all (routing_rows (ii_nic api) dev all [0..<AXIOM_NODES_NUM (ii_nic api)])]) else [])
    @ (if CHR ''S'' \<in> set os \<or> CHR ''a'' \<in> set os then print_ni_statistics api dev else []) @ (if CHR ''s'' \<in> set os \<or> CHR ''a'' \<in> set os then print_ni_status api dev else [])
    @ (if CHR ''c'' \<in> set os \<or> CHR ''a'' \<in> set os then print_ni_control api dev else [])))"
  using axiom_info_prints [OF assms(1-4), of q] assms(5) by (simp add: info_asks_def)

text \<open>With \<open>-q\<close> the node number is printed so that it can be read back.\<close>

lemma info_quiet_nodeid:
  assumes "info_text True (INFO_NODEID n) = Some t"
  shows "scan_u8 t = Some n"
proof -
  have "\<not> starts_digit 10 [CHR 0x0A]" by (simp add: starts_digit_def digit_val_def)
  from scan_print [OF this, of "unat n"] have "scan_d (print_base 10 (unat n) @ [CHR 0x0A]) = Some (int (unat n), [CHR 0x0A])" .
  with scan_u8_print [of n] assms scan_d_print [of "unat n"] show ?thesis
    by (auto simp: info_text_def scan_u8_def scan_ulong_def)
qed

section \<open>Instances\<close>

definition demo_info :: "demo_dev info_api" where
  "demo_info = \<lparr>ii_nic = demo_api, ii_num_nodes = (\<lambda>_. 3), ii_statistics = (\<lambda>_. (- 1, undefined)), ii_ni_status = (\<lambda>_. 7), ii_ni_control = (\<lambda>_. 1),
     AXIOMREG_IFINFO_CONNECTED = 1, AXIOMREG_IFINFO_TX = 2, AXIOMREG_IFINFO_RX = 4, AXIOM_DEBUG_FLAG_ALL = 255\<rparr>"

theorem info_shows_witness:
  "axiom_info demo_info True [''-n'', ''-s'', ''-n'', ''-q''] (demo_node 3) = Some (Inr (True, [INFO_NODEID 3, INFO_STATUS 7]))"
proof -
  have "print_nodeid demo_info (demo_node 3) = [INFO_NODEID 3]" "print_ni_status demo_info (demo_node 3) = [INFO_STATUS 7]"
    using demo_registers by (simp_all add: print_nodeid_def print_ni_status_def demo_info_def sim_registers_def sim_get_node_id_def demo_node_def)
  moreover have "ii_nic demo_info = demo_api" "AXIOM_RET_OK demo_api = 0" by (simp_all add: demo_info_def demo_api_def)
  ultimately show ?thesis
    using info_shows [of demo_info "demo_node 3" "''nsn''" True] demo_registers demo_sim_ok [of 3] by (simp add: info_asks_def)
qed

end
