(* ===== verification/Utility.thy ===== *)
theory Utility
  imports Getopt Init_Daemon
begin

text \<open>
  The program \<open>axiom-utility\<close> (\<open>axiom-utility/axiom-utility.c\<close>): it throws away the messages that wait on the ports of the node, or tells the daemon to start a
  discovery. The calls of the NIC are inputs.
\<close>

section \<open>The code\<close>

text \<open>A receive returns the port of the message; \<open>ut_sleep\<close> is the quarter of a second that the program waits.\<close>

record 'd util_api =
  ut_is_ok :: "err \<Rightarrow> bool"
  ut_port_max :: nat
  ut_open :: "'d \<Rightarrow> 'd option"
  ut_close :: "'d \<Rightarrow> 'd"
  ut_bind :: "'d \<Rightarrow> u8 \<Rightarrow> err \<times> 'd"
  ut_raw_avail :: "'d \<Rightarrow> bool"
  ut_long_avail :: "'d \<Rightarrow> bool"
  ut_recv :: "'d \<Rightarrow> u8 \<times> 'd"
  ut_sleep :: "'d \<Rightarrow> 'd"

text \<open>The two inner loops; the state is the device, the variable \<open>port\<close>, which the receive overwrites, and the counters. The
  counters are of type \<open>int\<close>: the increment of the largest one is undefined.\<close>

definition flush_drain :: "'d util_api \<Rightarrow> 'd \<times> u8 \<times> int \<Rightarrow> ('d \<times> u8 \<times> int) option" where
  "flush_drain api = while_ctl (\<lambda>(dev, _, _). ut_raw_avail api dev \<or> ut_long_avail api dev)
     (\<lambda>(dev, _, counter). let (port, dev) = ut_recv api dev in if counter < 2 ^ 31 - 1 then Some (Next, dev, port, counter + 1) else None)"

definition flush_port :: "'d util_api \<Rightarrow> 'd \<Rightarrow> u8 \<Rightarrow> ('d \<times> u8 \<times> int \<times> int) option" where
  "flush_port api dev port = while_ctl (\<lambda>_. True)
     (\<lambda>(dev, port, counter, oldcounter). do {
        (dev, port, counter) \<leftarrow> flush_drain api (dev, port, counter);
        Some (if counter = oldcounter then (Break, dev, port, counter, oldcounter) else (Next, ut_sleep api dev, port, counter, counter))
      }) (dev, port, 0, - 1)"

text \<open>The loop over the ports. The log is what the program prints of the ports: the ones that were skipped and the numbers of messages of the
  others, if \<open>verbose\<close> is set; the flag \<open>fs_error\<close> says that the device could not be opened.\<close>

record 'd flush_state =
  fs_dev :: 'd
  fs_opened :: bool
  fs_port :: u8
  fs_log :: "(u8 \<times> int option) list"
  fs_error :: bool

definition flush_body :: "bool \<Rightarrow> 'd util_api \<Rightarrow> 'd flush_state \<Rightarrow> (ctl \<times> 'd flush_state) option" where
  "flush_body verbose api s = (let dev = (if fs_opened s then ut_close api (fs_dev s) else fs_dev s) in
     case ut_open api dev of
       None \<Rightarrow> Some (Break, s\<lparr>fs_dev := dev, fs_error := True\<rparr>)
     | Some dev \<Rightarrow> (let (err, dev) = ut_bind api dev (fs_port s); s = s\<lparr>fs_dev := dev, fs_opened := True\<rparr> in
         if \<not> ut_is_ok api err then Some (Next, s\<lparr>fs_port := fs_port s + 1, fs_log := fs_log s @ (if verbose then [(fs_port s, None)] else [])\<rparr>)
         else do {
           (dev, port, counter, _) \<leftarrow> flush_port api dev (fs_port s);
           Some (Next, s\<lparr>fs_dev := dev, fs_port := port + 1, fs_log := fs_log s @ (if verbose then [(fs_port s, Some counter)] else [])\<rparr>)
         }))"

definition exec_flush :: "bool \<Rightarrow> 'd util_api \<Rightarrow> 'd \<Rightarrow> ('d flush_state) option" where
  "exec_flush verbose api dev = do {
     s \<leftarrow> while_ctl (\<lambda>s. unat (fs_port s) \<le> ut_port_max api) (flush_body verbose api)
       \<lparr>fs_dev = dev, fs_opened = False, fs_port = 0, fs_log = [], fs_error = False\<rparr>;
     Some (if fs_error s then s else s\<lparr>fs_dev := if fs_opened s then ut_close api (fs_dev s) else fs_dev s\<rparr>)
   }"

text \<open>The message for the daemon, when the socket can be created and the message sent.\<close>

definition exec_start_network_discovery :: "bool \<Rightarrow> daemon_msg option" where
  "exec_start_network_discovery socket_ok = (if \<not> socket_ok then None else Some IM_START_DISCOVERY)"

datatype util_cmd = CMD_NO_COMMAND | CMD_FLUSH | CMD_MASTER

definition util_optspec :: "char optspec" where
  "util_optspec = \<lparr>os_char = id, os_short = map (\<lambda>c. (c, no_argument)) ''fmvVh'',
     os_long = [(''flush'', no_argument, CHR ''f''), (''master'', no_argument, CHR ''m''), (''verbose'', no_argument, CHR ''v''),
       (''version'', no_argument, CHR ''V''), (''help'', no_argument, CHR ''h'')]\<rparr>"

text \<open>The variables \<open>cmd\<close> and \<open>verbose\<close>.\<close>

definition util_option :: "char \<Rightarrow> string option \<Rightarrow> util_cmd \<times> bool \<Rightarrow> int + (util_cmd \<times> bool)" where
  "util_option opt arg c = (if opt = CHR ''f'' then Inr (CMD_FLUSH, snd c) else if opt = CHR ''m'' then Inr (CMD_MASTER, snd c)
     else if opt = CHR ''v'' then Inr (fst c, True) else if opt = CHR ''V'' then Inl 0 else Inl (- 1))"

text \<open>What the program does: an exit, the end of the flush, or a message (if any) for the daemon. \<open>None\<close> is a flush that never ends or whose
  counter overflows.\<close>

datatype 'd util_end = UT_EXIT int | UT_FLUSHED "'d flush_state" | UT_MESSAGE "daemon_msg option"

definition axiom_utility :: "'d util_api \<Rightarrow> bool \<Rightarrow> string list \<Rightarrow> 'd \<Rightarrow> 'd util_end option" where
  "axiom_utility api socket_ok argv dev = (case parse_options util_optspec util_option (CMD_NO_COMMAND, False) [] argv [] of
       Inl n \<Rightarrow> Some (UT_EXIT n)
     | Inr ((CMD_FLUSH, verbose), _) \<Rightarrow> map_option (\<lambda>s. if fs_error s then UT_EXIT (- 1) else UT_FLUSHED s) (exec_flush verbose api dev)
     | Inr ((CMD_MASTER, _), _) \<Rightarrow> Some (UT_MESSAGE (exec_start_network_discovery socket_ok))
     | Inr ((CMD_NO_COMMAND, _), _) \<Rightarrow> Some (UT_EXIT (- 1)))"

section \<open>The flush\<close>

text \<open>The messages that wait on a port, the port a device is bound to, and the ports that can be bound. While the program runs, no messages
  arrive.\<close>

definition flush_ok :: "'d util_api \<Rightarrow> ('d \<Rightarrow> u8 \<Rightarrow> nat) \<Rightarrow> ('d \<Rightarrow> u8) \<Rightarrow> (u8 \<Rightarrow> bool) \<Rightarrow> bool" where
  "flush_ok api q bound bindable \<longleftrightarrow>
     (\<forall>d. \<exists>d'. ut_open api d = Some d' \<and> q d' = q d) \<and> (\<forall>d. q (ut_close api d) = q d)
   \<and> (\<forall>d p. q (snd (ut_bind api d p)) = q d \<and> (ut_is_ok api (fst (ut_bind api d p)) \<longleftrightarrow> bindable p) \<and> (bindable p \<longrightarrow> bound (snd (ut_bind api d p)) = p))
   \<and> (\<forall>d. ut_raw_avail api d \<or> ut_long_avail api d \<longleftrightarrow> 0 < q d (bound d))
   \<and> (\<forall>d. 0 < q d (bound d) \<longrightarrow> fst (ut_recv api d) = bound d \<and> bound (snd (ut_recv api d)) = bound d
        \<and> q (snd (ut_recv api d)) = (q d)(bound d := q d (bound d) - 1))
   \<and> (\<forall>d. q (ut_sleep api d) = q d \<and> bound (ut_sleep api d) = bound d)"

lemma flush_okD:
  assumes "flush_ok api q bound bindable"
  shows "\<exists>d'. ut_open api d = Some d' \<and> q d' = q d" "q (ut_close api d) = q d"
    and "q (snd (ut_bind api d p)) = q d" "ut_is_ok api (fst (ut_bind api d p)) \<longleftrightarrow> bindable p" "bindable p \<Longrightarrow> bound (snd (ut_bind api d p)) = p"
    and "ut_raw_avail api d \<or> ut_long_avail api d \<longleftrightarrow> 0 < q d (bound d)"
    and "0 < q d (bound d) \<Longrightarrow> fst (ut_recv api d) = bound d" "0 < q d (bound d) \<Longrightarrow> bound (snd (ut_recv api d)) = bound d"
      "0 < q d (bound d) \<Longrightarrow> q (snd (ut_recv api d)) = (q d)(bound d := q d (bound d) - 1)"
    and "q (ut_sleep api d) = q d" "bound (ut_sleep api d) = bound d"
  using assms unfolding flush_ok_def by blast+

lemma drain_all:
  assumes "flush_ok api q bound bindable" "bound d = p" "n + int (q d p) < 2 ^ 31"
  shows "\<exists>d'. flush_drain api (d, p, n) = Some (d', p, n + int (q d p)) \<and> bound d' = p \<and> q d' = (q d)(p := 0)"
proof -
  note ok = flush_okD [OF assms(1)]
  let ?P = "\<lambda>(d', p', m). bound d' = p \<and> p' = p \<and> (\<forall>x. x \<noteq> p \<longrightarrow> q d' x = q d x) \<and> m + int (q d' p) = n + int (q d p)"
  let ?Q = "\<lambda>(d', p', m). p' = p \<and> bound d' = p \<and> q d' = (q d)(p := 0) \<and> m = n + int (q d p)"
  let ?c = "\<lambda>(dev, _, counter). let (port, dev) = ut_recv api dev in if counter < 2 ^ 31 - 1 then Some (Next, dev, port, counter + 1) else None"
  have "\<exists>s. flush_drain api (d, p, n) = Some s \<and> ?Q s"
    unfolding flush_drain_def
  proof (rule while_ctl_total [where P = ?P and m = "\<lambda>(d', _, _). q d' p"])
    fix s assume s: "?P s" and b: "case s of (dev, _, _) \<Rightarrow> ut_raw_avail api dev \<or> ut_long_avail api dev"
    obtain d' m where [simp]: "s = (d', p, m)" and d': "bound d' = p" using s by (cases s) auto
    have q: "0 < q d' p" using b ok(6) d' by simp
    obtain e where "ut_recv api d' = (p, e)" "bound e = p" "q e = (q d')(p := q d' p - 1)"
      using ok(7-9) [of d'] q d' by (metis prod.collapse)
    with s q assms(3) show "(\<exists>s'. ?c s = Some (Break, s') \<and> ?Q s') \<or> (\<exists>s'. ?c s = Some (Next, s') \<and> ?P s'
          \<and> (case s' of (d', _, _) \<Rightarrow> q d' p) < (case s of (d', _, _) \<Rightarrow> q d' p))" by auto
  next
    fix s assume "?P s" "\<not> (case s of (dev, _, _) \<Rightarrow> ut_raw_avail api dev \<or> ut_long_avail api dev)"
    then show "?Q s" using ok(6) by (cases s) auto
  qed (use assms(2) in simp)
  then show ?thesis by auto
qed

lemma flush_port_all:
  assumes "flush_ok api q bound bindable" "bound d = p" "q d p < 2 ^ 31"
  shows "\<exists>d' old. flush_port api d p = Some (d', p, int (q d p), old) \<and> q d' = (q d)(p := 0)"
proof -
  note ok = flush_okD [OF assms(1)]
  let ?f = "\<lambda>(dev, port, counter, oldcounter). do {
        (dev, port, counter) \<leftarrow> flush_drain api (dev, port, counter);
        Some (if counter = oldcounter then (Break, dev, port, counter, oldcounter) else (Next, ut_sleep api dev, port, counter, counter))
      }"
  have less: "int (q d p) < 2 ^ 31" using assms(3) by (metis of_nat_less_iff of_nat_numeral of_nat_power)
  obtain d1 where d1: "flush_drain api (d, p, 0) = Some (d1, p, int (q d p))" "bound d1 = p" "q d1 = (q d)(p := 0)"
    using drain_all [OF assms(1,2), of 0] less by auto
  obtain d2 where d2: "flush_drain api (ut_sleep api d1, p, int (q d p)) = Some (d2, p, int (q d p))" "q d2 = (q d)(p := 0)"
    using drain_all [OF assms(1), of "ut_sleep api d1" p "int (q d p)"] ok(10,11) [of d1] d1(2,3) less by auto
  have "while_ctl (\<lambda>_. True) ?f (d, p, 0, - 1) = while_ctl (\<lambda>_. True) ?f (ut_sleep api d1, p, int (q d p), int (q d p))"
    by (subst while_ctl.simps) (simp add: d1(1))
  also have "\<dots> = Some (d2, p, int (q d p), int (q d p))" by (subst while_ctl.simps) (simp add: d2(1))
  finally show ?thesis using d2(2) by (simp add: flush_port_def)
qed

text \<open>What the program prints, and the state when it has done the ports below \<open>n\<close>.\<close>

definition flush_report :: "bool \<Rightarrow> (u8 \<Rightarrow> bool) \<Rightarrow> (u8 \<Rightarrow> nat) \<Rightarrow> nat \<Rightarrow> (u8 \<times> int option) list" where
  "flush_report verbose bindable q0 n = (if verbose then map (\<lambda>k. (of_nat k, if bindable (of_nat k) then Some (int (q0 (of_nat k))) else None)) [0..<n] else [])"

lemma flush_report_Suc:
  "flush_report verbose bindable q0 (Suc n) = flush_report verbose bindable q0 n
     @ (if verbose then [(of_nat n, if bindable (of_nat n) then Some (int (q0 (of_nat n))) else None)] else [])"
  by (simp add: flush_report_def)

definition flush_inv :: "bool \<Rightarrow> ('d \<Rightarrow> u8 \<Rightarrow> nat) \<Rightarrow> (u8 \<Rightarrow> bool) \<Rightarrow> (u8 \<Rightarrow> nat) \<Rightarrow> nat \<Rightarrow> 'd flush_state \<Rightarrow> bool" where
  "flush_inv verbose q bindable q0 n s \<longleftrightarrow> \<not> fs_error s \<and> unat (fs_port s) = n
     \<and> q (fs_dev s) = (\<lambda>p. if unat p < n \<and> bindable p then 0 else q0 p)
     \<and> fs_log s = flush_report verbose bindable q0 n"

lemma flush_step:
  assumes "flush_ok api q bound bindable" "flush_inv verbose q bindable q0 n s" "n < 255" "\<forall>p. bindable p \<longrightarrow> q0 p < 2 ^ 31"
  shows "\<exists>s'. flush_body verbose api s = Some (Next, s') \<and> flush_inv verbose q bindable q0 (Suc n) s' \<and> fs_opened s'"
proof -
  note ok = flush_okD [OF assms(1)] and inv = assms(2) [unfolded flush_inv_def]
  let ?p = "fs_port s" and ?dev = "if fs_opened s then ut_close api (fs_dev s) else fs_dev s"
  have p: "unat ?p = n" "unat (?p + 1) = Suc n" "of_nat n = ?p" using inv unat_inc_u8 [of ?p] assms(3) by auto
  have less: "unat x < Suc n \<longleftrightarrow> unat x < n \<or> x = ?p" for x :: u8 unfolding less_Suc_eq p(1) [symmetric] by (simp add: word_unat_eq_iff)
  obtain d1 where d1: "ut_open api ?dev = Some d1" "q d1 = q (fs_dev s)" using ok(1) [of ?dev] ok(2) by auto
  obtain e d2 where d2: "ut_bind api d1 ?p = (e, d2)" by fastforce
  have b: "q d2 = q (fs_dev s)" "ut_is_ok api e \<longleftrightarrow> bindable ?p" "bindable ?p \<Longrightarrow> bound d2 = ?p"
    using ok(3,4) [of d1 ?p] ok(5) [of ?p d1] d2 d1(2) by auto
  show ?thesis
  proof (cases "bindable ?p")
    case False
    let ?s = "s\<lparr>fs_dev := d2, fs_opened := True, fs_port := ?p + 1, fs_log := fs_log s @ (if verbose then [(?p, None)] else [])\<rparr>"
    have "flush_body verbose api s = Some (Next, ?s)" using False b(2) by (simp add: flush_body_def d1(1) d2)
    moreover have "flush_inv verbose q bindable q0 (Suc n) ?s" using inv p False b(1) by (auto simp: flush_inv_def flush_report_Suc less fun_eq_iff)
    ultimately show ?thesis by simp
  next
    case True
    have "q d2 ?p < 2 ^ 31" using assms(4) True inv b(1) by simp
    then obtain d3 old where d3: "flush_port api d2 ?p = Some (d3, ?p, int (q d2 ?p), old)" "q d3 = (q d2)(?p := 0)"
      using flush_port_all [OF assms(1) b(3) [OF True]] by blast
    let ?s = "s\<lparr>fs_dev := d3, fs_opened := True, fs_port := ?p + 1, fs_log := fs_log s @ (if verbose then [(?p, Some (int (q d2 ?p)))] else [])\<rparr>"
    have "flush_body verbose api s = Some (Next, ?s)" using True b(2) d3(1) by (simp add: flush_body_def d1(1) d2)
    moreover have "flush_inv verbose q bindable q0 (Suc n) ?s" using inv p True b(1) d3(2) by (auto simp: flush_inv_def flush_report_Suc less fun_eq_iff)
    ultimately show ?thesis by simp
  qed
qed

lemma flush_all:
  assumes "flush_ok api q bound bindable" "ut_port_max api < 255" "\<forall>p. bindable p \<longrightarrow> q d p < 2 ^ 31"
  shows "\<exists>s. exec_flush verbose api d = Some s \<and> flush_inv verbose q bindable (q d) (Suc (ut_port_max api)) s"
proof -
  let ?m = "ut_port_max api" and ?s0 = "\<lparr>fs_dev = d, fs_opened = False, fs_port = 0, fs_log = [], fs_error = False\<rparr>"
  let ?P = "\<lambda>s. \<exists>n\<le>Suc ?m. flush_inv verbose q bindable (q d) n s" and ?Q = "flush_inv verbose q bindable (q d) (Suc ?m)"
  have "\<exists>s. while_ctl (\<lambda>s. unat (fs_port s) \<le> ?m) (flush_body verbose api) ?s0 = Some s \<and> ?Q s"
  proof (rule while_ctl_total [where P = ?P and m = "\<lambda>s. Suc ?m - unat (fs_port s)"])
    show "?P ?s0" by (intro exI [of _ 0]) (simp add: flush_inv_def flush_report_def)
  next
    fix s assume "?P s" and b: "unat (fs_port s) \<le> ?m"
    then obtain n where n: "flush_inv verbose q bindable (q d) n s" "unat (fs_port s) = n" by (auto simp: flush_inv_def)
    with b assms(2) obtain s' where s': "flush_body verbose api s = Some (Next, s')" "flush_inv verbose q bindable (q d) (Suc n) s'"
      using flush_step [OF assms(1) n(1) _ assms(3)] by auto
    then have "unat (fs_port s') = Suc n" by (simp add: flush_inv_def)
    with s' n(2) b show "(\<exists>s'. flush_body verbose api s = Some (Break, s') \<and> ?Q s')
      \<or> (\<exists>s'. flush_body verbose api s = Some (Next, s') \<and> ?P s' \<and> Suc ?m - unat (fs_port s') < Suc ?m - unat (fs_port s))"
      by (intro disjI2 exI [of _ s']) (auto intro!: exI [of _ "Suc n"])
  next
    fix s assume "?P s" "\<not> unat (fs_port s) \<le> ?m"
    then show "?Q s" by (auto simp: flush_inv_def dest: le_antisym)
  qed
  then obtain s where s: "while_ctl (\<lambda>s. unat (fs_port s) \<le> ?m) (flush_body verbose api) ?s0 = Some s" "?Q s" by blast
  then have "?Q (s\<lparr>fs_dev := if fs_opened s then ut_close api (fs_dev s) else fs_dev s\<rparr>)"
    using flush_okD(2) [OF assms(1)] by (simp add: flush_inv_def)
  with s show ?thesis by (simp add: exec_flush_def flush_inv_def)
qed

text \<open>C18: \<open>axiom-utility -f\<close>, with or without \<open>-v\<close>, ends and has emptied the ports. When no messages arrive while it runs and fewer than
  \<open>2 ^ 31\<close> wait on a port (the counter is an \<open>int\<close>), it ends after all ports; on every port it could bind no message waits any more and the other ports are as they
  were. With \<open>-v\<close> it reports every port, the ones it skipped and the number of messages that waited on the others; without it reports nothing.\<close>

theorem utility_flush_empties:
  assumes "flush_ok api q bound bindable" "ut_port_max api < 255" "\<forall>p. bindable p \<longrightarrow> q d p < 2 ^ 31"
  shows "\<exists>s. axiom_utility api socket_ok ((if v then [''-v''] else []) @ [''-f'']) d = Some (UT_FLUSHED s)
    \<and> (\<forall>p. q (fs_dev s) p = (if unat p \<le> ut_port_max api \<and> bindable p then 0 else q d p))
    \<and> fs_log s = (if v then map (\<lambda>k. (of_nat k, if bindable (of_nat k) then Some (int (q d (of_nat k))) else None)) [0..<Suc (ut_port_max api)] else [])"
proof -
  have "parse_options util_optspec util_option (CMD_NO_COMMAND, v) [] [''-f''] [] = parse_options util_optspec util_option (CMD_FLUSH, v) [] [] []"
    by (rule parse_flag) (simp_all add: util_optspec_def util_option_def)
  moreover have "parse_options util_optspec util_option (CMD_NO_COMMAND, False) [] [''-v'', ''-f''] []
      = parse_options util_optspec util_option (CMD_NO_COMMAND, True) [] [''-f''] []"
    by (rule parse_flag) (simp_all add: util_optspec_def util_option_def)
  moreover obtain s where "exec_flush v api d = Some s" "flush_inv v q bindable (q d) (Suc (ut_port_max api)) s"
    using flush_all [OF assms] by blast
  ultimately show ?thesis by (cases v) (auto simp: axiom_utility_def flush_inv_def flush_report_def less_Suc_eq_le)
qed

text \<open>With \<open>-m\<close> the daemon runs the discovery of a master.\<close>

lemma utility_master:
  "axiom_utility api True [''-m''] d = Some (UT_MESSAGE (Some m)) \<Longrightarrow>
   init_dispatch iapi o1 src m dm = do { dm \<leftarrow> run_master iapi dm; (_, dm) \<leftarrow> save_table iapi o1 dm; Some dm }"
proof -
  have "parse_options util_optspec util_option (CMD_NO_COMMAND, False) [] [''-m''] [] = parse_options util_optspec util_option (CMD_MASTER, False) [] [] []"
    by (rule parse_flag) (simp_all add: util_optspec_def util_option_def)
  then show "axiom_utility api True [''-m''] d = Some (UT_MESSAGE (Some m)) \<Longrightarrow> ?thesis"
    by (auto simp: axiom_utility_def exec_start_network_discovery_def init_dispatch_def)
qed

section \<open>Instances\<close>

text \<open>A device: the messages of the ports, by their number, and the port it is bound to. Port 1 is taken.\<close>

definition demo_util :: "((u8 \<Rightarrow> nat) \<times> u8) util_api" where
  "demo_util = \<lparr>ut_is_ok = (\<lambda>e. 0 \<le> e), ut_port_max = 2, ut_open = Some, ut_close = id, ut_bind = (\<lambda>(q, b) p. if p = 1 then (- 1, q, b) else (0, q, p)),
     ut_raw_avail = (\<lambda>(q, b). 0 < q b), ut_long_avail = (\<lambda>_. False), ut_recv = (\<lambda>(q, b). (b, q(b := q b - 1), b)), ut_sleep = id\<rparr>"

theorem utility_flush_empties_witness:
  "\<exists>s. axiom_utility demo_util True [''-v'', ''-f''] (\<lambda>p. unat p + 2, 0) = Some (UT_FLUSHED s)
    \<and> fst (fs_dev s) 0 = 0 \<and> fst (fs_dev s) 1 = 3 \<and> fst (fs_dev s) 2 = 0 \<and> fs_log s = [(0, Some 2), (1, None), (2, Some 4)]"
proof -
  have "flush_ok demo_util fst snd (\<lambda>p. p \<noteq> 1)" by (auto simp: flush_ok_def demo_util_def split: prod.splits if_splits)
  moreover have "ut_port_max demo_util = 2" by (simp add: demo_util_def)
  moreover have "[0..<3] = [0, 1, 2 :: nat]" by code_simp
  moreover have "unat p < 2147483646" for p :: u8 by (rule order.strict_trans [OF unsigned_less]) simp
  ultimately show ?thesis
    using utility_flush_empties [of demo_util fst snd "\<lambda>p. p \<noteq> 1" "(\<lambda>p. unat p + 2, 0)" True True] by auto
qed

end
