(* ===== verification/Daemonize.thy ===== *)
theory Daemonize
  imports Axiom_Prelude
begin

text \<open>
  The start of a process in the background (\<open>axiom_common_library/daemonize.c\<close>): \<open>daemonize\<close>, which \<open>axiom-run\<close>, the spawn service of the daemon
  and \<open>axiom-ethtap\<close> call, and the counter in shared memory by which the parent holds the new process back. A process has a table of
  file descriptors, a working directory and a flag for a session of its own. What the system answers to the calls is an input.
\<close>

section \<open>Descriptor tables\<close>

text \<open>What a descriptor refers to: a file that was open before, \<open>/dev/null\<close>, or an end of the pipe with a number.\<close>

datatype ofile = F_OLD nat | F_NULL | F_READ nat | F_WRITE nat

type_synonym fds = "nat \<Rightarrow> ofile option"

record proc =
  pr_fds :: fds
  pr_cwd :: string
  pr_leader :: bool

text \<open>A new descriptor is the lowest one that is free, below the size of the table.\<close>

definition free_fd :: "nat \<Rightarrow> fds \<Rightarrow> nat option" where
  "free_fd n t = find (\<lambda>i. t i = None) [0..<n]"

definition alloc_fd :: "nat \<Rightarrow> fds \<Rightarrow> ofile \<Rightarrow> (nat \<times> fds) option" where
  "alloc_fd n t f = map_option (\<lambda>i. (i, t(i \<mapsto> f))) (free_fd n t)"

definition close_fd :: "fds \<Rightarrow> nat \<Rightarrow> fds" where
  "close_fd t i = t(i := None)"

definition dup2 :: "nat \<Rightarrow> nat \<Rightarrow> fds \<Rightarrow> fds" where
  "dup2 i j t = (if t i = None then t else t(j := t i))"

section \<open>The counter\<close>

text \<open>The word in shared memory, which is 0 after \<open>sync_open\<close>. The process that waits reads it again and again; \<open>sync_wait\<close> returns the number of reads that
  gave 0, or \<open>None\<close> when it waits forever.\<close>

definition sync_wakeup :: "u32 \<Rightarrow> int \<times> u32" where
  "sync_wakeup smptr = (0, smptr + 1)"

definition sync_wait :: "(nat \<Rightarrow> u32) \<Rightarrow> nat option" where
  "sync_wait shared = while_ctl (\<lambda>t. shared t = 0) (\<lambda>t. Some (Next, Suc t)) 0"

section \<open>The code\<close>

text \<open>The answers of the system: the size of the descriptor table, whether the \<open>k\<close>-th pipe can be made, \<open>getcwd\<close> works, a directory can be entered, the
  shared memory can be mapped, what the uninitialised field \<open>smfd\<close> holds, the result of \<open>fork\<close> in the parent, whether \<open>/dev/null\<close> opens and whether \<open>execvpe\<close> works; the environment of
  the process; and the values that the new process reads from the shared word.\<close>

record dz_sys =
  dz_dtablesize :: nat
  dz_pipe_ok :: "nat \<Rightarrow> bool"
  dz_getcwd_ok :: bool
  dz_chdir_ok :: "string \<Rightarrow> bool"
  dz_mmap_ok :: bool
  dz_smfd :: nat
  dz_fork :: int
  dz_null_ok :: bool
  dz_exec_ok :: "string \<Rightarrow> bool"
  dz_environ :: "string list"
  dz_shared :: "nat \<Rightarrow> u32"

text \<open>When the memory cannot be mapped, \<open>sync_open\<close> closes the descriptor whose number is in the uninitialised field.\<close>

definition sync_open :: "dz_sys \<Rightarrow> fds \<Rightarrow> int \<times> fds" where
  "sync_open y t = (if dz_mmap_ok y then (0, t) else (- 1, close_fd t (dz_smfd y)))"

definition pipe_call :: "dz_sys \<Rightarrow> nat \<Rightarrow> fds \<Rightarrow> ((nat \<times> nat) \<times> fds) option" where
  "pipe_call y k t = (if \<not> dz_pipe_ok y k then None else do {
     (r, t) \<leftarrow> alloc_fd (dz_dtablesize y) t (F_READ k);
     (w, t) \<leftarrow> alloc_fd (dz_dtablesize y) t (F_WRITE k);
     Some ((r, w), t)
   })"

text \<open>The descriptors of the function: \<open>fdin\<close>, \<open>fdout\<close>, \<open>fderr\<close> and the array \<open>pipefd\<close>; \<open>None\<close> is \<open>-1\<close>.\<close>

record dz_fd =
  fdin :: "nat option"
  fdout :: "nat option"
  fderr :: "nat option"
  pipefd :: "nat option list"

definition no_fd :: dz_fd where
  "no_fd = \<lparr>fdin = None, fdout = None, fderr = None, pipefd = [None, None, None]\<rparr>"

definition close_opt :: "nat option \<Rightarrow> fds \<Rightarrow> fds" where
  "close_opt fd t = (case fd of None \<Rightarrow> t | Some i \<Rightarrow> close_fd t i)"

definition clean :: "dz_fd \<Rightarrow> fds \<Rightarrow> fds" where
  "clean d t = fold close_opt ([fdout d, fdin d, fderr d] @ pipefd d) t"

text \<open>The pipes; \<open>Inl\<close> is the return after a failure, with the array \<open>pipefd\<close> and the descriptors that are then open.\<close>

definition dz_pipes :: "dz_sys \<Rightarrow> bool \<Rightarrow> fds \<Rightarrow> nat option list \<times> fds + dz_fd \<times> fds" where
  "dz_pipes y pipes t = (if \<not> pipes then Inr (no_fd, t) else
     let d = no_fd in case pipe_call y 0 t of
       None \<Rightarrow> Inl (pipefd d, clean d t)
     | Some ((r, w), t) \<Rightarrow> (let d = d\<lparr>fdout := Some w, pipefd := (pipefd d)[1 := Some r]\<rparr> in case pipe_call y 1 t of
       None \<Rightarrow> Inl (pipefd d, clean d t)
     | Some ((r, w), t) \<Rightarrow> (let d = d\<lparr>fdin := Some r, pipefd := (pipefd d)[0 := Some w]\<rparr> in case pipe_call y 2 t of
       None \<Rightarrow> Inl (pipefd d, clean d t)
     | Some ((r, w), t) \<Rightarrow> Inr (d\<lparr>fderr := Some w, pipefd := (pipefd d)[2 := Some r]\<rparr>, t))))"

text \<open>The standard descriptors of the new process; \<open>/dev/null\<close> takes the place of a missing pipe.\<close>

definition dz_std :: "dz_sys \<Rightarrow> nat option \<Rightarrow> nat list \<Rightarrow> fds \<Rightarrow> fds" where
  "dz_std y fd targets t =
     (case (case fd of Some i \<Rightarrow> Some (i, t) | None \<Rightarrow> if dz_null_ok y then alloc_fd (dz_dtablesize y) t F_NULL else None) of
        None \<Rightarrow> t
      | Some (i, t) \<Rightarrow> fold (dup2 i) targets t)"

definition close_unused :: "nat \<Rightarrow> fds \<Rightarrow> fds" where
  "close_unused n t = fold (\<lambda>i t. if i \<noteq> 0 \<and> i \<noteq> 1 \<and> i \<noteq> 2 then close_fd t i else t) (rev [0..<Suc n]) t"

text \<open>The new process: it runs a program (after the given number of reads of the shared word), ends because the program cannot be executed, or returns from the
  function. \<open>None\<close> is a process that waits forever.\<close>

datatype dz_child =
    CHILD_EXEC nat proc string "string list" "string list"
  | CHILD_EXIT
  | CHILD_RETURN nat proc

definition dz_args :: "string \<Rightarrow> string list option \<Rightarrow> string list" where
  "dz_args exec args = (case args of None \<Rightarrow> [exec] | Some as \<Rightarrow> if as = [] then [exec] else as)"

definition dz_new :: "dz_sys \<Rightarrow> dz_fd \<Rightarrow> string option \<Rightarrow> string list option \<Rightarrow> string list option \<Rightarrow> bool \<Rightarrow> bool \<Rightarrow> proc \<Rightarrow> dz_child option" where
  "dz_new y d exec args env newsession sync p = do {
     let p = (if newsession then p\<lparr>pr_leader := True\<rparr> else p);
     let t = dz_std y (fdin d) [0] (pr_fds p);
     let t = dz_std y (fdout d) [1, 2] t;
     let t = dz_std y (fderr d) [2] t;
     n \<leftarrow> if sync then sync_wait (dz_shared y) else Some 0;
     let p = p\<lparr>pr_fds := close_unused (dz_dtablesize y) t\<rparr>;
     Some (case exec of
         None \<Rightarrow> CHILD_RETURN n p
       | Some x \<Rightarrow> if dz_exec_ok y x then CHILD_EXEC n p x (dz_args x args) (case env of None \<Rightarrow> dz_environ y | Some e \<Rightarrow> e) else CHILD_EXIT)
   }"

text \<open>What \<open>daemonize\<close> leaves: the result of the parent, its array \<open>pipefd\<close>, the parent, and the new process if there is one.\<close>

record dz_result =
  dz_ret :: int
  dz_pipefd :: "nat option list"
  dz_parent :: proc
  dz_child :: "dz_child option option"

definition dz_failed :: "dz_fd \<Rightarrow> proc \<Rightarrow> dz_result" where
  "dz_failed d p = \<lparr>dz_ret = - 1, dz_pipefd = pipefd d, dz_parent = p\<lparr>pr_fds := clean d (pr_fds p)\<rparr>, dz_child = None\<rparr>"

text \<open>From the fork on.\<close>

definition dz_start :: "dz_sys \<Rightarrow> dz_fd \<Rightarrow> string option \<Rightarrow> string option \<Rightarrow> string list option \<Rightarrow> string list option \<Rightarrow> bool \<Rightarrow> bool \<Rightarrow> proc \<Rightarrow> dz_result" where
  "dz_start y d oldcwd exec args env newsession sync p = (
     let parent = (case oldcwd of None \<Rightarrow> p | Some old \<Rightarrow> if dz_chdir_ok y old then p\<lparr>pr_cwd := old\<rparr> else p);
         parent = parent\<lparr>pr_fds := fold close_opt [fdin d, fdout d, fderr d] (pr_fds parent)\<rparr>
     in \<lparr>dz_ret = (if dz_fork y < 0 then - 1 else dz_fork y), dz_pipefd = pipefd d, dz_parent = parent,
         dz_child = (if dz_fork y < 0 then None else Some (dz_new y d exec args env newsession sync p))\<rparr>)"

definition daemonize :: "dz_sys \<Rightarrow> string option \<Rightarrow> string option \<Rightarrow> string list option \<Rightarrow> string list option \<Rightarrow> bool \<Rightarrow> bool \<Rightarrow> bool \<Rightarrow> proc \<Rightarrow> dz_result" where
  "daemonize y cwd exec args env pipes newsession sync p = (case dz_pipes y pipes (pr_fds p) of
       Inl (fd, t) \<Rightarrow> \<lparr>dz_ret = - 1, dz_pipefd = fd, dz_parent = p\<lparr>pr_fds := t\<rparr>, dz_child = None\<rparr>
     | Inr (d, t) \<Rightarrow> (let p = p\<lparr>pr_fds := t\<rparr> in
         if cwd \<noteq> None \<and> \<not> dz_getcwd_ok y then dz_failed d p
         else if cwd \<noteq> None \<and> \<not> dz_chdir_ok y (the cwd) then dz_failed d p
         else (let oldcwd = (if cwd = None then None else Some (pr_cwd p));
                   p = (case cwd of None \<Rightarrow> p | Some c \<Rightarrow> p\<lparr>pr_cwd := c\<rparr>);
                   (ret, t) = (if sync then sync_open y (pr_fds p) else (0, pr_fds p));
                   p = p\<lparr>pr_fds := t\<rparr>
               in if ret \<noteq> 0 then dz_failed d p
                  else dz_start y d oldcwd exec args env newsession sync p)))"

section \<open>The interface of the descriptor tables\<close>

text \<open>What the function relies on: a new descriptor was free, refers to the file and changes no other descriptor; closing a descriptor frees it.\<close>

locale fd_table =
  fixes lookup :: "'t \<Rightarrow> nat \<Rightarrow> 'f option"
    and alloc :: "'t \<Rightarrow> 'f \<Rightarrow> (nat \<times> 't) option"
    and release :: "'t \<Rightarrow> nat \<Rightarrow> 't"
    and capacity :: nat
  assumes alloc_free: "alloc t f = Some (i, t') \<Longrightarrow> lookup t i = None \<and> i < capacity"
    and alloc_lookup: "alloc t f = Some (i, t') \<Longrightarrow> lookup t' = (lookup t)(i \<mapsto> f)"
    and alloc_total: "\<exists>i<capacity. lookup t i = None \<Longrightarrow> alloc t f \<noteq> None"
    and release_lookup: "lookup (release t i) = (lookup t)(i := None)"
begin

lemma release_alloc: "alloc t f = Some (i, t') \<Longrightarrow> lookup (release t' i) = lookup t"
  using alloc_free [of t f i t'] alloc_lookup [of t f i t'] by (auto simp: release_lookup fun_eq_iff)

text \<open>The number of free descriptors.\<close>

lemma alloc_left:
  assumes "n < card {i. i < capacity \<and> lookup t i = None}"
  shows "\<exists>i t'. alloc t f = Some (i, t') \<and> n \<le> card {i. i < capacity \<and> lookup t' i = None}"
proof -
  let ?A = "{i. i < capacity \<and> lookup t i = None}"
  have "?A \<noteq> {}" using assms by (metis card.empty not_less_zero)
  then obtain i t' where a: "alloc t f = Some (i, t')" using alloc_total [of t f] by auto
  have "{i. i < capacity \<and> lookup t' i = None} = ?A - {i}" using alloc_lookup [OF a] by auto
  moreover have "card (?A - {i}) = card ?A - 1" using alloc_free [OF a] by (intro card_Diff_singleton) simp
  ultimately show ?thesis using a assms by auto
qed

end

lemma find_upt: "find P [0..<n] = Some i \<longleftrightarrow> i < n \<and> P i \<and> (\<forall>j<i. \<not> P j)"
proof -
  have "find P [0..<n] = Some i \<longleftrightarrow> (\<exists>k<length [0..<n]. P ([0..<n] ! k) \<and> i = [0..<n] ! k \<and> (\<forall>j<k. \<not> P ([0..<n] ! j)))" by (rule find_Some_iff)
  then show ?thesis by auto
qed

interpretation fdt: fd_table "\<lambda>t. t" "alloc_fd n" close_fd n for n
proof (unfold_locales)
  fix t :: fds and f and i and t'
  assume a: "alloc_fd n t f = Some (i, t')"
  then show "t i = None \<and> i < n" by (auto simp: alloc_fd_def free_fd_def find_upt)
  show "t' = t(i \<mapsto> f)" using a by (auto simp: alloc_fd_def)
next
  fix t :: fds and f
  assume "\<exists>i<n. t i = None"
  then show "alloc_fd n t f \<noteq> None" by (auto simp: alloc_fd_def free_fd_def find_None_iff)
qed (simp add: close_fd_def)

section \<open>The pipes\<close>

lemma pipe_callD:
  assumes "pipe_call y k t = Some ((r, w), t')"
  shows "t r = None \<and> t w = None \<and> r \<noteq> w \<and> r < dz_dtablesize y \<and> w < dz_dtablesize y \<and> t' = t(r \<mapsto> F_READ k, w \<mapsto> F_WRITE k)"
proof -
  from assms obtain t1 where a: "alloc_fd (dz_dtablesize y) t (F_READ k) = Some (r, t1)" "alloc_fd (dz_dtablesize y) t1 (F_WRITE k) = Some (w, t')"
    by (auto simp: pipe_call_def bind_eq_Some_conv split: if_splits)
  then show ?thesis using fdt.alloc_free [OF a(1)] fdt.alloc_free [OF a(2)] fdt.alloc_lookup [OF a(1)] fdt.alloc_lookup [OF a(2)]
    by (auto simp: fun_upd_def split: if_splits)
qed

lemma pipe_call_ok:
  assumes "dz_pipe_ok y k" "n + 2 \<le> card {i. i < dz_dtablesize y \<and> t i = None}"
  shows "\<exists>r w t'. pipe_call y k t = Some ((r, w), t') \<and> n \<le> card {i. i < dz_dtablesize y \<and> t' i = None}"
proof -
  obtain r t1 where a: "alloc_fd (dz_dtablesize y) t (F_READ k) = Some (r, t1)" "Suc n \<le> card {i. i < dz_dtablesize y \<and> t1 i = None}"
    using fdt.alloc_left [of "Suc n" "dz_dtablesize y" t "F_READ k"] assms(2) by auto
  then obtain w t' where "alloc_fd (dz_dtablesize y) t1 (F_WRITE k) = Some (w, t')" "n \<le> card {i. i < dz_dtablesize y \<and> t' i = None}"
    using fdt.alloc_left [of n "dz_dtablesize y" t1 "F_WRITE k"] by auto
  with a(1) assms(1) show ?thesis by (auto simp: pipe_call_def)
qed

text \<open>All the pipes, and what the function has then opened.\<close>

definition piped :: "nat \<Rightarrow> fds \<Rightarrow> dz_fd \<Rightarrow> fds \<Rightarrow> bool" where
  "piped n t d t' \<longleftrightarrow> (\<exists>r0 w0 r1 w1 r2 w2. distinct [r0, w0, r1, w1, r2, w2] \<and> (\<forall>i\<in>set [r0, w0, r1, w1, r2, w2]. t i = None \<and> i < n)
     \<and> d = \<lparr>fdin = Some r1, fdout = Some w0, fderr = Some w2, pipefd = [Some w1, Some r0, Some r2]\<rparr>
     \<and> t' = t(r0 \<mapsto> F_READ 0, w0 \<mapsto> F_WRITE 0, r1 \<mapsto> F_READ 1, w1 \<mapsto> F_WRITE 1, r2 \<mapsto> F_READ 2, w2 \<mapsto> F_WRITE 2))"

lemmas close_defs = clean_def close_opt_def close_fd_def no_fd_def

lemma dz_pipes_ends:
  shows "dz_pipes y True t = Inl (fd, t') \<Longrightarrow> t' = t"
    and "dz_pipes y True t = Inr (d, t') \<Longrightarrow> piped (dz_dtablesize y) t d t'"
proof -
  show "t' = t" if "dz_pipes y True t = Inl (fd, t')"
    using that by (auto simp: dz_pipes_def Let_def close_defs intro!: ext dest!: pipe_callD split: option.splits prod.splits if_splits)
  assume a: "dz_pipes y True t = Inr (d, t')"
  obtain r0 w0 t0 where p0: "pipe_call y 0 t = Some ((r0, w0), t0)" using a by (auto simp: dz_pipes_def Let_def split: option.splits)
  then obtain r1 w1 t1 where p1: "pipe_call y 1 t0 = Some ((r1, w1), t1)" using a by (auto simp: dz_pipes_def Let_def split: option.splits)
  then obtain r2 w2 t2 where p2: "pipe_call y 2 t1 = Some ((r2, w2), t2)" using a p0 by (auto simp: dz_pipes_def Let_def split: option.splits)
  have "d = \<lparr>fdin = Some r1, fdout = Some w0, fderr = Some w2, pipefd = [Some w1, Some r0, Some r2]\<rparr>" "t' = t2"
    using a p0 p1 p2 by (auto simp: dz_pipes_def no_fd_def)
  moreover have "distinct [r0, w0, r1, w1, r2, w2] \<and> (\<forall>i\<in>set [r0, w0, r1, w1, r2, w2]. t i = None \<and> i < dz_dtablesize y)"
    using pipe_callD [OF p0] pipe_callD [OF p1] pipe_callD [OF p2] by (auto split: if_splits)
  ultimately show "piped (dz_dtablesize y) t d t'"
    using pipe_callD [OF p0] pipe_callD [OF p1] pipe_callD [OF p2] unfolding piped_def by blast
qed

lemma dz_pipes_ok:
  assumes "\<forall>k<3. dz_pipe_ok y k" "6 \<le> card {i. i < dz_dtablesize y \<and> t i = None}"
  shows "\<exists>d t'. dz_pipes y True t = Inr (d, t')"
proof -
  obtain r0 w0 t0 where p0: "pipe_call y 0 t = Some ((r0, w0), t0)" "4 \<le> card {i. i < dz_dtablesize y \<and> t0 i = None}"
    using pipe_call_ok [of y 0 4 t] assms by auto
  then obtain r1 w1 t1 where p1: "pipe_call y 1 t0 = Some ((r1, w1), t1)" "2 \<le> card {i. i < dz_dtablesize y \<and> t1 i = None}"
    using pipe_call_ok [of y 1 2 t0] assms by auto
  then obtain r2 w2 t2 where "pipe_call y 2 t1 = Some ((r2, w2), t2)" using pipe_call_ok [of y 2 0 t1] assms by auto
  with p0(1) p1(1) show ?thesis by (simp add: dz_pipes_def)
qed

lemma fold_close_upd: "fold close_opt xs (t(i := None)) = (fold close_opt xs t)(i := None)"
proof (induction xs arbitrary: t)
  case (Cons x xs)
  have "close_opt x (t(i := None)) = (close_opt x t)(i := None)" by (auto simp: close_opt_def close_fd_def fun_eq_iff split: option.splits)
  then show ?case by (simp only: fold.simps comp_apply Cons.IH)
qed simp

lemma piped_clean: "piped n t d t' \<Longrightarrow> clean d t' = t"
  unfolding piped_def by (auto simp: close_defs fun_eq_iff)

section \<open>The new process\<close>

lemma close_unused_low: "(\<And>i. n < i \<Longrightarrow> t i = None) \<Longrightarrow> close_unused n t = (\<lambda>i. if i < 3 then t i else None)"
proof -
  have fold: "fold (\<lambda>i t. if i \<noteq> 0 \<and> i \<noteq> 1 \<and> i \<noteq> 2 then close_fd t i else t) xs t = (\<lambda>i. if i \<in> set xs \<and> \<not> i < 3 then None else t i)" for xs and t :: fds
    by (induction xs arbitrary: t) (auto simp: close_fd_def fun_eq_iff)
  assume "\<And>i. n < i \<Longrightarrow> t i = None"
  then show ?thesis unfolding close_unused_def fold by (auto simp: fun_eq_iff not_less)
qed

lemma sync_wait_until:
  assumes "shared n \<noteq> 0" "\<forall>t<n. shared t = 0"
  shows "sync_wait shared = Some n"
proof -
  have "while_ctl (\<lambda>t. shared t = 0) (\<lambda>t. Some (Next, Suc t)) (n - k) = Some n" if "k \<le> n" for k
    using that
  proof (induction k)
    case 0
    then show ?case using assms(1) by (simp add: while_ctl.simps)
  next
    case (Suc k)
    then have "shared (n - Suc k) = 0" "Suc (n - Suc k) = n - k" using assms(2) by auto
    with Suc show ?case by (subst while_ctl.simps) simp
  qed
  from this [of n] show ?thesis by (simp add: sync_wait_def)
qed

lemma sync_wait_forever:
  assumes "\<forall>t. shared t = 0"
  shows "sync_wait shared = None"
proof (rule ccontr)
  assume "sync_wait shared \<noteq> None"
  then obtain r where "while_ctl (\<lambda>t. shared t = 0) (\<lambda>t. Some (Next, Suc t)) 0 = Some r" by (auto simp: sync_wait_def)
  then have "shared r \<noteq> 0" by (rule while_ctl_partial [where P = "\<lambda>_. True"]) auto
  with assms show False by simp
qed

text \<open>The standard descriptors of the new process are the ends of the pipes; everything else is closed.\<close>

lemma dz_new_fds:
  assumes "piped n t d t'" "\<forall>i<3. t i \<noteq> None" "\<forall>i\<ge>n. t i = None"
  shows "close_unused n (dz_std y (fderr d) [2] (dz_std y (fdout d) [1, 2] (dz_std y (fdin d) [0] t'))) = [0 \<mapsto> F_READ 1, 1 \<mapsto> F_WRITE 0, 2 \<mapsto> F_WRITE 2]"
proof -
  from assms(1) obtain r0 w0 r1 w1 r2 w2 where d: "distinct [r0, w0, r1, w1, r2, w2]" "\<forall>i\<in>set [r0, w0, r1, w1, r2, w2]. t i = None \<and> i < n"
    "d = \<lparr>fdin = Some r1, fdout = Some w0, fderr = Some w2, pipefd = [Some w1, Some r0, Some r2]\<rparr>"
    "t' = t(r0 \<mapsto> F_READ 0, w0 \<mapsto> F_WRITE 0, r1 \<mapsto> F_READ 1, w1 \<mapsto> F_WRITE 1, r2 \<mapsto> F_READ 2, w2 \<mapsto> F_WRITE 2)"
    unfolding piped_def by blast
  have std: "\<forall>i\<in>set [r0, w0, r1, w1, r2, w2]. i \<noteq> 0 \<and> i \<noteq> 1 \<and> i \<noteq> 2" using d(2) assms(2) by (metis One_nat_def less_Suc_eq numeral_3_eq_3 numeral_2_eq_2)
  have e: "dz_std y (fderr d) [2] (dz_std y (fdout d) [1, 2] (dz_std y (fdin d) [0] t')) = t'(0 \<mapsto> F_READ 1, 1 \<mapsto> F_WRITE 0, 2 \<mapsto> F_WRITE 2)"
    using d(1,3,4) std by (auto simp: dz_std_def dup2_def fun_eq_iff)
  have "3 \<le> n" using assms(2,3) by (metis not_le order_refl)
  then have "close_unused n (t'(0 \<mapsto> F_READ 1, 1 \<mapsto> F_WRITE 0, 2 \<mapsto> F_WRITE 2)) = (\<lambda>i. if i < 3 then (t'(0 \<mapsto> F_READ 1, 1 \<mapsto> F_WRITE 0, 2 \<mapsto> F_WRITE 2)) i else None)"
    using d(2,4) assms(3) by (intro close_unused_low) auto
  then show ?thesis unfolding e by (auto simp: fun_eq_iff)
qed

section \<open>The function\<close>

text \<open>The working directory the new process has.\<close>

definition dz_dir :: "string option \<Rightarrow> proc \<Rightarrow> string" where
  "dz_dir cwd p = (case cwd of None \<Rightarrow> pr_cwd p | Some c \<Rightarrow> c)"

text \<open>A system on which every call works, a process with its standard descriptors open and six others free, and a shared word that changes before read \<open>n\<close>.\<close>

definition dz_works :: "dz_sys \<Rightarrow> proc \<Rightarrow> nat \<Rightarrow> bool" where
  "dz_works y p n \<longleftrightarrow> (\<forall>k<3. dz_pipe_ok y k) \<and> 6 \<le> card {i. i < dz_dtablesize y \<and> pr_fds p i = None}
     \<and> (\<forall>i<3. pr_fds p i \<noteq> None) \<and> (\<forall>i\<ge>dz_dtablesize y. pr_fds p i = None)
     \<and> dz_getcwd_ok y \<and> (\<forall>c. dz_chdir_ok y c) \<and> dz_mmap_ok y \<and> 0 < dz_fork y \<and> (\<forall>x. dz_exec_ok y x)
     \<and> dz_shared y n \<noteq> 0 \<and> (\<forall>t<n. dz_shared y t = 0)"

text \<open>The process that \<open>daemonize\<close> starts is connected to its parent by three pipes and nothing else: the parent keeps its directory and has three new
  descriptors, the ends of the pipes that are given back; the new process executes the program with exactly the other ends open, as its standard input,
  output and error, and not before the shared word has changed.\<close>

lemma daemonize_started:
  assumes "dz_works y p n"
  shows "\<exists>w1 r0 r2. distinct [w1, r0, r2] \<and> (\<forall>i\<in>set [w1, r0, r2]. pr_fds p i = None)
    \<and> daemonize y cwd (Some x) args env True newsession True p = \<lparr>dz_ret = dz_fork y, dz_pipefd = [Some w1, Some r0, Some r2],
        dz_parent = p\<lparr>pr_fds := (pr_fds p)(w1 \<mapsto> F_WRITE 1, r0 \<mapsto> F_READ 0, r2 \<mapsto> F_READ 2)\<rparr>,
        dz_child = Some (Some (CHILD_EXEC n
          \<lparr>pr_fds = [0 \<mapsto> F_READ 1, 1 \<mapsto> F_WRITE 0, 2 \<mapsto> F_WRITE 2], pr_cwd = dz_dir cwd p, pr_leader = pr_leader p \<or> newsession\<rparr>
          x (dz_args x args) (case env of None \<Rightarrow> dz_environ y | Some e \<Rightarrow> e)))\<rparr>"
proof -
  note ok = assms [unfolded dz_works_def]
  obtain d t where dt: "dz_pipes y True (pr_fds p) = Inr (d, t)" using dz_pipes_ok [of y "pr_fds p"] ok by auto
  note pd = dz_pipes_ends(2) [OF dt]
  note child = dz_new_fds [OF pd, of y]
  from pd obtain r0 w0 r1 w1 r2 w2 where d: "distinct [r0, w0, r1, w1, r2, w2]" "\<forall>i\<in>set [r0, w0, r1, w1, r2, w2]. pr_fds p i = None \<and> i < dz_dtablesize y"
    "d = \<lparr>fdin = Some r1, fdout = Some w0, fderr = Some w2, pipefd = [Some w1, Some r0, Some r2]\<rparr>"
    "t = (pr_fds p)(r0 \<mapsto> F_READ 0, w0 \<mapsto> F_WRITE 0, r1 \<mapsto> F_READ 1, w1 \<mapsto> F_WRITE 1, r2 \<mapsto> F_READ 2, w2 \<mapsto> F_WRITE 2)"
    unfolding piped_def by blast
  have parent: "fold close_opt [fdin d, fdout d, fderr d] t = (pr_fds p)(w1 \<mapsto> F_WRITE 1, r0 \<mapsto> F_READ 0, r2 \<mapsto> F_READ 2)"
    using d by (auto simp: close_opt_def close_fd_def fun_eq_iff)
  have new: "dz_new y d (Some x) args env newsession True (p\<lparr>pr_fds := t, pr_cwd := c\<rparr>) = Some (CHILD_EXEC n
          \<lparr>pr_fds = [0 \<mapsto> F_READ 1, 1 \<mapsto> F_WRITE 0, 2 \<mapsto> F_WRITE 2], pr_cwd = c, pr_leader = pr_leader p \<or> newsession\<rparr>
          x (dz_args x args) (case env of None \<Rightarrow> dz_environ y | Some e \<Rightarrow> e))" for c
    using child sync_wait_until [of "dz_shared y" n] ok by (simp add: dz_new_def)
  have same: "p\<lparr>pr_fds := t\<rparr> = p\<lparr>pr_fds := t, pr_cwd := pr_cwd p\<rparr>" by simp
  have "daemonize y cwd (Some x) args env True newsession True p = \<lparr>dz_ret = dz_fork y, dz_pipefd = pipefd d,
      dz_parent = p\<lparr>pr_fds := fold close_opt [fdin d, fdout d, fderr d] t\<rparr>,
      dz_child = Some (dz_new y d (Some x) args env newsession True (p\<lparr>pr_fds := t, pr_cwd := dz_dir cwd p\<rparr>))\<rparr>"
    using dt ok by (cases cwd) (simp_all add: daemonize_def dz_start_def sync_open_def dz_dir_def)
  with parent new d(1-3) show ?thesis by (intro exI [of _ w1] exI [of _ r0] exI [of _ r2]) auto
qed

text \<open>C37: A failure of \<open>daemonize\<close> before the fork leaves no descriptor behind. Whatever call fails, the parent has the descriptors it had, nothing has been started, and the
  directory is as it was; except that after a failure to map the shared memory the parent stays in the new directory and has lost the descriptor whose
  number the uninitialised field held.\<close>

theorem daemonize_failure:
  assumes "0 \<le> dz_fork y" "dz_ret (daemonize y cwd exec args env pipes newsession sync p) = - 1"
  shows "dz_child (daemonize y cwd exec args env pipes newsession sync p) = None
    \<and> (dz_mmap_ok y \<or> \<not> sync \<longrightarrow> dz_parent (daemonize y cwd exec args env pipes newsession sync p) = p)
    \<and> dz_parent (daemonize y cwd exec args env pipes newsession sync p)
      \<in> {p, p\<lparr>pr_fds := (pr_fds p)(dz_smfd y := None), pr_cwd := dz_dir cwd p\<rparr>}"
proof (cases "dz_pipes y pipes (pr_fds p)")
  case (Inl ft)
  obtain fd t where ft: "ft = (fd, t)" by fastforce
  have "t = pr_fds p" using Inl dz_pipes_ends(1) [of y "pr_fds p"] unfolding ft by (cases pipes) (simp_all add: dz_pipes_def)
  with Inl ft show ?thesis by (simp add: daemonize_def)
next
  case (Inr dt)
  obtain d t where dt: "dt = (d, t)" by fastforce
  have clean: "clean d t = pr_fds p" "clean d (t(i := None)) = (pr_fds p)(i := None)" for i
  proof -
    have "piped (dz_dtablesize y) (pr_fds p) d t \<or> d = no_fd \<and> t = pr_fds p"
      using Inr dz_pipes_ends(2) [of y "pr_fds p"] unfolding dt by (cases pipes) (auto simp: dz_pipes_def)
    moreover have "clean d (t(i := None)) = (clean d t)(i := None)" by (simp only: clean_def fold_close_upd)
    ultimately show "clean d t = pr_fds p" "clean d (t(i := None)) = (pr_fds p)(i := None)" using piped_clean by (auto simp: close_defs)
  qed
  show ?thesis
    using assms Inr unfolding dt
    by (cases cwd) (auto simp: daemonize_def dz_failed_def sync_open_def close_fd_def dz_start_def dz_dir_def clean Let_def split: if_splits)
qed

section \<open>Instances\<close>

text \<open>A process with its standard descriptors and one more, and a system on which every call works; the shared word is changed before the third read.\<close>

definition demo_proc :: proc where
  "demo_proc = \<lparr>pr_fds = [0 \<mapsto> F_OLD 0, 1 \<mapsto> F_OLD 1, 2 \<mapsto> F_OLD 2, 4 \<mapsto> F_OLD 4], pr_cwd = ''/'', pr_leader = False\<rparr>"

definition demo_sys :: dz_sys where
  "demo_sys = \<lparr>dz_dtablesize = 16, dz_pipe_ok = (\<lambda>_. True), dz_getcwd_ok = True, dz_chdir_ok = (\<lambda>_. True), dz_mmap_ok = True, dz_smfd = 0, dz_fork = 77,
     dz_null_ok = True, dz_exec_ok = (\<lambda>_. True), dz_environ = [''PATH=/bin''], dz_shared = (\<lambda>t. if t < 2 then 0 else snd (sync_wakeup 0))\<rparr>"

lemma demo_free: "6 \<le> card {i. i < 16 \<and> pr_fds demo_proc i = None}"
proof -
  have "{5 :: nat, 6, 7, 8, 9, 10} \<subseteq> {i. i < 16 \<and> pr_fds demo_proc i = None}" by (auto simp: demo_proc_def)
  then have "card {5 :: nat, 6, 7, 8, 9, 10} \<le> card {i. i < 16 \<and> pr_fds demo_proc i = None}" by (intro card_mono) simp_all
  then show ?thesis by simp
qed

lemma demo_works: "dz_works demo_sys demo_proc 2"
proof -
  have "\<forall>i<3. pr_fds demo_proc i \<noteq> None" "\<forall>i\<ge>16. pr_fds demo_proc i = None" by (auto simp: demo_proc_def less_Suc_eq numeral_3_eq_3)
  with demo_free show ?thesis by (simp add: dz_works_def demo_sys_def sync_wakeup_def)
qed

theorem daemonize_failure_witness:
  "dz_parent (daemonize (demo_sys\<lparr>dz_chdir_ok := (\<lambda>c. c \<noteq> ''/none'')\<rparr>) (Some ''/none'') (Some ''ls'') None None True False True demo_proc) = demo_proc"
proof -
  let ?y = "demo_sys\<lparr>dz_chdir_ok := (\<lambda>c. c \<noteq> ''/none'')\<rparr>"
  obtain r where r: "dz_pipes ?y True (pr_fds demo_proc) = Inr r" using dz_pipes_ok [of ?y "pr_fds demo_proc"] demo_free by (auto simp: demo_sys_def)
  then have "dz_ret (daemonize ?y (Some ''/none'') (Some ''ls'') None None True False True demo_proc) = - 1"
    by (cases r) (simp add: daemonize_def dz_failed_def demo_sys_def)
  then show ?thesis using daemonize_failure [of ?y "Some ''/none''" "Some ''ls''" None None True False True demo_proc] by (simp add: demo_sys_def)
qed

end
