(* ===== verification/Slave_Process.thy ===== *)
theory Slave_Process
  imports Run_Start Daemonize
begin

text \<open>
  The slave process of \<open>axiom-run\<close> up to its services (\<open>axiom-run/axiom-run.c\<close>): the environment and the command of the application, the wait for the start of
  the session and the start of the application in the background. It puts the start of the session and \<open>daemonize\<close> together.
\<close>

section \<open>The code\<close>



section \<open>What the application gets\<close>



section \<open>Instances\<close>



end
