(* ===== verification/Master_Process.thy ===== *)
theory Master_Process
  imports Run_Start Run_Master
begin

text \<open>
  The master process of \<open>axiom-run\<close> after its options (\<open>axiom-run/axiom-run.c\<close>): the environment, the command for the nodes, the start of the session, the services and
  the exit code. It puts the start of a session and the services of the master together.
\<close>

section \<open>The code\<close>



section \<open>The exit code of a session\<close>



section \<open>Instances\<close>









end
