(* ===== verification/Logging.thy ===== *)
theory Logging
  imports Getopt
begin

text \<open>
  The log of the programs (\<open>axiom_common_library/logmsg.c\<close> and the macros of \<open>axiom_common_library/axiom_common.h\<close>): its set-up from the environment, the levels and
  zones, the lines, and the variant for signal handlers, which writes through a small buffer. The text of a message is given
  with its parameters already put in.
\<close>

section \<open>The code\<close>

text \<open>The levels.\<close>

definition LOG_NOLOG :: int where "LOG_NOLOG = - 1"
definition LOG_FATAL :: nat where "LOG_FATAL = 0"
definition LOG_ERROR :: nat where "LOG_ERROR = 1"
definition LOG_WARN :: nat where "LOG_WARN = 2"

definition logmsg_name :: "string list" where
  "logmsg_name = [''FATAL'', ''ERROR'', ''WARN'', ''INFO'', ''DEBUG'', ''TRACE'']"

text \<open>Where the log goes; the null pointer before the set-up is \<open>None\<close>.\<close>

datatype log_file = LOG_STDERR | LOG_FILE string

record log_state =
  logmsg_fout :: "log_file option"
  logmsg_pid :: int
  logmsg_level :: int
  logmsg_zones :: u32

definition log_state0 :: log_state where
  "log_state0 = \<lparr>logmsg_fout = None, logmsg_pid = - 1, logmsg_level = LOG_NOLOG, logmsg_zones = 0xffffffff\<rparr>"

text \<open>\<open>None\<close> is the call of \<open>fclose\<close> with a null pointer, when the log has not been set up.\<close>

definition logmsg_to :: "(string \<Rightarrow> bool) \<Rightarrow> string \<Rightarrow> log_state \<Rightarrow> log_state option" where
  "logmsg_to fopen_ok filename s =
     (if \<not> fopen_ok filename then Some s
      else if logmsg_fout s = None then None
      else Some (s\<lparr>logmsg_fout := Some (LOG_FILE filename)\<rparr>))"

text \<open>\<open>strcasecmp\<close>.\<close>

definition to_lower :: "char \<Rightarrow> char" where
  "to_lower c = (let n = of_char c :: nat in if 65 \<le> n \<and> n \<le> 90 then char_of (n + 32) else c)"

definition strcasecmp_eq :: "string \<Rightarrow> string \<Rightarrow> bool" where
  "strcasecmp_eq a b \<longleftrightarrow> map to_lower a = map to_lower b"

text \<open>The format of the file name, for which the only parameter is the process number. \<open>None\<close> is a second or another conversion, which has no
  parameter.\<close>

fun expand_pid :: "string option \<Rightarrow> string \<Rightarrow> string option" where
  "expand_pid pid [] = Some []"
| "expand_pid pid (c # s) =
     (if c \<noteq> CHR ''%'' then map_option ((#) c) (expand_pid pid s)
      else case s of
          d # s' \<Rightarrow> if d = CHR ''%'' then map_option ((#) d) (expand_pid pid s')
            else (case pid of
                Some p \<Rightarrow> if has_prefix ''ld'' s then map_option ((@) p) (expand_pid None (drop 1 s')) else None
              | None \<Rightarrow> None)
        | [] \<Rightarrow> None)"

fun has_substring :: "string \<Rightarrow> string \<Rightarrow> bool" where
  "has_substring p [] = (p = [])"
| "has_substring p (c # s) = (has_prefix p (c # s) \<or> has_substring p s)"

definition MAXPATHLEN :: nat where "MAXPATHLEN = 4096"

definition log_filename :: "int \<Rightarrow> string \<Rightarrow> string option" where
  "log_filename pid v = (if has_substring ''%ld'' v then map_option (snprintf MAXPATHLEN) (expand_pid (Some (print_int pid)) v) else Some v)"

definition log_level_of :: "string \<Rightarrow> int \<Rightarrow> int" where
  "log_level_of v old = (case find (\<lambda>i. strcasecmp_eq (logmsg_name ! i) v) [0..<length logmsg_name] of None \<Rightarrow> old | Some i \<Rightarrow> int i)"

definition logmsg_init :: "(string \<Rightarrow> string option) \<Rightarrow> (string \<Rightarrow> bool) \<Rightarrow> int \<Rightarrow> log_state \<Rightarrow> log_state option" where
  "logmsg_init env fopen_ok pid s = (
     let s = (case env ''AXIOM_LOG_LEVEL'' of None \<Rightarrow> s | Some v \<Rightarrow> s\<lparr>logmsg_level := log_level_of v (logmsg_level s)\<rparr>);
         s = (case env ''AXIOM_LOG_ZONES'' of None \<Rightarrow> s | Some v \<Rightarrow>
                (case scan_int v of None \<Rightarrow> s | Some z \<Rightarrow> s\<lparr>logmsg_zones := word_of_int z\<rparr>));
         s = s\<lparr>logmsg_fout := Some LOG_STDERR\<rparr>
     in do {
       s \<leftarrow> case env ''AXIOM_LOG_FILE'' of None \<Rightarrow> Some s | Some v \<Rightarrow> do { f \<leftarrow> log_filename pid v; logmsg_to fopen_ok f s };
       Some (s\<lparr>logmsg_pid := pid\<rparr>)
     })"

definition logmsg_is_enabled :: "nat \<Rightarrow> log_state \<Rightarrow> bool" where
  "logmsg_is_enabled lvl s \<longleftrightarrow> int lvl \<le> logmsg_level s"

definition logmsg_is_zenabled :: "nat \<Rightarrow> u32 \<Rightarrow> log_state \<Rightarrow> bool" where
  "logmsg_is_zenabled lvl zone s \<longleftrightarrow> logmsg_zones s AND zone \<noteq> 0 \<and> logmsg_is_enabled lvl s"

text \<open>A line: \<open>[%5d.%06d] %5s{%d}: \<dots>\<close> with the seconds modulo a number that is not the same in the two macros, and the microseconds.\<close>

definition pad :: "char \<Rightarrow> nat \<Rightarrow> string \<Rightarrow> string" where
  "pad c n s = replicate (n - length s) c @ s"

definition log_line :: "nat \<Rightarrow> nat \<times> nat \<Rightarrow> nat \<Rightarrow> log_state \<Rightarrow> string \<Rightarrow> string" where
  "log_line modulus t lvl s msg = ''['' @ pad CHR '' '' 5 (print_base 10 (fst t mod modulus)) @ ''.'' @ pad CHR ''0'' 6 (print_base 10 (snd t div 1000)) @ ''] ''
     @ pad CHR '' '' 5 (logmsg_name ! lvl) @ ''{'' @ print_int (logmsg_pid s) @ ''}: '' @ msg @ [CHR 0x0A]"

text \<open>What is written: the file and the text. \<open>None\<close> is a write to the null pointer or a level without a name.\<close>

type_synonym log_out = "(log_file \<times> string) list"

definition zlogmsg :: "nat \<times> nat \<Rightarrow> nat \<Rightarrow> u32 \<Rightarrow> string \<Rightarrow> log_state \<Rightarrow> log_out option" where
  "zlogmsg t lvl zone msg s =
     (if \<not> logmsg_is_zenabled lvl zone s then Some []
      else if length logmsg_name \<le> lvl then None
      else map_option (\<lambda>f. [(f, log_line 10000 t lvl s msg)]) (logmsg_fout s))"

text \<open>The write loop of \<open>_slogmsg\<close>. \<open>writes\<close> are the results of the calls of \<open>write\<close>, which writes no more than it is given.\<close>

definition slog_write :: "(nat \<Rightarrow> int) \<Rightarrow> string \<Rightarrow> (nat \<times> string \<times> string) option" where
  "slog_write writes buf = while_ctl (\<lambda>(_, _, rest). rest \<noteq> [])
     (\<lambda>(k, out, rest). let r = min (writes k) (int (length rest)) in
        if r \<le> 0 then Some (Break, Suc k, out, rest)
        else Some (Next, Suc k, out @ take (nat r) rest, drop (nat r) rest)) (0, [], buf)"

definition slogmsg :: "(nat \<Rightarrow> int) \<Rightarrow> string \<Rightarrow> log_state \<Rightarrow> log_out option" where
  "slogmsg writes text s = do {
     f \<leftarrow> logmsg_fout s;
     (_, out, _) \<leftarrow> slog_write writes (snprintf 256 text);
     Some [(f, out)]
   }"

definition szlogmsg :: "(nat \<Rightarrow> int) \<Rightarrow> nat \<times> nat \<Rightarrow> nat \<Rightarrow> u32 \<Rightarrow> string \<Rightarrow> log_state \<Rightarrow> log_out option" where
  "szlogmsg writes t lvl zone msg s =
     (if \<not> logmsg_is_zenabled lvl zone s then Some []
      else if length logmsg_name \<le> lvl then None
      else slogmsg writes (log_line 1000 t lvl s msg) s)"

text \<open>\<open>elogmsg\<close> writes to the standard error when the level is off, without the end of the line; \<open>lassert\<close> then also aborts, which the flag of
  the result says.\<close>

definition elogmsg :: "nat \<times> nat \<Rightarrow> string \<Rightarrow> log_state \<Rightarrow> log_out option" where
  "elogmsg t msg s = map_option (\<lambda>out. out @ (if logmsg_is_enabled LOG_ERROR s then [] else [(LOG_STDERR, msg)])) (zlogmsg t LOG_ERROR 0xffffffff msg s)"

definition lassert :: "bool \<Rightarrow> bool \<Rightarrow> nat \<times> nat \<Rightarrow> string \<Rightarrow> log_state \<Rightarrow> (bool \<times> log_out) option" where
  "lassert ndebug x t text s =
     (if x then Some (False, [])
      else if ndebug then map_option (\<lambda>out. (False, out)) (zlogmsg t LOG_WARN 0xffffffff text s)
      else map_option (\<lambda>out. (True, out @ (if logmsg_is_enabled LOG_FATAL s then [] else [(LOG_STDERR, text @ [CHR 0x0A])])))
        (zlogmsg t LOG_FATAL 0xffffffff text s))"

section \<open>The set-up\<close>

lemma to_lower_name: "i < 6 \<Longrightarrow> j < 6 \<Longrightarrow> map to_lower (logmsg_name ! i) = map to_lower (logmsg_name ! j) \<Longrightarrow> i = j"
proof -
  have d: "distinct (map (map to_lower) logmsg_name)" by code_simp
  assume "i < 6" "j < 6" "map to_lower (logmsg_name ! i) = map to_lower (logmsg_name ! j)"
  moreover have n: "length logmsg_name = 6" by (simp add: logmsg_name_def)
  ultimately have "map (map to_lower) logmsg_name ! i = map (map to_lower) logmsg_name ! j" "i < length logmsg_name" "j < length logmsg_name" by simp_all
  with d show "i = j" by (metis length_map nth_eq_iff_index_eq)
qed

lemma log_level_of_name:
  assumes "lvl < 6" "strcasecmp_eq v (logmsg_name ! lvl)"
  shows "log_level_of v old = int lvl"
proof -
  have "find (\<lambda>i. strcasecmp_eq (logmsg_name ! i) v) [0..<length logmsg_name] = Some lvl"
  proof -
    have n: "length logmsg_name = 6" by (simp add: logmsg_name_def)
    have "strcasecmp_eq (logmsg_name ! i) v \<longleftrightarrow> i = lvl" if "i < 6" for i
      using assms to_lower_name [OF that assms(1)] by (auto simp: strcasecmp_eq_def)
    then show ?thesis using assms(1) unfolding find_Some_iff n by (intro exI [of _ lvl]) auto
  qed
  then show ?thesis by (simp add: log_level_of_def)
qed

section \<open>The write loop\<close>

lemma slog_write_total: "\<exists>k out rest. slog_write writes buf = Some (k, out, rest) \<and> out @ rest = buf \<and> ((\<forall>k. 0 < writes k) \<longrightarrow> rest = [])"
proof -
  let ?c = "\<lambda>(k, out, rest). let r = min (writes k) (int (length rest)) in
        if r \<le> 0 then Some (Break, Suc k, out, rest)
        else Some (Next, Suc k, out @ take (nat r) rest, drop (nat r) rest)"
  have "\<exists>s. slog_write writes buf = Some s \<and> (case s of (k, out, rest) \<Rightarrow> out @ rest = buf \<and> ((\<forall>k. 0 < writes k) \<longrightarrow> rest = []))"
    unfolding slog_write_def
  proof (rule while_ctl_total [where P = "\<lambda>(_, out, rest). out @ rest = buf" and m = "\<lambda>(_, _, rest). length rest"])
    fix s :: "nat \<times> string \<times> string"
    assume s: "case s of (_, out, rest) \<Rightarrow> out @ rest = buf" "case s of (_, _, rest) \<Rightarrow> rest \<noteq> []"
    obtain k out rest where [simp]: "s = (k, out, rest)" by (cases s) auto
    show "(\<exists>s'. ?c s = Some (Break, s') \<and> (case s' of (k, out, rest) \<Rightarrow> out @ rest = buf \<and> ((\<forall>k. 0 < writes k) \<longrightarrow> rest = [])))
      \<or> (\<exists>s'. ?c s = Some (Next, s') \<and> (case s' of (_, out, rest) \<Rightarrow> out @ rest = buf) \<and> (case s' of (_, _, rest) \<Rightarrow> length rest) < (case s of (_, _, rest) \<Rightarrow> length rest))"
    proof (cases "min (writes k) (int (length rest)) \<le> 0")
      case True
      then have "\<not> (\<forall>k. 0 < writes k)" using s by (auto simp: min_def not_less split: if_splits)
      with True s show ?thesis by auto
    qed (use s in \<open>auto simp: Let_def\<close>)
  qed auto
  then show ?thesis by auto
qed

lemma no_substring: "c \<notin> set s \<Longrightarrow> \<not> has_substring (c # p) s"
  by (induction s) (auto simp: has_prefix_def)

text \<open>The zones that are on after the set-up: all, or the mask in the variable \<open>AXIOM_LOG_ZONES\<close> that the code reads.\<close>

definition env_zones :: "(string \<Rightarrow> string option) \<Rightarrow> u32" where
  "env_zones env = (case env ''AXIOM_LOG_ZONES'' of None \<Rightarrow> 0xffffffff | Some v \<Rightarrow> (case scan_int v of None \<Rightarrow> 0xffffffff | Some z \<Rightarrow> word_of_int z))"

lemma log_after_init:
  assumes "env ''AXIOM_LOG_LEVEL'' = Some v" "l < 6" "strcasecmp_eq v (logmsg_name ! l)"
    and "env ''AXIOM_LOG_FILE'' = Some f" "CHR ''%'' \<notin> set f" "fopen_ok f" "\<forall>k. 0 < writes k"
  shows "\<exists>s. logmsg_init env fopen_ok pid log_state0 = Some s \<and> logmsg_pid s = pid
    \<and> (\<forall>t zone msg. \<forall>lvl<6. let on = (lvl \<le> l \<and> env_zones env AND zone \<noteq> 0) in
        zlogmsg t lvl zone msg s = Some (if on then [(LOG_FILE f, log_line 10000 t lvl s msg)] else [])
      \<and> szlogmsg writes t lvl zone msg s = Some (if on then [(LOG_FILE f, take 255 (log_line 1000 t lvl s msg))] else []))"
proof -
  let ?s = "\<lparr>logmsg_fout = Some (LOG_FILE f), logmsg_pid = pid, logmsg_level = int l, logmsg_zones = env_zones env\<rparr>"
  have fname: "log_filename pid f = Some f" using no_substring [OF assms(5)] by (simp add: log_filename_def)
  have init: "logmsg_init env fopen_ok pid log_state0 = Some ?s"
    using assms(1,4,6) log_level_of_name [OF assms(2,3)] fname
    by (simp add: logmsg_init_def log_state0_def logmsg_to_def env_zones_def split: option.split)
  have wr: "slogmsg writes x ?s = Some [(LOG_FILE f, take 255 x)]" for x
    using slog_write_total [of writes "snprintf 256 x"] assms(7) by (auto simp: slogmsg_def snprintf_def)
  have n: "length logmsg_name = 6" by (simp add: logmsg_name_def)
  show ?thesis by (rule exI [of _ ?s]) (auto simp: init wr n zlogmsg_def szlogmsg_def logmsg_is_zenabled_def logmsg_is_enabled_def)
qed

text \<open>C38: The log follows the environment. With a level (in any case of letters) and a file name without \<open>%\<close> in the environment and no variable for the zones (neither the
  name that the header gives nor the one that the code reads, so that all zones are on), after \<open>logmsg_init\<close> a message of any zone (a zone is a nonzero mask) is written exactly
  when its level is not above the given one, as one line in the file; and the variant for signal handlers ends and writes the first 255 bytes of its line, however the
  system splits its writes.\<close>

theorem log_follows_environment:
  assumes "env ''AXIOM_LOG_LEVEL'' = Some v" "l < 6" "strcasecmp_eq v (logmsg_name ! l)"
    and "env ''AXIOM_LOG_ZONES'' = None" "env ''AXIOM_LOG_ZONE'' = None"
    and "env ''AXIOM_LOG_FILE'' = Some f" "CHR ''%'' \<notin> set f" "fopen_ok f" "\<forall>k. 0 < writes k"
  shows "\<exists>s. logmsg_init env fopen_ok pid log_state0 = Some s \<and> logmsg_pid s = pid
    \<and> (\<forall>t zone msg. \<forall>lvl<6. let on = (lvl \<le> l \<and> zone \<noteq> 0) in
        zlogmsg t lvl zone msg s = Some (if on then [(LOG_FILE f, log_line 10000 t lvl s msg)] else [])
      \<and> szlogmsg writes t lvl zone msg s = Some (if on then [(LOG_FILE f, take 255 (log_line 1000 t lvl s msg))] else []))"
proof -
  have "0xffffffff AND zone = zone" for zone :: u32
  proof -
    have "(0xffffffff :: u32) = - 1" by simp
    then show ?thesis by (metis and.left_neutral)
  qed
  then have "env_zones env AND zone = zone" for zone using assms(4) by (simp add: env_zones_def)
  then show ?thesis using log_after_init [where fopen_ok = fopen_ok and writes = writes and pid = pid, OF assms(1-3,6-9)] by simp
qed

section \<open>Instances\<close>

theorem log_follows_environment_witness:
  "\<exists>s. logmsg_init (map_of [(''AXIOM_LOG_LEVEL'', ''Info''), (''AXIOM_LOG_FILE'', ''log'')]) (\<lambda>_. True) 7 log_state0 = Some s
    \<and> zlogmsg (12345, 67000) 3 2 ''hi'' s = Some [(LOG_FILE ''log'', log_line 10000 (12345, 67000) 3 s ''hi'')]
    \<and> zlogmsg (12345, 67000) 4 2 ''hi'' s = Some []"
proof -
  have v: "strcasecmp_eq ''Info'' (logmsg_name ! 3)" by code_simp
  define env where "env = map_of [(''AXIOM_LOG_LEVEL'', ''Info''), (''AXIOM_LOG_FILE'', ''log'')]"
  have e: "env ''AXIOM_LOG_LEVEL'' = Some ''Info''" "env ''AXIOM_LOG_ZONES'' = None" "env ''AXIOM_LOG_ZONE'' = None" "env ''AXIOM_LOG_FILE'' = Some ''log''"
    by (simp_all add: env_def)
  have p: "(3 :: nat) < 6" "CHR ''%'' \<notin> set ''log''" "\<forall>k :: nat. (0 :: int) < 1" by simp_all
  note log_follows_environment [where fopen_ok = "\<lambda>_. True" and writes = "\<lambda>_. 1" and pid = 7, OF e(1) p(1) v e(2-4) p(2) TrueI p(3)]
  then obtain s where s: "logmsg_init env (\<lambda>_. True) 7 log_state0 = Some s"
    "\<forall>t zone msg. \<forall>lvl<6. let on = (lvl \<le> 3 \<and> zone \<noteq> 0) in
        zlogmsg t lvl zone msg s = Some (if on then [(LOG_FILE ''log'', log_line 10000 t lvl s msg)] else [])
      \<and> szlogmsg (\<lambda>_. 1) t lvl zone msg s = Some (if on then [(LOG_FILE ''log'', take 255 (log_line 1000 t lvl s msg))] else [])"
    by (elim exE conjE) (rule that)
  have "zlogmsg (12345, 67000) 3 2 ''hi'' s = Some [(LOG_FILE ''log'', log_line 10000 (12345, 67000) 3 s ''hi'')]"
    "zlogmsg (12345, 67000) 4 2 ''hi'' s = Some []"
    using s(2) [rule_format, where lvl = 3 and t = "(12345, 67000)" and zone = 2 and msg = "''hi''"] s(2) [rule_format, where lvl = 4 and t = "(12345, 67000)" and zone = 2 and msg = "''hi''"] by (simp_all add: Let_def)
  with s(1) show ?thesis unfolding env_def by blast
qed

end
