(* ===== verification/Process_Control.thy ===== *)
theory Process_Control
  imports Run_Options
begin

text \<open>
  The processes around the services: the signals of the master and the slaves of \<open>axiom-run\<close> while they start their threads, the end of a thread
  (\<open>axiom-run/axiom-run.c\<close>), and the local socket of the daemon (\<open>axiom-init/axiom-init.c\<close>) with the resources it has to release when a step of the start fails. The answers of the
  system are inputs.
\<close>

section \<open>Signals\<close>

abbreviation (input) "SIGCHLD \<equiv> 17 :: int"

datatype 'h sig_handler = SIG_DFL | SIG_HANDLER 'h

text \<open>The mask of the thread, which new threads inherit, and the actions of the process with their flag \<open>SA_NOCLDSTOP\<close>.\<close>

record 'h sig_state =
  sg_mask :: "int set"
  sg_action :: "int \<Rightarrow> 'h sig_handler \<times> bool"

definition sigfillset :: "int set" where "sigfillset = {1..64}"

text \<open>The result of \<open>pthread_sigmask\<close> is not looked at: when it fails the mask is as before. The old mask is then not set.\<close>

definition block_all_signals :: "bool \<Rightarrow> int set \<Rightarrow> 'h sig_state \<Rightarrow> int set \<times> 'h sig_state" where
  "block_all_signals sigmask_ok junk s = (if sigmask_ok then (sg_mask s, s\<lparr>sg_mask := sigfillset\<rparr>) else (junk, s))"

text \<open>\<open>Inl\<close> is the exit of the process, with \<open>EXIT_FAILURE\<close>.\<close>

definition set_action :: "(int \<Rightarrow> bool) \<Rightarrow> 'h sig_handler \<times> bool \<Rightarrow> int \<Rightarrow> 'h sig_state \<Rightarrow> int + 'h sig_state" where
  "set_action ok act sig s = (if ok sig then Inr (s\<lparr>sg_action := (sg_action s)(sig := act)\<rparr>) else Inl 1)"

definition bind_exit :: "int + 'a \<Rightarrow> ('a \<Rightarrow> int + 'b) \<Rightarrow> int + 'b" where
  "bind_exit r f = (case r of Inl n \<Rightarrow> Inl n | Inr x \<Rightarrow> f x)"

definition restore_signals_and_set_quit_handler :: "(int \<Rightarrow> bool) \<Rightarrow> bool \<Rightarrow> int set \<Rightarrow> 'h \<Rightarrow> 'h sig_state \<Rightarrow> int + 'h sig_state" where
  "restore_signals_and_set_quit_handler sigaction_ok sigmask_ok oldset myhandler s =
     bind_exit (set_action sigaction_ok (SIG_HANDLER myhandler, False) SIGINT s) (\<lambda>s.
     bind_exit (set_action sigaction_ok (SIG_HANDLER myhandler, False) SIGQUIT s) (\<lambda>s.
     bind_exit (set_action sigaction_ok (SIG_HANDLER myhandler, False) SIGTERM s) (\<lambda>s.
     bind_exit (set_action sigaction_ok (SIG_DFL, True) SIGCHLD s) (\<lambda>s.
     Inr (if sigmask_ok then s\<lparr>sg_mask := oldset - {SIGINT, SIGQUIT, SIGTERM, SIGCHLD}\<rparr> else s)))))"

text \<open>The threads that are started in between have every signal blocked, so that the quit signals go to the main thread, with the handler of the process; the other signals of
  its mask are as they were.\<close>

lemma signals_around_threads:
  assumes "block_all_signals True junk s = (old, s1)" "\<forall>sig. sigaction_ok sig"
  shows "sg_mask s1 = sigfillset"
    and "\<exists>s2. restore_signals_and_set_quit_handler sigaction_ok True old h s1 = Inr s2
      \<and> sg_mask s2 = sg_mask s - {SIGINT, SIGQUIT, SIGTERM, SIGCHLD}
      \<and> (\<forall>sig\<in>{SIGINT, SIGQUIT, SIGTERM}. sg_action s2 sig = (SIG_HANDLER h, False)) \<and> sg_action s2 SIGCHLD = (SIG_DFL, True)
      \<and> (\<forall>sig. sig \<notin> {SIGINT, SIGQUIT, SIGTERM, SIGCHLD} \<longrightarrow> sg_action s2 sig = sg_action s sig)"
  using assms by (auto simp: block_all_signals_def restore_signals_and_set_quit_handler_def set_action_def bind_exit_def)

section \<open>The end of a thread\<close>

text \<open>What the function does: it writes to the event descriptor of the thread, cancels it, and joins it.\<close>

datatype term_act = TT_EVENT int | TT_CANCEL | TT_JOIN

definition terminate_thread :: "bool \<Rightarrow> bool \<Rightarrow> int \<Rightarrow> term_act list" where
  "terminate_thread write_ok cancel_ok endfd = (
     let acts = (if endfd \<noteq> - 1 then [TT_EVENT endfd] else []);
         endfd = (if endfd \<noteq> - 1 \<and> \<not> write_ok then - 1 else endfd)
     in if endfd = - 1 then acts @ [TT_CANCEL] @ (if cancel_ok then [TT_JOIN] else []) else acts @ [TT_JOIN])"

text \<open>A thread is joined exactly when it has been asked to end, and it is cancelled only when it cannot be asked.\<close>

lemma terminate_thread_joins:
  "TT_JOIN \<in> set (terminate_thread write_ok cancel_ok endfd) \<longleftrightarrow> endfd \<noteq> - 1 \<and> write_ok \<or> cancel_ok"
  "TT_CANCEL \<in> set (terminate_thread write_ok cancel_ok endfd) \<longleftrightarrow> \<not> (endfd \<noteq> - 1 \<and> write_ok)"
  by (auto simp: terminate_thread_def)

section \<open>The local socket of the daemon\<close>

record init_resources =
  ir_dev :: bool
  ir_sock :: bool
  ir_path :: bool

record socket_sys =
  so_socket :: bool
  so_bind :: bool
  so_chmod :: bool
  so_get_fds :: "int option"
  so_sock :: int

text \<open>The first number is the exit, or the bound for \<open>select\<close>.\<close>

definition init_socket :: "socket_sys \<Rightarrow> init_resources \<Rightarrow> (int + int) \<times> init_resources" where
  "init_socket y r =
     (if \<not> so_socket y then (Inl (- 1), r\<lparr>ir_dev := False\<rparr>)
      else let r = r\<lparr>ir_sock := True, ir_path := False\<rparr> in
      if \<not> so_bind y then (Inl (- 1), r\<lparr>ir_sock := False, ir_dev := False\<rparr>)
      else let r = r\<lparr>ir_path := True\<rparr> in
      if \<not> so_chmod y then (Inl (- 1), r\<lparr>ir_sock := False, ir_path := False, ir_dev := False\<rparr>)
      else case so_get_fds y of
          None \<Rightarrow> (Inl (- 1), r\<lparr>ir_sock := False, ir_path := False, ir_dev := False\<rparr>)
        | Some fd_raw \<Rightarrow> (Inr (if fd_raw > so_sock y then fd_raw + 1 else so_sock y + 1), r))"

text \<open>A failure leaves nothing open that the daemon has opened; success leaves a bound for \<open>select\<close> above both descriptors.\<close>

lemma init_socket_releases:
  assumes "ir_dev r" "\<not> ir_sock r" "init_socket y r = (res, r')"
  shows "case res of Inl n \<Rightarrow> n = - 1 \<and> \<not> ir_dev r' \<and> \<not> ir_sock r' \<and> (ir_path r' \<longrightarrow> \<not> so_socket y)
    | Inr maxfd \<Rightarrow> ir_dev r' \<and> ir_sock r' \<and> ir_path r' \<and> so_sock y < maxfd \<and> the (so_get_fds y) < maxfd"
  using assms by (auto simp: init_socket_def Let_def split: if_splits option.splits)

end
